(* ===== verification/Prelude.thy ===== *)
theory Prelude
  imports Main "HOL-Library.Word" "HOL-Library.State_Monad"
begin

text \<open>
  What the theories share: the part of Go's language and standard library the worker's code
  rests on (64-bit integers, byte strings, number parsing and printing, the functions of the
  package strings), the error values the code tests for, and a small calculus of Hoare triples
  over the state monad in which the effectful handlers are written.
  A Go string is its bytes, so it is a \<^typ>\<open>string\<close> (a list of 8-bit \<^typ>\<open>char\<close>); a
  \<^verbatim>\<open>[]byte\<close> that is read as binary data is a list of \<^typ>\<open>8 word\<close>.
\<close>

type_synonym byte = "8 word"
type_synonym bytes = "byte list"

named_theorems go_simps "unfolding rules of the modelled standard library"
named_theorems frame_simps "what an operation leaves unchanged"
named_theorems triple_intros "Hoare triples of the primitive operations"

section \<open>Errors\<close>

text \<open>
  One constructor per error the code tells apart with \<^verbatim>\<open>errors.Is\<close>, and one per place that
  builds a message of its own (the message is not compared by the code).
\<close>

datatype err =
    ErrBadComponent string      \<comment> \<open>paths.go: invalid path component\<close>
  | ErrShortId string           \<comment> \<open>paths.go: too short to shard, or too short a url cache ID\<close>
  | ErrBadMediaType string      \<comment> \<open>paths.go: not a media type\<close>
  | ErrEscapes string           \<comment> \<open>paths.go: path outside the media store\<close>
  | ErrNotWritable string       \<comment> \<open>paths.go: refusing to write\<close>
  | ErrNoRel                    \<comment> \<open>filepath.Rel failed\<close>
  | ErrNotFound                 \<comment> \<open>db.go\<close>
  | ErrTooLarge                 \<comment> \<open>fetch.go\<close>
  | ErrFetchFailed              \<comment> \<open>fetch.go\<close>
  | ErrOriginNotFound           \<comment> \<open>fetch.go\<close>
  | ErrUploadTooLarge           \<comment> \<open>upload.go\<close>
  | ErrCannotGenerate           \<comment> \<open>thumbnail.go\<close>
  | ErrNotExist                 \<comment> \<open>os.ErrNotExist\<close>
  | ErrContext                  \<comment> \<open>the request's context is done\<close>
  | ErrIO                       \<comment> \<open>any other failed system call\<close>
  | ErrDB                       \<comment> \<open>any other failed database call\<close>
  | ErrConfig string            \<comment> \<open>config.go and synapseconfig.go\<close>

type_synonym 'a res = "err + 'a"

definition is_ok :: "'a res \<Rightarrow> bool" where
  "is_ok r = (case r of Inl _ \<Rightarrow> False | Inr _ \<Rightarrow> True)"

lemma is_ok_simps [simp]: "is_ok (Inr x)" "\<not> is_ok (Inl e)"
  by (simp_all add: is_ok_def)

lemma is_ok_iff: "is_ok r \<longleftrightarrow> (\<exists>x. r = Inr x)"
  by (cases r) auto

section \<open>Go's 64-bit integers\<close>

text \<open>
  \<^verbatim>\<open>int\<close>, \<^verbatim>\<open>int64\<close> and \<^verbatim>\<open>time.Duration\<close> are 64-bit two's complement; a product or a sum that
  leaves the range wraps. Values are kept as \<^typ>\<open>int\<close> and \<open>wrap64\<close> is written where the code's
  arithmetic can leave the range. Division truncates towards zero.
\<close>

definition max_int64 :: int where "max_int64 = 9223372036854775807"
definition min_int64 :: int where "min_int64 = -9223372036854775808"

definition wrap64 :: "int \<Rightarrow> int" where
  "wrap64 x = (x + 9223372036854775808) mod 18446744073709551616 - 9223372036854775808"

definition in_int64 :: "int \<Rightarrow> bool" where
  "in_int64 x \<longleftrightarrow> min_int64 \<le> x \<and> x \<le> max_int64"

lemma wrap64_in_range: "in_int64 (wrap64 x)"
proof -
  let ?m = "(x + 9223372036854775808) mod 18446744073709551616"
  have "0 \<le> ?m" "?m < 18446744073709551616" by simp_all
  then show ?thesis
    unfolding in_int64_def wrap64_def min_int64_def max_int64_def by linarith
qed

lemma wrap64_id [simp]: "in_int64 x \<Longrightarrow> wrap64 x = x"
  by (simp add: wrap64_def in_int64_def min_int64_def max_int64_def)

lemma in_int64_between: "in_int64 a \<Longrightarrow> in_int64 b \<Longrightarrow> a \<le> x \<Longrightarrow> x \<le> b \<Longrightarrow> in_int64 x"
  by (simp add: in_int64_def)

lemma in_int64_0 [simp]: "in_int64 0"
  by (simp add: in_int64_def min_int64_def max_int64_def)

lemma in_int64_nonneg: "0 \<le> x \<Longrightarrow> x \<le> max_int64 \<Longrightarrow> in_int64 x"
  by (simp add: in_int64_def min_int64_def max_int64_def)

definition go_div :: "int \<Rightarrow> int \<Rightarrow> int" where
  "go_div a b = sgn a * sgn b * (\<bar>a\<bar> div \<bar>b\<bar>)"

lemma go_div_nonneg: "0 \<le> a \<Longrightarrow> 0 < b \<Longrightarrow> go_div a b = a div b"
  by (cases "a = 0") (simp_all add: go_div_def)

section \<open>The package strings\<close>

definition has_prefix :: "'a list \<Rightarrow> 'a list \<Rightarrow> bool" where
  [go_simps]: "has_prefix p s \<longleftrightarrow> take (length p) s = p"

definition has_suffix :: "'a list \<Rightarrow> 'a list \<Rightarrow> bool" where
  [go_simps]: "has_suffix p s \<longleftrightarrow> length p \<le> length s \<and> drop (length s - length p) s = p"

lemma has_prefix_iff: "has_prefix p s \<longleftrightarrow> (\<exists>t. s = p @ t)"
proof
  assume "has_prefix p s"
  then have "s = p @ drop (length p) s"
    unfolding has_prefix_def by (metis append_take_drop_id)
  then show "\<exists>t. s = p @ t" ..
qed (auto simp: has_prefix_def)

lemma has_suffix_iff: "has_suffix p s \<longleftrightarrow> (\<exists>t. s = t @ p)"
proof
  assume h: "has_suffix p s"
  then have "s = take (length s - length p) s @ p"
    unfolding has_suffix_def by (metis append_take_drop_id)
  then show "\<exists>t. s = t @ p" ..
qed (auto simp: has_suffix_def)

lemma has_prefix_append [simp]: "has_prefix p (p @ t)"
  by (simp add: has_prefix_def)

lemma has_prefix_trans: "has_prefix p q \<Longrightarrow> has_prefix q s \<Longrightarrow> has_prefix p s"
  by (auto simp: has_prefix_iff)

text \<open>\<^verbatim>\<open>strings.Cut\<close> with a one-byte separator: what is before it, what is after it, and whether
  it was there.\<close>

definition cut :: "char \<Rightarrow> string \<Rightarrow> string \<times> string \<times> bool" where
  [go_simps]: "cut c s =
     (case dropWhile (\<lambda>x. x \<noteq> c) s of
        [] \<Rightarrow> (s, [], False)
      | _ # after \<Rightarrow> (takeWhile (\<lambda>x. x \<noteq> c) s, after, True))"

lemma cut_found: "cut c s = (a, b, True) \<Longrightarrow> s = a @ c # b \<and> c \<notin> set a"
proof -
  assume h: "cut c s = (a, b, True)"
  have s: "s = takeWhile (\<lambda>x. x \<noteq> c) s @ dropWhile (\<lambda>x. x \<noteq> c) s" by simp
  from h obtain y ys where d: "dropWhile (\<lambda>x. x \<noteq> c) s = y # ys"
      and ab: "a = takeWhile (\<lambda>x. x \<noteq> c) s" "b = ys"
    by (auto simp: cut_def split: list.splits)
  from d have "y = c" by (simp add: dropWhile_eq_Cons_conv)
  with s d ab have "s = a @ c # b" by simp
  moreover from ab(1) have "c \<notin> set a" by (auto dest: set_takeWhileD)
  ultimately show ?thesis by blast
qed

lemma cut_append [simp]:
  assumes "c \<notin> set a"
  shows "cut c (a @ c # b) = (a, b, True)"
proof -
  from assms have "\<And>x. x \<in> set a \<Longrightarrow> x \<noteq> c" by blast
  then show ?thesis
    by (simp add: cut_def takeWhile_append2 dropWhile_append2)
qed

lemma cut_absent [simp]: "c \<notin> set s \<Longrightarrow> cut c s = (s, [], False)"
proof -
  assume "c \<notin> set s"
  then have "dropWhile (\<lambda>x. x \<noteq> c) s = []" by (auto simp: dropWhile_eq_Nil_conv)
  then show ?thesis unfolding cut_def by (simp only: list.case)
qed

text \<open>\<^verbatim>\<open>strings.Split\<close> and \<^verbatim>\<open>strings.Join\<close> with a one-byte separator.\<close>

fun split_on :: "char \<Rightarrow> string \<Rightarrow> string list" where
  "split_on c [] = [[]]"
| "split_on c (x # xs) =
     (if x = c then [] # split_on c xs
      else case split_on c xs of [] \<Rightarrow> [[x]] | y # ys \<Rightarrow> (x # y) # ys)"

fun join_with :: "string \<Rightarrow> string list \<Rightarrow> string" where
  "join_with sep [] = []"
| "join_with sep [x] = x"
| "join_with sep (x # y # xs) = x @ sep @ join_with sep (y # xs)"

lemma split_on_ne [simp]: "split_on c s \<noteq> []"
  by (cases s) (auto split: list.splits)

lemma split_on_no_sep: "x \<in> set (split_on c s) \<Longrightarrow> c \<notin> set x"
proof (induction s arbitrary: x)
  case (Cons a s)
  then show ?case
    by (cases "split_on c s") (fastforce split: if_splits)+
qed simp

lemma split_on_sub: "x \<in> set (split_on c s) \<Longrightarrow> set x \<subseteq> set s"
proof (induction s arbitrary: x)
  case (Cons a s)
  then show ?case
    by (cases "split_on c s") (fastforce split: if_splits)+
qed simp

lemma split_on_absent: "c \<notin> set s \<Longrightarrow> split_on c s = [s]"
  by (induction s) auto

lemma split_on_append: "c \<notin> set a \<Longrightarrow> split_on c (a @ c # b) = a # split_on c b"
  by (induction a) auto

lemma split_on_join:
  "xs \<noteq> [] \<Longrightarrow> (\<And>x. x \<in> set xs \<Longrightarrow> c \<notin> set x) \<Longrightarrow> split_on c (join_with [c] xs) = xs"
proof (induction xs)
  case (Cons x xs)
  then show ?case
    by (cases xs) (auto simp: split_on_append split_on_absent)
qed simp

lemma join_with_inj:
  assumes "join_with [c] xs = join_with [c] ys" "xs \<noteq> []" "ys \<noteq> []"
    and "\<forall>x \<in> set xs \<union> set ys. c \<notin> set x"
  shows "xs = ys"
proof -
  have "split_on c (join_with [c] xs) = xs"
    by (rule split_on_join) (use assms(2,4) in auto)
  moreover have "split_on c (join_with [c] ys) = ys"
    by (rule split_on_join) (use assms(3,4) in auto)
  ultimately show ?thesis using assms(1) by argo
qed

lemma join_split_on: "join_with [c] (split_on c s) = s"
proof (induction s)
  case (Cons a s)
  then show ?case
  proof (cases "split_on c s")
    case (Cons y ys)
    with Cons.IH show ?thesis by (cases ys) auto
  qed simp
qed simp

text \<open>
  \<^verbatim>\<open>strings.TrimSpace\<close>. The white space of \<^verbatim>\<open>unicode.IsSpace\<close> is listed by its UTF-8
  encodings; UTF-8 is self-synchronising, so trimming a byte string at either end by these
  sequences is trimming its code points.
\<close>

definition space_seqs :: "string list" where
  "space_seqs =
     map (\<lambda>n. [char_of (n::nat)]) [9, 10, 11, 12, 13, 32] @
     map (map (\<lambda>n. char_of (n::nat)))
      ([[194, 133], [194, 160], [225, 154, 128], [226, 128, 168], [226, 128, 169],
        [226, 128, 175], [226, 129, 159], [227, 128, 128]] @
       map (\<lambda>k. [226, 128, k]) [128, 129, 130, 131, 132, 133, 134, 135, 136, 137, 138])"

function trim_front :: "string list \<Rightarrow> string \<Rightarrow> string" where
  "trim_front seqs s =
     (case find (\<lambda>p. p \<noteq> [] \<and> has_prefix p s) seqs of
        None \<Rightarrow> s
      | Some p \<Rightarrow> trim_front seqs (drop (length p) s))"
  by pat_completeness auto
termination
proof (relation "measure (\<lambda>(_, s). length s)", goal_cases)
  case (2 seqs s p)
  then have "p \<noteq> []" "has_prefix p s" by (auto simp: find_Some_iff)
  then show ?case by (cases p) (auto simp: has_prefix_iff)
qed simp

declare trim_front.simps [simp del]

definition trim_space :: "string \<Rightarrow> string" where
  "trim_space s =
     rev (trim_front (map rev space_seqs) (rev (trim_front space_seqs s)))"

text \<open>
  \<^verbatim>\<open>strings.ToLower\<close>, up to what the code does with the result. Every use of it in the program is
  followed by a comparison with an ASCII literal. The code points whose lower case is ASCII are
  \<open>A\<close> to \<open>Z\<close>, U+212A (bytes E2 84 AA, lower case \<open>k\<close>) and U+0130 (bytes C4 B0, lower case \<open>i\<close>);
  every other non-ASCII code point stays non-ASCII, so leaving its bytes alone does not change
  any of those comparisons.
\<close>

definition lower_char :: "char \<Rightarrow> char" where
  "lower_char c =
     (let n = (of_char c :: nat) in if 65 \<le> n \<and> n \<le> 90 then char_of (n + 32) else c)"

fun to_lower :: "string \<Rightarrow> string" where
  "to_lower [] = []"
| "to_lower (c # cs) =
     (if of_char c = (226::nat) \<and> take 2 cs = [char_of (132::nat), char_of (170::nat)]
        then CHR ''k'' # to_lower (drop 2 cs)
      else if of_char c = (196::nat) \<and> take 1 cs = [char_of (176::nat)]
        then CHR ''i'' # to_lower (drop 1 cs)
      else lower_char c # to_lower cs)"

section \<open>Numbers in strings\<close>

definition digit_char :: "nat \<Rightarrow> char" where
  "digit_char d = char_of (48 + d)"

function show_nat :: "nat \<Rightarrow> string" where
  "show_nat n =
     (if n < 10 then [digit_char n] else show_nat (n div 10) @ [digit_char (n mod 10)])"
  by pat_completeness auto
termination
  by (relation "measure id") auto

declare show_nat.simps [simp del]

text \<open>\<^verbatim>\<open>strconv.Itoa\<close> and \<^verbatim>\<open>%d\<close>.\<close>

definition show_int :: "int \<Rightarrow> string" where
  "show_int i = (if i < 0 then CHR ''-'' # show_nat (nat (- i)) else show_nat (nat i))"

definition is_digit :: "char \<Rightarrow> bool" where
  "is_digit c \<longleftrightarrow> 48 \<le> (of_char c :: nat) \<and> (of_char c :: nat) \<le> 57"

fun digits_val :: "nat \<Rightarrow> string \<Rightarrow> nat option" where
  "digits_val acc [] = Some acc"
| "digits_val acc (c # cs) =
     (if is_digit c then digits_val (10 * acc + (of_char c - 48)) cs else None)"

text \<open>\<^verbatim>\<open>strconv.ParseInt(s, 10, 64)\<close> and \<^verbatim>\<open>strconv.Atoi\<close>: an optional sign, at least one digit,
  a value that fits 64 bits; anything else is an error.\<close>

definition parse_int64 :: "string \<Rightarrow> int option" where
  "parse_int64 s =
     (let (neg, ds) = (case s of [] \<Rightarrow> (False, [])
                       | c # cs \<Rightarrow> if c = CHR ''-'' then (True, cs)
                                  else if c = CHR ''+'' then (False, cs) else (False, s))
      in if ds = [] then None
         else case digits_val 0 ds of
                None \<Rightarrow> None
              | Some n \<Rightarrow>
                  (let v = (if neg then - int n else int n)
                   in if in_int64 v then Some v else None))"

lemma of_digit_char: "d < 10 \<Longrightarrow> (of_char (digit_char d) :: nat) = 48 + d"
  by (simp add: digit_char_def)

lemma is_digit_char [simp]: "d < 10 \<Longrightarrow> is_digit (digit_char d)"
  by (simp add: is_digit_def of_digit_char)

lemma show_nat_ne [simp]: "show_nat n \<noteq> []"
  by (subst show_nat.simps) simp

lemma show_nat_digits: "c \<in> set (show_nat n) \<Longrightarrow> is_digit c"
proof (induction n rule: show_nat.induct)
  case (1 n)
  then show ?case
    by (cases "n < 10") (auto simp: show_nat.simps [of n])
qed

lemma digits_val_append:
  "digits_val acc (a @ b) = (case digits_val acc a of None \<Rightarrow> None | Some n \<Rightarrow> digits_val n b)"
  by (induction a arbitrary: acc) auto

lemma digits_val_show_nat: "digits_val 0 (show_nat n) = Some n"
proof (induction n rule: show_nat.induct)
  case (1 n)
  show ?case
  proof (cases "n < 10")
    case True
    then show ?thesis by (simp add: show_nat.simps [of n] of_digit_char)
  next
    case False
    with "1.IH" have "digits_val 0 (show_nat (n div 10)) = Some (n div 10)" by simp
    with False show ?thesis
      by (simp add: show_nat.simps [of n] digits_val_append of_digit_char)
  qed
qed

lemma not_digit_sign [simp]: "\<not> is_digit CHR ''-''" "\<not> is_digit CHR ''+''" "\<not> is_digit CHR ''/''"
  by (simp_all add: is_digit_def)

lemma show_int_ne [simp]: "show_int i \<noteq> []"
  by (simp add: show_int_def)

theorem parse_show_int: "in_int64 i \<Longrightarrow> parse_int64 (show_int i) = Some i"
proof (cases "i < 0")
  case True
  assume "in_int64 i"
  with True show ?thesis
    by (simp add: parse_int64_def show_int_def digits_val_show_nat Let_def)
next
  case False
  assume i: "in_int64 i"
  obtain c cs where s: "show_nat (nat i) = c # cs" by (cases "show_nat (nat i)") auto
  then have "is_digit c" using show_nat_digits [of c "nat i"] by simp
  then have "c \<noteq> CHR ''-''" "c \<noteq> CHR ''+''" using not_digit_sign by metis+
  with i False s digits_val_show_nat [of "nat i"] show ?thesis
    by (simp add: parse_int64_def show_int_def Let_def)
qed

lemma parse_int64_range: "parse_int64 s = Some i \<Longrightarrow> in_int64 i"
  by (auto simp: parse_int64_def Let_def split: option.splits if_splits list.splits prod.splits)

lemma show_int_inj: "show_int i = show_int j \<Longrightarrow> i = j"
proof -
  assume h: "show_int i = show_int j"
  have neg: "hd (show_int k) = CHR ''-'' \<longleftrightarrow> k < 0" for k
  proof (cases "k < 0")
    case False
    obtain c cs where s: "show_nat (nat k) = c # cs" by (cases "show_nat (nat k)") auto
    then have "is_digit c" using show_nat_digits [of c "nat k"] by simp
    then have "c \<noteq> CHR ''-''" using not_digit_sign(1) by metis
    with False s show ?thesis by (simp add: show_int_def)
  qed (simp add: show_int_def)
  have nat_inj: "a = b" if "show_nat a = show_nat b" for a b
    using that digits_val_show_nat option.inject by metis
  from h have "i < 0 \<longleftrightarrow> j < 0" using neg by metis
  show ?thesis
  proof (cases "i < 0")
    case True
    with \<open>i < 0 \<longleftrightarrow> j < 0\<close> h have "show_nat (nat (- i)) = show_nat (nat (- j))"
      by (simp add: show_int_def)
    then have "nat (- i) = nat (- j)" by (rule nat_inj)
    with True \<open>i < 0 \<longleftrightarrow> j < 0\<close> show ?thesis by linarith
  next
    case False
    with \<open>i < 0 \<longleftrightarrow> j < 0\<close> h have "show_nat (nat i) = show_nat (nat j)"
      by (simp add: show_int_def)
    then have "nat i = nat j" by (rule nat_inj)
    with False \<open>i < 0 \<longleftrightarrow> j < 0\<close> show ?thesis by linarith
  qed
qed

section \<open>Hexadecimal\<close>

definition hex_digit :: "nat \<Rightarrow> char" where
  "hex_digit n = (if n < 10 then char_of (48 + n) else char_of (87 + n))"

text \<open>\<^verbatim>\<open>hex.EncodeToString\<close>.\<close>

definition hex_encode :: "bytes \<Rightarrow> string" where
  "hex_encode bs = concat (map (\<lambda>b. [hex_digit (unat b div 16), hex_digit (unat b mod 16)]) bs)"

lemma length_hex_encode [simp]: "length (hex_encode bs) = 2 * length bs"
  by (induction bs) (simp_all add: hex_encode_def)

definition is_hex_char :: "char \<Rightarrow> bool" where
  "is_hex_char c \<longleftrightarrow> is_digit c \<or> (97 \<le> (of_char c :: nat) \<and> (of_char c :: nat) \<le> 102)"

lemma hex_digit_is_hex: "n < 16 \<Longrightarrow> is_hex_char (hex_digit n)"
  by (auto simp: is_hex_char_def hex_digit_def is_digit_def)

lemma byte_high_nibble: "unat (b :: byte) div 16 < 16"
  using unsigned_less [of b, where ?'a = nat] by simp

lemma hex_encode_chars: "c \<in> set (hex_encode bs) \<Longrightarrow> is_hex_char c"
  by (auto simp: hex_encode_def byte_high_nibble intro!: hex_digit_is_hex)

end
