(* ===== verification/Filepath.thy ===== *)
theory Filepath
  imports Prelude
begin

text \<open>
  The package \<^verbatim>\<open>path/filepath\<close> on Unix, as far as the worker uses it: \<^verbatim>\<open>Clean\<close>, \<^verbatim>\<open>Join\<close>, \<^verbatim>\<open>Abs\<close>,
  \<^verbatim>\<open>Rel\<close> and \<^verbatim>\<open>Dir\<close>, all purely lexical. The lemmas connect a cleaned rooted path with its list
  of plain components, the form in which the store's jail check is proved.
\<close>

section \<open>Definitions\<close>

text \<open>The stack of \<^verbatim>\<open>Clean\<close>: empty elements and \<open>.\<close> are dropped, \<open>..\<close> pops the element before
  it, and at the front it is dropped in a rooted path and kept in a relative one.\<close>

fun norm_comps :: "bool \<Rightarrow> string list \<Rightarrow> string list \<Rightarrow> string list" where
  "norm_comps rooted acc [] = rev acc"
| "norm_comps rooted acc (c # cs) =
     (if c = '''' \<or> c = ''.'' then norm_comps rooted acc cs
      else if c = ''..'' then
        (case acc of
           [] \<Rightarrow> norm_comps rooted (if rooted then [] else [c]) cs
         | a # as \<Rightarrow> if a = ''..'' then norm_comps rooted (c # acc) cs
                    else norm_comps rooted as cs)
      else norm_comps rooted (c # acc) cs)"

definition is_abs :: "string \<Rightarrow> bool" where
  "is_abs p \<longleftrightarrow> has_prefix ''/'' p"

definition clean :: "string \<Rightarrow> string" where
  "clean p =
     (let cs = norm_comps (is_abs p) [] (split_on CHR ''/'' p)
      in if is_abs p then CHR ''/'' # join_with ''/'' cs
         else if cs = [] then ''.'' else join_with ''/'' cs)"

definition path_join :: "string list \<Rightarrow> string" where
  "path_join elems =
     (case dropWhile (\<lambda>e. e = '''') elems of
        [] \<Rightarrow> ''''
      | es \<Rightarrow> clean (join_with ''/'' es))"

text \<open>\<^verbatim>\<open>filepath.Abs\<close>: the working directory is \<open>None\<close> where \<^verbatim>\<open>os.Getwd\<close> fails.\<close>

definition path_abs :: "string option \<Rightarrow> string \<Rightarrow> string option" where
  "path_abs cwd p =
     (if is_abs p then Some (clean p)
      else case cwd of None \<Rightarrow> None | Some wd \<Rightarrow> Some (path_join [wd, p]))"

fun drop_common :: "string list \<Rightarrow> string list \<Rightarrow> string list \<times> string list" where
  "drop_common (b # bs) (t # ts) = (if b = t then drop_common bs ts else (b # bs, t # ts))"
| "drop_common bs ts = (bs, ts)"

definition path_rel :: "string \<Rightarrow> string \<Rightarrow> string res" where
  "path_rel basepath targpath =
     (let base = clean basepath; targ = clean targpath in
      if targ = base then Inr ''.''
      else if is_abs base \<noteq> is_abs targ then Inl ErrNoRel
      else case drop_common (norm_comps (is_abs base) [] (split_on CHR ''/'' base))
                            (norm_comps (is_abs targ) [] (split_on CHR ''/'' targ)) of
             (bs, ts) \<Rightarrow>
               if bs \<noteq> [] \<and> hd bs = ''..'' then Inl ErrNoRel
               else Inr (join_with ''/'' (replicate (length bs) ''..'' @ ts)))"

text \<open>\<^verbatim>\<open>filepath.Dir\<close>: all but the last element, cleaned.\<close>

definition path_dir :: "string \<Rightarrow> string" where
  "path_dir p = clean (rev (dropWhile (\<lambda>c. c \<noteq> CHR ''/'') (rev p)))"

section \<open>Plain components\<close>

definition plain :: "string \<Rightarrow> bool" where
  "plain c \<longleftrightarrow> c \<noteq> '''' \<and> c \<noteq> ''.'' \<and> c \<noteq> ''..'' \<and> CHR ''/'' \<notin> set c"

definition abs_path :: "string list \<Rightarrow> string" where
  "abs_path cs = CHR ''/'' # join_with ''/'' cs"

lemma is_abs_iff [simp]: "is_abs p \<longleftrightarrow> (\<exists>t. p = CHR ''/'' # t)"
  by (auto simp: is_abs_def has_prefix_iff)

lemma is_abs_abs_path [simp]: "is_abs (abs_path cs)"
  by (simp add: abs_path_def)

lemma norm_comps_plain_append:
  "list_all plain ps \<Longrightarrow> norm_comps r acc (ps @ cs) = norm_comps r (rev ps @ acc) cs"
  by (induction ps arbitrary: acc) (auto simp: plain_def)

lemma norm_comps_plain: "list_all plain ps \<Longrightarrow> norm_comps r acc ps = rev acc @ ps"
  using norm_comps_plain_append [of ps r acc "[]"] by simp

lemma norm_comps_rooted_plain:
  "list_all plain acc \<Longrightarrow> (\<And>c. c \<in> set cs \<Longrightarrow> CHR ''/'' \<notin> set c) \<Longrightarrow>
   list_all plain (norm_comps True acc cs)"
proof (induction cs arbitrary: acc)
  case (Cons c cs)
  have IH: "list_all plain acc' \<Longrightarrow> list_all plain (norm_comps True acc' cs)" for acc'
    using Cons by simp
  show ?case
  proof (cases "c = '''' \<or> c = ''.'' \<or> c = ''..''")
    case True
    with Cons.prems(1) show ?thesis
      by (cases acc) (auto intro!: IH)
  next
    case False
    with Cons.prems have "plain c" by (simp add: plain_def)
    with False Cons.prems(1) show ?thesis by (auto intro!: IH)
  qed
qed simp

lemma split_on_abs_path:
  "cs \<noteq> [] \<Longrightarrow> list_all plain cs \<Longrightarrow> split_on CHR ''/'' (abs_path cs) = '''' # cs"
  by (auto simp: abs_path_def split_on_join plain_def list_all_iff)

lemma split_on_abs_path_Nil: "split_on CHR ''/'' (abs_path []) = ['''', '''']"
  by (simp add: abs_path_def)

lemma norm_abs_path:
  "list_all plain cs \<Longrightarrow> norm_comps True [] (split_on CHR ''/'' (abs_path cs)) = cs"
  by (cases "cs = []") (simp_all add: split_on_abs_path_Nil split_on_abs_path norm_comps_plain)

lemma clean_abs_path [simp]: "list_all plain cs \<Longrightarrow> clean (abs_path cs) = abs_path cs"
  using norm_abs_path [of cs] by (simp add: clean_def Let_def) (simp add: abs_path_def)

lemma clean_rooted:
  assumes "is_abs p"
  obtains cs where "list_all plain cs" "clean p = abs_path cs"
    "cs = norm_comps True [] (split_on CHR ''/'' p)"
proof
  let ?cs = "norm_comps True [] (split_on CHR ''/'' p)"
  show "list_all plain ?cs"
    by (rule norm_comps_rooted_plain) (auto dest: split_on_no_sep)
  show "clean p = abs_path ?cs"
    using assms by (simp add: clean_def Let_def abs_path_def)
qed simp

lemma clean_idem_rooted: "is_abs p \<Longrightarrow> clean (clean p) = clean p"
  by (metis clean_rooted clean_abs_path)

lemma abs_path_inj:
  "list_all plain as \<Longrightarrow> list_all plain bs \<Longrightarrow> abs_path as = abs_path bs \<Longrightarrow> as = bs"
  using norm_abs_path by metis

lemma abs_path_Nil [simp]: "abs_path [] = ''/''"
  by (simp add: abs_path_def)

lemma abs_path_eq_root [simp]: "list_all plain cs \<Longrightarrow> abs_path cs = ''/'' \<longleftrightarrow> cs = []"
  using abs_path_inj [of cs "[]"] by auto

lemma abs_path_append:
  "as \<noteq> [] \<Longrightarrow> bs \<noteq> [] \<Longrightarrow> abs_path (as @ bs) = abs_path as @ CHR ''/'' # join_with ''/'' bs"
proof -
  have "as \<noteq> [] \<Longrightarrow> bs \<noteq> [] \<Longrightarrow>
      join_with sep (as @ bs) = join_with sep as @ sep @ join_with sep bs" for sep
  proof (induction as)
    case (Cons a as)
    then show ?case by (cases as; cases bs) auto
  qed simp
  then show "as \<noteq> [] \<Longrightarrow> bs \<noteq> [] \<Longrightarrow> ?thesis" by (simp add: abs_path_def)
qed

text \<open>The jail check of the code, a test on bytes, is a test on components.\<close>

lemma below_iff:
  assumes bs: "list_all plain bs" "bs \<noteq> []" and cs: "list_all plain cs"
  shows "has_prefix (abs_path bs @ ''/'') (abs_path cs) \<longleftrightarrow> (\<exists>ds. ds \<noteq> [] \<and> cs = bs @ ds)"
proof
  assume "has_prefix (abs_path bs @ ''/'') (abs_path cs)"
  then obtain t where t: "abs_path cs = abs_path bs @ CHR ''/'' # t"
    by (auto simp: has_prefix_iff)
  have sep: "CHR ''/'' \<notin> set x" if "x \<in> set bs" for x
    using that bs(1) by (auto simp: plain_def list_all_iff)
  have split_pre: "split_on CHR ''/'' (join_with ''/'' xs @ CHR ''/'' # t) = xs @ split_on CHR ''/'' t"
    if "xs \<noteq> []" "\<forall>x \<in> set xs. CHR ''/'' \<notin> set x" for xs
    using that
  proof (induction xs)
    case (Cons x xs)
    then show ?case by (cases xs) (simp_all add: split_on_append)
  qed simp
  have "cs = norm_comps True [] (split_on CHR ''/'' (abs_path cs))"
    using norm_abs_path [OF cs] by simp
  also have "\<dots> = norm_comps True [] (bs @ split_on CHR ''/'' t)"
    using split_pre [OF bs(2)] sep by (simp add: t) (simp add: abs_path_def)
  finally have "cs = norm_comps True [] (bs @ split_on CHR ''/'' t)" .
  moreover have csne: "cs \<noteq> []"
    using t bs(2) by (cases bs) (auto simp: abs_path_def)
  have "'''' # cs = '''' # bs @ split_on CHR ''/'' t"
    using split_on_abs_path [OF csne cs] split_pre [OF bs(2)] sep
    by (simp add: t) (simp add: abs_path_def)
  then have "cs = bs @ split_on CHR ''/'' t" by simp
  then show "\<exists>ds. ds \<noteq> [] \<and> cs = bs @ ds" using split_on_ne by blast
next
  assume "\<exists>ds. ds \<noteq> [] \<and> cs = bs @ ds"
  then obtain ds where "ds \<noteq> []" "cs = bs @ ds" by blast
  with bs(2) show "has_prefix (abs_path bs @ ''/'') (abs_path cs)"
    by (auto simp: abs_path_append has_prefix_iff)
qed

section \<open>Joining below a rooted base\<close>

lemma split_on_join_any:
  "xs \<noteq> [] \<Longrightarrow> split_on c (join_with [c] xs) = concat (map (split_on c) xs)"
proof (induction xs)
  case (Cons x xs)
  have app: "split_on c (a @ c # b) = split_on c a @ split_on c b" for a b
  proof (induction a)
    case (Cons y a)
    then show ?case by (cases "split_on c a") auto
  qed simp
  from Cons show ?case by (cases xs) (simp_all add: app)
qed simp

lemma path_join_rooted:
  assumes bs: "list_all plain bs" and b: "b = abs_path bs"
  shows "path_join (b # xs) =
    abs_path (norm_comps True (rev bs) (concat (map (split_on CHR ''/'') xs)))"
proof -
  have ne: "b \<noteq> ''''" using b by (simp add: abs_path_def)
  have j: "path_join (b # xs) = clean (join_with ''/'' (b # xs))"
    using ne by (simp add: path_join_def)
  have abs: "is_abs (join_with ''/'' (b # xs))"
    using b by (cases xs) (auto simp: abs_path_def)
  have "norm_comps True [] (split_on CHR ''/'' (join_with ''/'' (b # xs))) =
      norm_comps True [] (split_on CHR ''/'' b @ concat (map (split_on CHR ''/'') xs))"
    using split_on_join_any [of "b # xs" "CHR ''/''"] by simp
  also have "\<dots> = norm_comps True (rev bs) (concat (map (split_on CHR ''/'') xs))"
    using bs by (cases "bs = []")
      (simp_all add: b split_on_abs_path_Nil split_on_abs_path norm_comps_plain_append)
  finally show ?thesis
    using abs by (simp add: j clean_def Let_def abs_path_def)
qed

lemma path_join_plain:
  assumes "list_all plain bs" "b = abs_path bs" "list_all plain xs"
  shows "path_join (b # xs) = abs_path (bs @ xs)"
proof -
  have "concat (map (split_on CHR ''/'') xs) = xs"
    using assms(3) by (induction xs) (auto simp: split_on_absent plain_def)
  with path_join_rooted [OF assms(1,2)] assms(3) show ?thesis
    by (simp add: norm_comps_plain)
qed

lemma drop_common_append [simp]: "drop_common bs (bs @ ts) = ([], ts)"
  by (induction bs) simp_all

lemma path_rel_below:
  assumes "list_all plain bs" "list_all plain ts" "ts \<noteq> []"
  shows "path_rel (abs_path bs) (abs_path (bs @ ts)) = Inr (join_with ''/'' ts)"
proof -
  have "abs_path (bs @ ts) \<noteq> abs_path bs"
    using abs_path_inj [of "bs @ ts" bs] assms by auto
  then show ?thesis
    using assms by (simp add: path_rel_def Let_def norm_abs_path del: is_abs_iff)
qed

section \<open>Relative paths stay relative\<close>

lemma norm_comps_members:
  "c \<in> set (norm_comps r acc xs) \<Longrightarrow> c \<in> set acc \<or> c \<in> set xs \<and> c \<noteq> ''''"
  by (induction r acc xs rule: norm_comps.induct) (auto split: if_splits list.splits)

lemma join_with_hd:
  "xs \<noteq> [] \<Longrightarrow> hd xs \<noteq> '''' \<Longrightarrow> join_with sep xs \<noteq> '''' \<and> hd (join_with sep xs) = hd (hd xs)"
  by (cases xs; cases "tl xs"; cases "hd xs") auto

lemma clean_relative: "\<not> is_abs q \<Longrightarrow> \<not> is_abs (clean q)"
proof
  assume na: "\<not> is_abs q" and "is_abs (clean q)"
  let ?cs = "norm_comps False [] (split_on CHR ''/'' q)"
  from na \<open>is_abs (clean q)\<close> have ne: "?cs \<noteq> []" and a: "hd (join_with ''/'' ?cs) = CHR ''/''"
    by (auto simp: clean_def Let_def split: if_splits)
  from ne have "hd ?cs \<in> set ?cs" by simp
  from norm_comps_members [OF this] have h: "hd ?cs \<noteq> ''''" "CHR ''/'' \<notin> set (hd ?cs)"
    by (auto dest: split_on_no_sep)
  with join_with_hd [OF ne h(1)] a show False
    by (metis hd_in_set)
qed

end
