(* ===== verification/Paths.thy ===== *)
theory Paths
  imports Filepath
begin

text \<open>
  src/paths.go: the layout of Synapse's media store. One definition per function of the file,
  with the type \<^verbatim>\<open>MediaPaths\<close> as a record and Go's error returns as \<open>Inl\<close>.
  The lemmas show that every path the builders return stays inside the store, what exactly it
  is for IDs the worker makes itself, that distinct media never share a path, and which of the
  paths the write guard lets through.
\<close>

section \<open>Model\<close>

record MediaPaths =
  base :: string
  uploadsAllowed :: bool

definition cleanAbs :: "string option \<Rightarrow> string \<Rightarrow> string" where
  "cleanAbs cwd p = (case path_abs cwd p of None \<Rightarrow> clean p | Some q \<Rightarrow> clean q)"

definition NewMediaPaths :: "string option \<Rightarrow> string \<Rightarrow> MediaPaths" where
  "NewMediaPaths cwd b = \<lparr>base = cleanAbs cwd b, uploadsAllowed = False\<rparr>"

text \<open>A rune above 127 is refused, and so is each byte of its encoding, so the loop over runes
  accepts exactly the strings whose bytes it accepts.\<close>

definition validPathComponentChar :: "char \<Rightarrow> bool" where
  "validPathComponentChar c =
     (let r = (of_char c :: nat) in
        (97 \<le> r \<and> r \<le> 122) \<or> (65 \<le> r \<and> r \<le> 90) \<or> (48 \<le> r \<and> r \<le> 57)
        \<or> c \<in> set ''_-.[]:'')"

definition validatePathComponent :: "string \<Rightarrow> unit res" where
  "validatePathComponent component =
     (if component = '''' \<or> component = ''.'' \<or> component = ''..''
      then Inl (ErrBadComponent component)
      else if list_all validPathComponentChar component then Inr ()
      else Inl (ErrBadComponent component))"

definition shard :: "string \<Rightarrow> (string \<times> string \<times> string) res" where
  "shard ident =
     (case validatePathComponent ident of
        Inl e \<Rightarrow> Inl e
      | Inr _ \<Rightarrow>
          if length ident < 5 then Inl (ErrShortId ident)
          else Inr (take 2 ident, take 2 (drop 2 ident), drop 4 ident))"

definition thumbnailFileName :: "int \<Rightarrow> int \<Rightarrow> string \<Rightarrow> string \<Rightarrow> string res" where
  "thumbnailFileName width height contentType method =
     (case cut CHR ''/'' contentType of
        (top_level, subtype, ok) \<Rightarrow>
          if \<not> ok \<or> top_level = '''' \<or> subtype = '''' then Inl (ErrBadMediaType contentType)
          else (let name = join_with ''-'' [show_int width, show_int height, top_level, subtype, method] in
               case validatePathComponent name of Inl e \<Rightarrow> Inl e | Inr _ \<Rightarrow> Inr name))"

definition legacyThumbnailFileName :: "int \<Rightarrow> int \<Rightarrow> string \<Rightarrow> string res" where
  "legacyThumbnailFileName width height contentType =
     (case cut CHR ''/'' contentType of
        (top_level, subtype, ok) \<Rightarrow>
          if \<not> ok \<or> top_level = '''' \<or> subtype = '''' then Inl (ErrBadMediaType contentType)
          else (let name = join_with ''-'' [show_int width, show_int height, top_level, subtype] in
               case validatePathComponent name of Inl e \<Rightarrow> Inl e | Inr _ \<Rightarrow> Inr name))"

text \<open>\<^verbatim>\<open>(*MediaPaths).join\<close>.\<close>

definition join :: "MediaPaths \<Rightarrow> string list \<Rightarrow> string res" where
  "join p components =
     (let full = clean (path_join (base p # components)) in
      if full \<noteq> base p \<and> \<not> has_prefix (base p @ ''/'') full then Inl (ErrEscapes full)
      else Inr full)"

definition LocalMedia :: "MediaPaths \<Rightarrow> string \<Rightarrow> string res" where
  "LocalMedia p mediaID =
     (case shard mediaID of
        Inl e \<Rightarrow> Inl e
      | Inr (a, b, rest) \<Rightarrow> join p [''local_content'', a, b, rest])"

definition LocalThumbnail :: "MediaPaths \<Rightarrow> string \<Rightarrow> int \<Rightarrow> int \<Rightarrow> string \<Rightarrow> string \<Rightarrow> string res" where
  "LocalThumbnail p mediaID width height contentType method =
     (case shard mediaID of
        Inl e \<Rightarrow> Inl e
      | Inr (a, b, rest) \<Rightarrow>
          (case thumbnailFileName width height contentType method of
             Inl e \<Rightarrow> Inl e
           | Inr name \<Rightarrow> join p [''local_thumbnails'', a, b, rest, name]))"

definition RemoteMedia :: "MediaPaths \<Rightarrow> string \<Rightarrow> string \<Rightarrow> string res" where
  "RemoteMedia p serverName filesystemID =
     (case validatePathComponent serverName of
        Inl e \<Rightarrow> Inl e
      | Inr _ \<Rightarrow>
          (case shard filesystemID of
             Inl e \<Rightarrow> Inl e
           | Inr (a, b, rest) \<Rightarrow> join p [''remote_content'', serverName, a, b, rest]))"

definition remoteThumbnailDir :: "string \<Rightarrow> string \<Rightarrow> string res" where
  "remoteThumbnailDir serverName filesystemID =
     (case validatePathComponent serverName of
        Inl e \<Rightarrow> Inl e
      | Inr _ \<Rightarrow>
          (case shard filesystemID of
             Inl e \<Rightarrow> Inl e
           | Inr (a, b, rest) \<Rightarrow> Inr (path_join [''remote_thumbnail'', serverName, a, b, rest])))"

definition RemoteThumbnail ::
  "MediaPaths \<Rightarrow> string \<Rightarrow> string \<Rightarrow> int \<Rightarrow> int \<Rightarrow> string \<Rightarrow> string \<Rightarrow> string res" where
  "RemoteThumbnail p serverName filesystemID width height contentType method =
     (case remoteThumbnailDir serverName filesystemID of
        Inl e \<Rightarrow> Inl e
      | Inr dir \<Rightarrow>
          (case thumbnailFileName width height contentType method of
             Inl e \<Rightarrow> Inl e
           | Inr name \<Rightarrow> join p [dir, name]))"

definition RemoteThumbnailLegacy ::
  "MediaPaths \<Rightarrow> string \<Rightarrow> string \<Rightarrow> int \<Rightarrow> int \<Rightarrow> string \<Rightarrow> string res" where
  "RemoteThumbnailLegacy p serverName filesystemID width height contentType =
     (case remoteThumbnailDir serverName filesystemID of
        Inl e \<Rightarrow> Inl e
      | Inr dir \<Rightarrow>
          (case legacyThumbnailFileName width height contentType of
             Inl e \<Rightarrow> Inl e
           | Inr name \<Rightarrow> join p [dir, name]))"

text \<open>The regular expression of \<^verbatim>\<open>newFormatIDRe\<close>: four digits, two and two, joined by hyphens.\<close>

definition newFormatIDRe :: "string \<Rightarrow> bool" where
  "newFormatIDRe s \<longleftrightarrow>
     length s \<ge> 10 \<and> list_all is_digit (take 4 s) \<and> s ! 4 = CHR ''-'' \<and>
     list_all is_digit (take 2 (drop 5 s)) \<and> s ! 7 = CHR ''-'' \<and>
     list_all is_digit (take 2 (drop 8 s))"

definition URLCache :: "MediaPaths \<Rightarrow> string \<Rightarrow> string res" where
  "URLCache p mediaID =
     (case validatePathComponent mediaID of
        Inl e \<Rightarrow> Inl e
      | Inr _ \<Rightarrow>
          if newFormatIDRe mediaID then
            (if length mediaID < 12 then Inl (ErrShortId mediaID)
             else join p [''url_cache'', take 10 mediaID, drop 11 mediaID])
          else
            (case shard mediaID of
               Inl e \<Rightarrow> Inl e
             | Inr (a, b, rest) \<Rightarrow> join p [''url_cache'', a, b, rest]))"

definition URLCacheThumbnail ::
  "MediaPaths \<Rightarrow> string \<Rightarrow> int \<Rightarrow> int \<Rightarrow> string \<Rightarrow> string \<Rightarrow> string res" where
  "URLCacheThumbnail p mediaID width height contentType method =
     (case validatePathComponent mediaID of
        Inl e \<Rightarrow> Inl e
      | Inr _ \<Rightarrow>
          (case thumbnailFileName width height contentType method of
             Inl e \<Rightarrow> Inl e
           | Inr name \<Rightarrow>
               if newFormatIDRe mediaID then
                 (if length mediaID < 12 then Inl (ErrShortId mediaID)
                  else join p [''url_cache_thumbnails'', take 10 mediaID, drop 11 mediaID, name])
               else
                 (case shard mediaID of
                    Inl e \<Rightarrow> Inl e
                  | Inr (a, b, rest) \<Rightarrow> join p [''url_cache_thumbnails'', a, b, rest, name])))"

subsection \<open>Write paths\<close>

definition remoteWritablePrefixes :: "string list" where
  "remoteWritablePrefixes = [''remote_content'', ''remote_thumbnail'']"

definition uploadWritablePrefixes :: "string list" where
  "uploadWritablePrefixes = [''local_content'', ''local_thumbnails'']"

definition AllowUploadWrites :: "MediaPaths \<Rightarrow> MediaPaths" where
  "AllowUploadWrites p = p\<lparr>uploadsAllowed := True\<rparr>"

definition writablePrefixes :: "MediaPaths \<Rightarrow> string list" where
  "writablePrefixes p =
     (if uploadsAllowed p then remoteWritablePrefixes @ uploadWritablePrefixes
      else remoteWritablePrefixes)"

definition WritablePath :: "MediaPaths \<Rightarrow> string \<Rightarrow> unit res" where
  "WritablePath p path =
     (let cl = clean path in
      if cl \<noteq> base p \<and> \<not> has_prefix (base p @ ''/'') cl then Inl (ErrEscapes path)
      else case path_rel (base p) cl of
             Inl e \<Rightarrow> Inl e
           | Inr rel \<Rightarrow>
               (case cut CHR ''/'' rel of
                  (top_level, _, _) \<Rightarrow>
                    if top_level \<in> set (writablePrefixes p) then Inr ()
                    else Inl (ErrNotWritable rel)))"

definition tempDirName :: string where "tempDirName = ''.tmp''"

text \<open>The part of \<^verbatim>\<open>CreateTemp\<close> before it touches the file system: the directory of the
  temporary file for a write that ends at \<open>finalPath\<close>.\<close>

definition tempDirFor :: "MediaPaths \<Rightarrow> string \<Rightarrow> string res" where
  "tempDirFor p finalPath =
     (case WritablePath p finalPath of
        Inl e \<Rightarrow> Inl e
      | Inr _ \<Rightarrow>
          (case path_rel (base p) (clean finalPath) of
             Inl e \<Rightarrow> Inl e
           | Inr rel \<Rightarrow>
               (case cut CHR ''/'' rel of
                  (top_level, rest, _) \<Rightarrow>
                    if rest = '''' then Inl (ErrNotWritable rel)
                    else Inr (path_join [base p, top_level, tempDirName]))))"

definition TempDirs :: "MediaPaths \<Rightarrow> string list" where
  "TempDirs p = map (\<lambda>top_level. path_join [base p, top_level, tempDirName]) (writablePrefixes p)"

section \<open>The store's base\<close>

text \<open>What \<^verbatim>\<open>NewMediaPaths\<close> makes of a rooted directory other than the root itself: the base is
  rooted and clean.\<close>

definition rooted_store :: "MediaPaths \<Rightarrow> bool" where
  "rooted_store p \<longleftrightarrow> is_abs (base p) \<and> clean (base p) = base p \<and> base p \<noteq> ''/''"

lemma rooted_storeE:
  assumes "rooted_store p"
  obtains bs where "list_all plain bs" "bs \<noteq> []" "base p = abs_path bs"
proof -
  from assms obtain bs where "list_all plain bs" "base p = abs_path bs"
    by (metis rooted_store_def clean_rooted)
  moreover from this assms have "bs \<noteq> []"
    by (auto simp: rooted_store_def)
  ultimately show ?thesis using that by blast
qed

lemma rooted_store_abs_path:
  "list_all plain bs \<Longrightarrow> bs \<noteq> [] \<Longrightarrow> base p = abs_path bs \<Longrightarrow> rooted_store p"
  by (simp add: rooted_store_def del: is_abs_iff)

lemma NewMediaPaths_rooted:
  assumes "is_abs b" "clean b \<noteq> ''/''"
  shows "rooted_store (NewMediaPaths cwd b)"
  using assms(2) clean_idem_rooted [OF assms(1)] clean_rooted [OF assms(1)] assms(1)
  by (metis MediaPaths.select_convs(1) NewMediaPaths_def cleanAbs_def is_abs_abs_path
      option.simps(5) path_abs_def rooted_store_def)

text \<open>A path at or below the base, as components.\<close>

definition inside :: "MediaPaths \<Rightarrow> string \<Rightarrow> bool" where
  "inside p q \<longleftrightarrow> clean q = q \<and> (q = base p \<or> has_prefix (base p @ ''/'') q)"

lemma inside_iff:
  assumes "list_all plain bs" "bs \<noteq> []" "base p = abs_path bs"
  shows "inside p q \<longleftrightarrow> (\<exists>ds. list_all plain ds \<and> q = abs_path (bs @ ds))"
proof
  assume h: "inside p q"
  then have "is_abs q"
    using assms(3) by (auto simp: inside_def has_prefix_iff abs_path_def)
  then obtain cs where cs: "list_all plain cs" "q = abs_path cs"
    using h by (metis clean_rooted inside_def)
  show "\<exists>ds. list_all plain ds \<and> q = abs_path (bs @ ds)"
  proof (cases "q = base p")
    case True
    then show ?thesis using assms(3) by (intro exI [of _ "[]"]) simp
  next
    case False
    with h cs below_iff [OF assms(1,2) cs(1)] assms(3) obtain ds where "cs = bs @ ds"
      by (auto simp: inside_def)
    with cs show ?thesis by auto
  qed
next
  assume "\<exists>ds. list_all plain ds \<and> q = abs_path (bs @ ds)"
  then obtain ds where ds: "list_all plain ds" "q = abs_path (bs @ ds)" by blast
  then show "inside p q"
    using assms below_iff [OF assms(1,2), of "bs @ ds"]
    by (cases "ds = []") (auto simp: inside_def)
qed

lemma join_cases:
  assumes "list_all plain bs" "bs \<noteq> []" "base p = abs_path bs"
  defines "cs \<equiv> \<lambda>xs. norm_comps True (rev bs) (concat (map (split_on CHR ''/'') xs))"
  shows "join p xs =
    (if cs xs = bs \<or> (\<exists>ds. ds \<noteq> [] \<and> cs xs = bs @ ds) then Inr (abs_path (cs xs))
     else Inl (ErrEscapes (abs_path (cs xs))))"
    and "list_all plain (cs xs)"
proof -
  show pl: "list_all plain (cs xs)"
    unfolding cs_def using assms(1)
    by (intro norm_comps_rooted_plain) (auto dest: split_on_no_sep simp: list_all_iff)
  have "clean (path_join (base p # xs)) = abs_path (cs xs)"
    using path_join_rooted [OF assms(1,3)] pl by (simp add: cs_def)
  moreover have "abs_path (cs xs) = base p \<longleftrightarrow> cs xs = bs"
    using abs_path_inj [OF pl assms(1)] assms(3) by auto
  ultimately show "join p xs =
    (if cs xs = bs \<or> (\<exists>ds. ds \<noteq> [] \<and> cs xs = bs @ ds) then Inr (abs_path (cs xs))
     else Inl (ErrEscapes (abs_path (cs xs))))"
    using below_iff [OF assms(1,2) pl] assms(3) by (auto simp: join_def Let_def)
qed

lemma join_inside:
  assumes "rooted_store p" "join p xs = Inr q"
  shows "inside p q"
proof -
  from assms(1) obtain bs where bs: "list_all plain bs" "bs \<noteq> []" "base p = abs_path bs"
    by (rule rooted_storeE)
  from join_cases [OF bs, of xs] assms(2) show ?thesis
    by (auto simp: inside_iff [OF bs] split: if_splits intro: exI [of _ "[]"])
qed

lemma join_plain:
  assumes "list_all plain bs" "bs \<noteq> []" "base p = abs_path bs" "list_all plain xs"
  shows "join p xs = Inr (abs_path (bs @ xs))"
proof -
  have "concat (map (split_on CHR ''/'') xs) = xs"
    using assms(4) by (induction xs) (auto simp: split_on_absent plain_def)
  then have "norm_comps True (rev bs) (concat (map (split_on CHR ''/'') xs)) = bs @ xs"
    using assms(1,4) by (simp add: norm_comps_plain)
  then show ?thesis using join_cases(1) [OF assms(1-3), of xs] by (cases "xs = []") auto
qed

section \<open>Components and shards\<close>

lemma validatePathComponent_ok:
  "validatePathComponent c = Inr u \<longleftrightarrow>
   c \<noteq> '''' \<and> c \<noteq> ''.'' \<and> c \<noteq> ''..'' \<and> list_all validPathComponentChar c"
  by (auto simp: validatePathComponent_def)

lemma slash_invalid: "\<not> validPathComponentChar CHR ''/''"
  by (simp add: validPathComponentChar_def Let_def)

lemma valid_plain: "validatePathComponent c = Inr u \<Longrightarrow> plain c"
  using slash_invalid by (auto simp: validatePathComponent_ok plain_def list_all_iff)

text \<open>\<open>tame\<close> IDs: those whose shards are ordinary names. The check of the code does not imply it:
  \<open>validatePathComponent\<close> looks at the whole ID only.\<close>

definition tame :: "string \<Rightarrow> bool" where
  "tame i \<longleftrightarrow> is_ok (shard i) \<and> take 2 i \<noteq> ''..'' \<and> take 2 (drop 2 i) \<noteq> ''..''
     \<and> drop 4 i \<noteq> ''.'' \<and> drop 4 i \<noteq> ''..''"

lemma shard_ok:
  "shard i = Inr (a, b, r) \<longleftrightarrow>
   validatePathComponent i = Inr () \<and> 5 \<le> length i \<and>
   a = take 2 i \<and> b = take 2 (drop 2 i) \<and> r = drop 4 i"
  by (auto simp: shard_def split: sum.splits)

lemma length_5_cases:
  "5 \<le> length i \<Longrightarrow> \<exists>a b c d e r. i = a # b # c # d # e # r"
  by (auto simp: numeral_eq_Suc Suc_le_length_iff)

lemma tame_shard:
  assumes "tame i"
  shows "shard i = Inr (take 2 i, take 2 (drop 2 i), drop 4 i)"
    and "list_all plain [take 2 i, take 2 (drop 2 i), drop 4 i]"
proof -
  from assms show sh: "shard i = Inr (take 2 i, take 2 (drop 2 i), drop 4 i)"
    by (auto simp: tame_def is_ok_iff shard_ok)
  then have v: "list_all validPathComponentChar i" "5 \<le> length i"
    by (auto simp: shard_ok validatePathComponent_ok)
  then obtain a b c d e r where i: "i = a # b # c # d # e # r"
    using length_5_cases by blast
  from v i have "CHR ''/'' \<notin> set i" using slash_invalid by (auto simp: list_all_iff)
  with assms i show "list_all plain [take 2 i, take 2 (drop 2 i), drop 4 i]"
    by (auto simp: tame_def plain_def)
qed

lemma shard_join: "shard i = Inr (a, b, r) \<Longrightarrow> a @ b @ r = i"
proof -
  assume h: "shard i = Inr (a, b, r)"
  then have "5 \<le> length i" by (simp add: shard_ok)
  then obtain x y z u v w where "i = x # y # z # u # v # w"
    using length_5_cases by blast
  with h show ?thesis by (auto simp: shard_ok)
qed

lemma tame_inj:
  "[take 2 i, take 2 (drop 2 i), drop 4 i] = [take 2 j, take 2 (drop 2 j), drop 4 j] \<Longrightarrow>
   tame i \<Longrightarrow> tame j \<Longrightarrow> i = j"
  using tame_shard(1) [of i] tame_shard(1) [of j] shard_join by (metis list.inject)

lemma thumbnailFileName_plain: "thumbnailFileName w h t m = Inr n \<Longrightarrow> plain n"
  by (auto simp: thumbnailFileName_def Let_def split: prod.splits if_splits sum.splits
      intro: valid_plain)

lemma legacyThumbnailFileName_plain: "legacyThumbnailFileName w h t = Inr n \<Longrightarrow> plain n"
  by (auto simp: legacyThumbnailFileName_def Let_def split: prod.splits if_splits sum.splits
      intro: valid_plain)

lemma plain_dirs [simp]:
  "plain ''local_content''" "plain ''local_thumbnails''" "plain ''remote_content''"
  "plain ''remote_thumbnail''" "plain ''url_cache''" "plain ''url_cache_thumbnails''"
  "plain ''.tmp''"
  by (simp_all add: plain_def)

section \<open>The write guard on components\<close>

lemma WritablePath_components:
  assumes bs: "list_all plain bs" "bs \<noteq> []" "base p = abs_path bs"
    and cs: "list_all plain (d # cs)" and q: "clean q = abs_path (bs @ d # cs)"
  shows "WritablePath p q =
    (if d \<in> set (writablePrefixes p) then Inr ()
     else Inl (ErrNotWritable (join_with ''/'' (d # cs))))"
proof -
  have "has_prefix (base p @ ''/'') (abs_path (bs @ d # cs))"
    using below_iff [OF bs(1,2), of "bs @ d # cs"] bs cs by simp
  moreover have "path_rel (base p) (abs_path (bs @ d # cs)) = Inr (join_with ''/'' (d # cs))"
    using path_rel_below [OF bs(1) cs] bs(3) by simp
  moreover have "fst (cut CHR ''/'' (join_with ''/'' (d # cs))) = d"
    using cs by (cases cs) (simp_all add: plain_def)
  ultimately show ?thesis
    using q by (auto simp: WritablePath_def Let_def split: prod.splits)
qed

lemma WritablePath_inside:
  assumes "rooted_store p" "WritablePath p q = Inr ()"
  obtains bs d cs where "list_all plain bs" "bs \<noteq> []" "base p = abs_path bs"
    "list_all plain (d # cs)" "clean q = abs_path (bs @ d # cs)" "d \<in> set (writablePrefixes p)"
proof -
  from assms(1) obtain bs where bs: "list_all plain bs" "bs \<noteq> []" "base p = abs_path bs"
    by (rule rooted_storeE)
  have dot: "''.'' \<notin> set (writablePrefixes p)"
    by (simp add: writablePrefixes_def remoteWritablePrefixes_def uploadWritablePrefixes_def)
  have "clean q \<noteq> base p"
  proof
    assume "clean q = base p"
    then have "path_rel (base p) (clean q) = Inr ''.''"
      by (simp add: path_rel_def)
    with assms(2) dot show False
      by (auto simp: WritablePath_def Let_def split: sum.splits if_splits)
  qed
  with assms(2) have pre: "has_prefix (base p @ ''/'') (clean q)"
    by (auto simp: WritablePath_def Let_def split: if_splits)
  then have absq: "is_abs (clean q)"
    using bs(3) by (auto simp: has_prefix_iff abs_path_def)
  have "is_abs q" using clean_relative absq by blast
  then obtain cs where cs: "list_all plain cs" "clean q = abs_path cs"
    by (rule clean_rooted)
  with pre bs obtain ds where "ds \<noteq> []" "cs = bs @ ds"
    using below_iff [OF bs(1,2) cs(1)] by auto
  then obtain d es where ds: "cs = bs @ d # es" by (cases ds) auto
  with cs have pl: "list_all plain (d # es)" by simp
  have "d \<in> set (writablePrefixes p)"
    using WritablePath_components [OF bs pl, of q] cs ds assms(2)
    by (auto split: if_splits)
  with bs pl cs ds show ?thesis using that by blast
qed

section \<open>A layout: what the builders promise their callers\<close>

text \<open>
  Every builder puts its medium into one top-level directory \<open>dir\<close>, under components that
  determine the medium and never look like a temporary file. The callers that write rely on
  the consequences: the path is inside the store, no other medium has it, the guard admits it
  exactly when the directory is writable, and its temporary directory is on the same side of
  the tree and is one that the start-up sweep lists.
\<close>

locale media_layout =
  fixes place :: "MediaPaths \<Rightarrow> 'k \<Rightarrow> string res"
    and valid :: "'k \<Rightarrow> bool"
    and dir :: "'k \<Rightarrow> string"
    and comps :: "'k \<Rightarrow> string list"
  assumes dir_plain: "valid k \<Longrightarrow> plain (dir k)"
    and comps_plain: "valid k \<Longrightarrow> list_all plain (comps k)"
    and comps_inj: "valid k \<Longrightarrow> valid k' \<Longrightarrow> dir k = dir k' \<Longrightarrow> comps k = comps k' \<Longrightarrow> k = k'"
    and comps_ne: "valid k \<Longrightarrow> comps k \<noteq> []"
    and comps_no_temp: "valid k \<Longrightarrow> comps k \<noteq> [''.tmp'', n]"
    and place_comps: "valid k \<Longrightarrow> list_all plain bs \<Longrightarrow> bs \<noteq> [] \<Longrightarrow> base p = abs_path bs \<Longrightarrow>
      place p k = Inr (abs_path (bs @ dir k # comps k))"
begin

lemma place_path:
  assumes "rooted_store p" "valid k"
  shows "place p k = Inr (base p @ ''/'' @ dir k @ ''/'' @ join_with ''/'' (comps k))"
proof -
  from assms(1) obtain bs where bs: "list_all plain bs" "bs \<noteq> []" "base p = abs_path bs"
    by (rule rooted_storeE)
  then show ?thesis
    using place_comps [OF assms(2) bs] comps_ne [OF assms(2)]
    by (cases "comps k") (simp_all add: abs_path_append)
qed

lemma place_inside:
  assumes "rooted_store p" "valid k" "place p k = Inr q"
  shows "inside p q"
proof -
  from assms(1) obtain bs where bs: "list_all plain bs" "bs \<noteq> []" "base p = abs_path bs"
    by (rule rooted_storeE)
  then have "q = abs_path (bs @ dir k # comps k)"
    using place_comps [OF assms(2) bs] assms(3) by simp
  then show ?thesis
    using comps_plain [OF assms(2)] dir_plain [OF assms(2)]
    by (auto simp: inside_iff [OF bs] intro!: exI [of _ "dir k # comps k"])
qed

lemma place_inj:
  assumes "rooted_store p" "valid k" "valid k'" "place p k = place p k'"
  shows "k = k'"
proof -
  from assms(1) obtain bs where bs: "list_all plain bs" "bs \<noteq> []" "base p = abs_path bs"
    by (rule rooted_storeE)
  from assms(2-4) have "abs_path (bs @ dir k # comps k) = abs_path (bs @ dir k' # comps k')"
    using place_comps [OF _ bs] by simp
  then have "bs @ dir k # comps k = bs @ dir k' # comps k'"
    by (rule abs_path_inj [rotated 2])
      (use bs dir_plain [OF assms(2)] dir_plain [OF assms(3)] comps_plain [OF assms(2)] comps_plain [OF assms(3)] in simp_all)
  with assms(2,3) show ?thesis using comps_inj by simp
qed

lemma place_guard:
  assumes "rooted_store p" "valid k" "place p k = Inr q"
  shows "WritablePath p q = Inr () \<longleftrightarrow> dir k \<in> set (writablePrefixes p)"
proof -
  from assms(1) obtain bs where bs: "list_all plain bs" "bs \<noteq> []" "base p = abs_path bs"
    by (rule rooted_storeE)
  have "clean q = abs_path (bs @ dir k # comps k)"
    using place_comps [OF assms(2) bs] comps_plain [OF assms(2)] dir_plain [OF assms(2)] assms(3) bs by simp
  then show ?thesis
    using WritablePath_components [OF bs, of "dir k" "comps k" q] comps_plain [OF assms(2)] dir_plain [OF assms(2)]
    by simp
qed

lemma place_temp:
  assumes "rooted_store p" "valid k" "place p k = Inr q" "dir k \<in> set (writablePrefixes p)"
  shows "tempDirFor p q = Inr (base p @ ''/'' @ dir k @ ''/.tmp'')"
    and "base p @ ''/'' @ dir k @ ''/.tmp'' \<in> set (TempDirs p)"
proof -
  from assms(1) obtain bs where bs: "list_all plain bs" "bs \<noteq> []" "base p = abs_path bs"
    by (rule rooted_storeE)
  have q: "clean q = abs_path (bs @ dir k # comps k)"
    using place_comps [OF assms(2) bs] comps_plain [OF assms(2)] dir_plain [OF assms(2)] assms(3) bs by simp
  have pl: "list_all plain (dir k # comps k)"
    using comps_plain [OF assms(2)] dir_plain [OF assms(2)] by simp
  have tmp: "path_join [base p, d, tempDirName] = base p @ ''/'' @ d @ ''/.tmp''" if "plain d" for d
    using path_join_plain [OF bs(1) bs(3), of "[d, ''.tmp'']"] that bs
    by (simp add: tempDirName_def abs_path_append)
  have rel: "path_rel (base p) (clean q) = Inr (join_with ''/'' (dir k # comps k))"
    using path_rel_below [OF bs(1) pl] bs(3) q by simp
  have cutd: "cut CHR ''/'' (join_with ''/'' (dir k # comps k)) = (dir k, join_with ''/'' (comps k), True)"
    using comps_ne [OF assms(2)] dir_plain [OF assms(2)] by (cases "comps k") (simp_all add: plain_def)
  have "join_with ''/'' (comps k) \<noteq> ''''"
    using comps_ne [OF assms(2)] comps_plain [OF assms(2)]
    by (cases "comps k"; cases "tl (comps k)") (auto simp: plain_def)
  then show "tempDirFor p q = Inr (base p @ ''/'' @ dir k @ ''/.tmp'')"
    using place_guard [OF assms(1-3)] assms(4) rel cutd tmp [OF dir_plain [OF assms(2)]]
    by (simp add: tempDirFor_def)
  show "base p @ ''/'' @ dir k @ ''/.tmp'' \<in> set (TempDirs p)"
    using assms(4) tmp [OF dir_plain [OF assms(2)]] by (force simp: TempDirs_def)
qed

lemma place_not_temp:
  assumes "rooted_store p" "valid k" "plain n"
  shows "place p k \<noteq> Inr (base p @ ''/'' @ dir k @ ''/.tmp/'' @ n)"
proof
  assume e: "place p k = Inr (base p @ ''/'' @ dir k @ ''/.tmp/'' @ n)"
  from assms(1) obtain bs where bs: "list_all plain bs" "bs \<noteq> []" "base p = abs_path bs"
    by (rule rooted_storeE)
  from e place_comps [OF assms(2) bs] bs
  have "abs_path (bs @ dir k # comps k) = abs_path (bs @ [dir k, ''.tmp'', n])"
    by (simp add: abs_path_append)
  then have "bs @ dir k # comps k = bs @ [dir k, ''.tmp'', n]"
    by (rule abs_path_inj [rotated 2])
      (use bs dir_plain [OF assms(2)] comps_plain [OF assms(2)] assms(3) in simp_all)
  then show False using comps_no_temp [OF assms(2)] by simp
qed

end

section \<open>The layouts of the store\<close>

text \<open>The components under the top-level directory, and the arguments for which they are what
  the builder produces.\<close>

definition shard_comps :: "string \<Rightarrow> string list" where
  "shard_comps i = [take 2 i, take 2 (drop 2 i), drop 4 i]"

type_synonym thumb_key = "int \<times> int \<times> string \<times> string"

definition thumb_name :: "thumb_key \<Rightarrow> string" where
  "thumb_name k = (case k of (w, h, t, m) \<Rightarrow>
     (case thumbnailFileName w h t m of Inl _ \<Rightarrow> '''' | Inr n \<Rightarrow> n))"

definition legacy_name :: "int \<times> int \<times> string \<Rightarrow> string" where
  "legacy_name k = (case k of (w, h, t) \<Rightarrow>
     (case legacyThumbnailFileName w h t of Inl _ \<Rightarrow> '''' | Inr n \<Rightarrow> n))"

text \<open>Thumbnail arguments whose file name determines them: sizes that are not negative, and no
  hyphen in the media type or the method.\<close>

definition clear_thumb :: "thumb_key \<Rightarrow> bool" where
  "clear_thumb k = (case k of (w, h, t, m) \<Rightarrow>
     is_ok (thumbnailFileName w h t m) \<and> 0 \<le> w \<and> 0 \<le> h \<and>
     CHR ''-'' \<notin> set t \<and> CHR ''-'' \<notin> set m)"

definition clear_legacy :: "int \<times> int \<times> string \<Rightarrow> bool" where
  "clear_legacy k = (case k of (w, h, t) \<Rightarrow>
     is_ok (legacyThumbnailFileName w h t) \<and> 0 \<le> w \<and> 0 \<le> h \<and> CHR ''-'' \<notin> set t)"

lemma show_int_no_hyphen: "0 \<le> w \<Longrightarrow> CHR ''-'' \<notin> set (show_int w)"
  using show_nat_digits not_digit_sign(1) by (fastforce simp: show_int_def)

lemma show_int_no_slash: "0 \<le> w \<Longrightarrow> CHR ''/'' \<notin> set (show_int w)"
  using show_nat_digits not_digit_sign(3) by (fastforce simp: show_int_def)

lemma clear_thumbE:
  assumes "clear_thumb (w, h, t, m)"
  obtains a b where "t = a @ CHR ''/'' # b" "CHR ''/'' \<notin> set a"
    "thumb_name (w, h, t, m) = join_with ''-'' [show_int w, show_int h, a, b, m]"
    "thumbnailFileName w h t m = Inr (thumb_name (w, h, t, m))"
    "\<forall>x \<in> set [show_int w, show_int h, a, b, m]. CHR ''-'' \<notin> set x"
proof -
  obtain a b ok where c: "cut CHR ''/'' t = (a, b, ok)" by (metis prod_cases3)
  from assms obtain n where n: "thumbnailFileName w h t m = Inr n"
    by (auto simp: clear_thumb_def is_ok_iff)
  with c have ok: "ok" and nn: "n = join_with ''-'' [show_int w, show_int h, a, b, m]"
    by (auto simp: thumbnailFileName_def Let_def split: if_splits sum.splits)
  from c ok have t: "t = a @ CHR ''/'' # b" "CHR ''/'' \<notin> set a"
    using cut_found by auto
  from assms have "0 \<le> w" "0 \<le> h" and hy: "CHR ''-'' \<notin> set t" "CHR ''-'' \<notin> set m"
    by (auto simp: clear_thumb_def)
  moreover have "thumb_name (w, h, t, m) = n" by (simp add: thumb_name_def n)
  ultimately show ?thesis
    using t n nn by (intro that [of a b]) (auto simp: show_int_no_hyphen)
qed

lemma clear_thumb_inj:
  assumes "clear_thumb k" "clear_thumb k'" "thumb_name k = thumb_name k'"
  shows "k = k'"
proof -
  obtain w h t m w' h' t' m' where k: "k = (w, h, t, m)" "k' = (w', h', t', m')"
    by (metis prod_cases4)
  from assms(1) k(1) obtain a b where ab: "t = a @ CHR ''/'' # b"
    "thumb_name k = join_with ''-'' [show_int w, show_int h, a, b, m]"
    "\<forall>x \<in> set [show_int w, show_int h, a, b, m]. CHR ''-'' \<notin> set x"
    using clear_thumbE by metis
  from assms(2) k(2) obtain c d where cd: "t' = c @ CHR ''/'' # d"
    "thumb_name k' = join_with ''-'' [show_int w', show_int h', c, d, m']"
    "\<forall>x \<in> set [show_int w', show_int h', c, d, m']. CHR ''-'' \<notin> set x"
    using clear_thumbE by metis
  have "[show_int w, show_int h, a, b, m] = [show_int w', show_int h', c, d, m']"
    using join_with_inj [OF _ _ _ ballI] assms(3) ab(2,3) cd(2,3) by (metis Un_iff list.discI)
  then show ?thesis using k ab(1) cd(1) show_int_inj by auto
qed

lemma clear_thumb_plain: "clear_thumb k \<Longrightarrow> plain (thumb_name k)"
  by (cases k) (metis clear_thumbE thumbnailFileName_plain)

lemma clear_legacyE:
  assumes "clear_legacy (w, h, t)"
  obtains a b where "t = a @ CHR ''/'' # b"
    "legacy_name (w, h, t) = join_with ''-'' [show_int w, show_int h, a, b]"
    "legacyThumbnailFileName w h t = Inr (legacy_name (w, h, t))"
    "\<forall>x \<in> set [show_int w, show_int h, a, b]. CHR ''-'' \<notin> set x"
proof -
  obtain a b ok where c: "cut CHR ''/'' t = (a, b, ok)" by (metis prod_cases3)
  from assms obtain n where n: "legacyThumbnailFileName w h t = Inr n"
    by (auto simp: clear_legacy_def is_ok_iff)
  with c have ok: "ok" and nn: "n = join_with ''-'' [show_int w, show_int h, a, b]"
    by (auto simp: legacyThumbnailFileName_def Let_def split: if_splits sum.splits)
  from c ok have t: "t = a @ CHR ''/'' # b"
    using cut_found by auto
  from assms have "0 \<le> w" "0 \<le> h" and hy: "CHR ''-'' \<notin> set t"
    by (auto simp: clear_legacy_def)
  moreover have "legacy_name (w, h, t) = n" by (simp add: legacy_name_def n)
  ultimately show ?thesis
    using t n nn by (intro that [of a b]) (auto simp: show_int_no_hyphen)
qed

lemma clear_legacy_inj:
  assumes "clear_legacy k" "clear_legacy k'" "legacy_name k = legacy_name k'"
  shows "k = k'"
proof -
  obtain w h t w' h' t' where k: "k = (w, h, t)" "k' = (w', h', t')"
    by (metis prod_cases3)
  from assms(1) k(1) obtain a b where ab: "t = a @ CHR ''/'' # b"
    "legacy_name k = join_with ''-'' [show_int w, show_int h, a, b]"
    "\<forall>x \<in> set [show_int w, show_int h, a, b]. CHR ''-'' \<notin> set x"
    using clear_legacyE by metis
  from assms(2) k(2) obtain c d where cd: "t' = c @ CHR ''/'' # d"
    "legacy_name k' = join_with ''-'' [show_int w', show_int h', c, d]"
    "\<forall>x \<in> set [show_int w', show_int h', c, d]. CHR ''-'' \<notin> set x"
    using clear_legacyE by metis
  have "[show_int w, show_int h, a, b] = [show_int w', show_int h', c, d]"
    using join_with_inj [OF _ _ _ ballI] assms(3) ab(2,3) cd(2,3) by (metis Un_iff list.discI)
  then show ?thesis using k ab(1) cd(1) show_int_inj by auto
qed

lemma clear_legacy_plain: "clear_legacy k \<Longrightarrow> plain (legacy_name k)"
  by (cases k) (metis clear_legacyE legacyThumbnailFileName_plain)

text \<open>The old and the new spelling of a remote thumbnail are never the same file.\<close>

lemma thumb_name_ne_legacy:
  assumes "clear_thumb k" "clear_legacy l"
  shows "thumb_name k \<noteq> legacy_name l"
proof
  assume eq: "thumb_name k = legacy_name l"
  obtain w h t m where k: "k = (w, h, t, m)" by (metis prod_cases4)
  obtain w' h' t' where l: "l = (w', h', t')" by (metis prod_cases3)
  from assms(1) k obtain a b where ab:
    "thumb_name k = join_with ''-'' [show_int w, show_int h, a, b, m]"
    "\<forall>x \<in> set [show_int w, show_int h, a, b, m]. CHR ''-'' \<notin> set x"
    using clear_thumbE by metis
  from assms(2) l obtain c d where cd:
    "legacy_name l = join_with ''-'' [show_int w', show_int h', c, d]"
    "\<forall>x \<in> set [show_int w', show_int h', c, d]. CHR ''-'' \<notin> set x"
    using clear_legacyE by metis
  have "[show_int w, show_int h, a, b, m] = [show_int w', show_int h', c, d]"
    using join_with_inj [OF _ _ _ ballI] eq ab cd by (metis Un_iff list.discI)
  then show False by simp
qed

text \<open>Where a builder's checks succeed on plain components, it returns exactly their path.\<close>

lemma shard_comps_plain: "tame i \<Longrightarrow> list_all plain (shard_comps i)"
  using tame_shard(2) by (simp add: shard_comps_def)

lemma shard_comps_inj: "tame i \<Longrightarrow> tame j \<Longrightarrow> shard_comps i = shard_comps j \<Longrightarrow> i = j"
  unfolding shard_comps_def by (rule tame_inj)

lemma shard_comps_ne [simp]: "shard_comps i \<noteq> []" "length (shard_comps i) = 3"
  by (simp_all add: shard_comps_def)

lemma tame_valid: "tame i \<Longrightarrow> validatePathComponent i = Inr ()"
  by (auto simp: tame_def is_ok_iff shard_ok)

definition valid_server :: "string \<Rightarrow> bool" where
  "valid_server s \<longleftrightarrow> is_ok (validatePathComponent s)"

lemma valid_server_plain: "valid_server s \<Longrightarrow> plain s"
  by (auto simp: valid_server_def is_ok_iff intro: valid_plain)

lemma valid_server_ok: "valid_server s \<Longrightarrow> validatePathComponent s = Inr ()"
  by (auto simp: valid_server_def is_ok_iff)

lemma thumb_file_ok: "clear_thumb (w, h, t, m) \<Longrightarrow>
    thumbnailFileName w h t m = Inr (thumb_name (w, h, t, m))"
  by (metis clear_thumbE)

lemma legacy_file_ok: "clear_legacy (w, h, t) \<Longrightarrow>
    legacyThumbnailFileName w h t = Inr (legacy_name (w, h, t))"
  by (metis clear_legacyE)

interpretation local_media: media_layout LocalMedia tame "\<lambda>_. ''local_content''" shard_comps
proof (unfold_locales, goal_cases)
  case (6 k bs p)
  then show ?case
    using join_plain [OF 6(2-4), of "''local_content'' # shard_comps k"] shard_comps_plain [OF 6(1)]
    by (simp add: LocalMedia_def tame_shard(1) shard_comps_def)
qed (simp_all add: shard_comps_plain shard_comps_inj, simp_all add: shard_comps_def)

interpretation local_thumb: media_layout
  "\<lambda>p (i, w, h, t, m). LocalThumbnail p i w h t m"
  "\<lambda>(i, k). tame i \<and> clear_thumb k" "\<lambda>_. ''local_thumbnails''"
  "\<lambda>(i, k). shard_comps i @ [thumb_name k]"
proof (unfold_locales, goal_cases)
  case (3 k k')
  then show ?case
    using shard_comps_inj clear_thumb_inj by (cases k; cases k') auto
next
  case (6 k bs p)
  obtain i w h t m where k: "k = (i, w, h, t, m)" by (metis prod_cases5)
  with 6(1) have v: "tame i" "clear_thumb (w, h, t, m)" by auto
  show ?case
    using join_plain [OF 6(2-4), of "''local_thumbnails'' # shard_comps i @ [thumb_name (w, h, t, m)]"]
      shard_comps_plain [OF v(1)] clear_thumb_plain [OF v(2)]
    by (simp add: k LocalThumbnail_def tame_shard(1) [OF v(1)] thumb_file_ok [OF v(2)] shard_comps_def)
qed (auto simp: shard_comps_plain clear_thumb_plain, simp_all add: shard_comps_def)

interpretation remote_media: media_layout
  "\<lambda>p (s, f). RemoteMedia p s f" "\<lambda>(s, f). valid_server s \<and> tame f" "\<lambda>_. ''remote_content''"
  "\<lambda>(s, f). s # shard_comps f"
proof (unfold_locales, goal_cases)
  case (3 k k')
  then show ?case using shard_comps_inj by (cases k; cases k') auto
next
  case (6 k bs p)
  obtain s f where k: "k = (s, f)" by (cases k)
  with 6(1) have v: "valid_server s" "tame f" by auto
  show ?case
    using join_plain [OF 6(2-4), of "''remote_content'' # s # shard_comps f"]
      shard_comps_plain [OF v(2)] valid_server_plain [OF v(1)]
    by (simp add: k RemoteMedia_def valid_server_ok [OF v(1)] tame_shard(1) [OF v(2)] shard_comps_def)
qed (auto simp: shard_comps_plain valid_server_plain, simp_all add: shard_comps_def)

text \<open>\<^verbatim>\<open>remoteThumbnailDir\<close> joins its components into one relative path, which \<^verbatim>\<open>join\<close> takes apart
  again.\<close>

lemma clean_relative_plain:
  "xs \<noteq> [] \<Longrightarrow> list_all plain xs \<Longrightarrow> clean (join_with ''/'' xs) = join_with ''/'' xs"
proof -
  assume xs: "xs \<noteq> []" "list_all plain xs"
  then have "hd xs \<noteq> ''''" "CHR ''/'' \<notin> set (hd xs)"
    by (cases xs; simp add: plain_def)+
  with join_with_hd [OF xs(1)] have "\<not> is_abs (join_with ''/'' xs)"
    by (metis hd_in_set is_abs_iff list.sel(1))
  moreover have "split_on CHR ''/'' (join_with ''/'' xs) = xs"
    using xs by (intro split_on_join) (auto simp: plain_def list_all_iff)
  ultimately show ?thesis using xs by (simp add: clean_def Let_def norm_comps_plain)
qed

lemma remoteThumbnailDir_ok:
  assumes "valid_server s" "tame f"
  shows "remoteThumbnailDir s f = Inr (join_with ''/'' (''remote_thumbnail'' # s # shard_comps f))"
proof -
  have "path_join (''remote_thumbnail'' # s # shard_comps f) =
      join_with ''/'' (''remote_thumbnail'' # s # shard_comps f)"
    using clean_relative_plain [of "''remote_thumbnail'' # s # shard_comps f"]
      shard_comps_plain [OF assms(2)] valid_server_plain [OF assms(1)]
    by (simp add: path_join_def)
  then show ?thesis
    by (simp add: remoteThumbnailDir_def valid_server_ok [OF assms(1)] tame_shard(1) [OF assms(2)]
        shard_comps_def)
qed

lemma join_dir:
  assumes "list_all plain bs" "bs \<noteq> []" "base p = abs_path bs"
    and "list_all plain (n # xs)"
  shows "join p [join_with ''/'' (n # xs), m] = join p (n # xs @ [m])"
proof -
  have one: "split_on CHR ''/'' (join_with ''/'' (n # xs)) = n # xs"
    using assms(4) by (intro split_on_join) (auto simp: plain_def list_all_iff)
  have all: "concat (map (split_on CHR ''/'') (n # xs)) = n # xs"
    using assms(4) by (induction xs arbitrary: n) (auto simp: split_on_absent plain_def)
  have "concat (map (split_on CHR ''/'') [join_with ''/'' (n # xs), m]) =
      concat (map (split_on CHR ''/'') ((n # xs) @ [m]))"
    unfolding map_append concat_append all by (simp only: list.map concat.simps one append_Nil2)
  then have "path_join (base p # [join_with ''/'' (n # xs), m]) =
      path_join (base p # ((n # xs) @ [m]))"
    unfolding path_join_rooted [OF assms(1,3)] by (rule arg_cong)
  then show ?thesis unfolding join_def by (simp only: append_Cons)
qed

interpretation remote_thumb: media_layout
  "\<lambda>p (s, f, w, h, t, m). RemoteThumbnail p s f w h t m"
  "\<lambda>(s, f, k). valid_server s \<and> tame f \<and> clear_thumb k" "\<lambda>_. ''remote_thumbnail''"
  "\<lambda>(s, f, k). s # shard_comps f @ [thumb_name k]"
proof (unfold_locales, goal_cases)
  case (3 k k')
  then show ?case
    using shard_comps_inj clear_thumb_inj by (cases k; cases k') (auto simp: shard_comps_def)
next
  case (6 k bs p)
  obtain s f w h t m where k: "k = (s, f, w, h, t, m)" by (metis prod_cases6)
  with 6(1) have v: "valid_server s" "tame f" "clear_thumb (w, h, t, m)" by auto
  have pl: "list_all plain (''remote_thumbnail'' # s # shard_comps f)"
    using shard_comps_plain [OF v(2)] valid_server_plain [OF v(1)] by simp
  show ?case
    using join_plain [OF 6(2-4), of "''remote_thumbnail'' # s # shard_comps f @ [thumb_name (w, h, t, m)]"]
      pl clear_thumb_plain [OF v(3)] join_dir [OF 6(2-4) pl]
    by (simp add: k RemoteThumbnail_def remoteThumbnailDir_ok [OF v(1,2)] thumb_file_ok [OF v(3)])
qed (auto simp: shard_comps_plain clear_thumb_plain valid_server_plain)

interpretation remote_legacy: media_layout
  "\<lambda>p (s, f, w, h, t). RemoteThumbnailLegacy p s f w h t"
  "\<lambda>(s, f, k). valid_server s \<and> tame f \<and> clear_legacy k" "\<lambda>_. ''remote_thumbnail''"
  "\<lambda>(s, f, k). s # shard_comps f @ [legacy_name k]"
proof (unfold_locales, goal_cases)
  case (3 k k')
  then show ?case
    using shard_comps_inj clear_legacy_inj by (cases k; cases k') (auto simp: shard_comps_def)
next
  case (6 k bs p)
  obtain s f w h t where k: "k = (s, f, w, h, t)" by (metis prod_cases5)
  with 6(1) have v: "valid_server s" "tame f" "clear_legacy (w, h, t)" by auto
  have pl: "list_all plain (''remote_thumbnail'' # s # shard_comps f)"
    using shard_comps_plain [OF v(2)] valid_server_plain [OF v(1)] by simp
  show ?case
    using join_plain [OF 6(2-4), of "''remote_thumbnail'' # s # shard_comps f @ [legacy_name (w, h, t)]"]
      pl clear_legacy_plain [OF v(3)] join_dir [OF 6(2-4) pl]
    by (simp add: k RemoteThumbnailLegacy_def remoteThumbnailDir_ok [OF v(1,2)] legacy_file_ok [OF v(3)])
qed (auto simp: shard_comps_plain clear_legacy_plain valid_server_plain)

text \<open>URL previews: IDs with a date are filed under it, older ones in shards.\<close>

definition url_comps :: "string \<Rightarrow> string list" where
  "url_comps i = (if newFormatIDRe i then [take 10 i, drop 11 i] else shard_comps i)"

definition url_id :: "string \<Rightarrow> bool" where
  "url_id i \<longleftrightarrow>
     (if newFormatIDRe i
      then is_ok (validatePathComponent i) \<and> 12 \<le> length i \<and> i ! 10 = CHR ''-''
        \<and> drop 11 i \<noteq> ''.'' \<and> drop 11 i \<noteq> ''..''
      else tame i)"

lemma url_comps_plain: "url_id i \<Longrightarrow> list_all plain (url_comps i)"
proof -
  assume u: "url_id i"
  show ?thesis
  proof (cases "newFormatIDRe i")
    case True
    with u have v: "validatePathComponent i = Inr ()" "12 \<le> length i"
      by (auto simp: url_id_def is_ok_iff)
    from True v(2) have d: "take 10 i \<noteq> ''''" "take 10 i \<noteq> ''.''" "take 10 i \<noteq> ''..''"
      by (auto dest!: arg_cong [where f = length])
    from v(2) have "drop 11 i \<noteq> ''''" by simp
    moreover from v(1) have "CHR ''/'' \<notin> set i" using valid_plain plain_def by blast
    ultimately show ?thesis
      using True u d by (auto simp: url_comps_def url_id_def plain_def dest: in_set_takeD in_set_dropD)
  qed (use u in \<open>simp add: url_comps_def url_id_def shard_comps_plain\<close>)
qed

lemma url_comps_inj:
  assumes "url_id i" "url_id j" "url_comps i = url_comps j"
  shows "i = j"
proof -
  have len: "length (url_comps k) = (if newFormatIDRe k then 2 else 3)" for k
    by (simp add: url_comps_def)
  from assms(3) len have f: "newFormatIDRe i \<longleftrightarrow> newFormatIDRe j"
    by (metis numeral_eq_iff semiring_norm(89) verit_eq_simplify(10))
  show ?thesis
  proof (cases "newFormatIDRe i")
    case True
    with f assms have "take 10 i = take 10 j" "drop 11 i = drop 11 j" "i ! 10 = j ! 10"
      "10 < length i" "10 < length j"
      by (auto simp: url_comps_def url_id_def)
    moreover have "k = take 10 k @ k ! 10 # drop 11 k" if "10 < length k" for k :: string
      using id_take_nth_drop [OF that] by simp
    ultimately show ?thesis by metis
  next
    case False
    with f assms show ?thesis by (auto simp: url_comps_def url_id_def intro: shard_comps_inj)
  qed
qed

lemma url_comps_short: "url_id i \<Longrightarrow> url_comps i \<noteq> [''.tmp'', n]"
proof
  assume u: "url_id i" and e: "url_comps i = [''.tmp'', n]"
  then show False
  proof (cases "newFormatIDRe i")
    case True
    with e have "take 10 i = ''.tmp''" by (simp add: url_comps_def)
    then have "length (take 10 i) = 4" by simp
    with True u show False by (simp add: url_id_def)
  next
    case False
    then have "length (url_comps i) = 3" by (simp add: url_comps_def)
    moreover from e have "length (url_comps i) = 2" by simp
    ultimately show False by linarith
  qed
qed

lemma url_comps_ne: "url_comps i \<noteq> []"
  by (simp add: url_comps_def)

text \<open>What both builders of the section do once the ID is accepted.\<close>

lemma url_id_cases:
  assumes "url_id i"
  shows "validatePathComponent i = Inr ()"
    and "newFormatIDRe i \<Longrightarrow> \<not> length i < 12"
    and "\<not> newFormatIDRe i \<Longrightarrow> shard i = Inr (take 2 i, take 2 (drop 2 i), drop 4 i)"
  using assms by (auto simp: url_id_def is_ok_iff tame_shard(1) tame_valid split: if_splits)

interpretation url_media: media_layout URLCache url_id "\<lambda>_. ''url_cache''" url_comps
proof (unfold_locales, goal_cases)
  case (6 k bs p)
  have "join p (''url_cache'' # url_comps k) = Inr (abs_path (bs @ ''url_cache'' # url_comps k))"
    using join_plain [OF 6(2-4)] url_comps_plain [OF 6(1)] by simp
  then show ?case
    using url_id_cases [OF 6(1)]
    by (cases "newFormatIDRe k") (simp_all add: URLCache_def url_comps_def shard_comps_def)
qed (simp_all add: url_comps_plain url_comps_inj url_comps_ne url_comps_short)

interpretation url_thumb: media_layout
  "\<lambda>p (i, w, h, t, m). URLCacheThumbnail p i w h t m"
  "\<lambda>(i, k). url_id i \<and> clear_thumb k" "\<lambda>_. ''url_cache_thumbnails''"
  "\<lambda>(i, k). url_comps i @ [thumb_name k]"
proof (unfold_locales, goal_cases)
  case (3 k k')
  then show ?case
    using url_comps_inj clear_thumb_inj by (cases k; cases k') auto
next
  case (6 k bs p)
  obtain i w h t m where k: "k = (i, w, h, t, m)" by (metis prod_cases5)
  with 6(1) have v: "url_id i" "clear_thumb (w, h, t, m)" by auto
  have "join p (''url_cache_thumbnails'' # url_comps i @ [thumb_name (w, h, t, m)]) =
      Inr (abs_path (bs @ ''url_cache_thumbnails'' # url_comps i @ [thumb_name (w, h, t, m)]))"
    using join_plain [OF 6(2-4)] url_comps_plain [OF v(1)] clear_thumb_plain [OF v(2)] by simp
  then show ?case
    using url_id_cases [OF v(1)]
    by (cases "newFormatIDRe i")
      (simp_all add: k URLCacheThumbnail_def url_comps_def shard_comps_def thumb_file_ok [OF v(2)])
next
  case (5 k n)
  obtain i j where k: "k = (i, j)" by (cases k)
  have "length (url_comps i) \<ge> 2" by (simp add: url_comps_def)
  then show ?case by (auto simp: k dest: arg_cong [where f = length])
qed (auto simp: url_comps_plain clear_thumb_plain)

section \<open>All media of the store\<close>

text \<open>Every kind of file the worker has a path for, by the arguments of its builder.\<close>

datatype medium =
    LocalFile string
  | LocalThumb string int int string string
  | RemoteFile string string
  | RemoteThumb string string int int string string
  | RemoteThumbOld string string int int string
  | UrlFile string
  | UrlThumb string int int string string

fun medium_path :: "MediaPaths \<Rightarrow> medium \<Rightarrow> string res" where
  "medium_path p (LocalFile i) = LocalMedia p i"
| "medium_path p (LocalThumb i w h t m) = LocalThumbnail p i w h t m"
| "medium_path p (RemoteFile s f) = RemoteMedia p s f"
| "medium_path p (RemoteThumb s f w h t m) = RemoteThumbnail p s f w h t m"
| "medium_path p (RemoteThumbOld s f w h t) = RemoteThumbnailLegacy p s f w h t"
| "medium_path p (UrlFile i) = URLCache p i"
| "medium_path p (UrlThumb i w h t m) = URLCacheThumbnail p i w h t m"

text \<open>Media whose IDs are ordinary: no shard is a dot or two dots, and thumbnails whose name can
  be read back.\<close>

fun ordinary :: "medium \<Rightarrow> bool" where
  "ordinary (LocalFile i) = tame i"
| "ordinary (LocalThumb i w h t m) = (tame i \<and> clear_thumb (w, h, t, m))"
| "ordinary (RemoteFile s f) = (valid_server s \<and> tame f)"
| "ordinary (RemoteThumb s f w h t m) = (valid_server s \<and> tame f \<and> clear_thumb (w, h, t, m))"
| "ordinary (RemoteThumbOld s f w h t) = (valid_server s \<and> tame f \<and> clear_legacy (w, h, t))"
| "ordinary (UrlFile i) = url_id i"
| "ordinary (UrlThumb i w h t m) = (url_id i \<and> clear_thumb (w, h, t, m))"

fun medium_dir :: "medium \<Rightarrow> string" where
  "medium_dir (LocalFile _) = ''local_content''"
| "medium_dir (LocalThumb _ _ _ _ _) = ''local_thumbnails''"
| "medium_dir (RemoteFile _ _) = ''remote_content''"
| "medium_dir (RemoteThumb _ _ _ _ _ _) = ''remote_thumbnail''"
| "medium_dir (RemoteThumbOld _ _ _ _ _) = ''remote_thumbnail''"
| "medium_dir (UrlFile _) = ''url_cache''"
| "medium_dir (UrlThumb _ _ _ _ _) = ''url_cache_thumbnails''"

fun medium_comps :: "medium \<Rightarrow> string list" where
  "medium_comps (LocalFile i) = shard_comps i"
| "medium_comps (LocalThumb i w h t m) = shard_comps i @ [thumb_name (w, h, t, m)]"
| "medium_comps (RemoteFile s f) = s # shard_comps f"
| "medium_comps (RemoteThumb s f w h t m) = s # shard_comps f @ [thumb_name (w, h, t, m)]"
| "medium_comps (RemoteThumbOld s f w h t) = s # shard_comps f @ [legacy_name (w, h, t)]"
| "medium_comps (UrlFile i) = url_comps i"
| "medium_comps (UrlThumb i w h t m) = url_comps i @ [thumb_name (w, h, t, m)]"

lemma medium_path_comps:
  assumes "ordinary x" "list_all plain bs" "bs \<noteq> []" "base p = abs_path bs"
  shows "medium_path p x = Inr (abs_path (bs @ medium_dir x # medium_comps x))"
  using assms(1)
    local_media.place_comps [OF _ assms(2-4)] local_thumb.place_comps [OF _ assms(2-4)]
    remote_media.place_comps [OF _ assms(2-4)] remote_thumb.place_comps [OF _ assms(2-4)]
    remote_legacy.place_comps [OF _ assms(2-4)] url_media.place_comps [OF _ assms(2-4)]
    url_thumb.place_comps [OF _ assms(2-4)]
  by (cases x) auto

lemma medium_comps_plain: "ordinary x \<Longrightarrow> list_all plain (medium_comps x)"
  by (cases x) (auto simp: shard_comps_plain valid_server_plain clear_thumb_plain
      clear_legacy_plain url_comps_plain)

lemma medium_comps_ne: "medium_comps x \<noteq> []"
  by (cases x) (simp_all add: url_comps_ne)

lemma medium_dir_plain [simp]: "plain (medium_dir x)"
  by (cases x) auto

lemma medium_comps_inj:
  assumes "ordinary x" "ordinary y" "medium_dir x = medium_dir y" "medium_comps x = medium_comps y"
  shows "x = y"
proof -
  have sh: "shard_comps i = shard_comps j \<longleftrightarrow> i = j" if "tame i" "tame j" for i j
    using that shard_comps_inj by blast
  have ur: "url_comps i = url_comps j \<longleftrightarrow> i = j" if "url_id i" "url_id j" for i j
    using that url_comps_inj by blast
  have th: "thumb_name k = thumb_name l \<longleftrightarrow> k = l" if "clear_thumb k" "clear_thumb l" for k l
    using that clear_thumb_inj by blast
  have le: "legacy_name k = legacy_name l \<longleftrightarrow> k = l" if "clear_legacy k" "clear_legacy l" for k l
    using that clear_legacy_inj by blast
  have ne: "thumb_name k \<noteq> legacy_name l" "legacy_name l \<noteq> thumb_name k"
    if "clear_thumb k" "clear_legacy l" for k l
    using that thumb_name_ne_legacy [of k l] by metis+
  show ?thesis
    using assms by (cases x; cases y) (simp_all add: sh ur th le ne)
qed



interpretation store: media_layout medium_path ordinary medium_dir medium_comps
proof (unfold_locales, goal_cases)
  case (5 k n)
  then show ?case
    using url_comps_short by (cases k) (auto dest: arg_cong [where f = length] simp: url_comps_def)
qed (simp_all add: medium_comps_plain medium_comps_inj medium_comps_ne medium_path_comps)

section \<open>Properties\<close>

definition sample_store :: MediaPaths where
  "sample_store = NewMediaPaths None ''/data/media_store''"

lemma sample_base: "base sample_store = abs_path [''data'', ''media_store'']"
  by (simp add: sample_store_def NewMediaPaths_def cleanAbs_def path_abs_def is_abs_def
      has_prefix_def clean_def Let_def abs_path_def)

lemma sample_rooted: "rooted_store sample_store" "rooted_store (AllowUploadWrites sample_store)"
  using sample_base
  by (auto simp: AllowUploadWrites_def plain_def
      intro!: rooted_store_abs_path [of "[''data'', ''media_store'']"])

lemma sample_media:
  "ordinary (RemoteFile ''example.org:8448'' ''abcdefghij'')"
  "ordinary (LocalFile ''abcdefghij'')"
  "ordinary (UrlFile ''2017-09-28-fsdRDt24DS'')"
  by (simp_all add: valid_server_def tame_def shard_def validatePathComponent_def
      validPathComponentChar_def url_id_def newFormatIDRe_def is_digit_def)

text \<open>Every path builder, on an ordinary ID, returns exactly the bytes of Synapse's layout: the
  base, the top-level directory of the kind of medium, and the components of the ID.\<close>

theorem medium_path_exact:
  assumes "rooted_store p" "ordinary x"
  shows "medium_path p x =
    Inr (base p @ ''/'' @ medium_dir x @ ''/'' @ join_with ''/'' (medium_comps x))"
  using assms by (rule store.place_path)

theorem medium_path_exact_witness:
  "medium_path sample_store (RemoteFile ''example.org:8448'' ''abcdefghij'') =
   Inr ''/data/media_store/remote_content/example.org:8448/ab/cd/efghij''"
  using medium_path_exact [OF sample_rooted(1) sample_media(1)]
  by (simp add: sample_base abs_path_def shard_comps_def)



text \<open>C26: whatever the IDs, server names, sizes and types, ordinary or hostile, a builder that
  returns a path returns a clean one at or below the base of the store.\<close>

theorem medium_path_jailed:
  assumes "rooted_store p" "medium_path p x = Inr q"
  shows "inside p q"
  using assms(2) join_inside [OF assms(1)]
  by (cases x) (auto simp: LocalMedia_def LocalThumbnail_def RemoteMedia_def RemoteThumbnail_def
      RemoteThumbnailLegacy_def URLCache_def URLCacheThumbnail_def
      split: sum.splits prod.splits if_splits)

theorem medium_path_jailed_witness:
  "inside sample_store ''/data/media_store/local_content''"
  by (rule medium_path_jailed [OF sample_rooted(1),
        where x = "RemoteFile ''example.org'' ''....local_content''"])
    (simp add: sample_base abs_path_def RemoteMedia_def shard_def validatePathComponent_def
      validPathComponentChar_def join_def path_join_def clean_def Let_def is_abs_def has_prefix_def)

text \<open>But the check of an ID does not look at its shards: a remote filesystem ID that begins
  with four dots leaves the directory of its server and names an entry of the base itself. The
  jail check is what stops such an ID, not \<^verbatim>\<open>validatePathComponent\<close>.\<close>

theorem RemoteMedia_dots:
  assumes "rooted_store p" "valid_server s" "valid_server r"
  shows "RemoteMedia p s (''....'' @ r) = Inr (base p @ ''/'' @ r)"
proof -
  from assms(1) obtain bs where bs: "list_all plain bs" "bs \<noteq> []" "base p = abs_path bs"
    by (rule rooted_storeE)
  have pl: "plain s" "plain r" using assms valid_server_plain by auto
  from assms(3) have "r \<noteq> ''''" "list_all validPathComponentChar r"
    by (auto simp: valid_server_def is_ok_iff validatePathComponent_ok)
  then have sh: "shard (''....'' @ r) = Inr (''..'', ''..'', r)"
    by (cases r) (auto simp: shard_ok validatePathComponent_ok validPathComponentChar_def)
  have "concat (map (split_on CHR ''/'') [''remote_content'', s, ''..'', ''..'', r]) =
      [''remote_content'', s, ''..'', ''..'', r]"
    using pl by (simp add: split_on_absent plain_def)
  moreover have "norm_comps True (rev bs) [''remote_content'', s, ''..'', ''..'', r] = bs @ [r]"
    using pl by (simp add: plain_def)
  ultimately have "join p [''remote_content'', s, ''..'', ''..'', r] = Inr (abs_path (bs @ [r]))"
    using join_cases(1) [OF bs, of "[''remote_content'', s, ''..'', ''..'', r]"] by (simp only: simp_thms) auto
  then show ?thesis
    using bs sh by (simp add: RemoteMedia_def valid_server_ok [OF assms(2)] abs_path_append)
qed

theorem RemoteMedia_dots_witness:
  "RemoteMedia sample_store ''example.org'' ''....local_content'' =
   Inr ''/data/media_store/local_content''"
  using RemoteMedia_dots [OF sample_rooted(1), of "''example.org''" "''local_content''"]
  by (simp add: sample_base abs_path_def valid_server_def validatePathComponent_def
      validPathComponentChar_def)



text \<open>And whatever path it is asked about, plain or with dots, a path the guard admits is below one
  of the directories it lists: nothing outside the store, and nothing under the previews.\<close>

theorem write_guard_sound:
  assumes "rooted_store p" "WritablePath p q = Inr ()"
  shows "\<exists>d rest. clean q = base p @ ''/'' @ d @ rest \<and> (rest = '''' \<or> has_prefix ''/'' rest) \<and>
    (d \<in> {''remote_content'', ''remote_thumbnail''} \<or>
     uploadsAllowed p \<and> d \<in> {''local_content'', ''local_thumbnails''})"
proof -
  from WritablePath_inside [OF assms] obtain bs d cs where
    h: "list_all plain bs" "bs \<noteq> []" "base p = abs_path bs" "clean q = abs_path (bs @ d # cs)"
      "d \<in> set (writablePrefixes p)"
    by metis
  let ?rest = "if cs = [] then '''' else CHR ''/'' # join_with ''/'' cs"
  have "clean q = base p @ ''/'' @ d @ ?rest"
    using h by (cases cs) (simp_all add: abs_path_append)
  moreover have "?rest = '''' \<or> has_prefix ''/'' ?rest" by (simp add: has_prefix_def)
  moreover have "d \<in> {''remote_content'', ''remote_thumbnail''} \<or>
      uploadsAllowed p \<and> d \<in> {''local_content'', ''local_thumbnails''}"
    using h(5) by (auto simp: writablePrefixes_def remoteWritablePrefixes_def
        uploadWritablePrefixes_def split: if_splits)
  ultimately show ?thesis by (intro exI [of _ d] exI [of _ ?rest] conjI)
qed

theorem write_guard_sound_witness:
  "\<exists>d rest. clean ''/data/media_store/x/../remote_content/y'' = base sample_store @ ''/'' @ d @ rest \<and>
    (rest = '''' \<or> has_prefix ''/'' rest) \<and>
    (d \<in> {''remote_content'', ''remote_thumbnail''} \<or>
     uploadsAllowed sample_store \<and> d \<in> {''local_content'', ''local_thumbnails''})"
proof (rule write_guard_sound [OF sample_rooted(1)])
  have "clean ''/data/media_store/x/../remote_content/y'' =
      abs_path ([''data'', ''media_store''] @ ''remote_content'' # [''y''])"
    by (simp add: clean_def Let_def abs_path_def is_abs_def has_prefix_def)
  then show "WritablePath sample_store ''/data/media_store/x/../remote_content/y'' = Inr ()"
    using WritablePath_components [OF _ _ sample_base, of "''remote_content''" "[''y'']"]
    by (simp add: plain_def writablePrefixes_def remoteWritablePrefixes_def)
qed

text \<open>A write that ends at a medium's path goes through a temporary directory that the start-up
  sweep lists, in the same top-level directory as the medium, and no medium's path is a file of
  that directory.\<close>

theorem temp_files_apart:
  assumes "rooted_store p" "ordinary x" "medium_path p x = Inr q" "WritablePath p q = Inr ()"
  shows "tempDirFor p q = Inr (base p @ ''/'' @ medium_dir x @ ''/.tmp'') \<and>
    base p @ ''/'' @ medium_dir x @ ''/.tmp'' \<in> set (TempDirs p) \<and>
    (\<forall>n. plain n \<longrightarrow> q \<noteq> base p @ ''/'' @ medium_dir x @ ''/.tmp/'' @ n)"
  using store.place_guard [OF assms(1-3)] store.place_temp [OF assms(1-3)]
    store.place_not_temp [OF assms(1,2)] assms(3,4)
  by auto

theorem temp_files_apart_witness:
  "tempDirFor (AllowUploadWrites sample_store) ''/data/media_store/local_content/ab/cd/efghij'' =
   Inr ''/data/media_store/local_content/.tmp''"
proof -
  let ?p = "AllowUploadWrites sample_store"
  have q: "medium_path ?p (LocalFile ''abcdefghij'') = Inr ''/data/media_store/local_content/ab/cd/efghij''"
    using local_media.place_path [OF sample_rooted(2), of "''abcdefghij''"] sample_media(2)
    by (simp add: AllowUploadWrites_def sample_base abs_path_def shard_comps_def)
  then have "WritablePath ?p ''/data/media_store/local_content/ab/cd/efghij'' = Inr ()"
    using local_media.place_guard [OF sample_rooted(2), of "''abcdefghij''"] sample_media(2)
    by (simp add: AllowUploadWrites_def writablePrefixes_def uploadWritablePrefixes_def)
  then show ?thesis
    using temp_files_apart [OF sample_rooted(2) sample_media(2) q]
    by (simp add: AllowUploadWrites_def sample_base abs_path_def)
qed

end
