(* ===== verification/Fsid.thy ===== *)
theory Fsid
  imports Paths
begin

text \<open>
  src/fsid.go: the random ID Synapse gives to remote media, which the worker also uses as the
  media ID of an upload. The system's random source is the list of the numbers it will yield;
  \<open>None\<close> in it, or its end, is a read that fails, on which the code panics.
\<close>

definition fsidAlphabet :: string where
  "fsidAlphabet = ''abcdefghijklmnopqrstuvwxyzABCDEFGHIJKLMNOPQRSTUVWXYZ''"

definition fsidLength :: nat where
  "fsidLength = 24"

text \<open>\<^verbatim>\<open>rand.Int(rand.Reader, max)\<close>: a number below \<open>max\<close>.\<close>

definition rand_int :: "nat \<Rightarrow> nat option \<Rightarrow> nat option" where
  "rand_int m d = map_option (\<lambda>n. n mod m) d"

text \<open>The loop over the bytes of the buffer. \<open>None\<close> is the panic.\<close>

fun fsid_loop :: "nat \<Rightarrow> nat option list \<Rightarrow> (string \<times> nat option list) option" where
  "fsid_loop 0 ds = Some ([], ds)"
| "fsid_loop (Suc k) [] = None"
| "fsid_loop (Suc k) (d # ds) =
     (case rand_int (length fsidAlphabet) d of
        None \<Rightarrow> None
      | Some n \<Rightarrow>
          (case fsid_loop k ds of
             None \<Rightarrow> None
           | Some (s, rest) \<Rightarrow> Some (fsidAlphabet ! n # s, rest)))"

definition newFilesystemID :: "nat option list \<Rightarrow> (string \<times> nat option list) option" where
  "newFilesystemID ds = fsid_loop fsidLength ds"

section \<open>The IDs that can result\<close>

definition fsid_like :: "string \<Rightarrow> bool" where
  "fsid_like i \<longleftrightarrow> length i = fsidLength \<and> set i \<subseteq> set fsidAlphabet"

lemma fsid_loop_sound:
  "fsid_loop k ds = Some (s, rest) \<Longrightarrow>
   length s = k \<and> set s \<subseteq> set fsidAlphabet \<and> length ds = k + length rest \<and> rest = drop k ds"
proof (induction k ds arbitrary: s rule: fsid_loop.induct)
  case (3 k d ds)
  then obtain n s' where n: "rand_int (length fsidAlphabet) d = Some n"
    and s': "fsid_loop k ds = Some (s', rest)" "s = fsidAlphabet ! n # s'"
    by (auto split: option.splits)
  have "0 < length fsidAlphabet" by (simp add: fsidAlphabet_def)
  with n have "n < length fsidAlphabet" by (auto simp: rand_int_def)
  then have "fsidAlphabet ! n \<in> set fsidAlphabet" by (rule nth_mem)
  moreover note ih = "3.IH" [OF n s'(1)]
  ultimately have "length s = Suc k" "set s \<subseteq> set fsidAlphabet"
    by (simp_all add: s'(2))
  moreover have "length (d # ds) = Suc k + length rest" using ih by (simp only: list.size)
  moreover have "rest = drop (Suc k) (d # ds)" unfolding drop_Suc_Cons using ih by (elim conjE)
  ultimately show ?case by (intro conjI)
qed auto

lemma fsid_loop_complete:
  "set s \<subseteq> set fsidAlphabet \<Longrightarrow> \<exists>ds. fsid_loop (length s) ds = Some (s, [])"
proof (induction s)
  case (Cons c s)
  then obtain ds where ds: "fsid_loop (length s) ds = Some (s, [])" by auto
  from Cons.prems obtain n where "n < length fsidAlphabet" "fsidAlphabet ! n = c"
    by (auto simp: in_set_conv_nth)
  with ds have "fsid_loop (length (c # s)) (Some n # ds) = Some (c # s, [])"
    by (simp add: rand_int_def)
  then show ?case by blast
qed auto

lemma newFilesystemID_like: "newFilesystemID ds = Some (i, rest) \<Longrightarrow> fsid_like i"
  using fsid_loop_sound by (auto simp: newFilesystemID_def fsid_like_def)

lemma alphabet_letters:
  "c \<in> set fsidAlphabet \<Longrightarrow> validPathComponentChar c \<and> c \<noteq> CHR ''.'' \<and> c \<noteq> CHR ''/''"
  by (auto simp: fsidAlphabet_def validPathComponentChar_def)

text \<open>Every shard of such an ID is an ordinary name, so the layout of the store applies to it.\<close>

lemma fsid_like_tame: "fsid_like i \<Longrightarrow> tame i"
proof -
  assume f: "fsid_like i"
  then have len: "length i = 24" and ltr: "\<forall>c \<in> set i. validPathComponentChar c \<and> c \<noteq> CHR ''.''"
    using alphabet_letters by (auto simp: fsid_like_def fsidLength_def)
  have nodot: "CHR ''.'' \<notin> set i" using ltr by blast
  have dot: "x \<noteq> ''.'' \<and> x \<noteq> ''..''" if "set x \<subseteq> set i" for x
    using that nodot by (metis insert_subset list.set(2))
  have "i \<noteq> ''''" using len by (metis list.size(3) zero_neq_numeral)
  moreover have "list_all validPathComponentChar i"
    using ltr by (simp add: list_all_iff)
  moreover have "i \<noteq> ''.''" "i \<noteq> ''..''" using dot [OF subset_refl] by (rule conjunct1, rule conjunct2)
  ultimately have "validatePathComponent i = Inr ()"
    unfolding validatePathComponent_ok by (intro conjI)
  then have "is_ok (shard i)" using len by (simp add: shard_def)
  moreover have "take 2 i \<noteq> ''..''" by (rule dot [THEN conjunct2]) (rule set_take_subset)
  moreover have "take 2 (drop 2 i) \<noteq> ''..''"
    by (rule dot [THEN conjunct2]) (meson set_drop_subset set_take_subset subset_trans)
  moreover have "drop 4 i \<noteq> ''.'' \<and> drop 4 i \<noteq> ''..''"
    by (rule dot) (rule set_drop_subset)
  ultimately show "tame i" unfolding tame_def by blast
qed

section \<open>Properties\<close>

text \<open>When it does not panic, a new ID is 24 letters, and any 24 letters can come out; every such
  ID is accepted by the path builders with three ordinary shards.\<close>

theorem newFilesystemID_range:
  "{i. \<exists>ds rest. newFilesystemID ds = Some (i, rest)} = {i. fsid_like i} \<and>
   {i. fsid_like i} \<subseteq> {i. shard i = Inr (take 2 i, take 2 (drop 2 i), drop 4 i) \<and>
     list_all plain (shard_comps i)}"
proof
  show "{i. \<exists>ds rest. newFilesystemID ds = Some (i, rest)} = {i. fsid_like i}"
  proof (rule equalityI; rule subsetI; clarify)
    fix i assume "fsid_like i"
    then show "\<exists>ds rest. newFilesystemID ds = Some (i, rest)"
      using fsid_loop_complete [of i] by (auto simp: newFilesystemID_def fsid_like_def)
  qed (rule newFilesystemID_like)
  show "{i. fsid_like i} \<subseteq> {i. shard i = Inr (take 2 i, take 2 (drop 2 i), drop 4 i) \<and>
      list_all plain (shard_comps i)}"
    using fsid_like_tame tame_shard(1) shard_comps_plain by blast
qed

end
