(* ===== verification/Neturl.thy ===== *)
theory Neturl
  imports Prelude
begin

text \<open>
  The part of \<^verbatim>\<open>net/url\<close> the worker uses: percent encoding in its query, user and path modes, and
  the encoding and parsing of query strings. The lemmas are the round trip of a query through
  encoding and parsing, which is what keeps a value the client chose from adding a parameter to a
  request the worker makes.
\<close>

section \<open>Escaping\<close>

datatype url_mode = EncodeQuery | EncodeUser | EncodePath

definition is_alnum :: "char \<Rightarrow> bool" where
  "is_alnum c \<longleftrightarrow>
     (let n = (of_char c :: nat) in
        (97 \<le> n \<and> n \<le> 122) \<or> (65 \<le> n \<and> n \<le> 90) \<or> (48 \<le> n \<and> n \<le> 57))"

definition should_escape :: "url_mode \<Rightarrow> char \<Rightarrow> bool" where
  "should_escape mode c =
     (if is_alnum c \<or> c \<in> set ''-_.~'' then False
      else if c \<in> set ''$&+,/:;=?@'' then
        (case mode of
           EncodeQuery \<Rightarrow> True
         | EncodeUser \<Rightarrow> c \<in> set ''@/?:''
         | EncodePath \<Rightarrow> c = CHR ''?'')
      else True)"

definition upper_hex :: "nat \<Rightarrow> char" where
  "upper_hex n = (if n < 10 then char_of (48 + n) else char_of (55 + n))"

definition pct :: "char \<Rightarrow> string" where
  "pct c = (let n = (of_char c :: nat) in [CHR ''%'', upper_hex (n div 16), upper_hex (n mod 16)])"

definition escape_char :: "url_mode \<Rightarrow> char \<Rightarrow> string" where
  "escape_char mode c =
     (if \<not> should_escape mode c then [c]
      else if c = CHR '' '' \<and> mode = EncodeQuery then ''+''
      else pct c)"

definition url_escape :: "url_mode \<Rightarrow> string \<Rightarrow> string" where
  "url_escape mode s = concat (map (escape_char mode) s)"

definition hex_val :: "char \<Rightarrow> nat option" where
  "hex_val c =
     (let n = (of_char c :: nat) in
        if 48 \<le> n \<and> n \<le> 57 then Some (n - 48)
        else if 97 \<le> n \<and> n \<le> 102 then Some (n - 87)
        else if 65 \<le> n \<and> n \<le> 70 then Some (n - 55)
        else None)"

text \<open>\<^verbatim>\<open>url.QueryUnescape\<close>.\<close>

fun query_unescape :: "string \<Rightarrow> string option" where
  "query_unescape [] = Some []"
| "query_unescape (c # cs) =
     (if c = CHR ''%'' then
        (case cs of
           h # l # rest \<Rightarrow>
             (case (hex_val h, hex_val l) of
                (Some a, Some b) \<Rightarrow> map_option (Cons (char_of (16 * a + b))) (query_unescape rest)
              | _ \<Rightarrow> None)
         | _ \<Rightarrow> None)
      else if c = CHR ''+'' then map_option (Cons CHR '' '') (query_unescape cs)
      else map_option (Cons c) (query_unescape cs))"

section \<open>Query strings\<close>

type_synonym query = "(string \<times> string) list"

text \<open>\<^verbatim>\<open>url.Values.Encode\<close> of values already sorted by key.\<close>

definition query_pair :: "string \<times> string \<Rightarrow> string" where
  "query_pair kv = url_escape EncodeQuery (fst kv) @ ''='' @ url_escape EncodeQuery (snd kv)"

definition query_encode :: "query \<Rightarrow> string" where
  "query_encode q = join_with ''&'' (map query_pair q)"

text \<open>\<^verbatim>\<open>url.ParseQuery\<close> without its error: \<^verbatim>\<open>URL.Query\<close> drops what it cannot read.\<close>

definition parse_pair :: "string \<Rightarrow> query" where
  "parse_pair s =
     (if s = '''' \<or> CHR '';'' \<in> set s then []
      else case cut CHR ''='' s of
             (k, v, _) \<Rightarrow>
               (case (query_unescape k, query_unescape v) of
                  (Some k', Some v') \<Rightarrow> [(k', v')]
                | _ \<Rightarrow> []))"

definition parse_query :: "string \<Rightarrow> query" where
  "parse_query s = concat (map parse_pair (split_on CHR ''&'' s))"

text \<open>\<^verbatim>\<open>Values.Get\<close>: the first value of the key, or the empty string.\<close>

definition query_get :: "query \<Rightarrow> string \<Rightarrow> string" where
  "query_get q k = (case map_of q k of None \<Rightarrow> '''' | Some v \<Rightarrow> v)"

section \<open>Round trip\<close>

lemma of_char_256: "(of_char c :: nat) < 256"
  by (metis nat_of_char_less_256)

lemma char_nibbles: "(of_char c :: nat) div 16 < 16" "(of_char c :: nat) mod 16 < 16"
  using of_char_256 [of c] by (simp_all add: less_mult_imp_div_less)

lemma of_upper_hex: "n < 16 \<Longrightarrow> (of_char (upper_hex n) :: nat) = (if n < 10 then 48 + n else 55 + n)"
  by (simp add: upper_hex_def)

lemma hex_val_upper_hex [simp]: "n < 16 \<Longrightarrow> hex_val (upper_hex n) = Some n"
  by (auto simp: hex_val_def of_upper_hex Let_def)

lemma unescape_pct: "query_unescape (pct c @ rest) = map_option (Cons c) (query_unescape rest)"
proof -
  have "char_of (16 * ((of_char c :: nat) div 16) + (of_char c :: nat) mod 16) = c"
    by (simp only: mult_div_mod_eq char_of_char)
  then show ?thesis
    by (simp add: pct_def Let_def char_nibbles)
qed

lemma plain_query_chars:
  "\<not> should_escape EncodeQuery c \<Longrightarrow>
   c \<noteq> CHR ''%'' \<and> c \<noteq> CHR ''+'' \<and> c \<noteq> CHR ''&'' \<and> c \<noteq> CHR ''='' \<and> c \<noteq> CHR '';''"
  by (auto simp: should_escape_def is_alnum_def Let_def split: if_splits)

lemma unescape_escape_char:
  "query_unescape (escape_char EncodeQuery c @ rest) = map_option (Cons c) (query_unescape rest)"
  using plain_query_chars [of c] by (auto simp: escape_char_def unescape_pct)

theorem query_unescape_escape: "query_unescape (url_escape EncodeQuery s) = Some s"
  by (induction s) (simp_all add: url_escape_def unescape_escape_char)

lemma upper_hex_not_sep:
  "n < 16 \<Longrightarrow> upper_hex n \<noteq> CHR ''&'' \<and> upper_hex n \<noteq> CHR ''='' \<and> upper_hex n \<noteq> CHR '';''"
  using of_upper_hex [of n] by (auto dest: arg_cong [where f = "of_char :: char \<Rightarrow> nat"] split: if_splits)

lemma escape_char_no_sep:
  "CHR ''&'' \<notin> set (escape_char EncodeQuery c)" "CHR ''='' \<notin> set (escape_char EncodeQuery c)"
  "CHR '';'' \<notin> set (escape_char EncodeQuery c)"
proof -
  note h = char_nibbles [of c, THEN upper_hex_not_sep]
  have p: "x \<notin> set (pct c)" if "x \<in> {CHR ''&'', CHR ''='', CHR '';''}" for x
    using that h unfolding pct_def Let_def by (elim insertE emptyE) auto
  show "CHR ''&'' \<notin> set (escape_char EncodeQuery c)" "CHR ''='' \<notin> set (escape_char EncodeQuery c)"
    "CHR '';'' \<notin> set (escape_char EncodeQuery c)"
    using plain_query_chars [of c] p by (auto simp: escape_char_def)
qed

lemma url_escape_no_sep:
  "CHR ''&'' \<notin> set (url_escape EncodeQuery s)" "CHR ''='' \<notin> set (url_escape EncodeQuery s)"
  "CHR '';'' \<notin> set (url_escape EncodeQuery s)"
  using escape_char_no_sep by (auto simp: url_escape_def)

lemma parse_query_pair: "parse_pair (query_pair (k, v)) = [(k, v)]"
proof -
  have "query_pair (k, v) = url_escape EncodeQuery k @ CHR ''='' # url_escape EncodeQuery v"
    by (simp add: query_pair_def)
  moreover have "CHR '';'' \<notin> set (query_pair (k, v))"
    using url_escape_no_sep(3) by (simp add: query_pair_def)
  ultimately show ?thesis
    using url_escape_no_sep(2) [of k] by (simp add: parse_pair_def query_unescape_escape)
qed

theorem parse_query_encode: "parse_query (query_encode q) = q"
proof (cases "q = []")
  case True
  then show ?thesis by (simp add: query_encode_def parse_query_def parse_pair_def)
next
  case False
  have "CHR ''&'' \<notin> set (query_pair kv)" for kv
    using url_escape_no_sep(1) by (simp add: query_pair_def)
  then have "split_on CHR ''&'' (query_encode q) = map query_pair q"
    using False unfolding query_encode_def by (intro split_on_join) auto
  moreover have "concat (map parse_pair (map query_pair q)) = q"
    by (induction q) (auto simp: parse_query_pair)
  ultimately show ?thesis by (simp add: parse_query_def)
qed

end
