(* ===== verification/Http.thy ===== *)
theory Http
  imports Neturl
begin

text \<open>
  What the handlers see of \<^verbatim>\<open>net/http\<close>: a request, its headers and query, and the reply that is
  written. A header map is the list of its fields in order; its keys are in canonical form.
\<close>

type_synonym headers = "(string \<times> string) list"

definition hget :: "headers \<Rightarrow> string \<Rightarrow> string" where
  "hget h k = (case map_of h k of None \<Rightarrow> '''' | Some v \<Rightarrow> v)"

definition hvalues :: "headers \<Rightarrow> string \<Rightarrow> string list" where
  "hvalues h k = map snd (filter (\<lambda>p. fst p = k) h)"

definition hdel :: "string \<Rightarrow> headers \<Rightarrow> headers" where
  "hdel k h = filter (\<lambda>p. fst p \<noteq> k) h"

definition hset :: "string \<Rightarrow> string \<Rightarrow> headers \<Rightarrow> headers" where
  "hset k v h = hdel k h @ [(k, v)]"

lemma map_of_hdel [simp]: "map_of (hdel k h) j = (if j = k then None else map_of h j)"
  by (induction h) (auto simp: hdel_def)

lemma hget_hset [simp]: "hget (hset k v h) j = (if j = k then v else hget h j)"
  by (auto simp: hget_def hset_def map_add_def split: option.splits)

lemma hget_hdel [simp]: "hget (hdel k h) j = (if j = k then '''' else hget h j)"
  by (simp add: hget_def)

record request =
  rq_method :: string
  rq_path :: string
  rq_rawquery :: string
  rq_headers :: headers
  rq_pathvals :: "(string \<times> string) list"
  rq_body :: bytes
  rq_remote :: string
  rq_host :: string
  rq_tls :: bool

definition rheader :: "request \<Rightarrow> string \<Rightarrow> string" where
  "rheader r k = hget (rq_headers r) k"

definition url_query :: "request \<Rightarrow> query" where
  "url_query r = parse_query (rq_rawquery r)"

definition path_value :: "request \<Rightarrow> string \<Rightarrow> string" where
  "path_value r k = query_get (rq_pathvals r) k"

text \<open>A reply: the status, the header fields as they were when it was written, and the body.
  \<open>Served\<close> is a body handed to \<^verbatim>\<open>http.ServeContent\<close>, which answers range requests from it, and
  \<open>Upstream\<close> a request handed to the proxy of that name.\<close>

datatype json = JStr string | JInt int | JBool bool

datatype payload =
    Empty
  | JsonBody "(string \<times> json) list"
  | Content bytes
  | Served bytes
  | Upstream string

record reply =
  rp_status :: nat
  rp_headers :: headers
  rp_body :: payload

definition str_bytes :: "string \<Rightarrow> bytes" where
  "str_bytes s = map of_char s"

lemma length_str_bytes [simp]: "length (str_bytes s) = length s"
  by (simp add: str_bytes_def)

lemma str_bytes_append [simp]: "str_bytes (a @ b) = str_bytes a @ str_bytes b"
  by (simp add: str_bytes_def)

lemma of_char_byte_inj: "(of_char c :: byte) = of_char d \<Longrightarrow> c = d"
proof -
  assume h: "(of_char c :: byte) = of_char d"
  have "unat (of_char x :: byte) = (of_char x :: nat)" for x
  proof -
    have "(of_char x :: byte) = of_nat (of_char x)" by (simp add: of_nat_of_char)
    then show ?thesis using nat_of_char_less_256 [of x] by (simp add: unat_of_nat)
  qed
  with h have "(of_char c :: nat) = of_char d" by metis
  then show "c = d" by simp
qed

lemma str_bytes_inj [simp]: "str_bytes a = str_bytes b \<longleftrightarrow> a = b"
  unfolding str_bytes_def by (rule inj_map_eq_map) (auto intro: injI of_char_byte_inj)

end
