(* ===== verification/Config.thy ===== *)
theory Config
  imports Paths Neturl
begin

text \<open>
  src/config.go: the worker's own configuration, its defaults, the accessors the handlers use and
  the checks made before start-up. Durations are nanoseconds, as \<^verbatim>\<open>time.Duration\<close> counts them; a
  pointer field is an option. Reading the file and decoding YAML are not modelled: \<open>validate\<close> is
  about the record that results.
\<close>

section \<open>Durations\<close>

abbreviation (input) Nanosecond :: int where "Nanosecond \<equiv> 1"
definition Microsecond :: int where "Microsecond = 1000"
definition Millisecond :: int where "Millisecond = 1000000"
definition Second :: int where "Second = 1000000000"
definition Minute :: int where "Minute = 60000000000"
definition Hour :: int where "Hour = 3600000000000"

lemmas duration_units = Microsecond_def Millisecond_def Second_def Minute_def Hour_def

text \<open>\<^verbatim>\<open>Duration.Milliseconds\<close> truncates towards zero.\<close>

definition milliseconds :: "int \<Rightarrow> int" where
  "milliseconds d = go_div d 1000000"

section \<open>The records\<close>

record ListenConfig =
  lc_Socket :: string
  lc_SocketMode :: nat
  lc_Addr :: string
  lc_MetricsAddr :: string

record DatabaseConfig =
  dc_URI :: string
  dc_MaxConns :: int
  dc_UpdateLastAccess :: bool
  dc_LastAccessInterval :: int

record MediaUploadLimit =
  mul_MaxBytes :: int
  mul_Window :: int
  mul_InfoURI :: string
  mul_CanUpgrade :: bool

record MediaConfig =
  mc_StorePath :: string
  mc_SigningKeyPath :: string
  mc_UserAgent :: string
  mc_UserAgentSuffix :: string
  mc_MaxImagePixels :: "int option"
  mc_DefaultTimeout :: int
  mc_MaxTimeout :: int
  mc_MaxConcurrentThumbnails :: int
  mc_AcceptUploads :: bool
  mc_UploadThumbnails :: string
  mc_MaxConcurrentUploads :: int
  mc_UnusedExpirationTime :: int
  mc_MaxPendingMediaUploads :: int
  mc_FetchRemote :: bool
  mc_ProxyFailedFetches :: "bool option"
  mc_MaxConcurrentFetches :: int
  mc_FetchTimeout :: int
  mc_WriteThroughThumbnails :: bool
  mc_MaxUploadSize :: "int option"
  mc_EnableAuthenticatedMedia :: "bool option"
  mc_DynamicThumbnails :: "bool option"
  mc_ModuleUploadLimits :: string
  mc_synapseModules :: bool
  mc_uploadLimits :: "MediaUploadLimit list"

record CacheConfig =
  cc_Dir :: string
  cc_MaxBytes :: int
  cc_SweepInterval :: int

record AuthConfig =
  ac_WhoamiURL :: string
  ac_WhoamiSocket :: string
  ac_PositiveTTL :: int
  ac_NegativeTTL :: int
  ac_MaxEntries :: int

record UpstreamTarget =
  ut_Socket :: string
  ut_Sockets :: "string list"
  ut_URL :: string
  ut_URLs :: "string list"

record UpstreamConfig =
  uc_Download :: UpstreamTarget
  uc_Thumbnail :: UpstreamTarget
  uc_Upload :: UpstreamTarget
  uc_Passthrough :: UpstreamTarget

record UpstreamEndpoint =
  ue_Socket :: string
  ue_URL :: string

record LogConfig =
  gc_Level :: string
  gc_Pretty :: bool
  gc_Requests :: "bool option"

record derivedNotes =
  Applied :: "string list"
  Skipped :: "string list"
  Warnings :: "string list"

record Config =
  cfg_ServerName :: string
  cfg_SynapseConfig :: string
  cfg_Listen :: ListenConfig
  cfg_Database :: DatabaseConfig
  cfg_Media :: MediaConfig
  cfg_Cache :: CacheConfig
  cfg_Auth :: AuthConfig
  cfg_Upstream :: UpstreamConfig
  cfg_Log :: LogConfig
  cfg_derived :: "derivedNotes option"

section \<open>Accessors\<close>

definition Endpoints :: "UpstreamTarget \<Rightarrow> UpstreamEndpoint list" where
  "Endpoints t =
     (if ut_Socket t \<noteq> '''' then [\<lparr>ue_Socket = ut_Socket t, ue_URL = ''''\<rparr>] else []) @
     map (\<lambda>s. \<lparr>ue_Socket = s, ue_URL = ''''\<rparr>) (filter (\<lambda>s. s \<noteq> '''') (ut_Sockets t)) @
     (if ut_URL t \<noteq> '''' then [\<lparr>ue_Socket = '''', ue_URL = ut_URL t\<rparr>] else []) @
     map (\<lambda>u. \<lparr>ue_Socket = '''', ue_URL = u\<rparr>) (filter (\<lambda>u. u \<noteq> '''') (ut_URLs t))"

definition endpoint_name :: "UpstreamEndpoint \<Rightarrow> string" where
  "endpoint_name e = (if ue_Socket e \<noteq> '''' then ''unix:'' @ ue_Socket e else ue_URL e)"

definition configured :: "UpstreamTarget \<Rightarrow> bool" where
  "configured t \<longleftrightarrow> length (Endpoints t) > 0"

definition LogRequests :: "LogConfig \<Rightarrow> bool" where
  "LogRequests c \<longleftrightarrow> gc_Requests c = None \<or> gc_Requests c = Some True"

definition uploadThumbnailsNone :: string where "uploadThumbnailsNone = ''none''"
definition uploadThumbnailsSynapse :: string where "uploadThumbnailsSynapse = ''synapse''"

definition synapseDefaultMaxUploadSize :: int where
  "synapseDefaultMaxUploadSize = 50 * 1024 * 1024"

definition synapseDefaultMaxImagePixels :: int where
  "synapseDefaultMaxImagePixels = 32 * 1024 * 1024"

definition MaxImagePixelsOrDefault :: "MediaConfig \<Rightarrow> int" where
  "MaxImagePixelsOrDefault m =
     (case mc_MaxImagePixels m of Some n \<Rightarrow> n | None \<Rightarrow> synapseDefaultMaxImagePixels)"

definition MaxUploadSizeOrDefault :: "MediaConfig \<Rightarrow> int" where
  "MaxUploadSizeOrDefault m =
     (case mc_MaxUploadSize m of Some n \<Rightarrow> n | None \<Rightarrow> synapseDefaultMaxUploadSize)"

definition ProxyFetchFailures :: "MediaConfig \<Rightarrow> bool" where
  "ProxyFetchFailures m \<longleftrightarrow> mc_ProxyFailedFetches m = None \<or> mc_ProxyFailedFetches m = Some True"

definition AuthenticatedMedia :: "MediaConfig \<Rightarrow> bool" where
  "AuthenticatedMedia m \<longleftrightarrow>
     mc_EnableAuthenticatedMedia m = None \<or> mc_EnableAuthenticatedMedia m = Some True"

definition moduleUploadLimitsProxy :: string where "moduleUploadLimitsProxy = ''proxy''"
definition moduleUploadLimitsIgnore :: string where "moduleUploadLimitsIgnore = ''ignore''"

definition UploadLimits :: "MediaConfig \<Rightarrow> MediaUploadLimit list" where
  "UploadLimits m = mc_uploadLimits m"

definition ModuleUploadLimitsPolicy :: "MediaConfig \<Rightarrow> string" where
  "ModuleUploadLimitsPolicy m =
     (if mc_ModuleUploadLimits m = '''' then moduleUploadLimitsProxy else mc_ModuleUploadLimits m)"

definition UploadsAccepted :: "MediaConfig \<Rightarrow> bool" where
  "UploadsAccepted m =
     (if \<not> mc_AcceptUploads m then False
      else \<not> (mc_synapseModules m \<and> ModuleUploadLimitsPolicy m = moduleUploadLimitsProxy))"

definition ProxyMediaConfig :: "MediaConfig \<Rightarrow> bool" where
  "ProxyMediaConfig m = mc_synapseModules m"

definition DynamicThumbnailsEnabled :: "MediaConfig \<Rightarrow> bool" where
  "DynamicThumbnailsEnabled m \<longleftrightarrow> mc_DynamicThumbnails m = Some True"

section \<open>Defaults\<close>

definition no_target :: UpstreamTarget where
  "no_target = \<lparr>ut_Socket = '''', ut_Sockets = [], ut_URL = '''', ut_URLs = []\<rparr>"

definition defaultMedia :: MediaConfig where
  "defaultMedia =
     \<lparr>mc_StorePath = '''', mc_SigningKeyPath = '''', mc_UserAgent = '''', mc_UserAgentSuffix = '''',
      mc_MaxImagePixels = None, mc_DefaultTimeout = 20 * Second, mc_MaxTimeout = 60 * Second,
      mc_MaxConcurrentThumbnails = 0, mc_AcceptUploads = False,
      mc_UploadThumbnails = uploadThumbnailsNone, mc_MaxConcurrentUploads = 8,
      mc_UnusedExpirationTime = 24 * Hour, mc_MaxPendingMediaUploads = 5, mc_FetchRemote = False,
      mc_ProxyFailedFetches = None, mc_MaxConcurrentFetches = 4, mc_FetchTimeout = 60 * Second,
      mc_WriteThroughThumbnails = False, mc_MaxUploadSize = None, mc_EnableAuthenticatedMedia = None,
      mc_DynamicThumbnails = None, mc_ModuleUploadLimits = '''', mc_synapseModules = False,
      mc_uploadLimits = []\<rparr>"

definition defaultConfig :: Config where
  "defaultConfig =
     \<lparr>cfg_ServerName = '''', cfg_SynapseConfig = '''',
      cfg_Listen = \<lparr>lc_Socket = '''', lc_SocketMode = 438, lc_Addr = '':8090'', lc_MetricsAddr = ''''\<rparr>,
      cfg_Database = \<lparr>dc_URI = '''', dc_MaxConns = 16, dc_UpdateLastAccess = True,
                      dc_LastAccessInterval = Minute\<rparr>,
      cfg_Media = defaultMedia,
      cfg_Cache = \<lparr>cc_Dir = '''', cc_MaxBytes = 10 * 2 ^ 30, cc_SweepInterval = 10 * Minute\<rparr>,
      cfg_Auth = \<lparr>ac_WhoamiURL = '''', ac_WhoamiSocket = '''', ac_PositiveTTL = 5 * Minute,
                  ac_NegativeTTL = 30 * Second, ac_MaxEntries = 20000\<rparr>,
      cfg_Upstream = \<lparr>uc_Download = no_target, uc_Thumbnail = no_target, uc_Upload = no_target,
                      uc_Passthrough = no_target\<rparr>,
      cfg_Log = \<lparr>gc_Level = ''info'', gc_Pretty = False, gc_Requests = None\<rparr>,
      cfg_derived = None\<rparr>"

section \<open>Validation\<close>

definition validate :: "string option \<Rightarrow> Config \<Rightarrow> unit res" where
  "validate cwd c =
    (let m = cfg_Media c in
     if cfg_ServerName c = '''' then Inl (ErrConfig ''server_name'')
     else if dc_URI (cfg_Database c) = '''' then Inl (ErrConfig ''database.uri'')
     else if mc_StorePath m = '''' then Inl (ErrConfig ''media.store_path'')
     else if cc_Dir (cfg_Cache c) = '''' then Inl (ErrConfig ''cache.dir'')
     else if has_prefix (cleanAbs cwd (mc_StorePath m)) (cleanAbs cwd (cc_Dir (cfg_Cache c)))
       then Inl (ErrConfig ''cache.dir must not be inside media.store_path'')
     else if ac_WhoamiURL (cfg_Auth c) = '''' \<and> ac_WhoamiSocket (cfg_Auth c) = ''''
       then Inl (ErrConfig ''auth.whoami'')
     else if MaxImagePixelsOrDefault m \<le> 0 then Inl (ErrConfig ''media.max_image_pixels'')
     else if mc_WriteThroughThumbnails m \<and> \<not> mc_FetchRemote m
       then Inl (ErrConfig ''media.write_through_thumbnails'')
     else if mc_ModuleUploadLimits m \<notin> {'''', moduleUploadLimitsProxy, moduleUploadLimitsIgnore}
       then Inl (ErrConfig ''media.module_upload_limits'')
     else if mc_UploadThumbnails m \<notin> {'''', uploadThumbnailsNone, uploadThumbnailsSynapse}
       then Inl (ErrConfig ''media.upload_thumbnails'')
     else if mc_AcceptUploads m \<and> MaxUploadSizeOrDefault m \<le> 0
       then Inl (ErrConfig ''media.max_upload_size'')
     else if mc_AcceptUploads m \<and> cfg_ServerName c = '''' then Inl (ErrConfig ''server_name'')
     else if mc_FetchRemote m \<and> mc_SigningKeyPath m = ''''
       then Inl (ErrConfig ''media.signing_key_path'')
     else if mc_FetchRemote m \<and> MaxUploadSizeOrDefault m \<le> 0
       then Inl (ErrConfig ''media.max_upload_size'')
     else Inr ())"

text \<open>What an accepted configuration guarantees.\<close>

definition sane_config :: "string option \<Rightarrow> Config \<Rightarrow> bool" where
  "sane_config cwd c \<longleftrightarrow>
     cfg_ServerName c \<noteq> '''' \<and> dc_URI (cfg_Database c) \<noteq> '''' \<and>
     (ac_WhoamiURL (cfg_Auth c) \<noteq> '''' \<or> ac_WhoamiSocket (cfg_Auth c) \<noteq> '''') \<and>
     MaxImagePixelsOrDefault (cfg_Media c) > 0 \<and>
     (mc_AcceptUploads (cfg_Media c) \<longrightarrow> MaxUploadSizeOrDefault (cfg_Media c) > 0) \<and>
     (mc_FetchRemote (cfg_Media c) \<longrightarrow>
        MaxUploadSizeOrDefault (cfg_Media c) > 0 \<and> mc_SigningKeyPath (cfg_Media c) \<noteq> '''') \<and>
     (mc_WriteThroughThumbnails (cfg_Media c) \<longrightarrow> mc_FetchRemote (cfg_Media c)) \<and>
     \<not> inside (NewMediaPaths cwd (mc_StorePath (cfg_Media c))) (cleanAbs cwd (cc_Dir (cfg_Cache c)))"

lemma validate_cases:
  assumes "validate cwd c = Inr ()"
  shows "sane_config cwd c"
proof -
  have "\<not> has_prefix (cleanAbs cwd (mc_StorePath (cfg_Media c))) (cleanAbs cwd (cc_Dir (cfg_Cache c)))"
    using assms by (simp add: validate_def Let_def split: if_splits)
  then have "\<not> inside (NewMediaPaths cwd (mc_StorePath (cfg_Media c))) (cleanAbs cwd (cc_Dir (cfg_Cache c)))"
    by (auto simp: inside_def NewMediaPaths_def has_prefix_iff)
  with assms show ?thesis
    by (simp add: sane_config_def validate_def Let_def not_le split: if_splits)
qed

text \<open>A configuration that passes the checks names a server, a database and a way to check
  tokens, has positive limits for every feature it turns on, and keeps the cache directory out of
  the media store: it is neither the store nor anything below it.\<close>

theorem validate_sound:
  assumes "validate cwd c = Inr ()"
  shows "sane_config cwd c"
  using assms by (rule validate_cases)

definition sample_config :: Config where
  "sample_config = defaultConfig\<lparr>
     cfg_ServerName := ''example.org'',
     cfg_Database := dc_URI_update (\<lambda>_. ''postgres://synapse'') (cfg_Database defaultConfig),
     cfg_Media := defaultMedia\<lparr>mc_StorePath := ''/data/media_store''\<rparr>,
     cfg_Cache := cc_Dir_update (\<lambda>_. ''/var/cache/worker'') (cfg_Cache defaultConfig),
     cfg_Auth := ac_WhoamiURL_update (\<lambda>_. ''http://synapse'') (cfg_Auth defaultConfig)\<rparr>"

theorem validate_sound_witness: "sane_config None sample_config"
  by (rule validate_sound)
    (simp add: validate_def sample_config_def defaultConfig_def defaultMedia_def Let_def cleanAbs_def
      path_abs_def is_abs_def has_prefix_def clean_def MaxImagePixelsOrDefault_def
      synapseDefaultMaxImagePixels_def)

text \<open>The check compares byte prefixes, so it also refuses a cache directory that is not inside
  the store: every directory whose name merely continues the store's is refused.\<close>

theorem validate_refuses_sibling:
  assumes "cfg_ServerName c \<noteq> ''''" "dc_URI (cfg_Database c) \<noteq> ''''"
    and "mc_StorePath (cfg_Media c) = abs_path (d @ [n])" "cc_Dir (cfg_Cache c) = abs_path (d @ [n @ x])"
    and "list_all plain (d @ [n, n @ x])" "x \<noteq> ''''"
  shows "\<not> is_ok (validate cwd c) \<and>
    \<not> inside (NewMediaPaths cwd (mc_StorePath (cfg_Media c))) (cleanAbs cwd (cc_Dir (cfg_Cache c)))"
proof -
  have ca: "cleanAbs cwd (abs_path cs) = abs_path cs" if "list_all plain cs" for cs
    using that by (simp add: cleanAbs_def path_abs_def del: is_abs_iff)
  have ne: "abs_path cs \<noteq> ''''" for cs by (simp add: abs_path_def)
  have pl: "list_all plain (d @ [n])" "list_all plain (d @ [n @ x])" using assms(5) by simp_all
  have ap: "abs_path (d @ [n @ x]) = abs_path (d @ [n]) @ x"
    by (cases "d = []") (simp_all add: abs_path_append, simp_all add: abs_path_def)
  have "has_prefix (abs_path (d @ [n])) (abs_path (d @ [n @ x]))"
    unfolding ap by simp
  then have "validate cwd c = Inl (ErrConfig ''cache.dir must not be inside media.store_path'')"
    using assms(1,2) ne unfolding validate_def Let_def assms(3,4) ca [OF pl(1)] ca [OF pl(2)] by simp
  moreover have "\<not> inside (NewMediaPaths cwd (abs_path (d @ [n]))) (abs_path (d @ [n @ x]))"
  proof -
    have b: "base (NewMediaPaths cwd (abs_path (d @ [n]))) = abs_path (d @ [n])"
      using ca [OF pl(1)] by (simp add: NewMediaPaths_def)
    have "\<not> (\<exists>ds. list_all plain ds \<and> abs_path (d @ [n @ x]) = abs_path ((d @ [n]) @ ds))"
    proof clarify
      fix ds assume ds: "list_all plain ds" "abs_path (d @ [n @ x]) = abs_path ((d @ [n]) @ ds)"
      then have "d @ [n @ x] = (d @ [n]) @ ds"
        using abs_path_inj [OF pl(2), of "(d @ [n]) @ ds"] pl(1) by simp
      with assms(6) show False by simp
    qed
    then show ?thesis using inside_iff [OF pl(1) _ b] by blast
  qed
  ultimately show ?thesis unfolding assms(3,4) ca [OF pl(1)] ca [OF pl(2)] by simp
qed

theorem validate_refuses_sibling_witness:
  "\<not> is_ok (validate None (sample_config\<lparr>cfg_Cache := cc_Dir_update (\<lambda>_. ''/data/media_store_cache'')
      (cfg_Cache sample_config)\<rparr>))"
  using validate_refuses_sibling [where d = "[''data'']" and n = "''media_store''" and x = "''_cache''"
      and cwd = None and c = "sample_config\<lparr>cfg_Cache := cc_Dir_update (\<lambda>_. ''/data/media_store_cache'')
      (cfg_Cache sample_config)\<rparr>"]
  by (simp add: sample_config_def defaultConfig_def abs_path_def plain_def)

end
