(* ===== verification/Ttl_Cache.thy ===== *)
theory Ttl_Cache
  imports Prelude
begin

text \<open>
  What the callers of a cache with expiring entries rely on, as an interface: the token cache of
  src/authclient.go and the well-known cache of src/resolver.go both provide it. Whatever the
  history of look-ups and stores, an answer is the last one stored under its key and has not
  expired.
\<close>

datatype ('k, 'v) cache_op = Look int 'k | Put 'k 'v

text \<open>The value last stored under a key; histories have their newest operation first.\<close>

fun last_put :: "'k \<Rightarrow> ('k, 'v) cache_op list \<Rightarrow> 'v option" where
  "last_put k [] = None"
| "last_put k (Look _ _ # ops) = last_put k ops"
| "last_put k (Put j v # ops) = (if j = k then Some v else last_put k ops)"

fun run_ops :: "(int \<Rightarrow> 'k \<Rightarrow> 's \<Rightarrow> 'v option \<times> 's) \<Rightarrow> ('k \<Rightarrow> 'v \<Rightarrow> 's \<Rightarrow> 's) \<Rightarrow> 's \<Rightarrow> ('k, 'v) cache_op list \<Rightarrow> 's"
where
  "run_ops look put s [] = s"
| "run_ops look put s (Look now k # ops) = snd (look now k (run_ops look put s ops))"
| "run_ops look put s (Put k v # ops) = put k v (run_ops look put s ops)"

locale ttl_cache =
  fixes look :: "int \<Rightarrow> 'k \<Rightarrow> 's \<Rightarrow> 'v option \<times> 's"
    and put :: "'k \<Rightarrow> 'v \<Rightarrow> 's \<Rightarrow> 's"
    and inv :: "'s \<Rightarrow> bool"
    and content :: "'s \<Rightarrow> 'k \<Rightarrow> 'v option"
    and expiry :: "'v \<Rightarrow> int"
  assumes look_inv: "inv s \<Longrightarrow> inv (snd (look now k s))"
    and put_inv: "inv s \<Longrightarrow> inv (put k v s)"
    and look_hit: "inv s \<Longrightarrow> look now k s = (Some v, s') \<Longrightarrow> content s k = Some v \<and> now \<le> expiry v"
    and look_live: "inv s \<Longrightarrow> content s k = Some v \<Longrightarrow> now \<le> expiry v \<Longrightarrow> fst (look now k s) = Some v"
    and look_content: "inv s \<Longrightarrow> content (snd (look now k s)) \<subseteq>\<^sub>m content s"
    and put_content: "inv s \<Longrightarrow> content (put k v s) \<subseteq>\<^sub>m (content s)(k \<mapsto> v)"
begin

lemma run_inv: "inv s \<Longrightarrow> inv (run_ops look put s ops)"
proof (induction ops)
  case (Cons op ops)
  then show ?case by (cases op) (simp_all add: look_inv put_inv)
qed simp

lemma run_content:
  "inv s \<Longrightarrow> content s = Map.empty \<Longrightarrow> content (run_ops look put s ops) \<subseteq>\<^sub>m (\<lambda>k. last_put k ops)"
proof (induction ops)
  case (Cons op ops)
  then have IH: "content (run_ops look put s ops) \<subseteq>\<^sub>m (\<lambda>k. last_put k ops)"
    and i: "inv (run_ops look put s ops)" using run_inv by auto
  show ?case
  proof (cases op)
    case (Look now k)
    with look_content [OF i, of now k] IH show ?thesis
      by (simp add: map_le_trans)
  next
    case (Put k v)
    with put_content [OF i, of k v] IH show ?thesis
      by (auto simp: map_le_def dom_def split: if_splits)
  qed
qed simp

lemma hit_sound:
  assumes "inv s" "content s = Map.empty" "look now k (run_ops look put s ops) = (Some v, s')"
  shows "last_put k ops = Some v \<and> now \<le> expiry v"
proof -
  have i: "inv (run_ops look put s ops)" by (rule run_inv) (rule assms(1))
  from look_hit [OF i assms(3)] have c: "content (run_ops look put s ops) k = Some v" "now \<le> expiry v"
    by auto
  with run_content [OF assms(1,2), of ops] have "last_put k ops = Some v"
    by (auto simp: map_le_def dom_def)
  with c show ?thesis by blast
qed

end

end
