(* ===== verification/Token_Cache.thy ===== *)
theory Token_Cache
  imports Http Sha256 Config Ttl_Cache "HOL-Library.Multiset"
begin

text \<open>
  src/authclient.go: validation of access tokens against Synapse, with a bounded cache of its
  answers. The cache keeps its linked list as a heap of elements: \<open>order\<close> lists the elements, most
  recently used first, and \<open>items\<close> finds the element of a key. The lemmas show that the two agree,
  that the pair implements a least-recently-used list, and what an answer from the cache is
  worth. Synapse's answers are the argument \<open>reply\<close>.
\<close>

section \<open>Model\<close>

record tokenVerdict =
  tv_valid :: bool
  tv_userID :: string
  tv_isGuest :: bool
  tv_expires :: int
  tv_rejection :: "(string \<times> string) option"
  tv_status :: nat

record cacheEntry =
  ce_key :: string
  ce_verdict :: tokenVerdict

record TokenAuthenticator =
  whoamiURL :: string
  positiveTTL :: int
  negativeTTL :: int
  maxEntries :: int
  items :: "string \<rightharpoonup> nat"
  order :: "nat list"
  elems :: "nat \<Rightarrow> cacheEntry"
  next_elem :: nat

text \<open>\<^verbatim>\<open>strings.TrimRight(base, "/")\<close>.\<close>

definition trim_right_slash :: "string \<Rightarrow> string" where
  "trim_right_slash s = rev (dropWhile (\<lambda>c. c = CHR ''/'') (rev s))"

definition no_verdict :: tokenVerdict where
  "no_verdict = \<lparr>tv_valid = False, tv_userID = '''', tv_isGuest = False, tv_expires = 0,
    tv_rejection = None, tv_status = 0\<rparr>"

definition NewTokenAuthenticator :: "AuthConfig \<Rightarrow> TokenAuthenticator res" where
  "NewTokenAuthenticator cfg =
     (let b0 = ac_WhoamiURL cfg;
          b = (if ac_WhoamiSocket cfg \<noteq> '''' \<and> b0 = '''' then ''http://synapse'' else b0)
      in if b = '''' then Inl (ErrConfig ''auth: whoami_url or whoami_socket must be set'')
         else Inr \<lparr>whoamiURL = trim_right_slash b @ ''/_matrix/client/v3/account/whoami'',
                   positiveTTL = ac_PositiveTTL cfg, negativeTTL = ac_NegativeTTL cfg,
                   maxEntries = ac_MaxEntries cfg, items = Map.empty, order = [],
                   elems = (\<lambda>_. \<lparr>ce_key = '''', ce_verdict = no_verdict\<rparr>), next_elem = 0\<rparr>)"

record Credentials =
  cr_Token :: string
  cr_UserID :: string
  cr_DeviceID :: string
  cr_Forwarded :: headers

definition forwardedHeaders :: "string list" where
  "forwardedHeaders = [''X-Forwarded-For'', ''X-Forwarded-Proto'', ''User-Agent'']"

definition ClientHeaders :: "request \<Rightarrow> headers" where
  "ClientHeaders r =
     concat (map (\<lambda>k. map (Pair k) (hvalues (rq_headers r) k)) forwardedHeaders)"

definition ExtractToken :: "request \<Rightarrow> string" where
  "ExtractToken r =
     (let auth = rheader r ''Authorization'' in
      if auth \<noteq> '''' then
        (if has_prefix ''Bearer '' auth then trim_space (drop 7 auth) else '''')
      else query_get (url_query r) ''access_token'')"

definition ExtractCredentials :: "request \<Rightarrow> Credentials" where
  "ExtractCredentials r =
     \<lparr>cr_Token = ExtractToken r, cr_UserID = query_get (url_query r) ''user_id'',
      cr_DeviceID = query_get (url_query r) ''device_id'', cr_Forwarded = ClientHeaders r\<rparr>"

text \<open>What is hashed into the key: each part with a zero byte after it.\<close>

definition nul_terminated :: "string list \<Rightarrow> bytes" where
  "nul_terminated parts = concat (map (\<lambda>part. str_bytes part @ [0]) parts)"

definition cred_cacheKey :: "Credentials \<Rightarrow> string" where
  "cred_cacheKey c = sha256_hex (nul_terminated [cr_Token c, cr_UserID c, cr_DeviceID c])"

subsection \<open>Asking Synapse\<close>

record whoami_request =
  wq_target :: string
  wq_headers :: headers

text \<open>Synapse's reply: the status, the body read as a whoami response, and the body read as a Matrix
  error, each \<open>None\<close> where it does not decode.\<close>

record whoami_reply =
  wr_status :: nat
  wr_whoami :: "(string \<times> bool) option"
  wr_error :: "(string \<times> string) option"

definition whoami_req :: "TokenAuthenticator \<Rightarrow> Credentials \<Rightarrow> whoami_request" where
  "whoami_req a creds =
     (let q = (if cr_DeviceID creds \<noteq> '''' then [(''device_id'', cr_DeviceID creds)] else []) @
              (if cr_UserID creds \<noteq> '''' then [(''user_id'', cr_UserID creds)] else [])
      in \<lparr>wq_target = (if q \<noteq> [] then whoamiURL a @ ''?'' @ query_encode q else whoamiURL a),
          wq_headers = (''Authorization'', ''Bearer '' @ cr_Token creds) #
             concat (map (\<lambda>k. map (Pair k) (hvalues (cr_Forwarded creds) k)) forwardedHeaders)\<rparr>)"

text \<open>\<^verbatim>\<open>callWhoami\<close> once the reply is there; \<open>None\<close> is a request that failed.\<close>

definition callWhoami :: "TokenAuthenticator \<Rightarrow> int \<Rightarrow> whoami_reply option \<Rightarrow> tokenVerdict res" where
  "callWhoami a now reply =
     (case reply of
        None \<Rightarrow> Inl ErrIO
      | Some resp \<Rightarrow>
          if wr_status resp = 200 then
            (case wr_whoami resp of
               None \<Rightarrow> Inl ErrIO
             | Some (user, guest) \<Rightarrow>
                 Inr \<lparr>tv_valid = True, tv_userID = user, tv_isGuest = guest,
                      tv_expires = now + positiveTTL a, tv_rejection = None, tv_status = 0\<rparr>)
          else if wr_status resp = 401 \<or> wr_status resp = 403 then
            Inr \<lparr>tv_valid = False, tv_userID = '''', tv_isGuest = False,
                 tv_expires = now + negativeTTL a,
                 tv_rejection = (case wr_error resp of
                    Some (code, msg) \<Rightarrow> (if code \<noteq> '''' then Some (code, msg) else None)
                  | None \<Rightarrow> None),
                 tv_status = wr_status resp\<rparr>
          else Inl ErrIO)"

subsection \<open>The cache\<close>

definition tc_lookup :: "int \<Rightarrow> string \<Rightarrow> TokenAuthenticator \<Rightarrow> tokenVerdict option \<times> TokenAuthenticator" where
  "tc_lookup now key a =
     (case items a key of
        None \<Rightarrow> (None, a)
      | Some el \<Rightarrow>
          (let v = ce_verdict (elems a el) in
           if now > tv_expires v
           then (None, a\<lparr>order := remove1 el (order a), items := (items a)(key := None)\<rparr>)
           else (Some v, a\<lparr>order := el # remove1 el (order a)\<rparr>)))"

text \<open>The eviction loop of \<^verbatim>\<open>store\<close>: the back of the list goes until the list fits.\<close>

function evict :: "TokenAuthenticator \<Rightarrow> TokenAuthenticator" where
  "evict a =
     (if 0 < maxEntries a \<and> int (length (order a)) > maxEntries a \<and> order a \<noteq> []
      then (let oldest = last (order a) in
            evict (a\<lparr>order := butlast (order a),
                     items := (items a)(ce_key (elems a oldest) := None)\<rparr>))
      else a)"
  by pat_completeness auto
termination
  by (relation "measure (\<lambda>a. length (order a))") auto

declare evict.simps [simp del]

definition tc_store :: "string \<Rightarrow> tokenVerdict \<Rightarrow> TokenAuthenticator \<Rightarrow> TokenAuthenticator" where
  "tc_store key v a =
     (case items a key of
        Some el \<Rightarrow>
          a\<lparr>elems := (elems a)(el := (elems a el)\<lparr>ce_verdict := v\<rparr>), order := el # remove1 el (order a)\<rparr>
      | None \<Rightarrow>
          (let el = next_elem a in
           evict (a\<lparr>elems := (elems a)(el := \<lparr>ce_key = key, ce_verdict = v\<rparr>),
                    order := el # order a, items := (items a)(key \<mapsto> el), next_elem := el + 1\<rparr>)))"

definition tc_Len :: "TokenAuthenticator \<Rightarrow> nat" where
  "tc_Len a = length (order a)"

section \<open>The list and the map agree\<close>

definition tc_key :: "TokenAuthenticator \<Rightarrow> nat \<Rightarrow> string" where
  "tc_key a el = ce_key (elems a el)"

definition tc_index :: "TokenAuthenticator \<Rightarrow> nat list \<Rightarrow> (string \<times> nat) list" where
  "tc_index a els = map (\<lambda>el. (tc_key a el, el)) els"

definition tc_wf :: "TokenAuthenticator \<Rightarrow> bool" where
  "tc_wf a \<longleftrightarrow> distinct (map (tc_key a) (order a)) \<and> items a = map_of (tc_index a (order a)) \<and>
     (\<forall>el \<in> set (order a). el < next_elem a)"

definition tc_entry :: "TokenAuthenticator \<Rightarrow> nat \<Rightarrow> string \<times> tokenVerdict" where
  "tc_entry a el = (tc_key a el, ce_verdict (elems a el))"

text \<open>The cache as the list of its entries, most recently used first.\<close>

definition tc_abs :: "TokenAuthenticator \<Rightarrow> (string \<times> tokenVerdict) list" where
  "tc_abs a = map (tc_entry a) (order a)"

lemma fst_entry [simp]: "fst (tc_entry a el) = tc_key a el"
  by (simp add: tc_entry_def)

lemma tc_upd [simp]:
  "tc_key (a\<lparr>order := os\<rparr>) = tc_key a" "tc_key (a\<lparr>items := m\<rparr>) = tc_key a"
  "tc_entry (a\<lparr>order := os\<rparr>) = tc_entry a" "tc_entry (a\<lparr>items := m\<rparr>) = tc_entry a"
  "tc_index (a\<lparr>order := os\<rparr>) = tc_index a" "tc_index (a\<lparr>items := m\<rparr>) = tc_index a"
  by (simp_all add: fun_eq_iff tc_key_def tc_entry_def tc_index_def)

lemma tc_index_Cons [simp]: "tc_index a (x # xs) = (tc_key a x, x) # tc_index a xs"
  by (simp add: tc_index_def)

lemma index_remove1:
  "distinct (map (tc_key a) els) \<Longrightarrow> el \<in> set els \<Longrightarrow>
   map_of (tc_index a (remove1 el els)) = (map_of (tc_index a els))(tc_key a el := None)"
proof (induction els)
  case (Cons x els)
  show ?case
  proof (cases "x = el")
    case True
    with Cons.prems have "map_of (tc_index a els) (tc_key a el) = None"
      by (auto simp: tc_index_def map_of_eq_None_iff)
    with True show ?thesis by (auto simp: tc_index_def fun_eq_iff)
  next
    case False
    with Cons.prems have "tc_key a el \<noteq> tc_key a x" by (auto simp: image_iff)
    with False Cons show ?thesis by (auto simp: tc_index_def fun_eq_iff)
  qed
qed simp

lemma distinct_remove1_keys:
  "distinct (map f els) \<Longrightarrow> distinct (map f (remove1 el els))"
  by (induction els) (auto dest: notin_set_remove1 set_remove1_subset [THEN subsetD])

lemma index_front:
  assumes "distinct (map (tc_key a) els)" "el \<in> set els"
  shows "map_of (tc_index a (el # remove1 el els)) = map_of (tc_index a els)"
proof -
  have "map_of (tc_index a els) (tc_key a el) = Some el"
    using assms by (intro map_of_is_SomeI) (auto simp: tc_index_def comp_def)
  then show ?thesis
    using index_remove1 [OF assms] by (auto simp: tc_index_def fun_eq_iff)
qed

lemma distinct_mapI: "distinct (map f xs) \<Longrightarrow> distinct xs"
  by (simp add: distinct_map)

lemma distinct_front:
  assumes "distinct (map f els)" "el \<in> set els"
  shows "distinct (map f (el # remove1 el els))"
proof -
  have "mset (el # remove1 el els) = mset els" using assms(2) by simp
  then show ?thesis by (metis assms(1) mset_eq_imp_distinct_iff mset_map)
qed

lemma items_elem:
  assumes "tc_wf a" "items a k = Some el"
  shows "el \<in> set (order a)" "tc_key a el = k" "el < next_elem a"
proof -
  from assms have "(k, el) \<in> set (tc_index a (order a))"
    by (auto simp: tc_wf_def dest: map_of_SomeD)
  then show "el \<in> set (order a)" "tc_key a el = k" by (auto simp: tc_index_def)
  with assms(1) show "el < next_elem a" by (simp add: tc_wf_def)
qed

lemma tc_wf_keys: "tc_wf a \<Longrightarrow> distinct (map fst (tc_abs a))"
  by (simp add: tc_abs_def tc_entry_def tc_wf_def comp_def)

lemma tc_items: "tc_wf a \<Longrightarrow> map_of (tc_abs a) k = map_option (\<lambda>el. ce_verdict (elems a el)) (items a k)"
proof -
  assume "tc_wf a"
  then have "items a k = map_of (tc_index a (order a)) k" by (simp add: tc_wf_def)
  moreover have "map_of (map (tc_entry a) els) k =
      map_option (\<lambda>el. ce_verdict (elems a el)) (map_of (tc_index a els) k)" for els
    by (induction els) (auto simp: tc_entry_def tc_index_def)
  ultimately show ?thesis by (simp add: tc_abs_def)
qed

lemma tc_remove1:
  assumes "tc_wf a" "items a k = Some el"
  shows "map (tc_entry a) (remove1 el (order a)) = filter (\<lambda>p. fst p \<noteq> k) (tc_abs a)"
proof -
  have "map (tc_entry a) (remove1 el els) = filter (\<lambda>p. fst p \<noteq> tc_key a el) (map (tc_entry a) els)"
    if "distinct (map (tc_key a) els)" "el \<in> set els" for els
    using that
  proof (induction els)
    case (Cons x els)
    show ?case
    proof (cases "x = el")
      case True
      with Cons.prems have "\<forall>y \<in> set els. tc_key a y \<noteq> tc_key a el" by (auto simp: image_iff)
      then have "filter (\<lambda>p. fst p \<noteq> tc_key a el) (map (tc_entry a) els) = map (tc_entry a) els"
        by (intro filter_True) auto
      with True show ?thesis by simp
    next
      case False
      with Cons.prems have "tc_key a x \<noteq> tc_key a el" by (auto simp: image_iff)
      with False Cons show ?thesis by simp
    qed
  qed simp
  then show ?thesis
    using assms items_elem [OF assms] by (auto simp: tc_abs_def tc_wf_def)
qed

section \<open>Refinement of a least-recently-used list\<close>

type_synonym lru = "(string \<times> tokenVerdict) list"

definition lru_lookup :: "int \<Rightarrow> string \<Rightarrow> lru \<Rightarrow> tokenVerdict option \<times> lru" where
  "lru_lookup now k xs =
     (case map_of xs k of
        None \<Rightarrow> (None, xs)
      | Some v \<Rightarrow>
          let rest = filter (\<lambda>p. fst p \<noteq> k) xs in
          if now > tv_expires v then (None, rest) else (Some v, (k, v) # rest))"

definition lru_store :: "int \<Rightarrow> string \<Rightarrow> tokenVerdict \<Rightarrow> lru \<Rightarrow> lru" where
  "lru_store n k v xs =
     (let ys = (k, v) # filter (\<lambda>p. fst p \<noteq> k) xs in if 0 < n then take (nat n) ys else ys)"

lemma lookup_refines:
  assumes "tc_wf a"
  shows "fst (tc_lookup now k a) = fst (lru_lookup now k (tc_abs a)) \<and>
    tc_abs (snd (tc_lookup now k a)) = snd (lru_lookup now k (tc_abs a)) \<and>
    tc_wf (snd (tc_lookup now k a))"
proof (cases "items a k")
  case None
  then show ?thesis using assms tc_items [OF assms, of k] by (simp add: tc_lookup_def lru_lookup_def)
next
  case (Some el)
  note el = items_elem [OF assms Some]
  have d: "distinct (map (tc_key a) (order a))" "items a = map_of (tc_index a (order a))"
    "\<forall>el \<in> set (order a). el < next_elem a"
    using assms by (simp_all add: tc_wf_def)
  have "\<forall>x \<in> set (remove1 el (order a)). x < next_elem a"
    using d(3) notin_set_remove1 by metis
  with el d show ?thesis
    using Some tc_items [OF assms, of k] tc_remove1 [OF assms Some] index_remove1 [OF d(1) el(1)]
      index_front [OF d(1) el(1)] distinct_front [OF d(1) el(1)] distinct_remove1_keys [OF d(1)]
    by (simp add: tc_lookup_def lru_lookup_def Let_def tc_wf_def tc_abs_def)
      (simp add: tc_entry_def)
qed

lemma evict_step_wf:
  assumes "tc_wf a" "order a \<noteq> []"
  shows "tc_wf (a\<lparr>order := butlast (order a),
    items := (items a)(ce_key (elems a (last (order a))) := None)\<rparr>)"
proof -
  obtain xs x where o: "order a = xs @ [x]" using assms(2) by (cases "order a" rule: rev_cases) auto
  with assms(1) have d: "distinct (map (tc_key a) (xs @ [x]))" "items a = map_of (tc_index a (xs @ [x]))"
    "\<forall>el \<in> set xs. el < next_elem a"
    by (simp_all add: tc_wf_def)
  have "x \<notin> set xs" using d(1) by auto
  then have "remove1 x (xs @ [x]) = xs" by (simp add: remove1_append)
  with index_remove1 [OF d(1), of x] d(2)
  have "map_of (tc_index a xs) = (items a)(tc_key a x := None)" by simp
  with d(1,3) show ?thesis by (simp add: tc_wf_def o tc_key_def [symmetric])
qed

lemma evict_refines:
  "tc_wf a \<Longrightarrow> tc_wf (evict a) \<and> maxEntries (evict a) = maxEntries a \<and>
   tc_abs (evict a) = (if 0 < maxEntries a then take (nat (maxEntries a)) (tc_abs a) else tc_abs a)"
proof (induction a rule: evict.induct)
  case (1 a)
  have len: "length (tc_abs a) = length (order a)" by (simp add: tc_abs_def)
  show ?case
  proof (cases "0 < maxEntries a \<and> int (length (order a)) > maxEntries a \<and> order a \<noteq> []")
    case True
    let ?b = "a\<lparr>order := butlast (order a),
      items := (items a)(ce_key (elems a (last (order a))) := None)\<rparr>"
    have w: "tc_wf ?b" using evict_step_wf "1.prems" True by blast
    have e: "evict a = evict ?b" using True by (subst evict.simps) (simp add: Let_def)
    have "tc_abs ?b = butlast (tc_abs a)"
      by (simp add: tc_abs_def map_butlast)
    moreover have "nat (maxEntries a) < length (tc_abs a)"
      using True unfolding len by linarith
    ultimately have "take (nat (maxEntries a)) (tc_abs ?b) = take (nat (maxEntries a)) (tc_abs a)"
      by (simp add: take_butlast)
    with "1.IH" [OF True refl w] True e show ?thesis by simp
  next
    case False
    then have "evict a = a" by (subst evict.simps) auto
    with False len "1.prems" show ?thesis by auto
  qed
qed

definition tc_bounded :: "TokenAuthenticator \<Rightarrow> bool" where
  "tc_bounded a \<longleftrightarrow> tc_wf a \<and> (0 < maxEntries a \<longrightarrow> int (tc_Len a) \<le> maxEntries a)"

lemma store_new:
  fixes v :: tokenVerdict
  assumes "tc_wf a" "items a k = None"
  defines "b \<equiv> a\<lparr>elems := (elems a)(next_elem a := \<lparr>ce_key = k, ce_verdict = v\<rparr>),
    order := next_elem a # order a, items := (items a)(k \<mapsto> next_elem a), next_elem := next_elem a + 1\<rparr>"
  shows "tc_wf b" "tc_abs b = (k, v) # filter (\<lambda>p. fst p \<noteq> k) (tc_abs a)"
proof -
  have old: "tc_key b x = tc_key a x" "tc_entry b x = tc_entry a x" if "x \<in> set (order a)" for x
    using that assms(1) by (auto simp: b_def tc_key_def tc_entry_def tc_wf_def)
  then have m: "map (tc_key b) (order a) = map (tc_key a) (order a)"
    "map (tc_entry b) (order a) = tc_abs a" "tc_index b (order a) = tc_index a (order a)"
    by (simp_all add: tc_abs_def tc_index_def)
  have new: "tc_key b (next_elem a) = k" "tc_entry b (next_elem a) = (k, v)" "order b = next_elem a # order a"
    by (simp_all add: b_def tc_key_def tc_entry_def)
  have k: "k \<notin> set (map (tc_key a) (order a))"
    using assms(1,2) by (auto simp: tc_wf_def tc_index_def map_of_eq_None_iff image_iff)
  have parts: "items b = (items a)(k \<mapsto> next_elem a)" "next_elem b = Suc (next_elem a)"
    by (simp_all add: b_def)
  have "items b = map_of (tc_index b (order b))"
    using assms(1) m(3) new parts(1) by (simp add: tc_wf_def)
  moreover have "map (tc_key b) (order b) = k # map (tc_key a) (order a)"
    unfolding new(3) list.map m(1) new(1) ..
  then have "distinct (map (tc_key b) (order b))"
    using assms(1) k by (simp add: tc_wf_def)
  moreover have "\<forall>el \<in> set (order b). el < next_elem b"
    using assms(1) new parts(2) by (auto simp: tc_wf_def)
  ultimately show "tc_wf b" by (simp add: tc_wf_def)
  have "filter (\<lambda>p. fst p \<noteq> k) (tc_abs a) = tc_abs a"
    using k by (intro filter_True) (auto simp: tc_abs_def tc_entry_def)
  then show "tc_abs b = (k, v) # filter (\<lambda>p. fst p \<noteq> k) (tc_abs a)"
    using m new by (simp add: tc_abs_def)
qed

lemma store_old:
  fixes v :: tokenVerdict
  assumes "tc_wf a" "items a k = Some el"
  defines "b \<equiv> a\<lparr>elems := (elems a)(el := (elems a el)\<lparr>ce_verdict := v\<rparr>), order := el # remove1 el (order a)\<rparr>"
  shows "tc_wf b" "tc_abs b = (k, v) # filter (\<lambda>p. fst p \<noteq> k) (tc_abs a)"
proof -
  note el = items_elem [OF assms(1,2)]
  have key: "tc_key b = tc_key a" by (auto simp: b_def tc_key_def fun_eq_iff)
  then have ix: "tc_index b = tc_index a" by (simp add: tc_index_def fun_eq_iff)
  have d: "distinct (map (tc_key a) (order a))" using assms(1) by (simp add: tc_wf_def)
  have "\<forall>x \<in> set (el # remove1 el (order a)). x < next_elem a"
    using assms(1) el(3) notin_set_remove1 by (fastforce simp: tc_wf_def)
  then show "tc_wf b"
    using assms(1) distinct_front [OF d el(1)] index_front [OF d el(1)] key ix
    by (simp add: tc_wf_def) (simp add: b_def)
  have "el \<notin> set (remove1 el (order a))"
    using distinct_mapI [OF d] by simp
  then have "map (tc_entry b) (remove1 el (order a)) = map (tc_entry a) (remove1 el (order a))"
    by (auto simp: b_def tc_entry_def tc_key_def)
  then show "tc_abs b = (k, v) # filter (\<lambda>p. fst p \<noteq> k) (tc_abs a)"
    using tc_remove1 [OF assms(1,2)] el(2) key
    by (simp add: tc_abs_def) (simp add: b_def tc_abs_def tc_entry_def tc_key_def)
qed

lemma filter_length_hit: "map_of xs k = Some v \<Longrightarrow> length (filter (\<lambda>p. fst p \<noteq> k) xs) < length xs"
  by (rule length_filter_less [where x = "(k, v)"]) (auto dest: map_of_SomeD)

lemma store_refines:
  assumes "tc_bounded a"
  shows "tc_wf (tc_store k v a) \<and> maxEntries (tc_store k v a) = maxEntries a \<and>
    tc_abs (tc_store k v a) = lru_store (maxEntries a) k v (tc_abs a)"
proof (cases "items a k")
  case None
  have w: "tc_wf a" using assms by (simp add: tc_bounded_def)
  from evict_refines [OF store_new(1) [OF w None]] store_new(2) [OF w None] None show ?thesis
    by (simp add: tc_store_def lru_store_def Let_def)
next
  case (Some el)
  have w: "tc_wf a" using assms by (simp add: tc_bounded_def)
  have "length (filter (\<lambda>p. fst p \<noteq> k) (tc_abs a)) < length (tc_abs a)"
    using tc_items [OF w, of k] Some by (intro filter_length_hit) auto
  then have "0 < maxEntries a \<Longrightarrow>
      length ((k, v) # filter (\<lambda>p. fst p \<noteq> k) (tc_abs a)) \<le> nat (maxEntries a)"
    using assms by (auto simp: tc_bounded_def tc_Len_def tc_abs_def)
  then show ?thesis
    using store_old [OF w Some] Some by (simp add: tc_store_def lru_store_def Let_def)
qed

lemma tc_bounded_step:
  assumes "tc_bounded a"
  shows "tc_bounded (snd (tc_lookup now k a))" "tc_bounded (tc_store k v a)"
proof -
  have w: "tc_wf a" using assms by (simp add: tc_bounded_def)
  have len: "tc_Len b = length (tc_abs b)" for b by (simp add: tc_Len_def tc_abs_def)
  have "maxEntries (snd (tc_lookup now k a)) = maxEntries a"
    by (auto simp: tc_lookup_def Let_def split: option.splits)
  moreover have "tc_Len (snd (tc_lookup now k a)) \<le> tc_Len a"
    using lookup_refines [OF w, of now k] filter_length_hit [of "tc_abs a" k]
    by (auto simp: len lru_lookup_def Let_def Suc_le_eq split: option.splits)
  ultimately show "tc_bounded (snd (tc_lookup now k a))"
    using assms lookup_refines [OF w] by (auto simp: tc_bounded_def)
  from len show "tc_bounded (tc_store k v a)"
    using store_refines [OF assms, of k v] by (auto simp: tc_bounded_def lru_store_def Let_def)
qed

lemma map_of_filter_ne: "map_of (filter (\<lambda>p. fst p \<noteq> k) xs) = (map_of xs)(k := None)"
  by (induction xs) auto

lemma map_of_take: "map_of (take n xs) \<subseteq>\<^sub>m map_of xs"
proof (induction xs arbitrary: n)
  case (Cons x xs)
  then show ?case by (cases n) (auto simp: map_le_def dom_def)
qed simp

interpretation token_cache: ttl_cache tc_lookup tc_store tc_bounded "\<lambda>a. map_of (tc_abs a)" tv_expires
proof (unfold_locales, goal_cases)
  case (3 a now k v a')
  then show ?case
    using lookup_refines [of a now k]
    by (auto simp: tc_bounded_def lru_lookup_def Let_def split: option.splits if_splits)
next
  case (4 a k v now)
  then show ?case
    using lookup_refines [of a now k] by (auto simp: tc_bounded_def lru_lookup_def Let_def)
next
  case (5 a now k)
  then show ?case
    using lookup_refines [of a now k]
    by (auto simp: tc_bounded_def lru_lookup_def Let_def map_of_filter_ne map_le_def
        split: option.splits)
next
  case (6 a k v)
  have "map_of ((k, v) # filter (\<lambda>p. fst p \<noteq> k) (tc_abs a)) = (map_of (tc_abs a))(k \<mapsto> v)"
    by (simp add: map_of_filter_ne)
  then show ?case
    using store_refines [OF 6, of k v]
      map_of_take [of "nat (maxEntries a)" "(k, v) # filter (\<lambda>p. fst p \<noteq> k) (tc_abs a)"]
    by (cases "0 < maxEntries a") (simp_all only: lru_store_def Let_def if_True if_False map_le_refl)
qed (simp_all add: tc_bounded_step)

section \<open>The key\<close>

lemma nul_byte [simp]: "(of_char (char_of (0::nat)) :: byte) = 0"
proof -
  have "(of_char (char_of (0::nat)) :: byte) = of_nat (of_char (char_of (0::nat)))"
    by (simp only: of_nat_of_char)
  then show ?thesis by simp
qed

lemma nul_split:
  "0 \<notin> set (str_bytes a) \<Longrightarrow> 0 \<notin> set (str_bytes b) \<Longrightarrow>
   str_bytes a @ 0 # x = str_bytes b @ 0 # y \<Longrightarrow> a = b \<and> x = y"
proof -
  assume n: "0 \<notin> set (str_bytes a)" "0 \<notin> set (str_bytes b)"
    and e: "str_bytes a @ 0 # x = str_bytes b @ 0 # y"
  have tw: "takeWhile (\<lambda>z. z \<noteq> 0) (str_bytes c @ 0 # z) = str_bytes c"
    if "0 \<notin> set (str_bytes c)" for c z
    using that by (subst takeWhile_append2) auto
  from tw [OF n(1)] tw [OF n(2)] e have "str_bytes a = str_bytes b" by metis
  with e show ?thesis by simp
qed

lemma nul_terminated_inj:
  "length ps = length qs \<Longrightarrow> (\<And>p. p \<in> set ps \<union> set qs \<Longrightarrow> 0 \<notin> set (str_bytes p)) \<Longrightarrow>
   nul_terminated ps = nul_terminated qs \<Longrightarrow> ps = qs"
proof (induction ps qs rule: list_induct2)
  case (Cons p ps q qs)
  then have "p = q \<and> nul_terminated ps = nul_terminated qs"
    by (intro nul_split) (auto simp: nul_terminated_def)
  with Cons show ?case by simp
qed simp

section \<open>Properties\<close>

lemma new_authenticator:
  assumes "NewTokenAuthenticator cfg = Inr a"
  shows "tc_bounded a" "map_of (tc_abs a) = Map.empty" "maxEntries a = ac_MaxEntries cfg"
  using assms by (auto simp: NewTokenAuthenticator_def Let_def tc_bounded_def tc_wf_def tc_Len_def
      tc_abs_def tc_index_def split: if_splits)

text \<open>C29: the pair of a hash map and a linked list behaves as a list of entries ordered by use: a
  look-up finds the entry of the key unless it has expired, moves it to the front or drops it,
  and a store puts the entry at the front and cuts the list at the configured size.\<close>

theorem token_cache_refines_lru:
  assumes "tc_bounded a"
  shows "fst (tc_lookup now k a) = fst (lru_lookup now k (tc_abs a)) \<and>
    tc_abs (snd (tc_lookup now k a)) = snd (lru_lookup now k (tc_abs a)) \<and>
    tc_abs (tc_store k v a) = lru_store (maxEntries a) k v (tc_abs a) \<and>
    tc_bounded (snd (tc_lookup now k a)) \<and> tc_bounded (tc_store k v a)"
proof -
  from assms have "tc_wf a" by (simp add: tc_bounded_def)
  then show ?thesis
    using lookup_refines store_refines [OF assms] tc_bounded_step [OF assms] by blast
qed

definition sample_auth :: TokenAuthenticator where
  "sample_auth = (case NewTokenAuthenticator \<lparr>ac_WhoamiURL = ''http://synapse/'', ac_WhoamiSocket = '''',
     ac_PositiveTTL = 5 * Minute, ac_NegativeTTL = 30 * Second, ac_MaxEntries = 2\<rparr> of Inr a \<Rightarrow> a)"

lemma sample_auth:
  "NewTokenAuthenticator \<lparr>ac_WhoamiURL = ''http://synapse/'', ac_WhoamiSocket = '''',
     ac_PositiveTTL = 5 * Minute, ac_NegativeTTL = 30 * Second, ac_MaxEntries = 2\<rparr> = Inr sample_auth"
  by (simp add: sample_auth_def NewTokenAuthenticator_def Let_def)

theorem token_cache_refines_lru_witness:
  "tc_abs (tc_store ''k'' no_verdict sample_auth) =
   lru_store (maxEntries sample_auth) ''k'' no_verdict (tc_abs sample_auth)"
  using token_cache_refines_lru [OF new_authenticator(1) [OF sample_auth]] by blast

text \<open>C28: whatever look-ups and stores came before, a verdict the cache answers with is the one stored
  last under that key, it has not expired, and the cache never holds more than its limit.\<close>

theorem token_cache_sound:
  assumes "NewTokenAuthenticator cfg = Inr a0"
    and "tc_lookup now k (run_ops tc_lookup tc_store a0 ops) = (Some v, a)"
  shows "last_put k ops = Some v \<and> now \<le> tv_expires v \<and>
    (0 < ac_MaxEntries cfg \<longrightarrow> int (tc_Len a) \<le> ac_MaxEntries cfg)"
proof -
  note new = new_authenticator [OF assms(1)]
  have m: "maxEntries (run_ops tc_lookup tc_store a0 ops) = maxEntries a0 \<and>
      tc_bounded (run_ops tc_lookup tc_store a0 ops)"
  proof (induction ops)
    case (Cons op ops)
    then show ?case
      using tc_bounded_step store_refines lookup_refines
      by (cases op) (auto simp: tc_lookup_def Let_def split: option.splits)
  qed (simp add: new)
  then have "tc_bounded a \<and> maxEntries a = maxEntries a0"
    using tc_bounded_step(1) [of "run_ops tc_lookup tc_store a0 ops" now k] assms(2)
    by (auto simp: tc_lookup_def Let_def split: option.splits if_splits)
  then show ?thesis
    using token_cache.hit_sound [OF new(1,2) assms(2)] new(3) by (auto simp: tc_bounded_def)
qed

definition sample_verdict :: tokenVerdict where
  "sample_verdict = no_verdict\<lparr>tv_valid := True, tv_userID := ''@u:example.org'', tv_expires := 10\<rparr>"

lemma sample_hit:
  "fst (tc_lookup 5 ''k'' (run_ops tc_lookup tc_store sample_auth [Put ''k'' sample_verdict])) =
   Some sample_verdict"
proof -
  note b = new_authenticator [OF sample_auth]
  have "tc_abs sample_auth = []" using b(2) by (simp add: map_of_eq_empty_iff)
  then have "tc_abs (tc_store ''k'' sample_verdict sample_auth) = [(''k'', sample_verdict)]"
    using store_refines [OF b(1), of "''k''" sample_verdict] b(3) by (simp add: lru_store_def)
  moreover have "tc_wf (tc_store ''k'' sample_verdict sample_auth)"
    using store_refines [OF b(1)] by blast
  ultimately show ?thesis
    using lookup_refines [of "tc_store ''k'' sample_verdict sample_auth" 5 "''k''"]
    by (simp add: lru_lookup_def sample_verdict_def)
qed

theorem token_cache_sound_witness:
  "last_put ''k'' [Put ''k'' sample_verdict] = Some sample_verdict \<and> 5 \<le> tv_expires sample_verdict"
  using token_cache_sound [OF sample_auth] sample_hit by (metis prod.collapse)

text \<open>What is hashed into the key of the cache determines the token, the masqueraded user and the
  device, so no verdict is looked up under the key of other credentials (short of a collision of
  SHA-256), as long as none of the three contains a zero byte.\<close>

theorem cred_key_separates:
  fixes c d :: Credentials
  assumes "\<forall>s \<in> {cr_Token c, cr_UserID c, cr_DeviceID c, cr_Token d, cr_UserID d, cr_DeviceID d}.
      char_of (0::nat) \<notin> set s"
  shows "nul_terminated [cr_Token c, cr_UserID c, cr_DeviceID c] =
      nul_terminated [cr_Token d, cr_UserID d, cr_DeviceID d] \<longleftrightarrow>
    cr_Token c = cr_Token d \<and> cr_UserID c = cr_UserID d \<and> cr_DeviceID c = cr_DeviceID d"
proof
  assume e: "nul_terminated [cr_Token c, cr_UserID c, cr_DeviceID c] =
      nul_terminated [cr_Token d, cr_UserID d, cr_DeviceID d]"
  have nul: "0 \<notin> set (str_bytes s)" if "char_of (0::nat) \<notin> set s" for s
  proof
    assume "0 \<in> set (str_bytes s)"
    then obtain x where x: "x \<in> set s" "(of_char x :: byte) = 0" by (auto simp: str_bytes_def)
    from x(2) have "x = char_of (0::nat)" using of_char_byte_inj nul_byte by metis
    with x(1) that show False by simp
  qed
  have "[cr_Token c, cr_UserID c, cr_DeviceID c] = [cr_Token d, cr_UserID d, cr_DeviceID d]"
    using assms by (intro nul_terminated_inj [OF _ _ e]) (auto intro!: nul)
  then show "cr_Token c = cr_Token d \<and> cr_UserID c = cr_UserID d \<and> cr_DeviceID c = cr_DeviceID d"
    by simp
qed simp

theorem cred_key_separates_witness:
  "nul_terminated [''tok'', ''@a:hs'', ''''] \<noteq> nul_terminated [''tok'', ''@b:hs'', '''']"
  using cred_key_separates [of
      "\<lparr>cr_Token = ''tok'', cr_UserID = ''@a:hs'', cr_DeviceID = '''', cr_Forwarded = []\<rparr>"
      "\<lparr>cr_Token = ''tok'', cr_UserID = ''@b:hs'', cr_DeviceID = '''', cr_Forwarded = []\<rparr>"]
  by (simp add: char_of_def)

text \<open>With a zero byte in the query parameters two different credentials do share a key.\<close>

theorem cred_key_nul_collision:
  "cred_cacheKey \<lparr>cr_Token = t, cr_UserID = ''a'' @ [char_of (0::nat)] @ ''b'', cr_DeviceID = '''', cr_Forwarded = f\<rparr> =
   cred_cacheKey \<lparr>cr_Token = t, cr_UserID = ''a'', cr_DeviceID = ''b'' @ [char_of (0::nat)], cr_Forwarded = f\<rparr>"
  by (simp add: cred_cacheKey_def nul_terminated_def str_bytes_def)

text \<open>The request to Synapse carries exactly the caller's token and exactly the user and device
  the caller named: read back, the query has these parameters and no other, whatever bytes they
  are made of.\<close>

theorem whoami_request_faithful:
  assumes "cr_UserID creds \<noteq> '''' \<or> cr_DeviceID creds \<noteq> ''''"
  shows "\<exists>q. wq_target (whoami_req a creds) = whoamiURL a @ ''?'' @ q \<and>
    query_get (parse_query q) ''user_id'' = cr_UserID creds \<and>
    query_get (parse_query q) ''device_id'' = cr_DeviceID creds \<and>
    fst ` set (parse_query q) \<subseteq> {''user_id'', ''device_id''} \<and>
    hvalues (wq_headers (whoami_req a creds)) ''Authorization'' = [''Bearer '' @ cr_Token creds]"
proof -
  let ?q = "(if cr_DeviceID creds \<noteq> '''' then [(''device_id'', cr_DeviceID creds)] else []) @
    (if cr_UserID creds \<noteq> '''' then [(''user_id'', cr_UserID creds)] else [])"
  have "wq_target (whoami_req a creds) = whoamiURL a @ ''?'' @ query_encode ?q"
    using assms by (auto simp: whoami_req_def Let_def)
  moreover have "hvalues (wq_headers (whoami_req a creds)) ''Authorization'' = [''Bearer '' @ cr_Token creds]"
    by (auto simp: whoami_req_def Let_def hvalues_def forwardedHeaders_def filter_empty_conv)
  ultimately show ?thesis
    using assms by (intro exI [of _ "query_encode ?q"]) (auto simp: parse_query_encode query_get_def)
qed

theorem whoami_request_faithful_witness:
  "\<exists>q. wq_target (whoami_req sample_auth \<lparr>cr_Token = ''t'', cr_UserID = ''@a&device_id=x:hs'',
      cr_DeviceID = '''', cr_Forwarded = []\<rparr>) = whoamiURL sample_auth @ ''?'' @ q \<and>
    query_get (parse_query q) ''user_id'' = ''@a&device_id=x:hs''"
proof -
  let ?c = "\<lparr>cr_Token = ''t'', cr_UserID = ''@a&device_id=x:hs'', cr_DeviceID = '''', cr_Forwarded = []\<rparr>"
  have "cr_UserID ?c \<noteq> '''' \<or> cr_DeviceID ?c \<noteq> ''''" by simp
  from whoami_request_faithful [OF this, of sample_auth] show ?thesis by auto
qed

end
