(* ===== verification/World.thy ===== *)
theory World
  imports Fsid Token_Cache
begin

text \<open>
  What the handlers act on: the files of the media store, the four media tables of Synapse's
  database, the clock, the random source, the replies written so far, and the failures the
  environment has in store. Handlers are programs of the state monad over this record, in the
  order of the calls of the code; a call that can fail takes the next entry of \<open>w_faults\<close>.
  Theorems quantify over the world, so over every sequence of failures. The last section is the
  calculus they are proved with: weakest preconditions of the primitives.
\<close>

section \<open>State\<close>

record disk_file =
  f_bytes :: bytes
  f_mode :: nat
  f_synced :: bool

record local_row =
  lr_media_id :: string
  lr_media_type :: "string option"
  lr_length :: "int option"
  lr_created_ts :: "int option"
  lr_upload_name :: "string option"
  lr_user_id :: "string option"
  lr_quarantined_by :: "string option"
  lr_url_cache :: "string option"
  lr_authenticated :: "bool option"
  lr_sha256 :: "string option"
  lr_last_access_ts :: "int option"

record remote_row =
  rr_origin :: string
  rr_media_id :: string
  rr_media_type :: "string option"
  rr_length :: "int option"
  rr_created_ts :: "int option"
  rr_upload_name :: "string option"
  rr_filesystem_id :: "string option"
  rr_quarantined_by :: "string option"
  rr_authenticated :: "bool option"
  rr_sha256 :: "string option"
  rr_last_access_ts :: "int option"

text \<open>The identifying columns of a thumbnail row; all of them are nullable.\<close>

record thumb_row =
  tr_width :: "int option"
  tr_height :: "int option"
  tr_type :: "string option"
  tr_method :: "string option"
  tr_length :: "int option"

record local_thumb = thumb_row +
  lt_media_id :: string

record remote_thumb = thumb_row +
  rt_origin :: string
  rt_media_id :: string
  rt_filesystem_id :: "string option"

text \<open>\<open>Fault e\<close>: the call fails and does nothing. \<open>Lost e\<close>: it takes effect, and an error is
  reported all the same, as when the connection drops after a commit.\<close>

datatype fault = NoFault | Fault err | Lost err

text \<open>An error of the federation client: one that carries no HTTP answer, or one with the status of the Matrix
  error, where the answer had one, and the status of the answer, where it is kept.\<close>

datatype fed_error = OtherFailure | HTTPError "int option" "int option"

text \<open>What another homeserver answers to a download, once \<^verbatim>\<open>net/http\<close>, \<^verbatim>\<open>mime\<close> and \<^verbatim>\<open>multipart\<close> have
  read it; \<open>None\<close> fields are what those packages reject. A body is the bytes that arrive, and
  whether it ends there or breaks off.\<close>

record fed_reply =
  fr_content_length :: int
  fr_media_type :: "(string \<times> (string \<times> string) list) option"
  fr_meta :: "string option"
  fr_meta_reads :: bool
  fr_file :: "headers option"
  fr_body :: "bytes \<times> bool"

record redirect_reply =
  rd_status :: nat
  rd_content_length :: int
  rd_headers :: headers
  rd_body :: "bytes \<times> bool"

text \<open>What a request that waits for an upload sees: another tick, by which time has passed and other
  requests have made of the local media and the files what is given here; or the end of its context.\<close>

datatype await_event = Poll nat "local_row list" "string \<rightharpoonup> disk_file" | Gone

record world =
  w_files :: "string \<rightharpoonup> disk_file"
  w_local :: "local_row list"
  w_remote :: "remote_row list"
  w_lthumbs :: "local_thumb list"
  w_rthumbs :: "remote_thumb list"
  w_faults :: "fault list"
  w_temps :: "nat list"
  w_draws :: "nat option list"
  w_clock :: int
  w_ticks :: "nat list"
  w_cancelled :: bool
  w_recent_local :: "string list"
  w_recent_remote :: "(string \<times> string) list"
  w_auth :: TokenAuthenticator
  w_whoami :: "whoami_reply option list"
  w_fed :: "(fed_error + fed_reply) list"
  w_redirects :: "redirect_reply option list"
  w_awaits :: "await_event list"
  w_hdrs :: headers
  w_replies :: "reply list"
  w_notes :: "string list list"

type_synonym 'a io = "(world, 'a) state"

section \<open>Control\<close>

text \<open>\<^verbatim>\<open>if err := ...; err != nil { ... }\<close>: the first continuation is the error branch.\<close>

definition attempt :: "('s, 'a res) state \<Rightarrow> (err \<Rightarrow> ('s, 'b) state) \<Rightarrow> ('a \<Rightarrow> ('s, 'b) state) \<Rightarrow> ('s, 'b) state"
where
  "attempt m h k = do { r \<leftarrow> m; case r of Inl e \<Rightarrow> h e | Inr x \<Rightarrow> k x }"

definition skip :: "unit io" where
  "skip = State_Monad.return ()"

definition next_fault :: "fault io" where
  "next_fault = State (\<lambda>w. case w_faults w of
     [] \<Rightarrow> (NoFault, w)
   | f # fs \<Rightarrow> (f, w\<lparr>w_faults := fs, w_cancelled := (w_cancelled w \<or> f = Fault ErrContext \<or> f = Lost ErrContext)\<rparr>))"

text \<open>A system call reports an error of the operating system. A database call reports the end of the
  request's context, or an error of the database.\<close>

definition os_err :: "err \<Rightarrow> err" where
  "os_err e = (if e = ErrNotExist then ErrNotExist else ErrIO)"

definition db_err :: "err \<Rightarrow> err" where
  "db_err e = (if e = ErrContext then ErrContext else ErrDB)"

definition call_with :: "(err \<Rightarrow> err) \<Rightarrow> (world \<Rightarrow> 'a res \<times> world) \<Rightarrow> 'a res io" where
  "call_with g f = do { ft \<leftarrow> next_fault;
     case ft of
       NoFault \<Rightarrow> State f
     | Fault e \<Rightarrow> State_Monad.return (Inl (g e))
     | Lost e \<Rightarrow> State_Monad.return (Inl (g e)) }"

text \<open>A call whose effect can survive its error.\<close>

definition lossy_with :: "(err \<Rightarrow> err) \<Rightarrow> (world \<Rightarrow> 'a res \<times> world) \<Rightarrow> 'a res io" where
  "lossy_with g f = do { ft \<leftarrow> next_fault;
     case ft of
       NoFault \<Rightarrow> State f
     | Fault e \<Rightarrow> State_Monad.return (Inl (g e))
     | Lost e \<Rightarrow> do { _ \<leftarrow> State f; State_Monad.return (Inl (g e)) } }"

abbreviation sys :: "(world \<Rightarrow> 'a res \<times> world) \<Rightarrow> 'a res io" where
  "sys \<equiv> call_with os_err"

abbreviation db_read :: "(world \<Rightarrow> 'a res \<times> world) \<Rightarrow> 'a res io" where
  "db_read \<equiv> call_with db_err"

abbreviation db_write :: "(world \<Rightarrow> 'a res \<times> world) \<Rightarrow> 'a res io" where
  "db_write \<equiv> lossy_with db_err"

section \<open>Primitives\<close>

subsection \<open>Time and randomness\<close>

definition go_now :: "int io" where
  "go_now = State (\<lambda>w.
     (let d = (case w_ticks w of [] \<Rightarrow> 0 | n # _ \<Rightarrow> int n); t = w_clock w + d
      in (t, w\<lparr>w_clock := t, w_ticks := tl (w_ticks w)\<rparr>)))"

text \<open>\<^verbatim>\<open>UnixMilli\<close> of a time in nanoseconds.\<close>

definition unix_milli :: "int \<Rightarrow> int" where
  "unix_milli t = t div 1000000"

text \<open>\<open>None\<close> is the panic of \<^verbatim>\<open>newFilesystemID\<close>, after which the handler does nothing more.\<close>

definition fresh_id :: "string option io" where
  "fresh_id = State (\<lambda>w. case newFilesystemID (w_draws w) of
     None \<Rightarrow> (None, w)
   | Some (i, ds) \<Rightarrow> (Some i, w\<lparr>w_draws := ds\<rparr>))"

subsection \<open>Files\<close>

text \<open>Directories are not part of the state: \<^verbatim>\<open>MkdirAll\<close> can only fail.\<close>

definition os_mkdir_all :: "string \<Rightarrow> unit res io" where
  "os_mkdir_all d = sys (\<lambda>w. (Inr (), w))"

definition temp_name :: "string \<Rightarrow> string \<Rightarrow> nat \<Rightarrow> string" where
  "temp_name d prefix n = d @ ''/'' @ prefix @ show_nat n"

text \<open>\<^verbatim>\<open>os.CreateTemp\<close> with a pattern \<open>prefix*\<close>: it tries names until one is free.\<close>

definition os_create_temp :: "string \<Rightarrow> string \<Rightarrow> string res io" where
  "os_create_temp d prefix = sys (\<lambda>w.
     (case dropWhile (\<lambda>n. w_files w (temp_name d prefix n) \<noteq> None) (w_temps w) of
        [] \<Rightarrow> (Inl ErrIO, w)
      | n # ns \<Rightarrow>
          (Inr (temp_name d prefix n),
           w\<lparr>w_files := (w_files w)(temp_name d prefix n \<mapsto> \<lparr>f_bytes = [], f_mode = 384, f_synced = False\<rparr>),
             w_temps := ns\<rparr>)))"

definition on_file :: "string \<Rightarrow> (disk_file \<Rightarrow> disk_file) \<Rightarrow> world \<Rightarrow> unit res \<times> world" where
  "on_file p g w =
     (case w_files w p of
        None \<Rightarrow> (Inl ErrNotExist, w)
      | Some f \<Rightarrow> (Inr (), w\<lparr>w_files := (w_files w)(p \<mapsto> g f)\<rparr>))"

definition os_write :: "string \<Rightarrow> bytes \<Rightarrow> unit res io" where
  "os_write p d = lossy_with os_err (on_file p (\<lambda>f. f\<lparr>f_bytes := f_bytes f @ d, f_synced := False\<rparr>))"

definition os_sync :: "string \<Rightarrow> unit res io" where
  "os_sync p = sys (on_file p (\<lambda>f. f\<lparr>f_synced := True\<rparr>))"

definition os_close :: "string \<Rightarrow> unit res io" where
  "os_close p = sys (\<lambda>w. (Inr (), w))"

definition os_chmod :: "string \<Rightarrow> nat \<Rightarrow> unit res io" where
  "os_chmod p m = sys (on_file p (\<lambda>f. f\<lparr>f_mode := m\<rparr>))"

definition os_rename :: "string \<Rightarrow> string \<Rightarrow> unit res io" where
  "os_rename a b = sys (\<lambda>w.
     (case w_files w a of
        None \<Rightarrow> (Inl ErrNotExist, w)
      | Some f \<Rightarrow> (Inr (), w\<lparr>w_files := (w_files w)(a := None, b := Some f)\<rparr>)))"

definition os_remove :: "string \<Rightarrow> unit res io" where
  "os_remove p = sys (\<lambda>w.
     (case w_files w p of
        None \<Rightarrow> (Inl ErrNotExist, w)
      | Some _ \<Rightarrow> (Inr (), w\<lparr>w_files := (w_files w)(p := None)\<rparr>)))"

definition os_stat :: "string \<Rightarrow> int res io" where
  "os_stat p = sys (\<lambda>w.
     (case w_files w p of None \<Rightarrow> (Inl ErrNotExist, w) | Some f \<Rightarrow> (Inr (int (length (f_bytes f))), w)))"

text \<open>An open file keeps the bytes it had when it was opened.\<close>

definition os_open :: "string \<Rightarrow> bytes res io" where
  "os_open p = sys (\<lambda>w.
     (case w_files w p of None \<Rightarrow> (Inl ErrNotExist, w) | Some f \<Rightarrow> (Inr (f_bytes f), w)))"

text \<open>\<^verbatim>\<open>_ = os.Remove(name)\<close>.\<close>

definition discard_file :: "string \<Rightarrow> unit io" where
  "discard_file p = do { _ \<leftarrow> os_remove p; skip }"

definition close_discard :: "string \<Rightarrow> unit io" where
  "close_discard p = do { _ \<leftarrow> os_close p; discard_file p }"

subsection \<open>Slots, notes and replies\<close>

text \<open>Waiting for a slot of a semaphore, or for the request's context to end.\<close>

definition acquire :: "unit res io" where
  "acquire = do { ft \<leftarrow> next_fault;
     case ft of NoFault \<Rightarrow> State_Monad.return (Inr ())
     | _ \<Rightarrow> State (\<lambda>w. (Inl ErrContext, w\<lparr>w_cancelled := True\<rparr>)) }"

text \<open>A metric that is counted or a field of the request's log line that is set.\<close>

definition log_note :: "string list \<Rightarrow> unit io" where
  "log_note xs = State (\<lambda>w. ((), w\<lparr>w_notes := w_notes w @ [xs]\<rparr>))"

definition headers_set :: "(headers \<Rightarrow> headers) \<Rightarrow> unit io" where
  "headers_set g = State (\<lambda>w. ((), w\<lparr>w_hdrs := g (w_hdrs w)\<rparr>))"

definition send_reply :: "nat \<Rightarrow> payload \<Rightarrow> unit io" where
  "send_reply st b = State (\<lambda>w. ((), w\<lparr>w_replies := w_replies w @
     [\<lparr>rp_status = st, rp_headers = w_hdrs w, rp_body = b\<rparr>]\<rparr>))"

definition is_cancelled :: "bool io" where
  "is_cancelled = State (\<lambda>w. (w_cancelled w, w))"

section \<open>Weakest preconditions\<close>

definition wp :: "('s, 'a) state \<Rightarrow> ('a \<Rightarrow> 's \<Rightarrow> bool) \<Rightarrow> 's \<Rightarrow> bool" where
  "wp m Q w = (case run_state m w of (a, w') \<Rightarrow> Q a w')"

lemma wp_run: "wp m Q w \<Longrightarrow> run_state m w = (a, w') \<Longrightarrow> Q a w'"
  by (simp add: wp_def)

lemma wp_mono: "wp m P w \<Longrightarrow> (\<And>a w'. P a w' \<Longrightarrow> Q a w') \<Longrightarrow> wp m Q w"
  by (auto simp: wp_def)

lemma wp_conj: "wp m P w \<Longrightarrow> wp m Q w \<Longrightarrow> wp m (\<lambda>a w'. P a w' \<and> Q a w') w"
  by (auto simp: wp_def)

lemma wp_return [simp]: "wp (State_Monad.return x) Q w = Q x w"
  by (simp add: wp_def State_Monad.return_def)

lemma wp_bind [simp]: "wp (m \<bind> f) Q w = wp m (\<lambda>a. wp (f a) Q) w"
  by (simp add: wp_def run_state_bind split: prod.splits)

lemma wp_attempt [simp]:
  "wp (attempt m h k) Q w = wp m (\<lambda>r. case r of Inl e \<Rightarrow> wp (h e) Q | Inr x \<Rightarrow> wp (k x) Q) w"
  by (auto simp: attempt_def wp_def run_state_bind split: prod.splits sum.splits)

lemma wp_State [simp]: "wp (State f) Q w = (case f w of (a, w') \<Rightarrow> Q a w')"
  by (simp add: wp_def)

lemma wp_skip [simp]: "wp skip Q w = Q () w"
  by (simp add: skip_def)

lemma wp_log_note [simp]: "wp (log_note xs) Q w = Q () (w\<lparr>w_notes := w_notes w @ [xs]\<rparr>)"
  by (simp add: log_note_def)

lemma wp_headers_set [simp]: "wp (headers_set g) Q w = Q () (w\<lparr>w_hdrs := g (w_hdrs w)\<rparr>)"
  by (simp add: headers_set_def)

lemma wp_send_reply [simp]: "wp (send_reply st b) Q w = Q () (w\<lparr>w_replies := w_replies w @
     [\<lparr>rp_status = st, rp_headers = w_hdrs w, rp_body = b\<rparr>]\<rparr>)"
  by (simp add: send_reply_def)

lemma wp_is_cancelled [simp]: "wp is_cancelled Q w = Q (w_cancelled w) w"
  by (simp add: is_cancelled_def)

text \<open>The environment between two calls may change only what is left of the failures and whether the
  client is still there.\<close>

lemma wp_next_fault:
  assumes "\<And>ft fs c. (w_cancelled w \<Longrightarrow> c) \<Longrightarrow> (ft = Fault ErrContext \<or> ft = Lost ErrContext \<Longrightarrow> c) \<Longrightarrow>
      Q ft (w\<lparr>w_faults := fs, w_cancelled := c\<rparr>)"
  shows "wp next_fault Q w"
proof (cases "w_faults w")
  case Nil
  have "Q NoFault (w\<lparr>w_faults := w_faults w, w_cancelled := w_cancelled w\<rparr>)"
    by (rule assms) simp_all
  moreover have "w\<lparr>w_faults := w_faults w, w_cancelled := w_cancelled w\<rparr> = w" by simp
  ultimately have "Q NoFault w" by (simp only:)
  with Nil show ?thesis by (simp add: next_fault_def)
next
  case (Cons f fs)
  then show ?thesis
    using assms [of "w_cancelled w \<or> f = Fault ErrContext \<or> f = Lost ErrContext" f fs]
    by (simp add: next_fault_def)
qed

lemma wp_call:
  assumes "\<And>e fs c. (w_cancelled w \<Longrightarrow> c) \<Longrightarrow> (e = ErrContext \<Longrightarrow> c) \<Longrightarrow>
      Q (Inl (g e)) (w\<lparr>w_faults := fs, w_cancelled := c\<rparr>)"
    and "\<And>fs c. (w_cancelled w \<Longrightarrow> c) \<Longrightarrow>
      (case f (w\<lparr>w_faults := fs, w_cancelled := c\<rparr>) of (a, w') \<Rightarrow> Q a w')"
  shows "wp (call_with g f) Q w"
  unfolding call_with_def wp_bind
  by (rule wp_next_fault) (use assms in \<open>auto split: fault.splits\<close>)

lemma wp_lossy:
  assumes "\<And>e fs c. (w_cancelled w \<Longrightarrow> c) \<Longrightarrow> (e = ErrContext \<Longrightarrow> c) \<Longrightarrow>
      Q (Inl (g e)) (w\<lparr>w_faults := fs, w_cancelled := c\<rparr>)"
    and "\<And>e fs c. (w_cancelled w \<Longrightarrow> c) \<Longrightarrow> (e = ErrContext \<Longrightarrow> c) \<Longrightarrow>
      (case f (w\<lparr>w_faults := fs, w_cancelled := c\<rparr>) of (a, w') \<Rightarrow> Q (Inl (g e)) w')"
    and "\<And>fs c. (w_cancelled w \<Longrightarrow> c) \<Longrightarrow>
      (case f (w\<lparr>w_faults := fs, w_cancelled := c\<rparr>) of (a, w') \<Rightarrow> Q a w')"
  shows "wp (lossy_with g f) Q w"
  unfolding lossy_with_def wp_bind
  by (rule wp_next_fault) (use assms in \<open>auto split: fault.splits\<close>)

text \<open>Where nothing fails, a call is its effect.\<close>

lemma next_fault_quiet: "w_faults w = [] \<Longrightarrow> run_state next_fault w = (NoFault, w)"
  by (simp add: next_fault_def)

lemma run_call_quiet: "w_faults w = [] \<Longrightarrow> run_state (call_with g f) w = f w"
  by (simp add: call_with_def run_state_bind next_fault_quiet)

lemma run_lossy_quiet: "w_faults w = [] \<Longrightarrow> run_state (lossy_with g f) w = f w"
  by (simp add: lossy_with_def run_state_bind next_fault_quiet)

lemma wp_call_quiet: "w_faults w = [] \<Longrightarrow> wp (call_with g f) Q w = (case f w of (a, w') \<Rightarrow> Q a w')"
  by (simp add: wp_def run_call_quiet)

lemma wp_lossy_quiet: "w_faults w = [] \<Longrightarrow> wp (lossy_with g f) Q w = (case f w of (a, w') \<Rightarrow> Q a w')"
  by (simp add: wp_def run_lossy_quiet)

lemma err_classes [simp]:
  "os_err e \<noteq> ErrContext" "os_err e \<noteq> ErrNotFound" "os_err e \<noteq> ErrTooLarge" "os_err e \<noteq> ErrUploadTooLarge"
  "os_err e \<noteq> ErrCannotGenerate" "os_err e \<noteq> ErrOriginNotFound"
  "db_err e \<noteq> ErrNotFound" "db_err e \<noteq> ErrTooLarge" "db_err e \<noteq> ErrUploadTooLarge"
  "db_err e \<noteq> ErrCannotGenerate" "db_err e \<noteq> ErrOriginNotFound" "db_err e \<noteq> ErrNotExist"
  "db_err e = ErrContext \<longleftrightarrow> e = ErrContext"
  by (simp_all add: os_err_def db_err_def)

section \<open>A world to try things in\<close>

definition sample_world :: world where
  "sample_world =
     \<lparr>w_files = Map.empty, w_local = [], w_remote = [], w_lthumbs = [], w_rthumbs = [], w_faults = [],
      w_temps = [1, 2, 3, 4], w_draws = map Some [0..<96], w_clock = 1700000000000000000, w_ticks = [],
      w_cancelled = False, w_recent_local = [], w_recent_remote = [], w_auth = sample_auth,
      w_whoami = [], w_fed = [], w_redirects = [], w_awaits = [], w_hdrs = [], w_replies = [], w_notes = []\<rparr>"

lemma sample_world_quiet [simp]: "w_faults sample_world = []"
  by (simp add: sample_world_def)

end
