(* ===== verification/Serve.thy ===== *)
theory Serve
  imports World
begin

text \<open>
  src/serve.go and src/multipart.go: the headers of a media response, the error replies, and the
  multipart envelope of federation downloads. The lemmas show that no value the uploader chose can
  end a header line, that the file name a client decodes is the name that was stored, which types
  are rendered inline, and that the length announced for an envelope is its length.
\<close>

section \<open>src/serve.go: pure parts\<close>

definition immutableETag :: string where "immutableETag = ''1''"

definition cacheControlValue :: string where
  "cacheControlValue = ''public,max-age=86400,s-maxage=0,proxy-revalidate''"

definition textContentTypes :: "string list" where
  "textContentTypes =
     [''text/css'', ''text/csv'', ''text/html'', ''text/calendar'', ''text/plain'', ''text/javascript'',
      ''application/json'', ''application/ld+json'', ''application/rtf'', ''image/svg+xml'', ''text/xml'']"

definition inlineContentTypes :: "string list" where
  "inlineContentTypes =
     [''text/css'', ''text/plain'', ''text/csv'', ''application/json'', ''application/ld+json'',
      ''image/jpeg'', ''image/gif'', ''image/png'', ''image/apng'', ''image/webp'', ''image/avif'',
      ''video/mp4'', ''video/webm'', ''video/ogg'', ''video/quicktime'', ''audio/mp4'', ''audio/webm'',
      ''audio/aac'', ''audio/mpeg'', ''audio/ogg'', ''audio/wave'', ''audio/wav'', ''audio/x-wav'',
      ''audio/x-pn-wav'', ''audio/flac'', ''audio/x-flac'']"

definition quote_char :: char where "quote_char = CHR 0x22"
definition apostrophe :: char where "apostrophe = CHR 0x27"
definition backslash :: char where "backslash = CHR 0x5C"
definition cr :: char where "cr = CHR 0x0D"
definition lf :: char where "lf = CHR 0x0A"

lemmas special_chars = quote_char_def apostrophe_def backslash_def cr_def lf_def

definition mediaCSP :: string where
  "mediaCSP = ''sandbox; default-src '' @ [apostrophe] @ ''none'' @ [apostrophe] @ ''; script-src '' @
     [apostrophe] @ ''none'' @ [apostrophe] @ ''; plugin-types application/pdf; style-src '' @
     [apostrophe] @ ''unsafe-inline'' @ [apostrophe] @ ''; media-src '' @
     [apostrophe] @ ''self'' @ [apostrophe] @ ''; object-src '' @ [apostrophe] @ ''self'' @ [apostrophe] @ '';''"

definition notModified :: "request \<Rightarrow> bool" where
  "notModified r \<longleftrightarrow> rheader r ''If-None-Match'' = immutableETag"

definition contentTypeOrDefault :: "string \<Rightarrow> string" where
  "contentTypeOrDefault mediaType = (if mediaType = '''' then ''application/octet-stream'' else mediaType)"

definition contentTypeHeader :: "string \<Rightarrow> string" where
  "contentTypeHeader mediaType0 =
     (let mediaType = contentTypeOrDefault mediaType0 in
      if to_lower mediaType \<in> set textContentTypes then mediaType @ ''; charset=UTF-8'' else mediaType)"

definition disallowedTokenChars :: string where
  "disallowedTokenChars = ''()<>@,;:'' @ [backslash, quote_char] @ ''/[]?={}''"

definition token_char :: "char \<Rightarrow> bool" where
  "token_char c \<longleftrightarrow> 32 < (of_char c :: nat) \<and> (of_char c :: nat) < 127 \<and> c \<notin> set disallowedTokenChars"

definition canEncodeFilenameAsToken :: "string \<Rightarrow> bool" where
  "canEncodeFilenameAsToken name \<longleftrightarrow> name \<noteq> '''' \<and> list_all token_char name"

definition encode_name_char :: "char \<Rightarrow> string" where
  "encode_name_char c = (if is_alnum c \<or> c \<in> set ''_.-~/'' then [c] else pct c)"

definition urlEncodeFilename :: "string \<Rightarrow> string" where
  "urlEncodeFilename name = concat (map encode_name_char name)"

text \<open>The media type before any parameter, trimmed and in lower case.\<close>

definition base_type :: "string \<Rightarrow> string" where
  "base_type mediaType = to_lower (trim_space (takeWhile (\<lambda>c. c \<noteq> CHR '';'') (contentTypeOrDefault mediaType)))"

definition contentDisposition :: "string \<Rightarrow> string \<Rightarrow> string" where
  "contentDisposition mediaType uploadName =
     (let disposition = (if base_type mediaType \<in> set inlineContentTypes then ''inline'' else ''attachment'')
      in if uploadName = '''' then disposition
         else if canEncodeFilenameAsToken uploadName then disposition @ ''; filename='' @ uploadName
         else disposition @ ''; filename*=utf-8'' @ [apostrophe, apostrophe] @ urlEncodeFilename uploadName)"

definition sanitizeHeaderValue :: "string \<Rightarrow> string" where
  "sanitizeHeaderValue v =
     concat (map (\<lambda>c. if c = quote_char then [backslash, quote_char] else [c])
       (filter (\<lambda>c. c \<noteq> cr \<and> c \<noteq> lf) v))"

subsection \<open>Header setters\<close>

definition setCORSHeaders :: "headers \<Rightarrow> headers" where
  "setCORSHeaders h =
     hset ''Access-Control-Expose-Headers'' ''Synapse-Trace-Id, Server''
      (hset ''Access-Control-Allow-Headers'' ''X-Requested-With, Content-Type, Authorization, Date''
        (hset ''Access-Control-Allow-Methods'' ''GET, HEAD, POST, PUT, DELETE, OPTIONS''
          (hset ''Access-Control-Allow-Origin'' ''*'' h)))"

definition setCORPHeaders :: "headers \<Rightarrow> headers" where
  "setCORPHeaders h = hset ''Cross-Origin-Resource-Policy'' ''cross-origin'' h"

definition setDownloadSecurityHeaders :: "headers \<Rightarrow> headers" where
  "setDownloadSecurityHeaders h =
     hset ''Referrer-Policy'' ''no-referrer''
      (hset ''X-Content-Security-Policy'' ''sandbox;''
        (hset ''Content-Security-Policy'' mediaCSP h))"

definition setCacheHeaders :: "headers \<Rightarrow> headers" where
  "setCacheHeaders h = hset ''ETag'' immutableETag (hset ''Cache-Control'' cacheControlValue h)"

definition addFileHeaders :: "string \<Rightarrow> string \<Rightarrow> headers \<Rightarrow> headers" where
  "addFileHeaders mediaType uploadName h =
     setCacheHeaders
      (hset ''X-Robots-Tag'' ''noindex, nofollow, noarchive, noimageindex''
        (hset ''Content-Disposition'' (sanitizeHeaderValue (contentDisposition mediaType uploadName))
          (hset ''Content-Type'' (sanitizeHeaderValue (contentTypeHeader mediaType)) h)))"

section \<open>src/serve.go: replies\<close>

definition writeMatrixErrorFields ::
  "nat \<Rightarrow> string \<Rightarrow> string \<Rightarrow> (string \<times> json) list \<Rightarrow> unit io" where
  "writeMatrixErrorFields st errcode message extra = do {
     headers_set setCORSHeaders;
     headers_set (hset ''Content-Type'' ''application/json'');
     send_reply st (JsonBody ([(''errcode'', JStr errcode), (''error'', JStr message)] @ extra)) }"

definition writeMatrixError :: "nat \<Rightarrow> string \<Rightarrow> string \<Rightarrow> unit io" where
  "writeMatrixError st errcode message = do {
     headers_set setCORSHeaders;
     headers_set (hset ''Content-Type'' ''application/json'');
     send_reply st (JsonBody [(''errcode'', JStr errcode), (''error'', JStr message)]) }"

definition respondNotFound :: "string \<Rightarrow> unit io" where
  "respondNotFound path =
     writeMatrixError 404 ''M_NOT_FOUND'' (''Not found '' @ [apostrophe] @ path @ [apostrophe])"

definition respondNotYetUploaded :: "unit io" where
  "respondNotYetUploaded = writeMatrixError 504 ''M_NOT_YET_UPLOADED'' ''Media has not been uploaded yet''"

definition respondNotModified :: "unit io" where
  "respondNotModified = do {
     headers_set setCORSHeaders; headers_set setCORPHeaders; headers_set setCacheHeaders;
     send_reply 304 Empty }"

text \<open>\<^verbatim>\<open>http.ServeContent\<close>: a 200 with the body, or the part of it a range request asks for.\<close>

definition serveFile :: "bytes \<Rightarrow> unit io" where
  "serveFile f = send_reply 200 (Served f)"

section \<open>src/multipart.go\<close>

definition crlf :: string where "crlf = [cr, lf]"
definition metadataJSON :: string where "metadataJSON = ''{}''"
definition metadataCTLine :: string where "metadataCTLine = ''Content-Type: application/json''"
definition multipartFixedN :: int where "multipartFixedN = 156"

text \<open>16 random bytes in hexadecimal; \<open>None\<close> is the panic where the random source fails.\<close>

definition newBoundary :: "string option io" where
  "newBoundary = State (\<lambda>w.
     (let ds = take 16 (w_draws w) in
      if length ds < 16 \<or> None \<in> set ds then (None, w)
      else (Some (hex_encode (map (\<lambda>d. of_nat (the d)) ds)), w\<lparr>w_draws := drop 16 (w_draws w)\<rparr>)))"

record multipartParts =
  mp_boundary :: string
  mp_contentTypeLine :: string
  mp_dispositionLine :: string

definition newMultipartParts :: "string \<Rightarrow> string \<Rightarrow> string \<Rightarrow> multipartParts" where
  "newMultipartParts boundary mediaType uploadName =
     \<lparr>mp_boundary = boundary,
      mp_contentTypeLine = ''Content-Type: '' @ sanitizeHeaderValue (contentTypeHeader mediaType),
      mp_dispositionLine = ''Content-Disposition: '' @
        sanitizeHeaderValue (contentDisposition mediaType uploadName)\<rparr>"

definition fixedOverhead :: "multipartParts \<Rightarrow> int" where
  "fixedOverhead p =
     (let b = int (length (mp_boundary p)) in
      2 + (2 + b + 2) + int (length metadataCTLine) + 2 + 2 + 2 + (2 + b + 2) + 2 + 2 + 2 + (2 + 2 + b + 2 + 2))"

definition contentLength :: "multipartParts \<Rightarrow> int \<Rightarrow> int" where
  "contentLength p mediaLength =
     mediaLength + int (length metadataJSON) + int (length (mp_contentTypeLine p)) +
     int (length (mp_dispositionLine p)) + fixedOverhead p"

definition multipart_headers :: "multipartParts \<Rightarrow> int \<Rightarrow> headers \<Rightarrow> headers" where
  "multipart_headers p mediaLength h =
     (let h1 = hset ''Content-Type'' (''multipart/mixed; boundary='' @ mp_boundary p) h;
          h2 = (if mediaLength \<ge> 0 then hset ''Content-Length'' (show_int (contentLength p mediaLength)) h1 else h1)
      in setCacheHeaders h2)"

definition multipart_body :: "multipartParts \<Rightarrow> bytes \<Rightarrow> bytes" where
  "multipart_body p body =
     str_bytes (crlf @ ''--'' @ mp_boundary p @ crlf @ metadataCTLine @ crlf @ crlf @ metadataJSON) @
     str_bytes (crlf @ ''--'' @ mp_boundary p @ crlf @ mp_contentTypeLine p @ crlf @
       mp_dispositionLine p @ crlf @ crlf) @
     body @
     str_bytes (crlf @ ''--'' @ mp_boundary p @ ''--'' @ crlf)"

section \<open>Header values are one line\<close>

lemma sanitize_no_break: "cr \<notin> set (sanitizeHeaderValue v) \<and> lf \<notin> set (sanitizeHeaderValue v)"
  by (auto simp: sanitizeHeaderValue_def special_chars)

text \<open>After sanitising, every quote has a backslash before it.\<close>

lemma sanitize_quotes:
  "sanitizeHeaderValue v = a @ quote_char # b \<Longrightarrow> \<exists>a'. a = a' @ [backslash]"
proof -
  define f where "f = (\<lambda>c. if c = quote_char then [backslash, quote_char] else [c])"
  have "concat (map f xs) = a @ quote_char # b \<Longrightarrow> \<exists>a'. a = a' @ [backslash]" for xs a
  proof (induction xs arbitrary: a)
    case (Cons x xs)
    show ?case
    proof (cases "x = quote_char")
      case True
      with Cons.prems have e: "backslash # quote_char # concat (map f xs) = a @ quote_char # b"
        by (simp add: f_def)
      then obtain a1 where a1: "a = backslash # a1" "quote_char # concat (map f xs) = a1 @ quote_char # b"
        by (cases a) (auto simp: special_chars)
      show ?thesis
      proof (cases a1)
        case Nil
        with a1 show ?thesis by simp
      next
        case (Cons y ys)
        with a1 obtain zs where "ys = zs @ [backslash]" using Cons.IH [of ys] by auto
        with a1 Cons show ?thesis by simp
      qed
    next
      case False
      with Cons.prems obtain a1 where "a = x # a1" "concat (map f xs) = a1 @ quote_char # b"
        by (cases a) (auto simp: f_def)
      with Cons.IH [of a1] show ?thesis by auto
    qed
  qed simp
  then show "sanitizeHeaderValue v = a @ quote_char # b \<Longrightarrow> ?thesis"
    by (simp add: sanitizeHeaderValue_def f_def)
qed

text \<open>The encoded name holds only letters, digits and a few signs, and decodes to the name.\<close>

lemma pct_chars: "x \<in> set (pct c) \<Longrightarrow> x = CHR ''%'' \<or> is_alnum x"
  using char_nibbles [of c]
  by (auto simp: pct_def Let_def is_alnum_def of_upper_hex split: if_splits)

lemma urlEncodeFilename_chars: "x \<in> set (urlEncodeFilename n) \<Longrightarrow> is_alnum x \<or> x \<in> set ''%_.-~/''"
  by (auto simp: urlEncodeFilename_def encode_name_char_def dest: pct_chars split: if_splits)

lemma unescape_encode_name_char:
  "query_unescape (encode_name_char c @ rest) = map_option (Cons c) (query_unescape rest)"
proof -
  have "is_alnum c \<or> c \<in> set ''_.-~/'' \<Longrightarrow> c \<noteq> CHR ''%'' \<and> c \<noteq> CHR ''+''"
    by (auto simp: is_alnum_def)
  then show ?thesis by (simp add: encode_name_char_def unescape_pct)
qed

lemma urlEncodeFilename_roundtrip: "query_unescape (urlEncodeFilename n) = Some n"
  by (induction n) (simp_all add: urlEncodeFilename_def unescape_encode_name_char)

section \<open>Properties\<close>


text \<open>The disposition is \<^verbatim>\<open>inline\<close> exactly for the listed types, after dropping parameters, white
  space and case, and no type that can carry script is among them; the name that follows is the
  stored one, bare or percent-encoded, and decoding gives every byte of it back.\<close>

theorem contentDisposition_exact:
  "\<exists>d. d = (if base_type t \<in> set inlineContentTypes then ''inline'' else ''attachment'') \<and>
     (contentDisposition t n = d \<and> n = '''' \<or>
      contentDisposition t n = d @ ''; filename='' @ n \<and> canEncodeFilenameAsToken n \<or>
      (\<exists>e. contentDisposition t n = d @ ''; filename*=utf-8'' @ [apostrophe, apostrophe] @ e \<and>
        query_unescape e = Some n \<and> set e \<subseteq> {x. is_alnum x \<or> x \<in> set ''%_.-~/''})) \<and>
     ''image/svg+xml'' \<notin> set inlineContentTypes \<and> ''text/html'' \<notin> set inlineContentTypes \<and>
     ''application/xhtml+xml'' \<notin> set inlineContentTypes \<and> ''text/xml'' \<notin> set inlineContentTypes"
proof -
  have no: "''image/svg+xml'' \<notin> set inlineContentTypes" "''text/html'' \<notin> set inlineContentTypes"
    "''application/xhtml+xml'' \<notin> set inlineContentTypes" "''text/xml'' \<notin> set inlineContentTypes"
    by (simp_all add: inlineContentTypes_def)
  let ?d = "if base_type t \<in> set inlineContentTypes then ''inline'' else ''attachment''"
  have "contentDisposition t n = ?d \<and> n = '''' \<or>
      contentDisposition t n = ?d @ ''; filename='' @ n \<and> canEncodeFilenameAsToken n \<or>
      contentDisposition t n = ?d @ ''; filename*=utf-8'' @ [apostrophe, apostrophe] @ urlEncodeFilename n"
    unfolding contentDisposition_def Let_def by argo
  with no show ?thesis
    using urlEncodeFilename_roundtrip urlEncodeFilename_chars by blast
qed

text \<open>C35: the length announced for a federation download is the length of the envelope that is then
  written, for every boundary, type, name and body; with a boundary of 32 characters the
  scaffolding is Synapse's constant.\<close>

theorem multipart_length_exact:
  "contentLength p (int (length body)) = int (length (multipart_body p body)) \<and>
   (length (mp_boundary p) = 32 \<longleftrightarrow> fixedOverhead p = multipartFixedN)"
  by (simp add: contentLength_def multipart_body_def fixedOverhead_def Let_def metadataJSON_def
      metadataCTLine_def crlf_def multipartFixedN_def)

end
