(* ===== verification/Reqlog.thy ===== *)
theory Reqlog
  imports Serve
begin

text \<open>
  src/reqlog.go and src/metrics.go: what a handler records of its decisions, the access-log line
  made of it, the address of the client and the counters of a request. An annotation of the
  request's \<^verbatim>\<open>reqLog\<close> and a metric are entries of \<open>w_notes\<close>; \<open>reqLog_of\<close> is the struct they leave.
\<close>

section \<open>Outcomes\<close>

definition outcomeServed :: string where "outcomeServed = ''served''"
definition outcomeSynapseStore :: string where "outcomeSynapseStore = ''synapse_store''"
definition outcomeWorkerCache :: string where "outcomeWorkerCache = ''worker_cache''"
definition outcomeGenerated :: string where "outcomeGenerated = ''generated''"
definition outcomeFetched :: string where "outcomeFetched = ''fetched''"
definition outcomeUploaded :: string where "outcomeUploaded = ''uploaded''"
definition outcomeReserved :: string where "outcomeReserved = ''reserved''"
definition outcomeLimited :: string where "outcomeLimited = ''rate_limited''"
definition outcomeOverQuota :: string where "outcomeOverQuota = ''over_quota''"
definition outcomeTooLarge :: string where "outcomeTooLarge = ''too_large''"
definition outcomeProxied :: string where "outcomeProxied = ''proxied''"
definition outcomeNotFound :: string where "outcomeNotFound = ''not_found''"
definition outcomeUnreachable :: string where "outcomeUnreachable = ''unreachable''"
definition outcomeUnauthorized :: string where "outcomeUnauthorized = ''unauthorized''"
definition outcomeNotModified :: string where "outcomeNotModified = ''not_modified''"

section \<open>The annotation of a request\<close>

record reqLog =
  rl_endpoint :: string
  rl_origin :: string
  rl_mediaID :: string
  rl_outcome :: string
  rl_reason :: string
  rl_user :: string
  rl_thumb :: string

definition newReqLog :: reqLog where
  "newReqLog = \<lparr>rl_endpoint = '''', rl_origin = '''', rl_mediaID = '''', rl_outcome = '''',
     rl_reason = '''', rl_user = '''', rl_thumb = ''''\<rparr>"

definition annotate_endpoint :: "string \<Rightarrow> unit io" where
  "annotate_endpoint e = log_note [''endpoint'', e]"

definition annotate_reason :: "string \<Rightarrow> unit io" where
  "annotate_reason r = log_note [''reason'', r]"

definition annotate_user :: "string \<Rightarrow> unit io" where
  "annotate_user u = log_note [''user'', u]"

definition annotate_thumb :: "string \<Rightarrow> unit io" where
  "annotate_thumb t = log_note [''thumb'', t]"

definition setOutcome :: "string \<Rightarrow> unit io" where
  "setOutcome outcome = log_note [''outcome'', outcome]"

definition setProxied :: "string \<Rightarrow> unit io" where
  "setProxied reason = do { setOutcome outcomeProxied; annotate_reason reason }"

definition setMedia :: "string \<Rightarrow> string \<Rightarrow> unit io" where
  "setMedia origin mediaID = log_note [''media'', origin, mediaID]"

text \<open>A counter with its labels.\<close>

definition inc_metric :: "string \<Rightarrow> string list \<Rightarrow> unit io" where
  "inc_metric name labels = log_note (''metric'' # name # labels)"

definition apply_note :: "string list \<Rightarrow> reqLog \<Rightarrow> reqLog" where
  "apply_note n rl =
     (case n of
        [k, v] \<Rightarrow>
          (if k = ''endpoint'' then rl\<lparr>rl_endpoint := v\<rparr>
           else if k = ''reason'' then rl\<lparr>rl_reason := v\<rparr>
           else if k = ''user'' then rl\<lparr>rl_user := v\<rparr>
           else if k = ''thumb'' then rl\<lparr>rl_thumb := v\<rparr>
           else if k = ''outcome'' then rl\<lparr>rl_outcome := v\<rparr> else rl)
      | [k, a, b] \<Rightarrow> (if k = ''media'' then rl\<lparr>rl_origin := a, rl_mediaID := b\<rparr> else rl)
      | _ \<Rightarrow> rl)"

definition reqLog_of :: "string list list \<Rightarrow> reqLog" where
  "reqLog_of notes = fold apply_note notes newReqLog"

section \<open>The client's address\<close>

text \<open>\<^verbatim>\<open>net.SplitHostPort\<close>: the host, or \<open>None\<close> where it reports an error.\<close>

definition has_char :: "char \<Rightarrow> string \<Rightarrow> bool" where
  "has_char c s \<longleftrightarrow> c \<in> set s"

definition split_host :: "string \<Rightarrow> string option" where
  "split_host hostport =
     (if \<not> has_char (CHR '':'') hostport then None
      else if take 1 hostport = ''['' then
        (case cut (CHR '']'') hostport of
           (front, back, found) \<Rightarrow>
             if \<not> found then None
             else if take 1 back \<noteq> '':'' then None
             else if has_char (CHR '':'') (drop 1 back) then None
             else if has_char (CHR ''['') (drop 1 front) \<or> has_char (CHR ''['') back \<or> has_char (CHR '']'') back
               then None
             else Some (drop 1 front))
      else
        (let host = rev (drop 1 (dropWhile (\<lambda>c. c \<noteq> CHR '':'') (rev hostport))) in
         if has_char (CHR '':'') host then None
         else if has_char (CHR ''['') hostport \<or> has_char (CHR '']'') hostport then None
         else Some host))"

definition clientIP :: "request \<Rightarrow> string" where
  "clientIP r =
     (let xff = rheader r ''X-Forwarded-For'' in
      if xff \<noteq> '''' then
        (case cut (CHR '','') xff of
           (first, _, found) \<Rightarrow> if found then trim_space first else trim_space xff)
      else (case split_host (rq_remote r) of Some host \<Rightarrow> host | None \<Rightarrow> rq_remote r))"

section \<open>The log line\<close>

definition isOperationalPath :: "string \<Rightarrow> bool" where
  "isOperationalPath path \<longleftrightarrow> path = ''/health'' \<or> path = ''/metrics''"

definition mxcLabel :: "string \<Rightarrow> string \<Rightarrow> string" where
  "mxcLabel origin mediaID = (if origin = '''' then mediaID else ''mxc://'' @ origin @ ''/'' @ mediaID)"

definition ellipsis :: string where
  "ellipsis = map (\<lambda>n. char_of (n :: nat)) [226, 128, 166]"

definition truncate :: "string \<Rightarrow> nat \<Rightarrow> string" where
  "truncate s n = (if length s \<le> n then s else take n s @ ellipsis)"

datatype log_level = LogInfo | LogWarn | LogError

definition request_level :: "nat \<Rightarrow> log_level" where
  "request_level st =
     (if st \<ge> 500 then LogError else if st \<ge> 400 \<and> st \<noteq> 404 then LogWarn else LogInfo)"

definition field_if_set :: "string \<Rightarrow> string \<Rightarrow> (string \<times> string) list" where
  "field_if_set k v = (if v \<noteq> '''' then [(k, v)] else [])"

definition request_fields :: "request \<Rightarrow> nat \<Rightarrow> nat \<Rightarrow> reqLog \<Rightarrow> (string \<times> string) list" where
  "request_fields r st nbytes rl =
     [(''method'', rq_method r), (''path'', rq_path r), (''status'', show_nat st),
      (''bytes'', show_nat nbytes), (''ip'', clientIP r)] @
     field_if_set ''endpoint'' (rl_endpoint rl) @
     (if rl_mediaID rl \<noteq> '''' then [(''media'', mxcLabel (rl_origin rl) (rl_mediaID rl))] else []) @
     field_if_set ''thumb'' (rl_thumb rl) @
     field_if_set ''outcome'' (rl_outcome rl) @
     field_if_set ''reason'' (rl_reason rl) @
     field_if_set ''user'' (rl_user rl) @
     (let ua = rheader r ''User-Agent'' in if ua \<noteq> '''' then [(''ua'', truncate ua 80)] else [])"

section \<open>src/metrics.go: the recorder\<close>

record statusRecorder =
  sr_status :: nat
  sr_bytes :: nat

definition rec_WriteHeader :: "nat \<Rightarrow> statusRecorder \<Rightarrow> statusRecorder" where
  "rec_WriteHeader code s = (if sr_status s = 0 then s\<lparr>sr_status := code\<rparr> else s)"

text \<open>\<^verbatim>\<open>Write\<close> and \<^verbatim>\<open>ReadFrom\<close>: \<open>n\<close> bytes were written.\<close>

definition rec_Write :: "nat \<Rightarrow> statusRecorder \<Rightarrow> statusRecorder" where
  "rec_Write n s =
     (let s1 = (if sr_status s = 0 then s\<lparr>sr_status := 200\<rparr> else s)
      in s1\<lparr>sr_bytes := sr_bytes s1 + n\<rparr>)"

datatype rec_event = WroteHeader nat | WroteBytes nat

definition rec_step :: "rec_event \<Rightarrow> statusRecorder \<Rightarrow> statusRecorder" where
  "rec_step e s = (case e of WroteHeader c \<Rightarrow> rec_WriteHeader c s | WroteBytes n \<Rightarrow> rec_Write n s)"

text \<open>What \<^verbatim>\<open>instrument\<close> and \<^verbatim>\<open>withRequestLog\<close> report of a response.\<close>

definition recorded :: "rec_event list \<Rightarrow> statusRecorder" where
  "recorded es =
     (let s = fold rec_step es \<lparr>sr_status = 0, sr_bytes = 0\<rparr>
      in if sr_status s = 0 then s\<lparr>sr_status := 200\<rparr> else s)"

definition instrument_notes :: "string \<Rightarrow> statusRecorder \<Rightarrow> string list list" where
  "instrument_notes endpoint s =
     [[''metric'', ''requests_total'', endpoint, show_nat (sr_status s)],
      [''metric'', ''response_bytes_total'', endpoint, show_nat (sr_bytes s)]]"

section \<open>What is recorded\<close>

lemma notes_simps [simp]:
  "wp (setOutcome x) Q w = Q () (w\<lparr>w_notes := w_notes w @ [[''outcome'', x]]\<rparr>)"
  "wp (annotate_reason x) Q w = Q () (w\<lparr>w_notes := w_notes w @ [[''reason'', x]]\<rparr>)"
  "wp (annotate_user x) Q w = Q () (w\<lparr>w_notes := w_notes w @ [[''user'', x]]\<rparr>)"
  "wp (annotate_thumb x) Q w = Q () (w\<lparr>w_notes := w_notes w @ [[''thumb'', x]]\<rparr>)"
  "wp (annotate_endpoint x) Q w = Q () (w\<lparr>w_notes := w_notes w @ [[''endpoint'', x]]\<rparr>)"
  "wp (setMedia x y) Q w = Q () (w\<lparr>w_notes := w_notes w @ [[''media'', x, y]]\<rparr>)"
  "wp (inc_metric x ys) Q w = Q () (w\<lparr>w_notes := w_notes w @ [''metric'' # x # ys]\<rparr>)"
  by (simp_all add: setOutcome_def annotate_reason_def annotate_user_def annotate_thumb_def
      annotate_endpoint_def setMedia_def inc_metric_def)

lemma wp_setProxied [simp]: "wp (setProxied x) Q w =
    Q () (w\<lparr>w_notes := w_notes w @ [[''outcome'', outcomeProxied], [''reason'', x]]\<rparr>)"
  by (simp add: setProxied_def)

text \<open>The status of the first header written wins, and every byte is counted.\<close>

lemma rec_fold_status:
  "sr_status s \<noteq> 0 \<Longrightarrow> sr_status (fold rec_step es s) = sr_status s"
  by (induction es arbitrary: s)
    (auto simp: rec_step_def rec_WriteHeader_def rec_Write_def Let_def split: rec_event.splits)

definition event_bytes :: "rec_event \<Rightarrow> nat" where
  "event_bytes e = (case e of WroteHeader _ \<Rightarrow> 0 | WroteBytes n \<Rightarrow> n)"

lemma rec_fold_bytes: "sr_bytes (fold rec_step es s) = sr_bytes s + sum_list (map event_bytes es)"
  by (induction es arbitrary: s)
    (auto simp: rec_step_def rec_WriteHeader_def rec_Write_def event_bytes_def Let_def split: rec_event.splits)

lemma recorded_first:
  "sr_status (recorded (WroteHeader c # es)) = (if c = 0 then sr_status (recorded es) else c)"
  "sr_status (recorded (WroteBytes n # es)) = 200" "sr_status (recorded []) = 200"
  "sr_bytes (recorded es) = sum_list (map event_bytes es)"
  by (auto simp: recorded_def Let_def rec_step_def rec_WriteHeader_def rec_Write_def rec_fold_status rec_fold_bytes)

end
