(* ===== verification/Database.thy ===== *)
theory Database
  imports World
begin

text \<open>
  src/db.go: the accessor over Synapse's media tables. A table is the list of its rows; each SQL
  statement is the list operation it performs, with NULL as \<open>None\<close>, the unique constraints of
  Synapse's schema, and the number of rows affected where the code looks at it. The lemmas show
  what the callers rely on: the first writer of a row keeps it, a reserved upload is completed
  once, what is stored is what is read.
\<close>

section \<open>The rows as Go structs\<close>

record local_media =
  lm_MediaID :: string
  lm_MediaType :: string
  lm_Length :: "int option"
  lm_UploadName :: string
  lm_QuarantinedBy :: string
  lm_URLCache :: string
  lm_Authenticated :: bool
  lm_CreatedTS :: int
  lm_UserID :: string

record remote_media =
  rm_Origin :: string
  rm_MediaID :: string
  rm_MediaType :: string
  rm_Length :: "int option"
  rm_UploadName :: string
  rm_FilesystemID :: string
  rm_QuarantinedBy :: string
  rm_Authenticated :: bool

record ThumbnailRow =
  tn_Width :: int
  tn_Height :: int
  tn_Type :: string
  tn_Method :: string
  tn_Length :: int
  tn_FilesystemID :: string

definition local_quarantined :: "local_media \<Rightarrow> bool" where
  "local_quarantined m \<longleftrightarrow> lm_QuarantinedBy m \<noteq> ''''"

definition IsURLCache :: "local_media \<Rightarrow> bool" where
  "IsURLCache m \<longleftrightarrow> lm_URLCache m \<noteq> ''''"

definition remote_quarantined :: "remote_media \<Rightarrow> bool" where
  "remote_quarantined m \<longleftrightarrow> rm_QuarantinedBy m \<noteq> ''''"

definition derefString :: "string option \<Rightarrow> string" where
  "derefString s = (case s of None \<Rightarrow> '''' | Some x \<Rightarrow> x)"

definition nullableString :: "string \<Rightarrow> string option" where
  "nullableString s = (if s = '''' then None else Some s)"

lemma deref_nullable [simp]: "derefString (nullableString s) = s"
  by (simp add: derefString_def nullableString_def)

definition coalesce :: "'a option \<Rightarrow> 'a \<Rightarrow> 'a" where
  "coalesce x d = (case x of None \<Rightarrow> d | Some y \<Rightarrow> y)"

lemma coalesce_simps [simp]: "coalesce None d = d" "coalesce (Some y) d = y"
  by (simp_all add: coalesce_def)

section \<open>Reads\<close>

definition scan_local :: "string \<Rightarrow> local_row \<Rightarrow> local_media" where
  "scan_local mediaID r =
     \<lparr>lm_MediaID = mediaID, lm_MediaType = derefString (lr_media_type r), lm_Length = lr_length r,
      lm_UploadName = derefString (lr_upload_name r),
      lm_QuarantinedBy = derefString (lr_quarantined_by r), lm_URLCache = derefString (lr_url_cache r),
      lm_Authenticated = coalesce (lr_authenticated r) False, lm_CreatedTS = coalesce (lr_created_ts r) 0,
      lm_UserID = coalesce (lr_user_id r) ''''\<rparr>"

definition GetLocalMedia :: "string \<Rightarrow> local_media res io" where
  "GetLocalMedia mediaID = db_read (\<lambda>w.
     (case find (\<lambda>r. lr_media_id r = mediaID) (w_local w) of
        None \<Rightarrow> (Inl ErrNotFound, w)
      | Some r \<Rightarrow> (Inr (scan_local mediaID r), w)))"

definition scan_remote :: "string \<Rightarrow> string \<Rightarrow> remote_row \<Rightarrow> remote_media" where
  "scan_remote origin mediaID r =
     \<lparr>rm_Origin = origin, rm_MediaID = mediaID, rm_MediaType = derefString (rr_media_type r),
      rm_Length = rr_length r, rm_UploadName = derefString (rr_upload_name r),
      rm_FilesystemID = derefString (rr_filesystem_id r),
      rm_QuarantinedBy = derefString (rr_quarantined_by r),
      rm_Authenticated = coalesce (rr_authenticated r) False\<rparr>"

definition remote_key :: "remote_row \<Rightarrow> string \<times> string" where
  "remote_key r = (rr_origin r, rr_media_id r)"

definition GetRemoteMedia :: "string \<Rightarrow> string \<Rightarrow> remote_media res io" where
  "GetRemoteMedia origin mediaID = db_read (\<lambda>w.
     (case find (\<lambda>r. remote_key r = (origin, mediaID)) (w_remote w) of
        None \<Rightarrow> (Inl ErrNotFound, w)
      | Some r \<Rightarrow> (Inr (scan_remote origin mediaID r), w)))"

text \<open>\<^verbatim>\<open>scanThumbnails\<close>: a row with a missing identifying column is skipped.\<close>

definition scan_thumbnail :: "string option \<Rightarrow> 'a thumb_row_scheme \<Rightarrow> ThumbnailRow option" where
  "scan_thumbnail fsid r =
     (case (tr_width r, tr_height r, tr_type r, tr_method r) of
        (Some w, Some h, Some t, Some m) \<Rightarrow>
          Some \<lparr>tn_Width = w, tn_Height = h, tn_Type = t, tn_Method = m,
                tn_Length = coalesce (tr_length r) 0, tn_FilesystemID = derefString fsid\<rparr>
      | _ \<Rightarrow> None)"

definition GetLocalThumbnails :: "string \<Rightarrow> ThumbnailRow list res io" where
  "GetLocalThumbnails mediaID = db_read (\<lambda>w.
     (Inr (List.map_filter (scan_thumbnail None) (filter (\<lambda>r. lt_media_id r = mediaID) (w_lthumbs w))), w))"

definition GetRemoteThumbnails :: "string \<Rightarrow> string \<Rightarrow> ThumbnailRow list res io" where
  "GetRemoteThumbnails origin mediaID = db_read (\<lambda>w.
     (Inr (List.map_filter (\<lambda>r. scan_thumbnail (rt_filesystem_id r) r)
        (filter (\<lambda>r. rt_origin r = origin \<and> rt_media_id r = mediaID) (w_rthumbs w))), w))"

section \<open>Last access\<close>

definition MarkRecentlyAccessedLocal :: "DatabaseConfig \<Rightarrow> string \<Rightarrow> unit io" where
  "MarkRecentlyAccessedLocal cfg mediaID =
     (if \<not> dc_UpdateLastAccess cfg then skip
      else State (\<lambda>w. ((), w\<lparr>w_recent_local := List.insert mediaID (w_recent_local w)\<rparr>)))"

definition MarkRecentlyAccessedRemote :: "DatabaseConfig \<Rightarrow> string \<Rightarrow> string \<Rightarrow> unit io" where
  "MarkRecentlyAccessedRemote cfg origin mediaID =
     (if \<not> dc_UpdateLastAccess cfg then skip
      else State (\<lambda>w. ((), w\<lparr>w_recent_remote := List.insert (origin, mediaID) (w_recent_remote w)\<rparr>)))"

definition touch_local :: "int \<Rightarrow> string list \<Rightarrow> local_row \<Rightarrow> local_row" where
  "touch_local now ids r =
     (if lr_media_id r \<in> set ids then r\<lparr>lr_last_access_ts := Some now\<rparr> else r)"

definition touch_remote :: "int \<Rightarrow> (string \<times> string) list \<Rightarrow> remote_row \<Rightarrow> remote_row" where
  "touch_remote now keys r =
     (if remote_key r \<in> set keys then r\<lparr>rr_last_access_ts := Some now\<rparr> else r)"

text \<open>The batch is one implicit transaction, so it applies as a whole or not at all.\<close>

definition flushLastAccess :: "unit io" where
  "flushLastAccess = do {
     recent \<leftarrow> State (\<lambda>w. ((w_recent_local w, w_recent_remote w),
                 w\<lparr>w_recent_local := [], w_recent_remote := []\<rparr>));
     if fst recent = [] \<and> snd recent = [] then skip
     else do {
       t \<leftarrow> go_now;
       attempt (db_write (\<lambda>w. (Inr (), w\<lparr>
           w_local := map (touch_local (unix_milli t) (fst recent)) (w_local w),
           w_remote := map (touch_remote (unix_milli t) (snd recent)) (w_remote w)\<rparr>)))
         (\<lambda>e. skip)
         (\<lambda>_. skip) } }"

text \<open>\<^verbatim>\<open>flushLoop\<close> over what its \<^verbatim>\<open>select\<close> receives: a tick, or the closed stop channel.\<close>

datatype flush_event = Tick | Stop

fun flushLoop :: "flush_event list \<Rightarrow> unit io" where
  "flushLoop [] = skip"
| "flushLoop (Tick # es) = do { flushLastAccess; flushLoop es }"
| "flushLoop (Stop # es) = flushLastAccess"

section \<open>Writes for fetched remote media\<close>

definition remote_media_row :: "int \<Rightarrow> remote_media \<Rightarrow> string \<Rightarrow> bool \<Rightarrow> remote_row" where
  "remote_media_row now m sha256hex authenticated =
     \<lparr>rr_origin = rm_Origin m, rr_media_id = rm_MediaID m,
      rr_media_type = Some (rm_MediaType m), rr_length = Some (coalesce (rm_Length m) 0),
      rr_created_ts = Some now, rr_upload_name = nullableString (rm_UploadName m),
      rr_filesystem_id = Some (rm_FilesystemID m), rr_quarantined_by = None,
      rr_authenticated = Some authenticated, rr_sha256 = nullableString sha256hex,
      rr_last_access_ts = Some now\<rparr>"

lemma remote_media_row_key [simp]: "remote_key (remote_media_row now m sha auth) = (rm_Origin m, rm_MediaID m)"
  by (simp add: remote_media_row_def remote_key_def)

definition StoreRemoteMedia :: "remote_media \<Rightarrow> string \<Rightarrow> bool \<Rightarrow> bool res io" where
  "StoreRemoteMedia m sha256hex authenticated = do {
     t \<leftarrow> go_now;
     let row = remote_media_row (unix_milli t) m sha256hex authenticated;
     db_write (\<lambda>w.
       if remote_key row \<in> set (map remote_key (w_remote w)) then (Inr False, w)
       else (Inr True, w\<lparr>w_remote := w_remote w @ [row]\<rparr>)) }"

text \<open>The conflict target: the identifying columns, of which none may be NULL for a conflict.\<close>

definition same_thumb :: "'a thumb_row_scheme \<Rightarrow> 'b thumb_row_scheme \<Rightarrow> bool" where
  "same_thumb r s \<longleftrightarrow> tr_width r \<noteq> None \<and> tr_height r \<noteq> None \<and> tr_type r \<noteq> None \<and> tr_method r \<noteq> None \<and>
     tr_width r = tr_width s \<and> tr_height r = tr_height s \<and> tr_type r = tr_type s \<and> tr_method r = tr_method s"

definition StoreRemoteThumbnail :: "string \<Rightarrow> string \<Rightarrow> string \<Rightarrow> ThumbnailRow \<Rightarrow> unit res io" where
  "StoreRemoteThumbnail origin mediaID filesystemID t =
     (let row = \<lparr>tr_width = Some (tn_Width t), tr_height = Some (tn_Height t), tr_type = Some (tn_Type t),
                 tr_method = Some (tn_Method t), tr_length = Some (tn_Length t),
                 rt_origin = origin, rt_media_id = mediaID, rt_filesystem_id = Some filesystemID\<rparr>;
          clash = (\<lambda>r. rt_origin r = origin \<and> rt_media_id r = mediaID \<and> same_thumb r row)
      in db_write (\<lambda>w.
        if \<exists>r \<in> set (w_rthumbs w). clash r
        then (Inr (), w\<lparr>w_rthumbs := map (\<lambda>r. if clash r then r\<lparr>tr_length := tr_length row\<rparr> else r) (w_rthumbs w)\<rparr>)
        else (Inr (), w\<lparr>w_rthumbs := w_rthumbs w @ [row]\<rparr>)))"

section \<open>Writes for uploaded local media\<close>

definition insert_local :: "local_row \<Rightarrow> world \<Rightarrow> unit res \<times> world" where
  "insert_local row w =
     (if lr_media_id row \<in> set (map lr_media_id (w_local w)) then (Inl ErrDB, w)
      else (Inr (), w\<lparr>w_local := w_local w @ [row]\<rparr>))"

definition local_media_row :: "local_media \<Rightarrow> string \<Rightarrow> bool \<Rightarrow> string \<Rightarrow> local_row" where
  "local_media_row m sha256hex authenticated quarantinedBy =
     \<lparr>lr_media_id = lm_MediaID m, lr_media_type = Some (lm_MediaType m),
      lr_length = Some (coalesce (lm_Length m) 0), lr_created_ts = Some (lm_CreatedTS m),
      lr_upload_name = nullableString (lm_UploadName m), lr_user_id = Some (lm_UserID m),
      lr_quarantined_by = nullableString quarantinedBy, lr_url_cache = None,
      lr_authenticated = Some authenticated, lr_sha256 = nullableString sha256hex,
      lr_last_access_ts = None\<rparr>"

definition StoreLocalMedia :: "local_media \<Rightarrow> string \<Rightarrow> bool \<Rightarrow> string \<Rightarrow> unit res io" where
  "StoreLocalMedia m sha256hex authenticated quarantinedBy =
     db_write (insert_local (local_media_row m sha256hex authenticated quarantinedBy))"

definition pending_row :: "string \<Rightarrow> int \<Rightarrow> string \<Rightarrow> bool \<Rightarrow> local_row" where
  "pending_row mediaID createdTS userID authenticated =
     \<lparr>lr_media_id = mediaID, lr_media_type = None, lr_length = None, lr_created_ts = Some createdTS,
      lr_upload_name = None, lr_user_id = Some userID, lr_quarantined_by = None, lr_url_cache = None,
      lr_authenticated = Some authenticated, lr_sha256 = None, lr_last_access_ts = None\<rparr>"

definition StoreLocalMediaID :: "string \<Rightarrow> int \<Rightarrow> string \<Rightarrow> bool \<Rightarrow> unit res io" where
  "StoreLocalMediaID mediaID createdTS userID authenticated =
     db_write (insert_local (pending_row mediaID createdTS userID authenticated))"

definition completes :: "string \<Rightarrow> local_row \<Rightarrow> bool" where
  "completes mediaID r \<longleftrightarrow> lr_media_id r = mediaID \<and> lr_length r = None"

definition complete_row :: "string \<Rightarrow> string \<Rightarrow> int \<Rightarrow> string \<Rightarrow> string \<Rightarrow> local_row \<Rightarrow> local_row" where
  "complete_row mediaType uploadName len sha256hex quarantinedBy r =
     r\<lparr>lr_media_type := Some mediaType, lr_upload_name := nullableString uploadName,
       lr_length := Some len, lr_sha256 := nullableString sha256hex,
       lr_quarantined_by := (case nullableString quarantinedBy of
          None \<Rightarrow> lr_quarantined_by r | Some q \<Rightarrow> Some q)\<rparr>"

definition CompleteLocalMedia ::
  "string \<Rightarrow> string \<Rightarrow> string \<Rightarrow> int \<Rightarrow> string \<Rightarrow> string \<Rightarrow> bool res io" where
  "CompleteLocalMedia mediaID mediaType uploadName len sha256hex quarantinedBy =
     db_write (\<lambda>w.
       (Inr (length (filter (completes mediaID) (w_local w)) = 1),
        w\<lparr>w_local := map (\<lambda>r. if completes mediaID r
             then complete_row mediaType uploadName len sha256hex quarantinedBy r else r) (w_local w)\<rparr>))"

definition after :: "int option \<Rightarrow> int \<Rightarrow> bool" where
  "after ts t \<longleftrightarrow> (case ts of None \<Rightarrow> False | Some x \<Rightarrow> x > t)"

definition CountPendingMedia :: "string \<Rightarrow> int \<Rightarrow> (int \<times> int) res io" where
  "CountPendingMedia userID notBefore = db_read (\<lambda>w.
     (let rows = filter (\<lambda>r. lr_user_id r = Some userID \<and> after (lr_created_ts r) notBefore \<and> lr_length r = None)
                   (w_local w);
          ts = List.map_filter lr_created_ts rows
      in (Inr (int (length rows), (if ts = [] then 0 else Min (set ts))), w)))"

text \<open>The sum of a bigint column is numeric, and reading one that does not fit 64 bits fails.\<close>

definition uploaded_total :: "string \<Rightarrow> int \<Rightarrow> local_row list \<Rightarrow> int" where
  "uploaded_total userID notBefore rows =
     sum_list (List.map_filter lr_length
       (filter (\<lambda>r. lr_user_id r = Some userID \<and> after (lr_created_ts r) notBefore) rows))"

definition UploadedSizeForUser :: "string \<Rightarrow> int \<Rightarrow> int res io" where
  "UploadedSizeForUser userID notBefore = db_read (\<lambda>w.
     (let total = uploaded_total userID notBefore (w_local w)
      in ((if in_int64 total then Inr total else Inl ErrDB), w)))"

definition hash_quarantined :: "string \<Rightarrow> world \<Rightarrow> bool" where
  "hash_quarantined sha w \<longleftrightarrow>
     (\<exists>r \<in> set (w_local w). lr_sha256 r = Some sha \<and> lr_quarantined_by r \<noteq> None) \<or>
     (\<exists>r \<in> set (w_remote w). rr_sha256 r = Some sha \<and> rr_quarantined_by r \<noteq> None)"

definition IsHashQuarantined :: "string \<Rightarrow> bool res io" where
  "IsHashQuarantined sha256hex =
     (if sha256hex = '''' then State_Monad.return (Inr False)
      else db_read (\<lambda>w. (Inr (hash_quarantined sha256hex w), w)))"

definition StoreLocalThumbnail :: "string \<Rightarrow> ThumbnailRow \<Rightarrow> unit res io" where
  "StoreLocalThumbnail mediaID t =
     (let row = \<lparr>tr_width = Some (tn_Width t), tr_height = Some (tn_Height t), tr_type = Some (tn_Type t),
                 tr_method = Some (tn_Method t), tr_length = Some (tn_Length t), lt_media_id = mediaID\<rparr>;
          clash = (\<lambda>r. lt_media_id r = mediaID \<and> same_thumb r row)
      in db_write (\<lambda>w.
        if \<exists>r \<in> set (w_lthumbs w). clash r
        then (Inr (), w\<lparr>w_lthumbs := map (\<lambda>r. if clash r then r\<lparr>tr_length := tr_length row\<rparr> else r) (w_lthumbs w)\<rparr>)
        else (Inr (), w\<lparr>w_lthumbs := w_lthumbs w @ [row]\<rparr>)))"

section \<open>Tables whose rows belong to their first writer\<close>

text \<open>
  What the three inserts promise. Whatever fails, an insert either leaves the table alone or, if no
  row had the key, adds one; and it reports success only if it added one. So the rows that were
  there stay, and keys stay unique.
\<close>

locale keyed_table =
  fixes rows :: "world \<Rightarrow> 'r list"
    and key :: "'r \<Rightarrow> 'k"
    and put :: "'x \<Rightarrow> 'b res io"
    and key_of :: "'x \<Rightarrow> 'k"
    and took :: "'b \<Rightarrow> bool"
  assumes put_cases: "wp (put x) (\<lambda>res w'. \<exists>new. rows w' = rows w @ new \<and>
      (new = [] \<and> (\<forall>b. res = Inr b \<longrightarrow> \<not> took b) \<or>
       map key new = [key_of x] \<and> key_of x \<notin> key ` set (rows w))) w"
begin

lemma put_run:
  assumes "run_state (put x) w = (res, w')"
  shows "(rows w' = rows w \<and> (\<forall>b. res = Inr b \<longrightarrow> \<not> took b)) \<or>
    (key_of x \<notin> key ` set (rows w) \<and> (\<exists>r. key r = key_of x \<and> rows w' = rows w @ [r]))"
  using wp_run [OF put_cases assms] by (auto simp: map_eq_Cons_conv)

lemma put_keeps: "run_state (put x) w = (res, w') \<Longrightarrow> has_prefix (rows w) (rows w')"
  using put_run [of x w res w'] by (auto simp: has_prefix_iff)

lemma put_present:
  "run_state (put x) w = (res, w') \<Longrightarrow> key_of x \<in> key ` set (rows w) \<Longrightarrow>
   rows w' = rows w \<and> (\<forall>b. res = Inr b \<longrightarrow> \<not> took b)"
  using put_run [of x w res w'] by blast

lemma put_distinct:
  "run_state (put x) w = (res, w') \<Longrightarrow> distinct (map key (rows w)) \<Longrightarrow> distinct (map key (rows w'))"
  using put_run [of x w res w'] by auto

end

lemma run_go_now:
  "run_state go_now w = (t, w') \<Longrightarrow> \<exists>ts. w' = w\<lparr>w_clock := t, w_ticks := ts\<rparr> \<and> w_clock w \<le> t"
  by (auto simp: go_now_def Let_def split: list.splits)

lemma wp_go_now:
  assumes "\<And>t ts. w_clock w \<le> t \<Longrightarrow> Q t (w\<lparr>w_clock := t, w_ticks := ts\<rparr>)"
  shows "wp go_now Q w"
  using assms by (auto simp: go_now_def Let_def split: list.splits)

interpretation remote_store: keyed_table w_remote remote_key
  "\<lambda>(m, sha, auth). StoreRemoteMedia m sha auth" "\<lambda>(m, sha, auth). (rm_Origin m, rm_MediaID m)" "\<lambda>b. b"
  by unfold_locales
    (auto simp: StoreRemoteMedia_def Let_def intro!: wp_go_now wp_lossy split: if_splits)

lemma insert_local_cases:
  "case insert_local row w of (res, w') \<Rightarrow>
     (w_local w' = w_local w \<and> res = Inl ErrDB) \<or>
     (lr_media_id row \<notin> lr_media_id ` set (w_local w) \<and> w_local w' = w_local w @ [row])"
  by (simp add: insert_local_def)

interpretation local_store: keyed_table w_local lr_media_id
  "\<lambda>(m, sha, auth, q). StoreLocalMedia m sha auth q" "\<lambda>(m, sha, auth, q). lm_MediaID m" "\<lambda>_. True"
  by unfold_locales
    (auto simp: StoreLocalMedia_def insert_local_def local_media_row_def intro!: wp_lossy split: if_splits)

interpretation reserve_store: keyed_table w_local lr_media_id
  "\<lambda>(i, ts, user, auth). StoreLocalMediaID i ts user auth" "\<lambda>(i, ts, user, auth). i" "\<lambda>_. True"
  by unfold_locales
    (auto simp: StoreLocalMediaID_def insert_local_def pending_row_def intro!: wp_lossy split: if_splits)

section \<open>Lookups\<close>

lemma find_append_new:
  "k \<notin> key ` set rs \<Longrightarrow> key r = k \<Longrightarrow> find (\<lambda>r. key r = k) (rs @ [r]) = Some r"
  by (induction rs) auto

lemma find_prefix: "find P rs = Some r \<Longrightarrow> find P (rs @ ss) = Some r"
  by (induction rs) (auto split: if_splits)

lemma find_None_key: "find (\<lambda>r. key r = k) rs = None \<longleftrightarrow> k \<notin> key ` set rs"
  by (auto simp: find_None_iff)

lemma wp_find_local:
  assumes "\<And>e fs c. (w_cancelled w \<Longrightarrow> c) \<Longrightarrow> (e = ErrContext \<Longrightarrow> c) \<Longrightarrow>
      Q (Inl (db_err e)) (w\<lparr>w_faults := fs, w_cancelled := c\<rparr>)"
    and "\<And>fs c. (w_cancelled w \<Longrightarrow> c) \<Longrightarrow> i \<notin> lr_media_id ` set (w_local w) \<Longrightarrow>
      Q (Inl ErrNotFound) (w\<lparr>w_faults := fs, w_cancelled := c\<rparr>)"
    and "\<And>r fs c. (w_cancelled w \<Longrightarrow> c) \<Longrightarrow> find (\<lambda>r. lr_media_id r = i) (w_local w) = Some r \<Longrightarrow>
      Q (Inr (scan_local i r)) (w\<lparr>w_faults := fs, w_cancelled := c\<rparr>)"
  shows "wp (GetLocalMedia i) Q w"
  unfolding GetLocalMedia_def
  by (rule wp_call) (use assms in \<open>auto simp: find_None_key split: option.splits\<close>)

section \<open>Properties\<close>

text \<open>Storing remote media never changes a row that exists: whatever fails, the old rows are still
  there, in order; if the medium had a row, the table is unchanged and the caller is not told it
  won; if the caller is told it won, a new row was added, and it reads back as what was stored,
  created and last accessed now.\<close>

theorem StoreRemoteMedia_first_writer:
  assumes "run_state (StoreRemoteMedia m sha auth) w = (res, w')"
  shows "has_prefix (w_remote w) (w_remote w') \<and>
    ((rm_Origin m, rm_MediaID m) \<in> remote_key ` set (w_remote w) \<longrightarrow>
       w_remote w' = w_remote w \<and> res \<noteq> Inr True) \<and>
    (res = Inr True \<longrightarrow> (\<exists>r. find (\<lambda>r. remote_key r = (rm_Origin m, rm_MediaID m)) (w_remote w') = Some r \<and>
       rr_filesystem_id r = Some (rm_FilesystemID m) \<and> rr_sha256 r = nullableString sha \<and>
       rr_length r = Some (coalesce (rm_Length m) 0) \<and>
       rr_created_ts r = Some (unix_milli (w_clock w')) \<and> rr_last_access_ts r = rr_created_ts r))"
proof -
  have "wp (StoreRemoteMedia m sha auth) (\<lambda>res w'. res = Inr True \<longrightarrow>
      (rm_Origin m, rm_MediaID m) \<notin> remote_key ` set (w_remote w) \<and>
      w_remote w' = w_remote w @ [remote_media_row (unix_milli (w_clock w')) m sha auth]) w"
    by (auto simp: StoreRemoteMedia_def Let_def intro!: wp_go_now wp_lossy split: if_splits)
  from wp_run [OF this assms] have "res = Inr True \<Longrightarrow>
      find (\<lambda>r. remote_key r = (rm_Origin m, rm_MediaID m)) (w_remote w') =
      Some (remote_media_row (unix_milli (w_clock w')) m sha auth)"
    by (auto intro: find_append_new)
  then show ?thesis
    using remote_store.put_keeps [of "(m, sha, auth)" w res w']
      remote_store.put_present [of "(m, sha, auth)" w res w'] assms
    by (auto simp: remote_media_row_def)
qed

text \<open>A reserved upload is completed at most once: after a completion that was reported as won,
  every other completion of the same ID, with whatever bytes, leaves the table as it is and is
  not reported as won. A completion that is won sets exactly the row's content, and leaves all
  other rows alone.\<close>

theorem CompleteLocalMedia_once:
  assumes "run_state (CompleteLocalMedia i t n l s q) w = (Inr True, w1)"
    and "run_state (CompleteLocalMedia i t' n' l' s' q') w1 = (res, w2)"
  shows "w_local w2 = w_local w1 \<and> res \<noteq> Inr True \<and>
    w_local w1 = map (\<lambda>r. if lr_media_id r = i \<and> lr_length r = None
      then complete_row t n l s q r else r) (w_local w) \<and>
    (\<exists>r \<in> set (w_local w). lr_media_id r = i \<and> lr_length r = None)"
proof -
  have "wp (CompleteLocalMedia i t n l s q) (\<lambda>res w'. res = Inr True \<longrightarrow>
      w_local w' = map (\<lambda>r. if completes i r then complete_row t n l s q r else r) (w_local w) \<and>
      length (filter (completes i) (w_local w)) = 1) w"
    by (auto simp: CompleteLocalMedia_def intro!: wp_lossy)
  from wp_run [OF this assms(1)] have
    w1: "w_local w1 = map (\<lambda>r. if completes i r then complete_row t n l s q r else r) (w_local w)"
    and one: "length (filter (completes i) (w_local w)) = 1" by auto
  have "\<not> completes i (complete_row t n l s q r)" for r
    by (simp add: completes_def complete_row_def)
  then have none: "\<forall>r \<in> set (w_local w1). \<not> completes i r" using w1 by auto
  then have ids: "map (\<lambda>r. if completes i r then complete_row t' n' l' s' q' r else r) (w_local w1) = w_local w1"
    by (intro map_idI) auto
  from none have "filter (completes i) (w_local w1) = []" by (simp add: filter_empty_conv)
  with ids have "wp (CompleteLocalMedia i t' n' l' s' q') (\<lambda>res w'. w_local w' = w_local w1 \<and> res \<noteq> Inr True) w1"
    by (auto simp: CompleteLocalMedia_def intro!: wp_lossy)
  from wp_run [OF this assms(2)] w1 one show ?thesis
    by (auto simp: completes_def length_Suc_conv filter_eq_Cons_iff)
qed

definition sample_remote :: remote_media where
  "sample_remote = \<lparr>rm_Origin = ''example.org'', rm_MediaID = ''abc'', rm_MediaType = ''image/png'',
     rm_Length = Some 3, rm_UploadName = '''', rm_FilesystemID = ''abcdefghij'', rm_QuarantinedBy = '''',
     rm_Authenticated = True\<rparr>"

theorem StoreRemoteMedia_first_writer_witness:
  "\<exists>r. find (\<lambda>r. remote_key r = (''example.org'', ''abc''))
       (w_remote (snd (run_state (StoreRemoteMedia sample_remote ''ab'' True) sample_world))) = Some r \<and>
     rr_filesystem_id r = Some ''abcdefghij''"
proof -
  have "fst (run_state (StoreRemoteMedia sample_remote ''ab'' True) sample_world) = Inr True"
    by (simp add: StoreRemoteMedia_def run_state_bind go_now_def Let_def run_lossy_quiet)
      (simp add: sample_world_def)
  from StoreRemoteMedia_first_writer [OF prod.collapse [symmetric], where m = sample_remote and sha = "''ab''" and auth = True and w = sample_world] this
  show ?thesis by (auto simp: sample_remote_def)
qed

definition pending_world :: world where
  "pending_world = sample_world\<lparr>w_local := [pending_row ''abcdefghij'' 1699999999000 ''@u:example.org'' True]\<rparr>"

lemma pending_world_quiet [simp]: "w_faults pending_world = []"
  by (simp add: pending_world_def)

lemma pending_complete:
  "fst (run_state (CompleteLocalMedia ''abcdefghij'' t n l s q) pending_world) = Inr True"
  by (simp add: CompleteLocalMedia_def run_lossy_quiet)
    (simp add: pending_world_def completes_def pending_row_def)

theorem CompleteLocalMedia_once_witness:
  "fst (run_state (CompleteLocalMedia ''abcdefghij'' ''text/plain'' ''x'' 4 ''cd'' '''')
     (snd (run_state (CompleteLocalMedia ''abcdefghij'' ''image/png'' '''' 3 ''ab'' '''') pending_world))) \<noteq> Inr True"
proof -
  let ?c = "CompleteLocalMedia ''abcdefghij'' ''image/png'' '''' 3 ''ab'' ''''"
  have "run_state ?c pending_world = (Inr True, snd (run_state ?c pending_world))"
    using pending_complete by (metis prod.collapse)
  from CompleteLocalMedia_once [OF this prod.collapse [symmetric]] show ?thesis by blast
qed

text \<open>What is stored for an upload is what is read back: every field of the struct goes through
  the row and its NULLs unchanged, the length defaults to zero, and the medium is not a preview.\<close>

theorem StoreLocalMedia_roundtrip:
  assumes "run_state (StoreLocalMedia m sha auth q) w = (Inr (), w1)"
    and "run_state (GetLocalMedia (lm_MediaID m)) w1 = (Inr m', w2)"
  shows "m' = m\<lparr>lm_Length := Some (coalesce (lm_Length m) 0), lm_QuarantinedBy := q,
      lm_URLCache := '''', lm_Authenticated := auth\<rparr>"
proof -
  let ?row = "local_media_row m sha auth q"
  have "wp (StoreLocalMedia m sha auth q) (\<lambda>res w'. res = Inr () \<longrightarrow>
      lm_MediaID m \<notin> lr_media_id ` set (w_local w) \<and> w_local w' = w_local w @ [?row]) w"
    by (auto simp: StoreLocalMedia_def insert_local_def local_media_row_def intro!: wp_lossy split: if_splits)
  from wp_run [OF this assms(1)] have
    "find (\<lambda>r. lr_media_id r = lm_MediaID m) (w_local w1) = Some ?row"
    by (auto intro!: find_append_new simp: local_media_row_def)
  then have "wp (GetLocalMedia (lm_MediaID m)) (\<lambda>res w'. \<forall>x. res = Inr x \<longrightarrow>
      x = scan_local (lm_MediaID m) ?row) w1"
    by (intro wp_find_local) (auto simp: find_None_key [symmetric])
  from wp_run [OF this assms(2)] have "m' = scan_local (lm_MediaID m) ?row" by simp
  then show ?thesis
    by (simp add: scan_local_def local_media_row_def derefString_def)
      (simp add: nullableString_def)
qed

definition sample_local :: local_media where
  "sample_local = \<lparr>lm_MediaID = ''abcdefghij'', lm_MediaType = ''image/png'', lm_Length = Some 3,
     lm_UploadName = '''', lm_QuarantinedBy = '''', lm_URLCache = '''', lm_Authenticated = False,
     lm_CreatedTS = 7, lm_UserID = ''@u:example.org''\<rparr>"

theorem StoreLocalMedia_roundtrip_witness:
  "fst (run_state (GetLocalMedia ''abcdefghij'')
     (snd (run_state (StoreLocalMedia sample_local ''ab'' True ''system'') sample_world))) =
   Inr (sample_local\<lparr>lm_Authenticated := True, lm_QuarantinedBy := ''system''\<rparr>)"
proof -
  let ?s = "StoreLocalMedia sample_local ''ab'' True ''system''"
  have s: "run_state ?s sample_world = (Inr (), snd (run_state ?s sample_world))"
    by (simp add: StoreLocalMedia_def run_lossy_quiet insert_local_def)
      (simp add: sample_world_def)
  have "\<exists>m'. fst (run_state (GetLocalMedia ''abcdefghij'') (snd (run_state ?s sample_world))) = Inr m'"
    by (simp add: StoreLocalMedia_def run_lossy_quiet insert_local_def GetLocalMedia_def run_call_quiet
        local_media_row_def sample_local_def)
      (simp add: sample_world_def run_call_quiet)
  then obtain m' where m': "fst (run_state (GetLocalMedia ''abcdefghij'') (snd (run_state ?s sample_world))) = Inr m'"
    by blast
  then have "run_state (GetLocalMedia (lm_MediaID sample_local)) (snd (run_state ?s sample_world)) =
      (Inr m', snd (run_state (GetLocalMedia ''abcdefghij'') (snd (run_state ?s sample_world))))"
    by (simp add: sample_local_def prod_eq_iff)
  from StoreLocalMedia_roundtrip [OF s this] m' show ?thesis
    by (simp add: sample_local_def)
qed

text \<open>Storing a thumbnail never moves one: whatever fails, every row that existed still names the
  same medium, the same size, type and method and the same filesystem ID; only its length may
  change, and at most one row is added.\<close>

theorem StoreRemoteThumbnail_keeps_fsid:
  "wp (StoreRemoteThumbnail s i f t) (\<lambda>res w'.
     \<exists>new. map (\<lambda>r. r\<lparr>tr_length := None\<rparr>) (w_rthumbs w') =
       map (\<lambda>r. r\<lparr>tr_length := None\<rparr>) (w_rthumbs w) @ new \<and> length new \<le> 1 \<and>
       rt_filesystem_id ` set new \<subseteq> {Some f}) w"
  unfolding StoreRemoteThumbnail_def Let_def
  by (rule wp_lossy) (auto simp: comp_def if_distrib [of "\<lambda>r. r\<lparr>tr_length := None\<rparr>"] cong: if_cong)

text \<open>A flush that goes through stamps exactly the media recorded since the last one with the
  time of the flush, changes nothing else in either table, and leaves nothing recorded; if it
  fails, the tables hold the old stamps or the new, never some of each.\<close>

theorem flushLastAccess_exact:
  "wp flushLastAccess (\<lambda>u w'. w_recent_local w' = [] \<and> w_recent_remote w' = [] \<and> w_clock w \<le> w_clock w' \<and>
     ((w_local w', w_remote w') = (w_local w, w_remote w) \<or>
      w_local w' = map (touch_local (unix_milli (w_clock w')) (w_recent_local w)) (w_local w) \<and>
      w_remote w' = map (touch_remote (unix_milli (w_clock w')) (w_recent_remote w)) (w_remote w))) w"
  unfolding flushLastAccess_def
  by (auto intro!: wp_go_now wp_lossy)

end
