(* ===== verification/Install.thy ===== *)
theory Install
  imports Database
begin

text \<open>
  How every file reaches the media store and the worker's cache: a temporary file, filled, synced and
  renamed into place (\<^verbatim>\<open>CreateTemp\<close> of src/paths.go, \<^verbatim>\<open>writeFileAtomic\<close> of src/upload.go). The locale
  \<open>atomic_put\<close> is what a caller relies on: whatever call fails, the target keeps what it had or holds
  all of the new bytes, and no other file but the temporary one changes.
\<close>

section \<open>What a call on files may change\<close>

definition but_files :: "world \<Rightarrow> world" where
  "but_files w = w\<lparr>w_files := Map.empty, w_temps := [], w_faults := [], w_cancelled := False\<rparr>"

definition files_only :: "world \<Rightarrow> world \<Rightarrow> bool" where
  "files_only w w' \<longleftrightarrow> but_files w' = but_files w \<and> (w_cancelled w \<longrightarrow> w_cancelled w')"

lemma files_only_refl: "files_only w w"
  by (simp add: files_only_def)

lemma files_only_trans: "files_only w v \<Longrightarrow> files_only v u \<Longrightarrow> files_only w u"
  by (simp add: files_only_def)

lemma files_only_upd:
  assumes "w_cancelled w \<Longrightarrow> c"
  shows "files_only w (w\<lparr>w_faults := fs, w_cancelled := c\<rparr>)"
    "files_only w (w\<lparr>w_faults := fs, w_cancelled := c, w_files := f\<rparr>)"
    "files_only w (w\<lparr>w_faults := fs, w_cancelled := c, w_files := f, w_temps := ts\<rparr>)"
  using assms by (simp_all add: files_only_def but_files_def)

lemma files_only_same:
  assumes "files_only w w'"
  shows "w_local w' = w_local w" "w_remote w' = w_remote w" "w_lthumbs w' = w_lthumbs w"
    "w_rthumbs w' = w_rthumbs w" "w_draws w' = w_draws w" "w_clock w' = w_clock w" "w_ticks w' = w_ticks w"
    "w_recent_local w' = w_recent_local w" "w_recent_remote w' = w_recent_remote w" "w_auth w' = w_auth w"
    "w_whoami w' = w_whoami w" "w_fed w' = w_fed w" "w_redirects w' = w_redirects w"
    "w_hdrs w' = w_hdrs w" "w_replies w' = w_replies w" "w_notes w' = w_notes w"
proof -
  have e: "f (but_files w') = f (but_files w)" for f using assms by (simp add: files_only_def)
  show "w_local w' = w_local w" using e [of w_local] by (simp add: but_files_def)
  show "w_remote w' = w_remote w" using e [of w_remote] by (simp add: but_files_def)
  show "w_lthumbs w' = w_lthumbs w" using e [of w_lthumbs] by (simp add: but_files_def)
  show "w_rthumbs w' = w_rthumbs w" using e [of w_rthumbs] by (simp add: but_files_def)
  show "w_draws w' = w_draws w" using e [of w_draws] by (simp add: but_files_def)
  show "w_clock w' = w_clock w" using e [of w_clock] by (simp add: but_files_def)
  show "w_ticks w' = w_ticks w" using e [of w_ticks] by (simp add: but_files_def)
  show "w_recent_local w' = w_recent_local w" using e [of w_recent_local] by (simp add: but_files_def)
  show "w_recent_remote w' = w_recent_remote w" using e [of w_recent_remote] by (simp add: but_files_def)
  show "w_auth w' = w_auth w" using e [of w_auth] by (simp add: but_files_def)
  show "w_whoami w' = w_whoami w" using e [of w_whoami] by (simp add: but_files_def)
  show "w_fed w' = w_fed w" using e [of w_fed] by (simp add: but_files_def)
  show "w_redirects w' = w_redirects w" using e [of w_redirects] by (simp add: but_files_def)
  show "w_hdrs w' = w_hdrs w" using e [of w_hdrs] by (simp add: but_files_def)
  show "w_replies w' = w_replies w" using e [of w_replies] by (simp add: but_files_def)
  show "w_notes w' = w_notes w" using e [of w_notes] by (simp add: but_files_def)
qed

lemma files_only_cancelled: "files_only w w' \<Longrightarrow> w_cancelled w \<Longrightarrow> w_cancelled w'"
  by (simp add: files_only_def)

text \<open>A write in progress: since the world \<open>w0\<close> nothing has changed but the temporary file.\<close>

definition temp_phase :: "world \<Rightarrow> string \<Rightarrow> world \<Rightarrow> bool" where
  "temp_phase w0 tmp w \<longleftrightarrow> files_only w0 w \<and> (\<forall>q. q \<noteq> tmp \<longrightarrow> w_files w q = w_files w0 q)"

lemma temp_phase_step:
  assumes "temp_phase w0 tmp w" "files_only w w'" "\<And>q. q \<noteq> tmp \<Longrightarrow> w_files w' q = w_files w q"
  shows "temp_phase w0 tmp w'"
  using assms files_only_trans by (auto simp: temp_phase_def)

lemma temp_phase_env:
  assumes "temp_phase w0 tmp w" "w_cancelled w \<Longrightarrow> c"
  shows "temp_phase w0 tmp (w\<lparr>w_faults := fs, w_cancelled := c\<rparr>)"
    "temp_phase w0 tmp (w\<lparr>w_faults := fs, w_cancelled := c, w_files := (w_files w)(tmp := x)\<rparr>)"
  by (rule temp_phase_step [OF assms(1) files_only_upd(1)] temp_phase_step [OF assms(1) files_only_upd(2)];
      simp add: assms(2))+

subsection \<open>The calls of a write\<close>

lemma wp_on_tmp:
  assumes "temp_phase w0 tmp w"
    and "\<And>e w'. temp_phase w0 tmp w' \<Longrightarrow> Q (Inl e) w'"
    and "\<And>f w'. w_files w tmp = Some f \<Longrightarrow> temp_phase w0 tmp w' \<Longrightarrow> w_files w' tmp = Some (g f) \<Longrightarrow> Q (Inr ()) w'"
  shows "wp (call_with h (on_file tmp g)) Q w" "wp (lossy_with h (on_file tmp g)) Q w"
  by (rule wp_call wp_lossy; cases "w_files w tmp";
      auto simp: on_file_def temp_phase_env [OF assms(1)] intro!: assms(2,3))+

lemma wp_write_tmp:
  assumes "temp_phase w0 tmp w" "\<And>e w'. temp_phase w0 tmp w' \<Longrightarrow> Q (Inl e) w'"
    and "\<And>f w'. w_files w tmp = Some f \<Longrightarrow> temp_phase w0 tmp w' \<Longrightarrow>
      w_files w' tmp = Some (f\<lparr>f_bytes := f_bytes f @ d, f_synced := False\<rparr>) \<Longrightarrow> Q (Inr ()) w'"
  shows "wp (os_write tmp d) Q w"
  unfolding os_write_def by (rule wp_on_tmp(2) [OF assms])

lemma wp_sync_tmp:
  assumes "temp_phase w0 tmp w" "\<And>e w'. temp_phase w0 tmp w' \<Longrightarrow> Q (Inl e) w'"
    and "\<And>f w'. w_files w tmp = Some f \<Longrightarrow> temp_phase w0 tmp w' \<Longrightarrow>
      w_files w' tmp = Some (f\<lparr>f_synced := True\<rparr>) \<Longrightarrow> Q (Inr ()) w'"
  shows "wp (os_sync tmp) Q w"
  unfolding os_sync_def by (rule wp_on_tmp(1) [OF assms])

lemma wp_chmod_tmp:
  assumes "temp_phase w0 tmp w" "\<And>e w'. temp_phase w0 tmp w' \<Longrightarrow> Q (Inl e) w'"
    and "\<And>f w'. w_files w tmp = Some f \<Longrightarrow> temp_phase w0 tmp w' \<Longrightarrow>
      w_files w' tmp = Some (f\<lparr>f_mode := m\<rparr>) \<Longrightarrow> Q (Inr ()) w'"
  shows "wp (os_chmod tmp m) Q w"
  unfolding os_chmod_def by (rule wp_on_tmp(1) [OF assms])

lemma wp_close_tmp:
  assumes "temp_phase w0 tmp w" "\<And>e w'. temp_phase w0 tmp w' \<Longrightarrow> Q (Inl e) w'"
    and "\<And>w'. temp_phase w0 tmp w' \<Longrightarrow> w_files w' tmp = w_files w tmp \<Longrightarrow> Q (Inr ()) w'"
  shows "wp (os_close tmp) Q w"
  unfolding os_close_def
  by (rule wp_call) (auto simp: temp_phase_env [OF assms(1)] intro!: assms(2,3))

lemma wp_discard_tmp:
  assumes "temp_phase w0 tmp w" "\<And>w'. temp_phase w0 tmp w' \<Longrightarrow> Q () w'"
  shows "wp (discard_file tmp) Q w"
  unfolding discard_file_def wp_bind os_remove_def
  by (rule wp_call; cases "w_files w tmp") (auto simp: temp_phase_env [OF assms(1)] intro!: assms(2))

lemma wp_close_discard_tmp:
  assumes "temp_phase w0 tmp w" "\<And>w'. temp_phase w0 tmp w' \<Longrightarrow> Q () w'"
  shows "wp (close_discard tmp) Q w"
  unfolding close_discard_def wp_bind
  by (rule wp_close_tmp [OF assms(1)]) (erule wp_discard_tmp, rule assms(2), assumption)+

lemma wp_rename_tmp:
  assumes "temp_phase w0 tmp w" "w_files w tmp = Some f" "tmp \<noteq> path"
    and "\<And>e w'. temp_phase w0 tmp w' \<Longrightarrow> Q (Inl e) w'"
    and "\<And>w'. files_only w0 w' \<Longrightarrow> w_files w' = (w_files w0)(tmp := None, path := Some f) \<Longrightarrow> Q (Inr ()) w'"
  shows "wp (os_rename tmp path) Q w"
  unfolding os_rename_def
proof (rule wp_call)
  fix fs c assume c: "w_cancelled w \<Longrightarrow> c"
  let ?w = "w\<lparr>w_faults := fs, w_cancelled := c, w_files := (w_files w)(tmp := None, path := Some f)\<rparr>"
  have "files_only w ?w" by (rule files_only_upd) (rule c)
  then have a: "files_only w0 ?w" using assms(1) files_only_trans by (auto simp: temp_phase_def)
  have b: "w_files ?w = (w_files w0)(tmp := None, path := Some f)"
    using assms(1) by (auto simp: temp_phase_def fun_eq_iff)
  from assms(5) [OF a b] assms(2)
  show "(case (case w_files (w\<lparr>w_faults := fs, w_cancelled := c\<rparr>) tmp of
      None \<Rightarrow> (Inl ErrNotExist, w\<lparr>w_faults := fs, w_cancelled := c\<rparr>)
    | Some f \<Rightarrow> (Inr (), w\<lparr>w_faults := fs, w_cancelled := c\<rparr>\<lparr>w_files :=
        (w_files (w\<lparr>w_faults := fs, w_cancelled := c\<rparr>))(tmp := None, path \<mapsto> f)\<rparr>)) of (a, w') \<Rightarrow> Q a w')"
    by simp
next
  fix e fs c assume "w_cancelled w \<Longrightarrow> c"
  then show "Q (Inl (os_err e)) (w\<lparr>w_faults := fs, w_cancelled := c\<rparr>)"
    by (intro assms(4) temp_phase_env(1) [OF assms(1)])
qed

section \<open>src/paths.go: CreateTemp\<close>

definition CreateTemp :: "MediaPaths \<Rightarrow> string \<Rightarrow> string \<Rightarrow> string res io" where
  "CreateTemp p finalPath prefix =
     (case tempDirFor p finalPath of
        Inl e \<Rightarrow> State_Monad.return (Inl e)
      | Inr dir \<Rightarrow> attempt (os_mkdir_all dir) (\<lambda>e. State_Monad.return (Inl e)) (\<lambda>_. os_create_temp dir prefix))"

definition temp_of :: "MediaPaths \<Rightarrow> string \<Rightarrow> string \<Rightarrow> string \<Rightarrow> bool" where
  "temp_of p path prefix q \<longleftrightarrow> (\<exists>dir n. tempDirFor p path = Inr dir \<and> q = temp_name dir prefix n)"

lemma os_create_temp_step:
  assumes "\<And>e w'. files_only w w' \<Longrightarrow> w_files w' = w_files w \<Longrightarrow> Q (Inl e) w'"
    and "\<And>n w'. w_files w (temp_name dir prefix n) = None \<Longrightarrow> temp_phase w (temp_name dir prefix n) w' \<Longrightarrow>
      w_files w' (temp_name dir prefix n) = Some \<lparr>f_bytes = [], f_mode = 384, f_synced = False\<rparr> \<Longrightarrow>
      Q (Inr (temp_name dir prefix n)) w'"
  shows "wp (os_create_temp dir prefix) Q w"
  unfolding os_create_temp_def
proof (rule wp_call)
  fix e fs c assume "w_cancelled w \<Longrightarrow> c"
  then show "Q (Inl (os_err e)) (w\<lparr>w_faults := fs, w_cancelled := c\<rparr>)"
    by (intro assms(1) files_only_upd) simp_all
next
  fix fs c assume c: "w_cancelled w \<Longrightarrow> c"
  let ?free = "dropWhile (\<lambda>n. w_files w (temp_name dir prefix n) \<noteq> None) (w_temps w)"
  show "case (case dropWhile (\<lambda>n. w_files (w\<lparr>w_faults := fs, w_cancelled := c\<rparr>) (temp_name dir prefix n) \<noteq> None)
             (w_temps (w\<lparr>w_faults := fs, w_cancelled := c\<rparr>)) of
           [] \<Rightarrow> (Inl ErrIO, w\<lparr>w_faults := fs, w_cancelled := c\<rparr>)
         | n # ns \<Rightarrow> (Inr (temp_name dir prefix n), w\<lparr>w_faults := fs, w_cancelled := c\<rparr>\<lparr>w_files :=
             (w_files (w\<lparr>w_faults := fs, w_cancelled := c\<rparr>))(temp_name dir prefix n \<mapsto>
                \<lparr>f_bytes = [], f_mode = 384, f_synced = False\<rparr>), w_temps := ns\<rparr>)) of (a, w') \<Rightarrow> Q a w'"
  proof (cases ?free)
    case Nil
    then show ?thesis
      using files_only_upd(1) [of w c fs] c by (simp add: assms(1) del: dropWhile_eq_Nil_conv)
  next
    case (Cons n ns)
    then have free: "w_files w (temp_name dir prefix n) = None" by (auto simp: dropWhile_eq_Cons_conv)
    let ?f = "(w_files w)(temp_name dir prefix n \<mapsto> \<lparr>f_bytes = [], f_mode = 384, f_synced = False\<rparr>)"
    have "temp_phase w (temp_name dir prefix n) (w\<lparr>w_faults := fs, w_cancelled := c, w_files := ?f, w_temps := ns\<rparr>)"
      unfolding temp_phase_def using files_only_upd(3) [of w c, where fs = fs and f = ?f and ts = ns] c by simp
    from assms(2) [OF free this] show ?thesis using Cons by simp
  qed
qed

lemma wp_CreateTemp:
  assumes "\<And>e w'. files_only w w' \<Longrightarrow> w_files w' = w_files w \<Longrightarrow> Q (Inl e) w'"
    and "\<And>tmp w'. temp_of p path prefix tmp \<Longrightarrow> w_files w tmp = None \<Longrightarrow> temp_phase w tmp w' \<Longrightarrow>
      w_files w' tmp = Some \<lparr>f_bytes = [], f_mode = 384, f_synced = False\<rparr> \<Longrightarrow> Q (Inr tmp) w'"
  shows "wp (CreateTemp p path prefix) Q w"
proof (cases "tempDirFor p path")
  case (Inl e)
  then show ?thesis using assms(1) [OF files_only_refl refl] by (simp add: CreateTemp_def)
next
  case (Inr dir)
  have "wp (os_mkdir_all dir) (\<lambda>r w. case r of Inl e \<Rightarrow> wp (State_Monad.return (Inl e)) Q w
      | Inr x \<Rightarrow> wp (os_create_temp dir prefix) Q w) w"
    unfolding os_mkdir_all_def
  proof (rule wp_call)
    fix e fs c assume "w_cancelled w \<Longrightarrow> c"
    then show "case Inl (os_err e) of Inl e \<Rightarrow> wp (State_Monad.return (Inl e)) Q (w\<lparr>w_faults := fs, w_cancelled := c\<rparr>)
        | Inr x \<Rightarrow> wp (os_create_temp dir prefix) Q (w\<lparr>w_faults := fs, w_cancelled := c\<rparr>)"
      using files_only_upd(1) [of w c fs] by (simp add: assms(1))
  next
    fix fs c assume "w_cancelled w \<Longrightarrow> c"
    then have fo: "files_only w (w\<lparr>w_faults := fs, w_cancelled := c\<rparr>)"
      using files_only_upd(1) [of w c fs] by simp
    have "wp (os_create_temp dir prefix) Q (w\<lparr>w_faults := fs, w_cancelled := c\<rparr>)"
    proof (rule os_create_temp_step)
      fix e w' assume "files_only (w\<lparr>w_faults := fs, w_cancelled := c\<rparr>) w'" "w_files w' = w_files (w\<lparr>w_faults := fs, w_cancelled := c\<rparr>)"
      then show "Q (Inl e) w'" using files_only_trans [OF fo] assms(1) by simp
    next
      fix n w'
      assume "w_files (w\<lparr>w_faults := fs, w_cancelled := c\<rparr>) (temp_name dir prefix n) = None"
        "temp_phase (w\<lparr>w_faults := fs, w_cancelled := c\<rparr>) (temp_name dir prefix n) w'"
        "w_files w' (temp_name dir prefix n) = Some \<lparr>f_bytes = [], f_mode = 384, f_synced = False\<rparr>"
      then show "Q (Inr (temp_name dir prefix n)) w'"
        using files_only_trans [OF fo] Inr by (intro assms(2)) (auto simp: temp_of_def temp_phase_def)
    qed
    then show "case (Inr (), w\<lparr>w_faults := fs, w_cancelled := c\<rparr>) of (a, w') \<Rightarrow>
        (case a of Inl e \<Rightarrow> wp (State_Monad.return (Inl e)) Q w' | Inr x \<Rightarrow> wp (os_create_temp dir prefix) Q w')"
      by simp
  qed
  then show ?thesis by (simp add: CreateTemp_def Inr) (erule wp_mono, simp split: sum.splits)
qed

section \<open>src/upload.go: writeFileAtomic\<close>

text \<open>The end of every write, which the code repeats in \<^verbatim>\<open>writeFileAtomic\<close>, \<^verbatim>\<open>store\<close>, \<^verbatim>\<open>download\<close> and
  \<^verbatim>\<open>WriteThroughRemoteThumbnail\<close>: durability, then the mode of Synapse's own files.\<close>

definition finish_temp :: "string \<Rightarrow> unit res io" where
  "finish_temp name =
     attempt (os_sync name) (\<lambda>e. do { close_discard name; State_Monad.return (Inl e) }) (\<lambda>_.
     attempt (os_close name) (\<lambda>e. do { discard_file name; State_Monad.return (Inl e) }) (\<lambda>_.
     attempt (os_chmod name 420) (\<lambda>e. do { discard_file name; State_Monad.return (Inl e) }) (\<lambda>_.
     State_Monad.return (Inr ()))))"

definition writeFileAtomic :: "MediaPaths \<Rightarrow> string \<Rightarrow> bytes \<Rightarrow> unit res io" where
  "writeFileAtomic p path data =
     attempt (CreateTemp p path ''.thumb-'') (\<lambda>e. State_Monad.return (Inl e)) (\<lambda>name.
     attempt (os_write name data) (\<lambda>e. do { close_discard name; State_Monad.return (Inl e) }) (\<lambda>_.
     attempt (finish_temp name) (\<lambda>e. State_Monad.return (Inl e)) (\<lambda>_.
     attempt (os_rename name path) (\<lambda>e. do { discard_file name; State_Monad.return (Inl e) }) (\<lambda>_.
     State_Monad.return (Inr ())))))"

lemma wp_quit:
  assumes "temp_phase w0 tmp w" "\<And>w'. temp_phase w0 tmp w' \<Longrightarrow> Q (Inl e) w'"
  shows "wp (close_discard tmp) (\<lambda>a. wp (State_Monad.return (Inl e)) Q) w"
    "wp (discard_file tmp) (\<lambda>a. wp (State_Monad.return (Inl e)) Q) w"
  by (rule wp_close_discard_tmp [OF assms(1)] wp_discard_tmp [OF assms(1)], simp add: assms(2))+

lemma wp_finish_temp:
  assumes "temp_phase w0 tmp w" "w_files w tmp = Some f"
    and err: "\<And>e w'. temp_phase w0 tmp w' \<Longrightarrow> Q (Inl e) w'"
    and ok: "\<And>w'. temp_phase w0 tmp w' \<Longrightarrow> w_files w' tmp = Some (f\<lparr>f_synced := True, f_mode := 420\<rparr>) \<Longrightarrow> Q (Inr ()) w'"
  shows "wp (finish_temp tmp) Q w"
proof -
  have chmod: "wp (attempt (os_chmod tmp 420) (\<lambda>e. do { discard_file tmp; State_Monad.return (Inl e) })
      (\<lambda>_. State_Monad.return (Inr ()))) Q w'"
    if "temp_phase w0 tmp w'" "w_files w' tmp = Some (f\<lparr>f_synced := True\<rparr>)" for w'
    unfolding wp_attempt
    by (rule wp_chmod_tmp [OF that(1)]) (auto simp only: sum.case wp_bind wp_return that(2) option.inject
        intro!: wp_quit(2) err ok)
  have close: "wp (attempt (os_close tmp) (\<lambda>e. do { discard_file tmp; State_Monad.return (Inl e) })
      (\<lambda>_. attempt (os_chmod tmp 420) (\<lambda>e. do { discard_file tmp; State_Monad.return (Inl e) })
      (\<lambda>_. State_Monad.return (Inr ())))) Q w'"
    if "temp_phase w0 tmp w'" "w_files w' tmp = Some (f\<lparr>f_synced := True\<rparr>)" for w'
    unfolding wp_attempt [of "os_close tmp"]
    by (rule wp_close_tmp [OF that(1)]) (auto simp only: sum.case wp_bind that(2) intro!: wp_quit(2) err chmod)
  show ?thesis
    unfolding finish_temp_def wp_attempt [of "os_sync tmp"]
    by (rule wp_sync_tmp [OF assms(1)]) (auto simp only: sum.case wp_bind assms(2) option.inject
        intro!: wp_quit(1) err close)
qed

text \<open>A name a temporary file may have.\<close>

definition scratch_name :: "string \<Rightarrow> string \<Rightarrow> bool" where
  "scratch_name prefix q \<longleftrightarrow> (\<exists>d n. q = temp_name d prefix n)"

lemma temp_of_scratch: "temp_of p path prefix q \<Longrightarrow> scratch_name prefix q"
  by (auto simp: temp_of_def scratch_name_def)

lemma scratch_name_last:
  assumes "scratch_name prefix (d @ ''/'' @ x)" "CHR ''/'' \<notin> set x" "CHR ''/'' \<notin> set prefix"
  shows "\<exists>n. x = prefix @ show_nat n"
proof -
  from assms(1) obtain d' n where e: "d @ ''/'' @ x = d' @ ''/'' @ (prefix @ show_nat n)"
    by (auto simp: scratch_name_def temp_name_def)
  have ns: "CHR ''/'' \<notin> set (prefix @ show_nat n)"
    using assms(3) show_nat_digits [of "CHR ''/''" n] not_digit_sign(3) by auto
  have "rev x @ CHR ''/'' # rev d = rev (prefix @ show_nat n) @ CHR ''/'' # rev d'"
    using arg_cong [OF e, of rev] by simp
  then have "cut CHR ''/'' (rev x @ CHR ''/'' # rev d) =
      cut CHR ''/'' (rev (prefix @ show_nat n) @ CHR ''/'' # rev d')" by (rule arg_cong)
  moreover have "cut CHR ''/'' (rev x @ CHR ''/'' # rev d) = (rev x, rev d, True)"
    by (rule cut_append) (use assms(2) in simp)
  moreover have "cut CHR ''/'' (rev (prefix @ show_nat n) @ CHR ''/'' # rev d') = (rev (prefix @ show_nat n), rev d', True)"
    by (rule cut_append) (use ns in simp)
  ultimately have "rev x = rev (prefix @ show_nat n)" by (simp only: prod.inject)
  then have "x = prefix @ show_nat n" by (simp only: rev_is_rev_conv)
  then show ?thesis by blast
qed

text \<open>A temporary file that is left, or not.\<close>

definition at_most_scratch :: "(string \<Rightarrow> bool) \<Rightarrow> world \<Rightarrow> world \<Rightarrow> bool" where
  "at_most_scratch scratch w w' \<longleftrightarrow> files_only w w' \<and> (\<forall>q. \<not> scratch q \<longrightarrow> w_files w' q = w_files w q)"

lemma at_most_scratchI:
  "files_only w w' \<Longrightarrow> w_files w' = w_files w \<Longrightarrow> at_most_scratch s w w'"
  "temp_phase w tmp w' \<Longrightarrow> s tmp \<Longrightarrow> at_most_scratch s w w'"
  by (auto simp: at_most_scratch_def temp_phase_def)

lemma wp_writeFileAtomic:
  assumes path: "\<not> scratch_name ''.thumb-'' path"
    and err: "\<And>e w'. at_most_scratch (scratch_name ''.thumb-'') w w' \<Longrightarrow> Q (Inl e) w'"
    and ok: "\<And>w'. files_only w w' \<Longrightarrow>
      w_files w' = (w_files w)(path \<mapsto> \<lparr>f_bytes = data, f_mode = 420, f_synced = True\<rparr>) \<Longrightarrow> Q (Inr ()) w'"
  shows "wp (writeFileAtomic p path data) Q w"
  unfolding writeFileAtomic_def wp_attempt [of "CreateTemp p path ''.thumb-''"]
proof (rule wp_CreateTemp, goal_cases)
  case (1 e w')
  then show ?case by (simp add: err at_most_scratchI(1))
next
  case (2 tmp w1)
  then have t: "scratch_name ''.thumb-'' tmp" and tp: "tmp \<noteq> path" using path temp_of_scratch by blast+
  have e: "Q (Inl e) w'" if "temp_phase w tmp w'" for e w'
    by (rule err) (rule at_most_scratchI(2) [where s = "scratch_name ''.thumb-''", OF that t])
  have gone: "(w_files w)(tmp := None, path \<mapsto> f) = (w_files w)(path \<mapsto> f)" for f
    using 2(2) tp by (auto simp: fun_eq_iff)
  have rename: "wp (attempt (os_rename tmp path) (\<lambda>e. do { discard_file tmp; State_Monad.return (Inl e) })
      (\<lambda>_. State_Monad.return (Inr ()))) Q w'"
    if "temp_phase w tmp w'" "w_files w' tmp = Some \<lparr>f_bytes = data, f_mode = 420, f_synced = True\<rparr>" for w'
    unfolding wp_attempt
    by (rule wp_rename_tmp [OF that tp]) (auto simp only: sum.case wp_bind wp_return gone intro!: wp_quit(2) e ok)
  have finish: "wp (attempt (finish_temp tmp) (\<lambda>e. State_Monad.return (Inl e)) (\<lambda>_.
      attempt (os_rename tmp path) (\<lambda>e. do { discard_file tmp; State_Monad.return (Inl e) })
      (\<lambda>_. State_Monad.return (Inr ())))) Q w'"
    if "temp_phase w tmp w'" "w_files w' tmp = Some \<lparr>f_bytes = data, f_mode = 384, f_synced = False\<rparr>" for w'
    unfolding wp_attempt [of "finish_temp tmp"]
    by (rule wp_finish_temp [OF that]) (simp_all only: sum.case wp_return e, rule rename, assumption, simp)
  show ?case
    unfolding sum.case wp_attempt [of "os_write tmp data"]
    by (rule wp_write_tmp [OF 2(3)])
      (simp only: sum.case wp_bind, rule wp_quit(1), assumption, erule e,
       simp only: sum.case, rule finish, assumption, auto simp: 2(4))
qed

section \<open>The contract of an atomic write\<close>

locale atomic_put =
  fixes put :: "'k \<Rightarrow> bytes \<Rightarrow> unit res io" and target :: "'k \<Rightarrow> string"
    and legal :: "'k \<Rightarrow> bool" and scratch :: "string \<Rightarrow> bool" and holds :: "bytes \<Rightarrow> disk_file"
  assumes target_kept: "legal k \<Longrightarrow> \<not> scratch (target k)"
    and put_err: "legal k \<Longrightarrow> wp (put k d) (\<lambda>r w'. r \<noteq> Inr () \<longrightarrow> at_most_scratch scratch w w') w"
    and put_ok: "legal k \<Longrightarrow> wp (put k d) (\<lambda>r w'. r = Inr () \<longrightarrow>
      files_only w w' \<and> w_files w' = (w_files w)(target k \<mapsto> holds d)) w"
begin

primrec run_puts :: "('k \<times> bytes) list \<Rightarrow> unit io" where
  "run_puts [] = skip"
| "run_puts (kd # ps) = do { _ \<leftarrow> put (fst kd) (snd kd); run_puts ps }"

text \<open>One write: the target keeps what it had, or holds all of the new bytes; nothing else that is not
  a temporary file changes.\<close>

lemma put_cases:
  assumes "legal k" "\<not> scratch q"
  shows "wp (put k d) (\<lambda>r w'. files_only w w' \<and>
    w_files w' q = (if r = Inr () \<and> q = target k then Some (holds d) else w_files w q)) w"
proof -
  have "wp (put k d) (\<lambda>r w'. (r \<noteq> Inr () \<longrightarrow> at_most_scratch scratch w w') \<and>
      (r = Inr () \<longrightarrow> files_only w w' \<and> w_files w' = (w_files w)(target k \<mapsto> holds d))) w"
    by (rule wp_conj [OF put_err [OF assms(1)] put_ok [OF assms(1)]])
  then show ?thesis
    by (rule wp_mono) (use assms(2) in \<open>auto simp: at_most_scratch_def\<close>)
qed

text \<open>Any history of writes, whichever of them fail: a file that is no temporary one holds what it held
  before, or all the bytes of one of the writes to it.\<close>

lemma never_torn:
  assumes "list_all (\<lambda>kd. legal (fst kd)) ps" "\<not> scratch q"
  shows "wp (run_puts ps) (\<lambda>u w'. w_files w' q = w_files w q \<or>
    (\<exists>kd \<in> set ps. target (fst kd) = q \<and> w_files w' q = Some (holds (snd kd)))) w"
  using assms(1)
proof (induction ps arbitrary: w)
  case (Cons kd ps)
  have step: "wp (put (fst kd) (snd kd)) (\<lambda>r w'. files_only w w' \<and>
      w_files w' q = (if r = Inr () \<and> q = target (fst kd) then Some (holds (snd kd)) else w_files w q)) w"
    by (rule put_cases) (use Cons.prems assms(2) in simp_all)
  have rest: "wp (run_puts ps) (\<lambda>u w''. w_files w'' q = w_files w' q \<or>
      (\<exists>kd \<in> set ps. target (fst kd) = q \<and> w_files w'' q = Some (holds (snd kd)))) w'" for w'
    by (rule Cons.IH) (use Cons.prems in simp)
  show ?case
    unfolding run_puts.simps wp_bind
    by (rule wp_mono [OF step], rule wp_mono [OF rest]) (auto split: if_splits)
qed simp

end

interpretation store_files: atomic_put "writeFileAtomic p" "\<lambda>path. path"
  "\<lambda>path. \<not> scratch_name ''.thumb-'' path" "scratch_name ''.thumb-''"
  "\<lambda>d. \<lparr>f_bytes = d, f_mode = 420, f_synced = True\<rparr>" for p
  by unfold_locales (auto intro!: wp_writeFileAtomic)

text \<open>C27: a file of the media store is written whole or not at all: whichever call fails, the target holds
  what it held or all of the new bytes, synced and readable, every other file that is not a temporary
  one is as it was, and success means the new bytes are there.\<close>

theorem store_write_whole:
  assumes "\<not> scratch_name ''.thumb-'' path" "\<not> scratch_name ''.thumb-'' q"
  shows "wp (writeFileAtomic p path d) (\<lambda>r w'. files_only w w' \<and> w_files w' q =
    (if r = Inr () \<and> q = path then Some \<lparr>f_bytes = d, f_mode = 420, f_synced = True\<rparr> else w_files w q)) w"
  by (rule store_files.put_cases) (use assms in simp_all)

lemma sample_not_scratch: "\<not> scratch_name ''.thumb-'' (''/data/media_store/local_content/ab/cd'' @ ''/'' @ ''efghij'')"
  using scratch_name_last [of "''.thumb-''" "''/data/media_store/local_content/ab/cd''" "''efghij''"] by auto

theorem store_write_whole_witness:
  "wp (writeFileAtomic (AllowUploadWrites sample_store) (''/data/media_store/local_content/ab/cd'' @ ''/'' @ ''efghij'') [1])
    (\<lambda>r w'. files_only sample_world w' \<and>
      w_files w' (''/data/media_store/local_content/ab/cd'' @ ''/'' @ ''efghij'') =
      (if r = Inr () \<and> ''/data/media_store/local_content/ab/cd'' @ ''/'' @ ''efghij'' =
            ''/data/media_store/local_content/ab/cd'' @ ''/'' @ ''efghij''
       then Some \<lparr>f_bytes = [1], f_mode = 420, f_synced = True\<rparr>
       else w_files sample_world (''/data/media_store/local_content/ab/cd'' @ ''/'' @ ''efghij''))) sample_world"
  by (rule store_write_whole [OF sample_not_scratch sample_not_scratch])

end
