(* ===== verification/Bytes.thy ===== *)
theory Bytes
  imports Prelude
begin

text \<open>
  Slicing, indexing and fixed-width integers on \<^verbatim>\<open>[]byte\<close> (\<^verbatim>\<open>encoding/binary\<close>). \<open>None\<close> is the panic of
  an access outside the length, so that a parser of hostile files can be shown never to panic.
\<close>

unbundle bit_operations_syntax

definition slice :: "'a list \<Rightarrow> nat \<Rightarrow> nat \<Rightarrow> 'a list option" where
  "slice xs a b = (if a \<le> b \<and> b \<le> length xs then Some (take (b - a) (drop a xs)) else None)"

definition index :: "'a list \<Rightarrow> nat \<Rightarrow> 'a option" where
  "index xs i = (if i < length xs then Some (xs ! i) else None)"

definition byte_nat :: "byte \<Rightarrow> nat" where
  "byte_nat b = unat b"

definition le_nat :: "bytes \<Rightarrow> nat" where
  "le_nat bs = foldr (\<lambda>b acc. byte_nat b + 256 * acc) bs 0"

definition be_nat :: "bytes \<Rightarrow> nat" where
  "be_nat bs = le_nat (rev bs)"

text \<open>\<^verbatim>\<open>LittleEndian.Uint16\<close> and so on read a prefix of the slice.\<close>

definition le_uint :: "nat \<Rightarrow> bytes \<Rightarrow> nat option" where
  "le_uint n bs = map_option le_nat (slice bs 0 n)"

definition be_uint :: "nat \<Rightarrow> bytes \<Rightarrow> nat option" where
  "be_uint n bs = map_option be_nat (slice bs 0 n)"

text \<open>\<^verbatim>\<open>PutUint32\<close> and its kin: the low \<open>n\<close> bytes.\<close>

fun le_bytes :: "nat \<Rightarrow> nat \<Rightarrow> bytes" where
  "le_bytes 0 v = []"
| "le_bytes (Suc n) v = of_nat (v mod 256) # le_bytes n (v div 256)"

definition be_put :: "nat \<Rightarrow> nat \<Rightarrow> bytes" where
  "be_put n v = rev (le_bytes n v)"

lemma slice_ok: "a \<le> b \<Longrightarrow> b \<le> length xs \<Longrightarrow> slice xs a b = Some (take (b - a) (drop a xs))"
  by (simp add: slice_def)

lemma slice_length: "slice xs a b = Some ys \<Longrightarrow> length ys = b - a \<and> a \<le> b \<and> b \<le> length xs"
  by (auto simp: slice_def split: if_splits)

lemma index_ok: "i < length xs \<Longrightarrow> index xs i = Some (xs ! i)"
  by (simp add: index_def)

lemma byte_nat_less: "byte_nat b < 256"
  using unsigned_less [of b, where ?'a = nat] by (simp add: byte_nat_def)

lemma byte_nat_of_nat [simp]: "byte_nat (of_nat n) = n mod 256"
  by (simp add: byte_nat_def unat_of_nat)

lemma length_le_bytes [simp]: "length (le_bytes n v) = n"
  by (induction n arbitrary: v) auto

lemma length_be_put [simp]: "length (be_put n v) = n"
  by (simp add: be_put_def)

lemma le_nat_Cons [simp]: "le_nat (b # bs) = byte_nat b + 256 * le_nat bs"
  by (simp add: le_nat_def)

lemma le_nat_Nil [simp]: "le_nat [] = 0"
  by (simp add: le_nat_def)

lemma le_nat_le_bytes: "v < 256 ^ n \<Longrightarrow> le_nat (le_bytes n v) = v"
  by (induction n arbitrary: v) (auto simp: less_mult_imp_div_less mult.commute)

lemma be_nat_be_put: "v < 256 ^ n \<Longrightarrow> be_nat (be_put n v) = v"
  by (simp add: be_nat_def be_put_def le_nat_le_bytes)

lemma le_nat_less: "le_nat bs < 256 ^ length bs"
proof (induction bs)
  case (Cons b bs)
  have "byte_nat b + 256 * le_nat bs < 256 * (le_nat bs + 1)"
    using byte_nat_less [of b] by simp
  also have "\<dots> \<le> 256 * 256 ^ length bs" using Cons by (intro mult_left_mono) auto
  finally show ?case by simp
qed simp

lemma le_uint_ok: "n \<le> length bs \<Longrightarrow> le_uint n bs = Some (le_nat (take n bs))"
  by (simp add: le_uint_def slice_ok)

lemma be_uint_ok: "n \<le> length bs \<Longrightarrow> be_uint n bs = Some (be_nat (take n bs))"
  by (simp add: be_uint_def slice_ok)

end
