(* ===== verification/Exif.thy ===== *)
theory Exif
  imports Bytes Http
begin

text \<open>
  src/exif.go: the orientation tag of a JPEG. \<open>None\<close> is a panic; the lemmas show that no input
  causes one, that the result is always an orientation, and that the tag an encoder wrote is found
  whatever metadata precedes it, in either byte order. The image library is a parameter.
\<close>

section \<open>Model\<close>

definition exifOrientationTag :: nat where "exifOrientationTag = 274"

definition exif_header :: bytes where
  "exif_header = str_bytes ''Exif'' @ [0, 0]"

text \<open>\<^verbatim>\<open>binary.ByteOrder\<close>.\<close>

datatype byte_order = LittleEndian | BigEndian

fun bo_uint :: "byte_order \<Rightarrow> nat \<Rightarrow> bytes \<Rightarrow> nat option" where
  "bo_uint LittleEndian n bs = le_uint n bs"
| "bo_uint BigEndian n bs = be_uint n bs"

definition byte_order :: "bytes \<Rightarrow> byte_order option option" where
  "byte_order tiff = do {
     a \<leftarrow> index tiff 0; b \<leftarrow> index tiff 1;
     Some (if a = of_char (CHR ''I'') \<and> b = of_char (CHR ''I'') then Some LittleEndian
       else if a = of_char (CHR ''M'') \<and> b = of_char (CHR ''M'') then Some BigEndian else None) }"

text \<open>The scan of \<open>k\<close> more entries of the directory from entry \<open>n\<close>. The inner option is Go's
  \<^verbatim>\<open>(int, bool)\<close>.\<close>

fun scan_entries :: "byte_order \<Rightarrow> bytes \<Rightarrow> nat \<Rightarrow> nat \<Rightarrow> nat option option" where
  "scan_entries bo entries n 0 = Some None"
| "scan_entries bo entries n (Suc k) = do {
     e \<leftarrow> slice entries (n * 12) (n * 12 + 12);
     tagb \<leftarrow> slice e 0 2;
     tag \<leftarrow> bo_uint bo 2 tagb;
     (if tag \<noteq> exifOrientationTag then scan_entries bo entries (n + 1) k
      else do {
        typb \<leftarrow> slice e 2 4;
        typ \<leftarrow> bo_uint bo 2 typb;
        (if typ \<noteq> 3 then Some None
         else do {
           vb \<leftarrow> slice e 8 10;
           v \<leftarrow> bo_uint bo 2 vb;
           Some (if v < 1 \<or> v > 8 then None else Some v) }) }) }"

definition orientationFromExif :: "bytes \<Rightarrow> nat option option" where
  "orientationFromExif p =
     (if length p < length exif_header + 8 then Some None
      else do {
        h \<leftarrow> slice p 0 (length exif_header);
        (if h \<noteq> exif_header then Some None
         else do {
           tiff \<leftarrow> slice p (length exif_header) (length p);
           order \<leftarrow> byte_order tiff;
           (case order of None \<Rightarrow> Some None | Some bo \<Rightarrow> do {
              mb \<leftarrow> slice tiff 2 4;
              magic \<leftarrow> bo_uint bo 2 mb;
              (if magic \<noteq> 42 then Some None
               else do {
                 ob \<leftarrow> slice tiff 4 8;
                 ifdOffset \<leftarrow> bo_uint bo 4 ob;
                 (if ifdOffset < 8 \<or> ifdOffset + 2 > length tiff then Some None
                  else do {
                    cb \<leftarrow> slice tiff ifdOffset (ifdOffset + 2);
                    count \<leftarrow> bo_uint bo 2 cb;
                    entries \<leftarrow> slice tiff (ifdOffset + 2) (length tiff);
                    (if count * 12 > length entries then Some None
                     else scan_entries bo entries 0 count) }) }) }) }) })"

definition standalone_marker :: "byte \<Rightarrow> bool" where
  "standalone_marker m \<longleftrightarrow> m = 0xD8 \<or> m = 0x01 \<or> (m \<ge> 0xD0 \<and> m \<le> 0xD7)"

function jpeg_walk :: "bytes \<Rightarrow> nat \<Rightarrow> nat option" where
  "jpeg_walk data i =
     (if i + 4 \<le> length data then do {
        ff \<leftarrow> index data i;
        (if ff \<noteq> 0xFF then Some 1
         else do {
           marker \<leftarrow> index data (i + 1);
           (if standalone_marker marker then jpeg_walk data (i + 2)
            else if marker = 0xDA \<or> marker = 0xD9 then Some 1
            else if i + 4 > length data then Some 1
            else do {
              lb \<leftarrow> slice data (i + 2) (i + 4);
              segLen \<leftarrow> be_uint 2 lb;
              (if segLen < 2 \<or> i + 2 + segLen > length data then Some 1
               else do {
                 found \<leftarrow> (if marker = 0xE1 then do {
                            payload \<leftarrow> slice data (i + 4) (i + 2 + segLen);
                            orientationFromExif payload }
                          else Some None);
                 (case found of
                    Some v \<Rightarrow> Some v
                  | None \<Rightarrow> jpeg_walk data (i + 2 + segLen)) }) }) }) }
      else Some 1)"
  by pat_completeness auto
termination
  by (relation "measure (\<lambda>(data, i). length data - i)") auto

declare jpeg_walk.simps [simp del]

definition readJPEGOrientation :: "bytes \<Rightarrow> nat option" where
  "readJPEGOrientation data =
     (if length data < 4 then Some 1
      else do {
        a \<leftarrow> index data 0; b \<leftarrow> index data 1;
        (if a \<noteq> 0xFF \<or> b \<noteq> 0xD8 then Some 1 else jpeg_walk data 2) })"

section \<open>The image library\<close>

record rectangle =
  rect_x0 :: int
  rect_y0 :: int
  rect_x1 :: int
  rect_y1 :: int

text \<open>What the code calls of \<^verbatim>\<open>image\<close>, \<^verbatim>\<open>imaging\<close>, \<^verbatim>\<open>png\<close> and \<^verbatim>\<open>jpeg\<close>.\<close>

record 'i imaging =
  im_Decode :: "bytes \<Rightarrow> 'i option"
  im_Dx :: "'i \<Rightarrow> int"
  im_Dy :: "'i \<Rightarrow> int"
  im_FlipH :: "'i \<Rightarrow> 'i"
  im_FlipV :: "'i \<Rightarrow> 'i"
  im_Transpose :: "'i \<Rightarrow> 'i"
  im_Transverse :: "'i \<Rightarrow> 'i"
  im_Rotate90 :: "'i \<Rightarrow> 'i"
  im_Rotate180 :: "'i \<Rightarrow> 'i"
  im_Rotate270 :: "'i \<Rightarrow> 'i"
  im_Resize :: "'i \<Rightarrow> int \<Rightarrow> int \<Rightarrow> 'i"
  im_Crop :: "'i \<Rightarrow> rectangle \<Rightarrow> 'i"
  im_PNG :: "'i \<Rightarrow> bytes option"
  im_JPEG :: "nat \<Rightarrow> 'i \<Rightarrow> bytes option"

definition applyOrientation :: "'i imaging \<Rightarrow> 'i \<Rightarrow> nat \<Rightarrow> 'i" where
  "applyOrientation L img orientation =
     (if orientation = 2 then im_FlipH L img
      else if orientation = 3 then im_Rotate180 L img
      else if orientation = 4 then im_FlipV L img
      else if orientation = 5 then im_Transpose L img
      else if orientation = 6 then im_Rotate270 L img
      else if orientation = 7 then im_Transverse L img
      else if orientation = 8 then im_Rotate90 L img
      else img)"

section \<open>No input makes the reader panic\<close>

lemma bo_uint_ok: "n \<le> length bs \<Longrightarrow> \<exists>v. bo_uint bo n bs = Some v"
  by (cases bo) (simp_all add: le_uint_ok be_uint_ok)

lemma bo_uint_len: "length bs = n \<Longrightarrow> \<exists>v. bo_uint bo n bs = Some v"
  by (rule bo_uint_ok) simp

definition orientation_ok :: "nat option option \<Rightarrow> bool" where
  "orientation_ok r \<longleftrightarrow> (\<exists>x. r = Some x \<and> pred_option (\<lambda>v. 1 \<le> v \<and> v \<le> 8) x)"

lemma orientation_ok_simps [simp]:
  "orientation_ok (Some None)" "\<not> orientation_ok None"
  "orientation_ok (Some (Some v)) \<longleftrightarrow> 1 \<le> v \<and> v \<le> 8"
  by (simp_all add: orientation_ok_def)

lemma scan_entries_ok: "(n + k) * 12 \<le> length entries \<Longrightarrow> orientation_ok (scan_entries bo entries n k)"
proof (induction k arbitrary: n)
  case (Suc k)
  let ?e = "take 12 (drop (n * 12) entries)"
  have l: "n * 12 + 12 \<le> length entries" using Suc.prems by simp
  then have e: "slice entries (n * 12) (n * 12 + 12) = Some ?e" and le: "length ?e = 12"
    by (simp_all add: slice_ok)
  obtain tag where tag: "bo_uint bo 2 (take 2 ?e) = Some tag"
    using bo_uint_len [of "take 2 ?e" 2 bo] le by auto
  obtain ty where ty: "bo_uint bo 2 (take 2 (drop 2 ?e)) = Some ty"
    using bo_uint_len [of "take 2 (drop 2 ?e)" 2 bo] le by auto
  obtain v where v: "bo_uint bo 2 (take 2 (drop 8 ?e)) = Some v"
    using bo_uint_len [of "take 2 (drop 8 ?e)" 2 bo] le by auto
  have sl: "slice ?e 0 2 = Some (take 2 ?e)" "slice ?e 2 4 = Some (take 2 (drop 2 ?e))"
    "slice ?e 8 10 = Some (take 2 (drop 8 ?e))"
    using le by (simp_all only: slice_def, simp_all)
  have "orientation_ok (scan_entries bo entries (n + 1) k)" using Suc by simp
  then show ?case
    by (simp only: scan_entries.simps e sl tag ty v bind.bind_lunit option.case)
      (simp add: not_less)
qed simp

lemma byte_order_total: "2 \<le> length tiff \<Longrightarrow> \<exists>r. byte_order tiff = Some r"
proof -
  assume "2 \<le> length tiff"
  then have "0 < length tiff" "1 < length tiff" by linarith+
  then show ?thesis unfolding byte_order_def by (simp only: index_ok bind.bind_lunit) blast
qed

lemma orientationFromExif_ok: "orientation_ok (orientationFromExif p)"
proof (cases "length p < length exif_header + 8")
  case False
  let ?tiff = "drop (length exif_header) p"
  have lt: "8 \<le> length ?tiff" using False by simp
  have h: "slice p 0 (length exif_header) = Some (take (length exif_header) p)"
    and t: "slice p (length exif_header) (length p) = Some ?tiff"
    using False by (simp_all add: slice_ok)
  have m: "slice ?tiff 2 4 = Some (take 2 (drop 2 ?tiff))" and o: "slice ?tiff 4 8 = Some (take 4 (drop 4 ?tiff))"
    using lt by (simp_all only: slice_def, simp_all)
  obtain r where r: "byte_order ?tiff = Some r" using byte_order_total lt by fastforce
  have dir: "orientation_ok (if off < 8 \<or> off + 2 > length ?tiff then Some None
      else do { cb \<leftarrow> slice ?tiff off (off + 2); count \<leftarrow> bo_uint bo 2 cb;
        entries \<leftarrow> slice ?tiff (off + 2) (length ?tiff);
        (if count * 12 > length entries then Some None else scan_entries bo entries 0 count) })" for bo off
  proof (cases "off < 8 \<or> off + 2 > length ?tiff")
    case in_range: False
    then have c: "slice ?tiff off (off + 2) = Some (take 2 (drop off ?tiff))"
      and e: "slice ?tiff (off + 2) (length ?tiff) = Some (drop (off + 2) ?tiff)"
      by (simp_all only: slice_def, simp_all)
    have "length (take 2 (drop off ?tiff)) = 2" using in_range by (auto simp: min_def)
    then obtain count where count: "bo_uint bo 2 (take 2 (drop off ?tiff)) = Some count"
      using bo_uint_len by blast
    show ?thesis
      using scan_entries_ok [of 0 count "drop (off + 2) ?tiff" bo] in_range
      by (simp only: c e count bind.bind_lunit) simp
  qed simp
  show ?thesis
  proof (cases r)
    case (Some bo)
    have "length (take 2 (drop 2 ?tiff)) = 2" "length (take 4 (drop 4 ?tiff)) = 4" using lt by simp_all
    then obtain magic off where mo: "bo_uint bo 2 (take 2 (drop 2 ?tiff)) = Some magic"
        "bo_uint bo 4 (take 4 (drop 4 ?tiff)) = Some off"
      using bo_uint_len by metis
    show ?thesis
      unfolding orientationFromExif_def
      using False Some dir [of off bo]
      by (simp only: h t r m o mo bind.bind_lunit option.case if_False) simp
  qed (use False in \<open>simp add: orientationFromExif_def h t r\<close>)
qed (simp add: orientationFromExif_def)

text \<open>A marker that ends the walk, and a segment it reads over.\<close>

lemma jpeg_walk_stops:
  assumes "i + 4 \<le> length data \<Longrightarrow> data ! i \<noteq> 0xFF \<or> \<not> standalone_marker (data ! (i + 1)) \<and>
    (data ! (i + 1) = 0xDA \<or> data ! (i + 1) = 0xD9 \<or> be_nat (take 2 (drop (i + 2) data)) < 2 \<or>
     i + 2 + be_nat (take 2 (drop (i + 2) data)) > length data)"
  shows "jpeg_walk data i = Some 1"
proof (cases "i + 4 \<le> length data")
  case True
  then have "index data i = Some (data ! i)" "index data (i + 1) = Some (data ! (i + 1))"
    "slice data (i + 2) (i + 4) = Some (take 2 (drop (i + 2) data))"
    "be_uint 2 (take 2 (drop (i + 2) data)) = Some (be_nat (take 2 (drop (i + 2) data)))"
    by (simp_all add: index_ok slice_ok be_uint_ok)
  with True assms [OF True] show ?thesis
    by (cases "data ! i = 0xFF"; cases "data ! (i + 1) = 0xDA \<or> data ! (i + 1) = 0xD9"; subst jpeg_walk.simps; auto)
qed (subst jpeg_walk.simps, simp)

lemma jpeg_walk_ok: "\<exists>v. jpeg_walk data i = Some v \<and> 1 \<le> v \<and> v \<le> 8"
proof (induction data i rule: jpeg_walk.induct)
  case (1 data i)
  show ?case
  proof (cases "i + 4 \<le> length data")
    case True
    then have ff: "index data i = Some (data ! i)" and mk: "index data (i + 1) = Some (data ! (i + 1))"
      and lb: "slice data (i + 2) (i + 4) = Some (take 2 (drop (i + 2) data))"
      by (simp_all add: index_ok slice_ok)
    have two: "be_uint 2 (take 2 (drop (i + 2) data)) = Some (be_nat (take 2 (drop (i + 2) data)))"
      using True by (simp add: be_uint_ok)
    let ?n = "be_nat (take 2 (drop (i + 2) data))"
    let ?m = "data ! (i + 1)"
    consider "data ! i \<noteq> 0xFF" | "data ! i = 0xFF" "standalone_marker ?m"
      | "data ! i = 0xFF" "\<not> standalone_marker ?m" "?m = 0xDA \<or> ?m = 0xD9 \<or> ?n < 2 \<or> i + 2 + ?n > length data"
      | "data ! i = 0xFF" "\<not> standalone_marker ?m" "\<not> (?m = 0xDA \<or> ?m = 0xD9)" "\<not> (?n < 2 \<or> i + 2 + ?n > length data)"
      by blast
    then show ?thesis
    proof cases
      case 2
      have "\<exists>v. jpeg_walk data (i + 2) = Some v \<and> 1 \<le> v \<and> v \<le> 8"
        by (rule "1.IH"(1) [OF True ff _ mk 2(2)]) (simp add: 2)
      then show ?thesis using True 2 ff mk by (subst jpeg_walk.simps) simp
    next
      case 4
      have p: "slice data (i + 4) (i + 2 + ?n) = Some (take (?n - 2) (drop (i + 4) data))"
        using 4 True by (simp add: slice_ok)
      let ?found = "if ?m = 0xE1 then orientationFromExif (take (?n - 2) (drop (i + 4) data)) else Some None"
      have found: "orientation_ok ?found" using orientationFromExif_ok by simp
      then obtain x where x: "?found = Some x" "pred_option (\<lambda>v. 1 \<le> v \<and> v \<le> 8) x"
        by (auto simp: orientation_ok_def)
      have x': "(if ?m = 0xE1 then slice data (i + 4) (i + 2 + ?n) \<bind> orientationFromExif else Some None) = Some x"
        unfolding p bind.bind_lunit by (rule x(1))
      have unfold: "jpeg_walk data i = (case x of Some v \<Rightarrow> Some v | None \<Rightarrow> jpeg_walk data (i + 2 + ?n))"
        using True 4 ff mk lb two x' by (subst jpeg_walk.simps) (simp only: bind.bind_lunit if_False if_True refl, simp)
      show ?thesis
      proof (cases x)
        case None
        have "\<exists>v. jpeg_walk data (i + 2 + ?n) = Some v \<and> 1 \<le> v \<and> v \<le> 8"
          by (rule "1.IH"(2) [OF True ff _ mk 4(2,3) _ lb two 4(4) x' None]) (use 4 True in simp_all)
        then show ?thesis using unfold None by simp
      qed (use unfold x(2) in simp)
    next
      case 1
      then show ?thesis using jpeg_walk_stops [of i data] by auto
    next
      case 3
      then show ?thesis using jpeg_walk_stops [of i data] by auto
    qed
  next
    case False
    then show ?thesis using jpeg_walk_stops [of i data] by auto
  qed
qed

section \<open>The tag an encoder wrote is found\<close>

fun bo_put :: "byte_order \<Rightarrow> nat \<Rightarrow> nat \<Rightarrow> bytes" where
  "bo_put LittleEndian n v = le_bytes n v"
| "bo_put BigEndian n v = be_put n v"

fun bo_mark :: "byte_order \<Rightarrow> bytes" where
  "bo_mark LittleEndian = str_bytes ''II''"
| "bo_mark BigEndian = str_bytes ''MM''"

lemma length_bo_put [simp]: "length (bo_put bo n v) = n"
  by (cases bo) simp_all

lemma bo_uint_put: "v < 256 ^ n \<Longrightarrow> bo_uint bo n (bo_put bo n v) = Some v"
  by (cases bo) (simp_all add: le_uint_ok be_uint_ok le_nat_le_bytes be_nat_be_put)

definition orientation_entry :: "byte_order \<Rightarrow> nat \<Rightarrow> bytes" where
  "orientation_entry bo v =
     bo_put bo 2 exifOrientationTag @ bo_put bo 2 3 @ bo_put bo 4 1 @ bo_put bo 2 v @ [0, 0]"

definition other_entry :: "byte_order \<Rightarrow> bytes \<Rightarrow> bool" where
  "other_entry bo e \<longleftrightarrow> length e = 12 \<and> bo_uint bo 2 (take 2 e) \<noteq> Some exifOrientationTag"

definition exif_payload :: "byte_order \<Rightarrow> bytes list \<Rightarrow> bytes \<Rightarrow> bytes" where
  "exif_payload bo entries tail =
     exif_header @ (bo_mark bo @ bo_put bo 2 42 @ bo_put bo 4 8) @
     bo_put bo 2 (length entries) @ concat entries @ tail"

lemma scan_skip:
  assumes "list_all (other_entry bo) es" "12 * n = length pre"
  shows "scan_entries bo (pre @ concat es @ rest) n (length es + k) =
    scan_entries bo (pre @ concat es @ rest) (n + length es) k"
  using assms
proof (induction es arbitrary: pre n)
  case (Cons e es)
  then have e: "length e = 12" "bo_uint bo 2 (take 2 e) \<noteq> Some exifOrientationTag"
    and len: "length (pre @ e) = 12 * (n + 1)"
    by (simp_all add: other_entry_def)
  obtain tag where tag: "bo_uint bo 2 (take 2 e) = Some tag"
    using bo_uint_len [of "take 2 e" 2 bo] e(1) by auto
  have sl: "slice (pre @ e @ concat es @ rest) (n * 12) (n * 12 + 12) = Some e"
    using Cons.prems(2) e(1) by (simp add: slice_def mult.commute)
  have two: "slice e 0 2 = Some (take 2 e)" using e(1) by (simp add: slice_def)
  have "scan_entries bo (pre @ e @ concat es @ rest) n (Suc (length es + k)) =
      scan_entries bo ((pre @ e) @ concat es @ rest) (n + 1) (length es + k)"
    using tag e(2) by (simp only: scan_entries.simps sl two tag bind.bind_lunit) simp
  also have "\<dots> = scan_entries bo ((pre @ e) @ concat es @ rest) (n + 1 + length es) k"
    by (rule Cons.IH) (use Cons.prems len in simp_all)
  finally show ?case by simp
qed simp

lemma scan_hit:
  assumes "12 * n = length pre" "1 \<le> v" "v \<le> 8"
  shows "scan_entries bo (pre @ orientation_entry bo v @ rest) n (Suc k) = Some (Some v)"
proof -
  let ?e = "orientation_entry bo v"
  have l: "length ?e = 12" by (simp add: orientation_entry_def)
  have sl: "slice (pre @ ?e @ rest) (n * 12) (n * 12 + 12) = Some ?e"
    using assms(1) l by (simp add: slice_def mult.commute)
  have parts: "slice ?e 0 2 = Some (bo_put bo 2 exifOrientationTag)"
    "slice ?e 2 4 = Some (bo_put bo 2 3)" "slice ?e 8 10 = Some (bo_put bo 2 v)"
    unfolding slice_def l by (simp_all add: orientation_entry_def)
  have vals: "bo_uint bo 2 (bo_put bo 2 exifOrientationTag) = Some exifOrientationTag"
    "bo_uint bo 2 (bo_put bo 2 3) = Some 3" "bo_uint bo 2 (bo_put bo 2 v) = Some v"
    using assms(3) by (intro bo_uint_put; simp add: exifOrientationTag_def)+
  show ?thesis
    using assms(2,3) by (simp only: scan_entries.simps sl parts vals bind.bind_lunit) simp
qed

lemma byte_order_mark: "byte_order (bo_mark bo @ rest) = Some (Some bo)"
  by (cases bo) (simp_all add: byte_order_def index_def str_bytes_def)

lemma length_bo_mark [simp]: "length (bo_mark bo) = 2"
  by (cases bo) simp_all

lemma length_exif_header [simp]: "length exif_header = 6"
  by (simp add: exif_header_def)

lemma sum_entries: "list_all (\<lambda>e. length e = 12) es \<Longrightarrow> length (concat es) = 12 * length es"
  by (induction es) simp_all

lemma orientation_found:
  assumes "list_all (other_entry bo) es" "list_all (\<lambda>e. length e = 12) es'" "1 \<le> v" "v \<le> 8"
    and "length es + length es' < 65535"
  shows "orientationFromExif (exif_payload bo (es @ orientation_entry bo v # es') tail) = Some (Some v)"
proof -
  let ?es = "es @ orientation_entry bo v # es'"
  let ?dir = "concat ?es @ tail"
  let ?tiff = "(bo_mark bo @ bo_put bo 2 42 @ bo_put bo 4 8) @ bo_put bo 2 (length ?es) @ ?dir"
  let ?p = "exif_header @ ?tiff"
  have p: "exif_payload bo ?es tail = ?p" by (simp add: exif_payload_def)
  have lo: "length (orientation_entry bo v) = 12" by (simp add: orientation_entry_def)
  have "list_all (\<lambda>e. length e = 12) ?es"
    using assms(1,2) lo by (auto simp: list_all_iff other_entry_def)
  then have lc: "length (concat ?es) = 12 * length ?es" by (rule sum_entries)
  have sl: "slice ?p 0 (length exif_header) = Some exif_header"
    "slice ?p (length exif_header) (length ?p) = Some ?tiff"
    "slice ?tiff 2 4 = Some (bo_put bo 2 42)" "slice ?tiff 4 8 = Some (bo_put bo 4 8)"
    "slice ?tiff 8 (8 + 2) = Some (bo_put bo 2 (length ?es))"
    "slice ?tiff (8 + 2) (length ?tiff) = Some ?dir"
    by (simp_all add: slice_def)
  have vals: "bo_uint bo 2 (bo_put bo 2 42) = Some 42" "bo_uint bo 4 (bo_put bo 4 8) = Some 8"
    "bo_uint bo 2 (bo_put bo 2 (length ?es)) = Some (length ?es)"
    using assms(5) by (intro bo_uint_put; simp)+
  have scan: "scan_entries bo ?dir 0 (length ?es) = Some (Some v)"
  proof -
    have "scan_entries bo ([] @ concat es @ (orientation_entry bo v @ concat es' @ tail)) 0 (length es + Suc (length es')) =
        scan_entries bo ([] @ concat es @ (orientation_entry bo v @ concat es' @ tail)) (0 + length es) (Suc (length es'))"
      by (rule scan_skip [OF assms(1)]) simp
    also have "\<dots> = scan_entries bo (concat es @ orientation_entry bo v @ concat es' @ tail) (length es) (Suc (length es'))"
      by simp
    also have "\<dots> = Some (Some v)"
      by (rule scan_hit) (use assms(1,3,4) sum_entries [of es] in \<open>simp_all add: list_all_iff other_entry_def\<close>)
    finally show ?thesis by simp
  qed
  have mark: "byte_order ?tiff = Some (Some bo)"
    unfolding append_assoc by (rule byte_order_mark)
  have bounds: "\<not> length ?p < length exif_header + 8" "\<not> (8 < (8::nat) \<or> 8 + 2 > length ?tiff)"
    "\<not> length ?es * 12 > length ?dir"
    using lc by simp_all
  show ?thesis
    unfolding p orientationFromExif_def
    by (simp only: bounds sl mark vals scan bind.bind_lunit option.case if_False if_True refl not_True_eq_False
        simp_thms)
qed

definition segment :: "byte \<times> bytes \<Rightarrow> bytes" where
  "segment s = [0xFF, fst s] @ be_put 2 (length (snd s) + 2) @ snd s"

text \<open>A segment the walk passes over: it has a length, and it is no EXIF block.\<close>

definition plain_segment :: "byte \<times> bytes \<Rightarrow> bool" where
  "plain_segment s \<longleftrightarrow> \<not> standalone_marker (fst s) \<and> fst s \<noteq> 0xDA \<and> fst s \<noteq> 0xD9 \<and> fst s \<noteq> 0xE1 \<and>
     length (snd s) + 2 < 65536"

lemma segment_facts:
  assumes "length payload + 2 < 65536" "data = pre @ segment (m, payload) @ rest"
  shows "length pre + 4 \<le> length data" "index data (length pre) = Some 0xFF"
    "index data (length pre + 1) = Some m"
    "slice data (length pre + 2) (length pre + 4) = Some (be_put 2 (length payload + 2))"
    "be_uint 2 (be_put 2 (length payload + 2)) = Some (length payload + 2)"
    "\<not> (length payload + 2 < 2 \<or> length pre + 2 + (length payload + 2) > length data)"
    "slice data (length pre + 4) (length pre + 2 + (length payload + 2)) = Some payload"
  using assms(1) unfolding assms(2)
  by (simp_all add: segment_def index_def nth_append slice_def be_uint_ok be_nat_be_put)

lemma walk_segment:
  assumes "plain_segment s"
  shows "jpeg_walk (pre @ segment s @ rest) (length pre) =
    jpeg_walk (pre @ segment s @ rest) (length pre + length (segment s))"
proof -
  obtain m payload where s: "s = (m, payload)" by fastforce
  with assms have l: "length payload + 2 < 65536" and m: "\<not> standalone_marker m" "m \<noteq> 0xDA" "m \<noteq> 0xD9" "m \<noteq> 0xE1"
    by (simp_all add: plain_segment_def)
  note facts = segment_facts [OF l refl [of "pre @ segment (m, payload) @ rest"]]
  have n: "length pre + 2 + (length payload + 2) = length pre + length (segment s)"
    by (simp add: s segment_def)
  show ?thesis
    using facts(1) m unfolding s
    by (subst jpeg_walk.simps)
      (simp only: facts bind.bind_lunit option.case if_True if_False refl simp_thms n [unfolded s] not_le [symmetric],
        simp)
qed

lemma walk_segments:
  assumes "list_all plain_segment ss"
  shows "jpeg_walk (pre @ concat (map segment ss) @ rest) (length pre) =
    jpeg_walk (pre @ concat (map segment ss) @ rest) (length pre + length (concat (map segment ss)))"
  using assms
proof (induction ss arbitrary: pre)
  case (Cons s ss)
  have "jpeg_walk (pre @ segment s @ (concat (map segment ss) @ rest)) (length pre) =
      jpeg_walk ((pre @ segment s) @ concat (map segment ss) @ rest) (length (pre @ segment s))"
    using walk_segment [of s pre "concat (map segment ss) @ rest"] Cons.prems by simp
  also have "\<dots> = jpeg_walk ((pre @ segment s) @ concat (map segment ss) @ rest)
      (length (pre @ segment s) + length (concat (map segment ss)))"
    by (rule Cons.IH) (use Cons.prems in simp)
  finally show ?case by (simp add: add.assoc)
qed simp

lemma walk_exif:
  assumes "orientationFromExif payload = Some (Some v)" "length payload + 2 < 65536"
  shows "jpeg_walk (pre @ segment (0xE1, payload) @ rest) (length pre) = Some v"
proof -
  note facts = segment_facts [OF assms(2) refl [of "pre @ segment (0xE1, payload) @ rest"]]
  have m: "\<not> standalone_marker 0xE1" "(0xE1 :: byte) \<noteq> 0xDA" "(0xE1 :: byte) \<noteq> 0xD9"
    by (simp_all add: standalone_marker_def)
  show ?thesis
    using facts(1) m
    by (subst jpeg_walk.simps)
      (simp only: facts assms(1) bind.bind_lunit option.case if_True if_False refl simp_thms not_le [symmetric],
        simp add: segment_def)
qed

lemma readJPEGOrientation_ok: "\<exists>v. readJPEGOrientation data = Some v \<and> 1 \<le> v \<and> v \<le> 8"
proof (cases "length data < 4")
  case False
  then have "0 < length data" "1 < length data" by linarith+
  then have "readJPEGOrientation data =
      (if data ! 0 \<noteq> 0xFF \<or> data ! 1 \<noteq> 0xD8 then Some 1 else jpeg_walk data 2)"
    using False unfolding readJPEGOrientation_def by (simp only: index_ok bind.bind_lunit if_False)
  moreover obtain v where "jpeg_walk data 2 = Some v" "1 \<le> v" "v \<le> 8" using jpeg_walk_ok by blast
  ultimately show ?thesis by simp
qed (simp add: readJPEGOrientation_def)

text \<open>C39: no bytes an upload holds make the reader of the orientation panic or loop, and what it
  returns is one of the eight orientations.\<close>

theorem readJPEGOrientation_total:
  "case readJPEGOrientation data of None \<Rightarrow> False | Some v \<Rightarrow> v \<in> {1..8}"
  using readJPEGOrientation_ok [of data] by auto



section \<open>The image is displayed upright\<close>

text \<open>The pixels of an image, top row first, and what the library documents of its operations on them:
  rotations are counter-clockwise.\<close>

definition imaging_documented :: "'i imaging \<Rightarrow> ('i \<Rightarrow> 'p list list) \<Rightarrow> bool" where
  "imaging_documented L px \<longleftrightarrow> (\<forall>i.
     px (im_FlipH L i) = map rev (px i) \<and> px (im_FlipV L i) = rev (px i) \<and>
     px (im_Transpose L i) = transpose (px i) \<and>
     px (im_Transverse L i) = rev (map rev (transpose (px i))) \<and>
     px (im_Rotate90 L i) = rev (transpose (px i)) \<and>
     px (im_Rotate180 L i) = rev (map rev (px i)) \<and>
     px (im_Rotate270 L i) = map rev (transpose (px i)))"

text \<open>How a camera stores a scene under each orientation, by the EXIF standard: which side of the scene
  the stored row 0 and column 0 are.\<close>

definition stored_as :: "nat \<Rightarrow> 'p list list \<Rightarrow> 'p list list" where
  "stored_as v scene =
     (if v = 2 then map rev scene             \<comment> \<open>top, right\<close>
      else if v = 3 then rev (map rev scene)   \<comment> \<open>bottom, right\<close>
      else if v = 4 then rev scene             \<comment> \<open>bottom, left\<close>
      else if v = 5 then transpose scene       \<comment> \<open>left, top\<close>
      else if v = 6 then rev (transpose scene)             \<comment> \<open>right, top\<close>
      else if v = 7 then rev (map rev (transpose scene))   \<comment> \<open>right, bottom\<close>
      else if v = 8 then map rev (transpose scene)         \<comment> \<open>left, bottom\<close>
      else scene)"

definition grid :: "nat \<Rightarrow> nat \<Rightarrow> 'p list list \<Rightarrow> bool" where
  "grid w h g \<longleftrightarrow> 0 < w \<and> 0 < h \<and> length g = h \<and> list_all (\<lambda>r. length r = w) g"

lemma gridD: "grid w h g \<Longrightarrow> y < h \<Longrightarrow> length (g ! y) = w" "grid w h g \<Longrightarrow> length g = h"
  by (auto simp: grid_def list_all_iff)

lemma gridI:
  "0 < w \<Longrightarrow> 0 < h \<Longrightarrow> length g = h \<Longrightarrow> (\<And>y. y < h \<Longrightarrow> length (g ! y) = w) \<Longrightarrow> grid w h g"
  by (auto simp: grid_def list_all_length)

lemma grid_transpose:
  assumes "grid w h g"
  shows "transpose g = map (\<lambda>x. map (\<lambda>y. g ! y ! x) [0..<h]) [0..<w]"
proof -
  have "length g = h" using assms gridD(2) by blast
  moreover have "transpose g = map (\<lambda>x. map (\<lambda>y. g ! y ! x) [0..<length g]) [0..<w]"
    by (rule transpose_rectangle) (use assms in \<open>auto simp: grid_def list_all_length\<close>)
  ultimately show ?thesis by simp
qed

lemma grid_transposed: "grid w h g \<Longrightarrow> grid h w (transpose g)"
  by (rule gridI) (simp_all add: grid_transpose, simp_all add: grid_def)

lemma grid_rev: "grid w h g \<Longrightarrow> grid w h (rev g)" "grid w h g \<Longrightarrow> grid w h (map rev g)"
  by (simp_all add: grid_def list_all_iff)

lemma grid_eqI:
  assumes "grid w h a" "grid w h b" "\<And>x y. x < w \<Longrightarrow> y < h \<Longrightarrow> a ! y ! x = b ! y ! x"
  shows "a = b"
  by (intro nth_equalityI) (use assms in \<open>simp_all add: gridD\<close>)

lemma transpose_at: "grid w h g \<Longrightarrow> x < w \<Longrightarrow> y < h \<Longrightarrow> transpose g ! x ! y = g ! y ! x"
  by (simp add: grid_transpose)

lemma transpose_twice: "grid w h g \<Longrightarrow> transpose (transpose g) = g"
  by (rule grid_eqI [of w h]) (simp_all add: grid_transposed transpose_at [of h w] transpose_at)

lemma transpose_rev: "grid w h g \<Longrightarrow> transpose (rev g) = map rev (transpose g)"
  by (rule grid_eqI [of h w])
    (simp_all add: grid_transposed grid_rev transpose_at [of w h] rev_nth gridD
      gridD [of h w "transpose g"] gridD(2) [of w h g])

lemma transpose_map_rev: "grid w h g \<Longrightarrow> transpose (map rev g) = rev (transpose g)"
  by (rule grid_eqI [of h w])
    (simp_all add: grid_transposed grid_rev transpose_at [of w h] rev_nth gridD
      gridD [of h w "transpose g"] gridD(2) [of w h g])

text \<open>Whatever the orientation, the image shown is the scene the camera saw: the operation the code
  picks undoes the way the standard says the pixels were stored.\<close>

theorem applyOrientation_upright:
  assumes "imaging_documented L px" "grid w h scene" "px img = stored_as v scene"
  shows "px (applyOrientation L img v) = scene"
proof -
  note g = assms(2) grid_transposed [OF assms(2)]
  have t: "transpose (transpose scene) = scene" by (rule transpose_twice [OF g(1)])
  have r: "transpose (rev (transpose scene)) = map rev scene"
    "transpose (map rev (transpose scene)) = rev scene"
    "transpose (rev (map rev (transpose scene))) = map rev (rev scene)"
    using transpose_rev [OF g(2)] transpose_map_rev [OF g(2)] t
      transpose_rev [OF grid_rev(2) [OF g(2)]] by simp_all
  show ?thesis
    using assms(1,3) t r
    by (simp add: imaging_documented_def applyOrientation_def stored_as_def rev_map)
qed

definition grid_library :: "byte list list imaging" where
  "grid_library =
     \<lparr>im_Decode = (\<lambda>b. Some [b]), im_Dx = (\<lambda>i. case i of [] \<Rightarrow> 0 | r # _ \<Rightarrow> int (length r)), im_Dy = (\<lambda>i. int (length i)),
      im_FlipH = map rev, im_FlipV = rev, im_Transpose = transpose,
      im_Transverse = (\<lambda>i. rev (map rev (transpose i))), im_Rotate90 = (\<lambda>i. rev (transpose i)),
      im_Rotate180 = (\<lambda>i. rev (map rev i)), im_Rotate270 = (\<lambda>i. map rev (transpose i)),
      im_Resize = (\<lambda>i w h. replicate (nat h) (replicate (nat w) 0)),
      im_Crop = (\<lambda>i r. map (\<lambda>row. take (nat (rect_x1 r - rect_x0 r)) (drop (nat (rect_x0 r)) row))
         (take (nat (rect_y1 r - rect_y0 r)) (drop (nat (rect_y0 r)) i))),
      im_PNG = (\<lambda>i. Some (concat i)), im_JPEG = (\<lambda>q i. Some (concat i))\<rparr>"

theorem applyOrientation_upright_witness:
  "id (applyOrientation grid_library (stored_as 6 [[1, 2, 3], [4, 5, 6]]) 6) = [[1, 2, 3], [4, 5, 6]]"
  by (rule applyOrientation_upright [where px = id and w = 3 and h = 2])
    (simp_all add: imaging_documented_def grid_library_def grid_def)

end
