(* ===== verification/Webp.thy ===== *)
theory Webp
  imports Bytes Http
begin

text \<open>
  src/webpanim.go: the first frame of an animated WebP as a still one. The input is any byte
  string. The lemmas show that no input makes the parser panic or loop, that the chunk walker
  inverts the chunk writer, and that what is rebuilt is a still WebP holding the frame's own image.
\<close>

section \<open>Model\<close>

definition riffHeaderSize :: nat where "riffHeaderSize = 12"
definition chunkHeaderSize :: nat where "chunkHeaderSize = 8"
definition vp8xPayloadSize :: nat where "vp8xPayloadSize = 10"
definition anmfHeaderSize :: nat where "anmfHeaderSize = 16"
definition vp8xAlphaBit :: byte where "vp8xAlphaBit = 16"
definition vp8xAnimBit :: byte where "vp8xAnimBit = 2"

lemmas webp_sizes = riffHeaderSize_def chunkHeaderSize_def vp8xPayloadSize_def anmfHeaderSize_def

record webpChunk =
  fourCC :: bytes
  chunk_payload :: bytes

definition isWebP :: "bytes \<Rightarrow> bool option" where
  "isWebP data =
     (if length data \<ge> riffHeaderSize then do {
        a \<leftarrow> slice data 0 4;
        b \<leftarrow> slice data 8 12;
        Some (a = str_bytes ''RIFF'' \<and> b = str_bytes ''WEBP'') }
      else Some False)"

text \<open>The loop of \<^verbatim>\<open>webpChunks\<close> and of \<^verbatim>\<open>framePayloadChunks\<close>, which differ in where they start. The size
  of a chunk is a \<^verbatim>\<open>uint32\<close>, so as an \<^verbatim>\<open>int\<close> it is never negative.\<close>

function chunk_walk :: "bytes \<Rightarrow> nat \<Rightarrow> webpChunk list option" where
  "chunk_walk data off =
     (if off + chunkHeaderSize \<le> length data then do {
        cc \<leftarrow> slice data off (off + 4);
        sz \<leftarrow> slice data (off + 4) (off + 8);
        size \<leftarrow> le_uint 4 sz;
        (if off + chunkHeaderSize + size > length data then Some []
         else do {
           payload \<leftarrow> slice data (off + chunkHeaderSize) (off + chunkHeaderSize + size);
           rest \<leftarrow> chunk_walk data (off + chunkHeaderSize + size + (if size mod 2 = 1 then 1 else 0));
           Some (\<lparr>fourCC = cc, chunk_payload = payload\<rparr> # rest) }) }
      else Some [])"
  by pat_completeness auto
termination
  by (relation "measure (\<lambda>(data, off). length data - off)") (auto simp: chunkHeaderSize_def)

declare chunk_walk.simps [simp del]

definition webpChunks :: "bytes \<Rightarrow> webpChunk list option" where
  "webpChunks data = chunk_walk data riffHeaderSize"

definition framePayloadChunks :: "bytes \<Rightarrow> webpChunk list option" where
  "framePayloadChunks data = chunk_walk data 0"

fun anim_flag :: "webpChunk list \<Rightarrow> bool option" where
  "anim_flag [] = Some False"
| "anim_flag (c # cs) =
     (if fourCC c = str_bytes ''VP8X'' \<and> length (chunk_payload c) = vp8xPayloadSize
      then do { b \<leftarrow> index (chunk_payload c) 0; Some (b AND vp8xAnimBit \<noteq> 0) }
      else anim_flag cs)"

definition isAnimatedWebP :: "bytes \<Rightarrow> bool option" where
  "isAnimatedWebP data = do {
     w \<leftarrow> isWebP data;
     (if \<not> w then Some False else do { cs \<leftarrow> webpChunks data; anim_flag cs }) }"

definition rawChunk :: "webpChunk \<Rightarrow> bytes" where
  "rawChunk c =
     fourCC c @ le_bytes 4 (length (chunk_payload c)) @ chunk_payload c @
     (if length (chunk_payload c) mod 2 = 1 then [0] else [])"

definition uint24 :: "int \<Rightarrow> bytes" where
  "uint24 v = le_bytes 3 (nat (v mod 2 ^ 32))"

definition buildStillWebP :: "int \<Rightarrow> int \<Rightarrow> bytes option \<Rightarrow> bytes \<Rightarrow> bytes" where
  "buildStillWebP width height alpha img =
     (let extra = (case alpha of
            None \<Rightarrow> []
          | Some a \<Rightarrow>
              rawChunk \<lparr>fourCC = str_bytes ''VP8X'',
                chunk_payload = [vp8xAlphaBit, 0, 0, 0] @ uint24 (width - 1) @ uint24 (height - 1)\<rparr> @
              rawChunk \<lparr>fourCC = str_bytes ''ALPH'', chunk_payload = a\<rparr>);
          body = extra @ img
      in str_bytes ''RIFF'' @ le_bytes 4 (length body + 4) @ str_bytes ''WEBP'' @ body)"

text \<open>The scan of a frame's chunks: the last alpha chunk and the last image chunk.\<close>

fun frame_parts :: "webpChunk list \<Rightarrow> bytes option \<Rightarrow> bytes option \<Rightarrow> bytes option \<times> bytes option" where
  "frame_parts [] alpha img = (alpha, img)"
| "frame_parts (c # cs) alpha img =
     (if fourCC c = str_bytes ''ALPH'' then frame_parts cs (Some (chunk_payload c)) img
      else if fourCC c = str_bytes ''VP8 '' \<or> fourCC c = str_bytes ''VP8L''
        then frame_parts cs alpha (Some (rawChunk c))
      else frame_parts cs alpha img)"

definition frame_dim :: "bytes \<Rightarrow> nat \<Rightarrow> int option" where
  "frame_dim h k = do {
     a \<leftarrow> index h k; b \<leftarrow> index h (k + 1); c \<leftarrow> index h (k + 2);
     Some (int (le_nat [a, b, c]) + 1) }"

fun first_frame :: "webpChunk list \<Rightarrow> bytes option option" where
  "first_frame [] = Some None"
| "first_frame (c # cs) =
     (if fourCC c \<noteq> str_bytes ''ANMF'' \<or> length (chunk_payload c) \<le> anmfHeaderSize then first_frame cs
      else do {
        width \<leftarrow> frame_dim (chunk_payload c) 6;
        height \<leftarrow> frame_dim (chunk_payload c) 9;
        body \<leftarrow> slice (chunk_payload c) anmfHeaderSize (length (chunk_payload c));
        parts \<leftarrow> framePayloadChunks body;
        (case frame_parts parts None None of
           (_, None) \<Rightarrow> first_frame cs
         | (alpha, Some img) \<Rightarrow> Some (Some (buildStillWebP width height alpha img))) })"

text \<open>The outer option is a panic, the inner one the boolean of the Go function.\<close>

definition firstWebPFrame :: "bytes \<Rightarrow> bytes option option" where
  "firstWebPFrame data = do {
     a \<leftarrow> isAnimatedWebP data;
     (if \<not> a then Some None else do { cs \<leftarrow> webpChunks data; first_frame cs }) }"

section \<open>No input makes the walker panic\<close>

lemma chunk_walk_total: "\<exists>cs. chunk_walk data off = Some cs \<and> (\<forall>c \<in> set cs. length (fourCC c) = 4)"
proof (induction data off rule: chunk_walk.induct)
  case (1 data off)
  show ?case
  proof (cases "off + chunkHeaderSize \<le> length data")
    case True
    then have len: "off + 8 \<le> length data" by (simp add: chunkHeaderSize_def)
    let ?size = "le_nat (take 4 (drop (off + 4) data))"
    let ?next = "off + chunkHeaderSize + ?size + (if ?size mod 2 = 1 then 1 else 0)"
    have step: "slice data off (off + 4) = Some (take 4 (drop off data))"
      "slice data (off + 4) (off + 8) = Some (take 4 (drop (off + 4) data))"
      "le_uint 4 (take 4 (drop (off + 4) data)) = Some ?size"
      using len by (simp_all add: slice_ok le_uint_ok)
    show ?thesis
    proof (cases "off + chunkHeaderSize + ?size > length data")
      case True
      then show ?thesis
        using \<open>off + chunkHeaderSize \<le> length data\<close> step by (subst chunk_walk.simps) simp
    next
      case False
      then obtain cs where cs: "chunk_walk data ?next = Some cs" "\<forall>c \<in> set cs. length (fourCC c) = 4"
        using "1.IH" [OF True step False, of "take ?size (drop (off + chunkHeaderSize) data)"]
        by (auto simp: slice_ok)
      have "slice data (off + chunkHeaderSize) (off + chunkHeaderSize + ?size) =
          Some (take ?size (drop (off + chunkHeaderSize) data))"
        using False by (simp add: slice_ok)
      then show ?thesis
        using True False step cs len by (subst chunk_walk.simps) (auto simp: min_def)
    qed
  next
    case False
    then show ?thesis by (subst chunk_walk.simps) simp
  qed
qed

lemma anim_flag_total: "anim_flag cs \<noteq> None"
  by (induction cs) (auto simp: index_def vp8xPayloadSize_def)

lemma isWebP_total: "isWebP data \<noteq> None"
  by (cases "riffHeaderSize \<le> length data") (simp_all add: isWebP_def slice_ok riffHeaderSize_def)

lemma isAnimatedWebP_total: "isAnimatedWebP data \<noteq> None"
  using isWebP_total [of data] chunk_walk_total [of data riffHeaderSize] anim_flag_total
  by (auto simp: isAnimatedWebP_def webpChunks_def)

lemma first_frame_total: "first_frame cs \<noteq> None"
proof (induction cs)
  case (Cons c cs)
  show ?case
  proof (cases "fourCC c \<noteq> str_bytes ''ANMF'' \<or> length (chunk_payload c) \<le> anmfHeaderSize")
    case False
    then have len: "16 < length (chunk_payload c)" by (simp add: anmfHeaderSize_def)
    then have "frame_dim (chunk_payload c) 6 \<noteq> None" "frame_dim (chunk_payload c) 9 \<noteq> None"
      by (simp_all add: frame_dim_def index_ok)
    moreover obtain b where "slice (chunk_payload c) anmfHeaderSize (length (chunk_payload c)) = Some b"
      using len by (auto simp: slice_def anmfHeaderSize_def)
    moreover obtain ps where "framePayloadChunks b = Some ps"
      using chunk_walk_total [of b 0] by (auto simp: framePayloadChunks_def)
    ultimately show ?thesis
      using False Cons by (auto split: prod.splits option.splits)
  qed (use Cons in simp)
qed simp

lemma firstWebPFrame_total: "firstWebPFrame data \<noteq> None"
  using isAnimatedWebP_total [of data] chunk_walk_total [of data riffHeaderSize] first_frame_total
  by (auto simp: firstWebPFrame_def webpChunks_def)

section \<open>The walker inverts the writer\<close>

definition fits :: "webpChunk \<Rightarrow> bool" where
  "fits c \<longleftrightarrow> length (fourCC c) = 4 \<and> length (chunk_payload c) < 2 ^ 32"

lemma rawChunk_take: "fits c \<Longrightarrow> take 4 (rawChunk c @ rest) = fourCC c"
  by (simp add: rawChunk_def fits_def)

lemma rawChunk_length:
  "fits c \<Longrightarrow> length (rawChunk c) =
     8 + length (chunk_payload c) + (if length (chunk_payload c) mod 2 = 1 then 1 else 0)"
  by (simp add: rawChunk_def fits_def)

lemma bind_Some_map: "x \<bind> (\<lambda>y. Some (f y)) = map_option f x"
  by (cases x) simp_all

lemma chunk_walk_raw:
  assumes "fits c"
  shows "chunk_walk (pre @ rawChunk c @ rest) (length pre) =
    map_option (\<lambda>cs. \<lparr>fourCC = fourCC c, chunk_payload = chunk_payload c\<rparr> # cs)
      (chunk_walk (pre @ rawChunk c @ rest) (length pre + length (rawChunk c)))"
proof -
  let ?n = "length (chunk_payload c)"
  have cc: "length (fourCC c) = 4" and n: "?n < 4294967296" using assms by (simp_all add: fits_def)
  have "le_nat (le_bytes 4 ?n) = ?n" using n by (intro le_nat_le_bytes) simp
  then show ?thesis
    using cc n
    by (subst chunk_walk.simps)
      (simp add: slice_ok le_uint_ok rawChunk_def chunkHeaderSize_def algebra_simps bind_Some_map)
qed

lemma chunk_walk_end: "chunk_walk data (length data) = Some []"
  by (subst chunk_walk.simps) (simp add: chunkHeaderSize_def)

lemma chunk_walk_concat:
  "list_all fits cs \<Longrightarrow> chunk_walk (pre @ concat (map rawChunk cs)) (length pre) = Some cs"
proof (induction cs arbitrary: pre)
  case (Cons c cs)
  then have "chunk_walk ((pre @ rawChunk c) @ concat (map rawChunk cs)) (length (pre @ rawChunk c)) = Some cs"
    by (intro Cons.IH) simp
  with Cons.prems chunk_walk_raw [of c pre "concat (map rawChunk cs)"] show ?case by simp
qed (simp add: chunk_walk_end)

lemma webpChunk_eta: "\<lparr>fourCC = fourCC c, chunk_payload = chunk_payload c\<rparr> = c"
  by simp

text \<open>What the walker yields can be written again: its sizes are 32-bit.\<close>

lemma chunk_walk_fits: "chunk_walk data off = Some cs \<Longrightarrow> list_all fits cs"
proof (induction data off arbitrary: cs rule: chunk_walk.induct)
  case (1 data off)
  show ?case
  proof (cases "off + chunkHeaderSize \<le> length data")
    case True
    then have len: "off + 8 \<le> length data" by (simp add: chunkHeaderSize_def)
    let ?size = "le_nat (take 4 (drop (off + 4) data))"
    have step: "slice data off (off + 4) = Some (take 4 (drop off data))"
      "slice data (off + 4) (off + 8) = Some (take 4 (drop (off + 4) data))"
      "le_uint 4 (take 4 (drop (off + 4) data)) = Some ?size"
      using len by (simp_all add: slice_ok le_uint_ok)
    have small: "?size < 2 ^ 32"
      using le_nat_less [of "take 4 (drop (off + 4) data)"] len by simp
    show ?thesis
    proof (cases "off + chunkHeaderSize + ?size > length data")
      case big: True
      then show ?thesis
        using True step "1.prems" by (subst (asm) chunk_walk.simps) simp
    next
      case False
      then have sl: "slice data (off + chunkHeaderSize) (off + chunkHeaderSize + ?size) =
          Some (take ?size (drop (off + chunkHeaderSize) data))"
        by (simp add: slice_ok)
      from "1.prems" obtain rest where rest:
          "chunk_walk data (off + chunkHeaderSize + ?size + (if ?size mod 2 = 1 then 1 else 0)) = Some rest"
          "cs = \<lparr>fourCC = take 4 (drop off data),
                 chunk_payload = take ?size (drop (off + chunkHeaderSize) data)\<rparr> # rest"
        using True False step sl by (subst (asm) chunk_walk.simps) (auto simp: bind_eq_Some_conv)
      have "list_all fits rest"
        by (rule "1.IH" [OF True step False sl rest(1)])
      moreover have "fits \<lparr>fourCC = take 4 (drop off data),
                 chunk_payload = take ?size (drop (off + chunkHeaderSize) data)\<rparr>"
        using small len by (simp add: fits_def min_less_iff_disj)
      ultimately show ?thesis using rest(2) by simp
    qed
  next
    case False
    then show ?thesis using "1.prems" by (subst (asm) chunk_walk.simps) simp
  qed
qed

section \<open>The still image\<close>

definition is_image_chunk :: "webpChunk \<Rightarrow> bool" where
  "is_image_chunk c \<longleftrightarrow> fourCC c = str_bytes ''VP8 '' \<or> fourCC c = str_bytes ''VP8L''"

lemma frame_parts_origin:
  "frame_parts cs a i = (alpha, img) \<Longrightarrow>
     (alpha = a \<or> (\<exists>c \<in> set cs. fourCC c = str_bytes ''ALPH'' \<and> alpha = Some (chunk_payload c))) \<and>
     (img = i \<or> (\<exists>c \<in> set cs. is_image_chunk c \<and> img = Some (rawChunk c)))"
proof (induction cs arbitrary: a i)
  case (Cons c cs)
  then show ?case
    by (simp only: frame_parts.simps is_image_chunk_def split: if_splits) fastforce+
qed simp

definition header_chunks :: "int \<Rightarrow> int \<Rightarrow> bytes option \<Rightarrow> webpChunk list" where
  "header_chunks width height alpha = (case alpha of None \<Rightarrow> [] | Some a \<Rightarrow>
     [\<lparr>fourCC = str_bytes ''VP8X'',
        chunk_payload = [vp8xAlphaBit, 0, 0, 0] @ uint24 (width - 1) @ uint24 (height - 1)\<rparr>,
      \<lparr>fourCC = str_bytes ''ALPH'', chunk_payload = a\<rparr>])"

lemma buildStillWebP_chunks:
  assumes "fits c" "pred_option (\<lambda>a. length a < 2 ^ 32) alpha"
  shows "webpChunks (buildStillWebP w h alpha (rawChunk c)) = Some (header_chunks w h alpha @ [c])"
    and "isWebP (buildStillWebP w h alpha (rawChunk c)) = Some True"
proof -
  let ?cs = "header_chunks w h alpha @ [c]"
  have fit: "list_all fits ?cs"
    using assms by (cases alpha) (simp_all add: header_chunks_def fits_def uint24_def)
  have shape: "\<exists>n. buildStillWebP w h alpha (rawChunk c) =
      (str_bytes ''RIFF'' @ le_bytes 4 n @ str_bytes ''WEBP'') @ concat (map rawChunk ?cs)"
    by (cases alpha) (auto simp: buildStillWebP_def header_chunks_def Let_def simp del: le_bytes.simps)
  then obtain n where n: "buildStillWebP w h alpha (rawChunk c) =
      (str_bytes ''RIFF'' @ le_bytes 4 n @ str_bytes ''WEBP'') @ concat (map rawChunk ?cs)" ..
  have l: "length (str_bytes ''RIFF'' @ le_bytes 4 n @ str_bytes ''WEBP'') = riffHeaderSize"
    by (simp add: riffHeaderSize_def)
  show "webpChunks (buildStillWebP w h alpha (rawChunk c)) = Some ?cs"
    unfolding webpChunks_def n using chunk_walk_concat [OF fit] l by metis
  show "isWebP (buildStillWebP w h alpha (rawChunk c)) = Some True"
    unfolding n by (simp add: isWebP_def riffHeaderSize_def slice_ok)
qed

text \<open>A frame of an animation that holds an image: the still image is built from its parts alone.\<close>

definition frame_of :: "bytes \<Rightarrow> int \<Rightarrow> int \<Rightarrow> bytes option \<Rightarrow> webpChunk \<Rightarrow> bool" where
  "frame_of payload w h alpha c \<longleftrightarrow>
     frame_dim payload 6 = Some w \<and> frame_dim payload 9 = Some h \<and> is_image_chunk c \<and>
     (\<exists>parts. framePayloadChunks (drop anmfHeaderSize payload) = Some parts \<and> c \<in> set parts \<and>
        (alpha = None \<or> (\<exists>a \<in> set parts. fourCC a = str_bytes ''ALPH'' \<and> alpha = Some (chunk_payload a))))"

lemma first_frame_origin:
  "first_frame cs = Some (Some still) \<Longrightarrow>
     \<exists>f \<in> set cs. fourCC f = str_bytes ''ANMF'' \<and> (\<exists>w h alpha c.
        frame_of (chunk_payload f) w h alpha c \<and> still = buildStillWebP w h alpha (rawChunk c))"
proof (induction cs)
  case (Cons c cs)
  show ?case
  proof (cases "fourCC c \<noteq> str_bytes ''ANMF'' \<or> length (chunk_payload c) \<le> anmfHeaderSize")
    case True
    then have "first_frame cs = Some (Some still)" using Cons.prems by simp
    from Cons.IH [OF this] show ?thesis by auto
  next
    case False
    then have anmf: "fourCC c = str_bytes ''ANMF''" and l: "anmfHeaderSize \<le> length (chunk_payload c)"
      by simp_all
    from l have sl: "slice (chunk_payload c) anmfHeaderSize (length (chunk_payload c)) =
        Some (drop anmfHeaderSize (chunk_payload c))"
      by (simp add: slice_ok)
    from Cons.prems False sl obtain w h parts where
        dims: "frame_dim (chunk_payload c) 6 = Some w" "frame_dim (chunk_payload c) 9 = Some h"
      and parts: "framePayloadChunks (drop anmfHeaderSize (chunk_payload c)) = Some parts"
      and rest: "(case frame_parts parts None None of (_, None) \<Rightarrow> first_frame cs
          | (alpha, Some img) \<Rightarrow> Some (Some (buildStillWebP w h alpha img))) = Some (Some still)"
      by (simp add: bind_eq_Some_conv) blast
    obtain alpha img where fp: "frame_parts parts None None = (alpha, img)" by fastforce
    show ?thesis
    proof (cases img)
      case None
      with rest fp have "first_frame cs = Some (Some still)" by simp
      from Cons.IH [OF this] show ?thesis by auto
    next
      case (Some i)
      with rest fp have still: "still = buildStillWebP w h alpha i" by simp
      from frame_parts_origin [OF fp] Some obtain x where
        "x \<in> set parts" "is_image_chunk x" "i = rawChunk x"
        "alpha = None \<or> (\<exists>a \<in> set parts. fourCC a = str_bytes ''ALPH'' \<and> alpha = Some (chunk_payload a))"
        by blast
      then have "frame_of (chunk_payload c) w h alpha x" "still = buildStillWebP w h alpha (rawChunk x)"
        using dims parts still by (auto simp: frame_of_def)
      then show ?thesis using anmf by (intro bexI [of _ c] conjI exI) simp_all
    qed
  qed
qed simp

lemma frame_of_fits:
  assumes "frame_of payload w h alpha c"
  shows "fits c" "pred_option (\<lambda>a. length a < 2 ^ 32) alpha"
proof -
  from assms obtain parts where p: "framePayloadChunks (drop anmfHeaderSize payload) = Some parts"
      "c \<in> set parts"
      "alpha = None \<or> (\<exists>a \<in> set parts. fourCC a = str_bytes ''ALPH'' \<and> alpha = Some (chunk_payload a))"
    by (auto simp: frame_of_def)
  have "list_all fits parts"
    using p(1) by (simp add: framePayloadChunks_def chunk_walk_fits)
  then have "\<And>x. x \<in> set parts \<Longrightarrow> fits x" by (simp add: list_all_iff)
  then show "fits c" "pred_option (\<lambda>a. length a < 2 ^ 32) alpha"
    using p(2,3) by (blast, auto simp: fits_def)
qed

lemma still_not_animated:
  assumes "is_image_chunk c"
  shows "anim_flag (header_chunks w h alpha @ [c]) = Some False"
proof -
  have "str_bytes ''VP8 '' \<noteq> str_bytes ''VP8X''" "str_bytes ''VP8L'' \<noteq> str_bytes ''VP8X''"
    by simp_all
  then have "fourCC c \<noteq> str_bytes ''VP8X''"
    using assms unfolding is_image_chunk_def by argo
  then show ?thesis
    by (cases alpha) (simp_all add: header_chunks_def vp8xPayloadSize_def uint24_def index_def
        vp8xAlphaBit_def vp8xAnimBit_def)
qed

text \<open>C37: whatever bytes an upload holds, the extraction of a still frame terminates without a panic;
  what it yields is a WebP that is not animated, and the walker reads back from it the chunks of one
  frame of the animation, of that frame's size, its alpha plane first where it has one.\<close>

theorem firstWebPFrame_still:
  "case firstWebPFrame data of None \<Rightarrow> False | Some None \<Rightarrow> True
   | Some (Some still) \<Rightarrow> isWebP still = Some True \<and> isAnimatedWebP still = Some False \<and>
       (\<exists>cs f w h alpha c. webpChunks data = Some cs \<and> f \<in> set cs \<and> fourCC f = str_bytes ''ANMF'' \<and>
          frame_of (chunk_payload f) w h alpha c \<and> webpChunks still = Some (header_chunks w h alpha @ [c]))"
proof (cases "firstWebPFrame data")
  case None
  then show ?thesis using firstWebPFrame_total by blast
next
  case (Some r)
  show ?thesis
  proof (cases r)
    case (Some still)
    with \<open>firstWebPFrame data = Some r\<close> obtain cs where
        cs: "webpChunks data = Some cs" "first_frame cs = Some (Some still)"
      by (auto simp: firstWebPFrame_def bind_eq_Some_conv split: if_splits)
    from first_frame_origin [OF cs(2)] obtain f w h alpha c where
        f: "f \<in> set cs" "fourCC f = str_bytes ''ANMF''" "frame_of (chunk_payload f) w h alpha c"
      and still: "still = buildStillWebP w h alpha (rawChunk c)" by blast
    note chunks = buildStillWebP_chunks [OF frame_of_fits [OF f(3)], of w h]
    have "is_image_chunk c" using f(3) by (simp add: frame_of_def)
    then have still': "isAnimatedWebP still = Some False"
      using chunks still_not_animated by (simp add: isAnimatedWebP_def still)
    have r: "firstWebPFrame data = Some (Some still)"
      using Some \<open>firstWebPFrame data = Some r\<close> by simp
    show ?thesis
      unfolding r option.case
      by (intro conjI exI) (rule chunks(2) [folded still] still' cs(1) f chunks(1) [folded still])+
  qed (use \<open>firstWebPFrame data = Some r\<close> in simp)
qed

text \<open>An animation as an encoder writes it.\<close>

definition riff :: "nat \<Rightarrow> webpChunk list \<Rightarrow> bytes" where
  "riff n cs = (str_bytes ''RIFF'' @ le_bytes 4 n @ str_bytes ''WEBP'') @ concat (map rawChunk cs)"

definition anmf :: "bytes \<Rightarrow> int \<Rightarrow> int \<Rightarrow> bytes \<Rightarrow> webpChunk list \<Rightarrow> webpChunk" where
  "anmf at w h timing parts = \<lparr>fourCC = str_bytes ''ANMF'',
     chunk_payload = at @ uint24 (w - 1) @ uint24 (h - 1) @ timing @ concat (map rawChunk parts)\<rparr>"

lemma webpChunks_riff: "list_all fits cs \<Longrightarrow> webpChunks (riff n cs) = Some cs"
proof -
  assume "list_all fits cs"
  from chunk_walk_concat [OF this, of "str_bytes ''RIFF'' @ le_bytes 4 n @ str_bytes ''WEBP''"]
  show ?thesis by (simp add: webpChunks_def riff_def riffHeaderSize_def)
qed

lemma isWebP_riff: "isWebP (riff n cs) = Some True"
  by (simp add: riff_def isWebP_def riffHeaderSize_def slice_ok)

lemma frame_dim_uint24:
  assumes "0 < v" "v \<le> 2 ^ 24"
  shows "frame_dim (xs @ uint24 (v - 1) @ ys) (length xs) = Some v"
proof -
  let ?n = "nat (v - 1)"
  have n: "nat ((v - 1) mod 2 ^ 32) = ?n" "?n < 16777216" using assms by (simp_all add: nat_less_iff)
  have three: "le_bytes 3 ?n = [of_nat (?n mod 256), of_nat (?n div 256 mod 256), of_nat (?n div 256 div 256 mod 256)]"
    by (simp add: numeral_3_eq_3)
  have "le_nat (le_bytes 3 ?n) = ?n" using n(2) by (intro le_nat_le_bytes) simp
  then have val: "le_nat [of_nat (?n mod 256), of_nat (?n div 256 mod 256), of_nat (?n div 256 div 256 mod 256)] = ?n"
    unfolding three .
  show ?thesis
    unfolding frame_dim_def uint24_def n(1) three
    using val assms(1) by (simp add: index_def nth_append del: le_nat_Cons)
qed

lemma rawChunk_ne: "rawChunk c \<noteq> []"
proof -
  have "length (rawChunk c) > 0" by (simp add: rawChunk_def del: length_greater_0_conv)
  then show ?thesis by simp
qed

lemma first_frame_skip: "list_all (\<lambda>c. fourCC c \<noteq> str_bytes ''ANMF'') pre \<Longrightarrow> first_frame (pre @ cs) = first_frame cs"
  by (induction pre) simp_all

lemma first_frame_anmf:
  assumes "length at = 6" "length timing = 4" "0 < w" "w \<le> 2 ^ 24" "0 < h" "h \<le> 2 ^ 24"
    and "list_all fits parts" "frame_parts parts None None = (alpha, Some img)"
  shows "first_frame (anmf at w h timing parts # rest) = Some (Some (buildStillWebP w h alpha img))"
proof -
  let ?body = "concat (map rawChunk parts)"
  let ?p = "at @ uint24 (w - 1) @ uint24 (h - 1) @ timing @ ?body"
  have u: "length (uint24 v) = 3" for v by (simp add: uint24_def)
  have w: "frame_dim ?p 6 = Some w"
    using frame_dim_uint24 [OF assms(3,4), of at] assms(1) by simp
  have "frame_dim ((at @ uint24 (w - 1)) @ uint24 (h - 1) @ timing @ ?body) (length (at @ uint24 (w - 1))) = Some h"
    by (rule frame_dim_uint24 [OF assms(5,6)])
  then have h: "frame_dim ?p 9 = Some h" using assms(1) by (simp add: u)
  have ne: "?body \<noteq> []"
    using assms(8) rawChunk_ne by (cases parts) simp_all
  have sl: "slice ?p anmfHeaderSize (length ?p) = Some ?body"
    using assms(1,2) by (simp add: slice_ok anmfHeaderSize_def u)
  have walk: "framePayloadChunks ?body = Some parts"
    using chunk_walk_concat [OF assms(7), of "[]"] by (simp add: framePayloadChunks_def)
  have "\<not> length ?p \<le> anmfHeaderSize"
    using ne assms(1,2) by (simp add: anmfHeaderSize_def u)
  then show ?thesis
    using w h sl walk assms(8) by (simp add: anmf_def)
qed

text \<open>On an animation written by this container format, whatever its metadata chunks, the
  extraction gives the first frame: its size as the frame header stores it, and its parts.\<close>

theorem firstWebPFrame_first:
  assumes "list_all fits (vp8x # pre @ anmf at w h timing parts # rest)"
    and "fourCC vp8x = str_bytes ''VP8X''" "length (chunk_payload vp8x) = 10"
    and "chunk_payload vp8x ! 0 AND 2 \<noteq> 0"
    and "list_all (\<lambda>c. fourCC c \<noteq> str_bytes ''ANMF'') pre"
    and "length at = 6" "length timing = 4" "0 < w" "w \<le> 2 ^ 24" "0 < h" "h \<le> 2 ^ 24"
    and "list_all fits parts" "frame_parts parts None None = (alpha, Some img)"
  shows "firstWebPFrame (riff n (vp8x # pre @ anmf at w h timing parts # rest)) =
    Some (Some (buildStillWebP w h alpha img))"
proof -
  let ?cs = "vp8x # pre @ anmf at w h timing parts # rest"
  have "anim_flag ?cs = Some True"
    using assms(2-4) by (simp add: vp8xPayloadSize_def vp8xAnimBit_def index_ok)
  then have an: "isAnimatedWebP (riff n ?cs) = Some True"
    using assms(1) by (simp add: isAnimatedWebP_def isWebP_riff webpChunks_riff)
  have "first_frame ?cs = first_frame (anmf at w h timing parts # rest)"
    using assms(2) first_frame_skip [OF assms(5)] by simp
  also have "\<dots> = Some (Some (buildStillWebP w h alpha img))"
    by (rule first_frame_anmf) (rule assms)+
  finally show ?thesis
    using an webpChunks_riff [OF assms(1), of n] by (simp add: firstWebPFrame_def)
qed

definition sample_frame :: webpChunk where
  "sample_frame = \<lparr>fourCC = str_bytes ''VP8L'', chunk_payload = [47, 1, 2]\<rparr>"

definition sample_vp8x :: webpChunk where
  "sample_vp8x = \<lparr>fourCC = str_bytes ''VP8X'', chunk_payload = [2, 0, 0, 0, 4, 0, 0, 4, 0, 0]\<rparr>"

theorem firstWebPFrame_first_witness:
  "firstWebPFrame (riff 60 (sample_vp8x # [] @ anmf [0, 0, 0, 0, 0, 0] 5 7 [9, 0, 0, 0] [sample_frame] # [])) =
     Some (Some (buildStillWebP 5 7 None (rawChunk sample_frame)))"
  by (rule firstWebPFrame_first)
    (simp_all add: fits_def anmf_def uint24_def rawChunk_def sample_frame_def sample_vp8x_def)

end
