(* ===== verification/Thumbnail.thy ===== *)
theory Thumbnail
  imports Database Serve Exif Webp
begin

text \<open>
  src/thumbnail.go: what a thumbnail request asks for, which stored thumbnail answers it, and the
  generation of one. Go's \<^verbatim>\<open>int\<close> arithmetic is written with its wrap-around. The image library is the
  parameter \<^typ>\<open>'i imaging\<close>. The lemmas show which requests are accepted, that a scaled thumbnail keeps
  the aspect ratio to a pixel and never upscales, that a cropped one has exactly the requested size,
  and that nothing bounds that size.
\<close>

section \<open>Model\<close>

definition methodScale :: string where "methodScale = ''scale''"
definition methodCrop :: string where "methodCrop = ''crop''"
definition typePNG :: string where "typePNG = ''image/png''"
definition typeJPEG :: string where "typeJPEG = ''image/jpeg''"
definition typeWebP :: string where "typeWebP = ''image/webp''"

lemmas thumbnail_names = methodScale_def methodCrop_def typePNG_def typeJPEG_def typeWebP_def

record ThumbnailRequest =
  tq_Width :: int
  tq_Height :: int
  tq_Method :: string
  tq_Animated :: bool
  tq_Type :: string

text \<open>\<^verbatim>\<open>%q\<close>, exact for ASCII; bytes above 127 are kept, as those of a printable rune are.\<close>

definition quote_byte :: "char \<Rightarrow> string" where
  "quote_byte c =
     (let n = (of_char c :: nat) in
      if c = quote_char \<or> c = backslash then [backslash, c]
      else if n = 7 then [backslash, CHR ''a''] else if n = 8 then [backslash, CHR ''b'']
      else if n = 12 then [backslash, CHR ''f''] else if n = 10 then [backslash, CHR ''n'']
      else if n = 13 then [backslash, CHR ''r''] else if n = 9 then [backslash, CHR ''t'']
      else if n = 11 then [backslash, CHR ''v'']
      else if n < 32 \<or> n = 127 then [backslash, CHR ''x'', hex_digit (n div 16), hex_digit (n mod 16)]
      else [c])"

definition go_quote :: "string \<Rightarrow> string" where
  "go_quote s = [quote_char] @ concat (map quote_byte s) @ [quote_char]"

text \<open>A parameter that is not a positive \<^verbatim>\<open>int\<close>.\<close>

definition dimension :: "query \<Rightarrow> string \<Rightarrow> int option" where
  "dimension q k = (case parse_int64 (query_get q k) of
     None \<Rightarrow> None | Some n \<Rightarrow> (if n \<le> 0 then None else Some n))"

definition requested_method :: "query \<Rightarrow> string" where
  "requested_method q =
     (let method = query_get q ''method'' in to_lower (if method = '''' then methodScale else method))"

definition ParseThumbnailRequest :: "request \<Rightarrow> string + ThumbnailRequest" where
  "ParseThumbnailRequest r =
     (let q = url_query r in
      case dimension q ''width'' of None \<Rightarrow> Inl ''missing or invalid width''
      | Some width \<Rightarrow>
     (case dimension q ''height'' of None \<Rightarrow> Inl ''missing or invalid height''
      | Some height \<Rightarrow>
     (let method = requested_method q;
          animated = (query_get q ''animated'' = ''true'')
      in if method \<noteq> methodScale \<and> method \<noteq> methodCrop then Inl (''unknown method '' @ go_quote method)
         else Inr \<lparr>tq_Width = width, tq_Height = height, tq_Method = method, tq_Animated = animated,
                   tq_Type = (if animated then typeWebP else typePNG)\<rparr>)))"

definition thumbnail_matches :: "ThumbnailRow \<Rightarrow> ThumbnailRequest \<Rightarrow> bool" where
  "thumbnail_matches row req \<longleftrightarrow> tn_Width row = tq_Width req \<and> tn_Height row = tq_Height req \<and>
     tn_Method row = tq_Method req \<and> tn_Type row = tq_Type req"

fun FindExact :: "ThumbnailRow list \<Rightarrow> ThumbnailRequest \<Rightarrow> ThumbnailRow option" where
  "FindExact [] req = None"
| "FindExact (row # rows) req = (if thumbnail_matches row req then Some row else FindExact rows req)"

text \<open>A zero divisor is a panic in Go; \<open>render\<close> has refused a source of zero extent before.\<close>

definition aspect :: "int \<Rightarrow> int \<Rightarrow> int \<Rightarrow> int \<Rightarrow> int \<times> int" where
  "aspect srcW srcH maxW maxH =
     (if wrap64 (maxW * srcH) < wrap64 (maxH * srcW)
      then (maxW, max (go_div (wrap64 (maxW * srcH)) srcW) 1)
      else (max (go_div (wrap64 (maxH * srcW)) srcH) 1, maxH))"

text \<open>\<^verbatim>\<open>image.Rect\<close> orders the coordinates.\<close>

definition image_Rect :: "int \<Rightarrow> int \<Rightarrow> int \<Rightarrow> int \<Rightarrow> rectangle" where
  "image_Rect x0 y0 x1 y1 =
     \<lparr>rect_x0 = min x0 x1, rect_y0 = min y0 y1, rect_x1 = max x0 x1, rect_y1 = max y0 y1\<rparr>"

definition cropBox :: "int \<Rightarrow> int \<Rightarrow> int \<Rightarrow> int \<Rightarrow> int \<times> int \<times> rectangle" where
  "cropBox srcW srcH w h =
     (if wrap64 (w * srcH) > wrap64 (h * srcW) then
        (let scaledW = w; scaledH = go_div (wrap64 (w * srcH)) srcW;
             top = go_div (wrap64 (scaledH - h)) 2
         in (scaledW, scaledH, image_Rect 0 top w (wrap64 (h + top))))
      else
        (let scaledW = go_div (wrap64 (h * srcW)) srcH; scaledH = h;
             left = go_div (wrap64 (scaledW - w)) 2
         in (scaledW, scaledH, image_Rect left 0 (wrap64 (w + left)) h)))"

definition baseMediaType :: "string \<Rightarrow> string" where
  "baseMediaType mediaType = to_lower (trim_space (fst (cut CHR '';'' mediaType)))"

definition decodableSourceTypes :: "string list" where
  "decodableSourceTypes = [''image/jpeg'', ''image/jpg'', ''image/png'', ''image/webp'', ''image/gif'']"

definition CanGenerate :: "string \<Rightarrow> ThumbnailRequest \<Rightarrow> bool" where
  "CanGenerate sourceType req =
     (if baseMediaType sourceType \<notin> set decodableSourceTypes then False
      else if tq_Animated req \<or> tq_Type req = typeWebP then False
      else tq_Type req = typePNG \<or> tq_Type req = typeJPEG)"

definition encodeImage :: "'i imaging \<Rightarrow> 'i \<Rightarrow> string \<Rightarrow> bytes res" where
  "encodeImage L img mediaType =
     (if mediaType = typePNG then (case im_PNG L img of None \<Rightarrow> Inl ErrIO | Some d \<Rightarrow> Inr d)
      else if mediaType = typeJPEG then (case im_JPEG L 80 img of None \<Rightarrow> Inl ErrIO | Some d \<Rightarrow> Inr d)
      else Inl ErrCannotGenerate)"

text \<open>The part of \<^verbatim>\<open>Generate\<close> after the decoding: the limit, the resizing and the crop.\<close>

definition resample :: "'i imaging \<Rightarrow> int \<Rightarrow> ThumbnailRequest \<Rightarrow> 'i \<Rightarrow> 'i res" where
  "resample L maxImagePixels req img =
     (let srcW = im_Dx L img; srcH = im_Dy L img in
      if srcW \<le> 0 \<or> srcH \<le> 0 then Inl ErrCannotGenerate
      else if wrap64 (srcW * srcH) \<ge> maxImagePixels then Inl ErrCannotGenerate
      else if tq_Method req = methodCrop then
        (case cropBox srcW srcH (tq_Width req) (tq_Height req) of
           (scaledW, scaledH, box) \<Rightarrow> Inr (im_Crop L (im_Resize L img scaledW scaledH) box))
      else if tq_Method req = methodScale then
        (case aspect srcW srcH (tq_Width req) (tq_Height req) of
           (w, h) \<Rightarrow> Inr (im_Resize L img (min srcW w) (min srcH h)))
      else Inl ErrCannotGenerate)"

text \<open>From the bytes of the file to those of the thumbnail; \<open>None\<close> is a panic.\<close>

definition render :: "'i imaging \<Rightarrow> int \<Rightarrow> ThumbnailRequest \<Rightarrow> bytes \<Rightarrow> bytes res option" where
  "render L maxImagePixels req raw0 = do {
     frame \<leftarrow> firstWebPFrame raw0;
     let raw = (case frame of Some f \<Rightarrow> f | None \<Rightarrow> raw0);
     (case im_Decode L raw of
        None \<Rightarrow> Some (Inl ErrCannotGenerate)
      | Some decoded \<Rightarrow> do {
          orientation \<leftarrow> readJPEGOrientation raw;
          (case resample L maxImagePixels req (applyOrientation L decoded orientation) of
             Inl e \<Rightarrow> Some (Inl e)
           | Inr out \<Rightarrow> Some (encodeImage L out (tq_Type req))) }) }"

text \<open>\<open>render_total\<close> shows that the branch of a panic is never taken.\<close>

definition Generate ::
  "'i imaging \<Rightarrow> int \<Rightarrow> string \<Rightarrow> string \<Rightarrow> ThumbnailRequest \<Rightarrow> bytes res io" where
  "Generate L maxImagePixels srcPath sourceType req =
     (if \<not> CanGenerate sourceType req then State_Monad.return (Inl ErrCannotGenerate)
      else attempt acquire (\<lambda>e. State_Monad.return (Inl e)) (\<lambda>_.
           attempt (os_open srcPath) (\<lambda>e. State_Monad.return (Inl e)) (\<lambda>raw.
           State_Monad.return (case render L maxImagePixels req raw of
             None \<Rightarrow> Inl ErrIO | Some r \<Rightarrow> r))))"

section \<open>Requests\<close>

lemma dimension_pos: "dimension q k = Some n \<Longrightarrow> 0 < n \<and> in_int64 n"
  by (auto simp: dimension_def parse_int64_range split: option.splits if_splits)

lemma FindExact_find: "FindExact rows req = find (\<lambda>row. thumbnail_matches row req) rows"
  by (induction rows) simp_all

text \<open>A request that is accepted has positive 64-bit dimensions and one of the two methods; its output
  type depends on \<^verbatim>\<open>animated\<close> alone, so the worker can generate it exactly when it is not animated and
  the source is of a decodable type; and a stored thumbnail answers it only if all four fields agree.\<close>

theorem ParseThumbnailRequest_ok:
  "case ParseThumbnailRequest r of Inl m \<Rightarrow> m \<noteq> ''''
   | Inr req \<Rightarrow> 0 < tq_Width req \<and> in_int64 (tq_Width req) \<and> 0 < tq_Height req \<and> in_int64 (tq_Height req) \<and>
       (tq_Method req = methodScale \<or> tq_Method req = methodCrop) \<and>
       CanGenerate t req = (\<not> tq_Animated req \<and> baseMediaType t \<in> set decodableSourceTypes) \<and>
       (case FindExact rows req of None \<Rightarrow> True | Some row \<Rightarrow> row \<in> set rows \<and>
          tn_Width row = tq_Width req \<and> tn_Height row = tq_Height req \<and> tn_Method row = tq_Method req \<and>
          tn_Type row = (if tq_Animated req then typeWebP else typePNG))"
proof (cases "ParseThumbnailRequest r")
  case (Inl m)
  then show ?thesis
    unfolding ParseThumbnailRequest_def Let_def
    by (cases "dimension (url_query r) ''width''"; cases "dimension (url_query r) ''height''")
      (auto split: if_split_asm)
next
  case (Inr req)
  let ?q = "url_query r"
  let ?m = "requested_method ?q" and ?a = "query_get ?q ''animated'' = ''true''"
  obtain w where w: "dimension ?q ''width'' = Some w"
    using Inr by (cases "dimension ?q ''width''") (simp_all add: ParseThumbnailRequest_def Let_def)
  obtain h where h: "dimension ?q ''height'' = Some h"
    using Inr w by (cases "dimension ?q ''height''") (simp_all add: ParseThumbnailRequest_def Let_def)
  have m: "?m = methodScale \<or> ?m = methodCrop"
    using Inr w h by (rule_tac ccontr) (simp add: ParseThumbnailRequest_def Let_def)
  have req: "req = \<lparr>tq_Width = w, tq_Height = h, tq_Method = ?m, tq_Animated = ?a,
      tq_Type = (if ?a then typeWebP else typePNG)\<rparr>"
  proof -
    from m have "\<not> (?m \<noteq> methodScale \<and> ?m \<noteq> methodCrop)" by blast
    with Inr w h show ?thesis
      by (simp only: ParseThumbnailRequest_def Let_def option.case if_False sum.inject)
  qed
  have sel: "tq_Width req = w" "tq_Height req = h" "tq_Method req = ?m"
      "tq_Type req = (if tq_Animated req then typeWebP else typePNG)"
    by (simp_all add: req)
  then have gen: "CanGenerate t req = (\<not> tq_Animated req \<and> baseMediaType t \<in> set decodableSourceTypes)"
    by (simp add: CanGenerate_def typeWebP_def typePNG_def typeJPEG_def)
  have "case FindExact rows req of None \<Rightarrow> True | Some row \<Rightarrow> row \<in> set rows \<and> thumbnail_matches row req"
    unfolding FindExact_find by (auto split: option.splits simp: find_Some_iff)
  then show ?thesis
    using dimension_pos [OF w] dimension_pos [OF h] m sel gen unfolding Inr sum.case
    by (cases "FindExact rows req") (simp_all add: thumbnail_matches_def)
qed

section \<open>Sizes\<close>

text \<open>No product of a requested and a source dimension leaves the 64-bit range.\<close>

definition tame_sizes :: "int \<Rightarrow> int \<Rightarrow> int \<Rightarrow> int \<Rightarrow> bool" where
  "tame_sizes srcW srcH w h \<longleftrightarrow> 0 < srcW \<and> 0 < srcH \<and> 0 < w \<and> 0 < h \<and>
     w * srcH \<le> max_int64 \<and> h * srcW \<le> max_int64"

lemma tame_wraps:
  assumes "tame_sizes srcW srcH w h"
  shows "wrap64 (w * srcH) = w * srcH" "wrap64 (h * srcW) = h * srcW" "wrap64 (srcH * w) = w * srcH"
    "wrap64 (srcW * h) = h * srcW"
  using assms by (simp_all add: tame_sizes_def in_int64_nonneg mult.commute)

lemma floor_ratio:
  assumes "(0::int) < b"
  shows "a div b * b \<le> a" "a < (a div b + 1) * b"
proof -
  have "a = a div b * b + a mod b" by simp
  moreover have "0 \<le> a mod b" "a mod b < b" using assms by simp_all
  ultimately have "a div b * b \<le> a" "a < a div b * b + b" by linarith+
  then show "a div b * b \<le> a" "a < (a div b + 1) * b" by (simp_all add: distrib_right)
qed

lemma div_below: "0 \<le> (a::int) \<Longrightarrow> 0 < b \<Longrightarrow> a div b \<le> a"
  using floor_ratio(1) [of b a] mult_left_mono [of 1 b "a div b"] by (simp add: pos_imp_zdiv_nonneg_iff)

text \<open>The sides agree with the source's ratio to less than one pixel of the side that was computed.\<close>

definition same_ratio :: "int \<Rightarrow> int \<Rightarrow> int \<Rightarrow> int \<Rightarrow> bool" where
  "same_ratio srcW srcH w h \<longleftrightarrow> h = 1 \<or> w = 1 \<or>
     (h * srcW \<le> w * srcH \<and> w * srcH < (h + 1) * srcW) \<or>
     (w * srcH \<le> h * srcW \<and> h * srcW < (w + 1) * srcH)"

lemma aspect_fits:
  assumes "tame_sizes srcW srcH maxW maxH" "aspect srcW srcH maxW maxH = (w, h)"
  shows "1 \<le> w" "w \<le> maxW" "1 \<le> h" "h \<le> maxH" "w = maxW \<or> h = maxH" "same_ratio srcW srcH w h"
proof -
  have pos: "0 < srcW" "0 < srcH" "0 < maxW" "0 < maxH" using assms(1) by (simp_all add: tame_sizes_def)
  note wr = tame_wraps [OF assms(1)]
  have "1 \<le> w \<and> w \<le> maxW \<and> 1 \<le> h \<and> h \<le> maxH \<and> (w = maxW \<or> h = maxH) \<and> same_ratio srcW srcH w h"
  proof (cases "maxW * srcH < maxH * srcW")
    case True
    then have "aspect srcW srcH maxW maxH = (maxW, max (maxW * srcH div srcW) 1)"
      using pos by (simp add: aspect_def wr go_div_nonneg)
    then have w: "w = maxW" and h: "h = max (maxW * srcH div srcW) 1" using assms(2) by simp_all
    have "maxW * srcH div srcW < maxH"
      using True pos floor_ratio(1) [of srcW "maxW * srcH"]
      by (metis mult_less_cancel_right_pos order_le_less_trans)
    then show ?thesis
      using floor_ratio [of srcW "maxW * srcH"] pos
      by (auto simp: w h max_def same_ratio_def)
  next
    case False
    then have "aspect srcW srcH maxW maxH = (max (maxH * srcW div srcH) 1, maxH)"
      using pos by (simp add: aspect_def wr go_div_nonneg)
    then have h: "h = maxH" and w: "w = max (maxH * srcW div srcH) 1" using assms(2) by simp_all
    have "maxH * srcW div srcH \<le> maxW"
      using False pos floor_ratio(1) [of srcH "maxH * srcW"]
      by (metis mult_le_cancel_right_pos not_less order_trans)
    then show ?thesis
      using floor_ratio [of srcH "maxH * srcW"] pos
      by (auto simp: w h max_def same_ratio_def)
  qed
  then show "1 \<le> w" "w \<le> maxW" "1 \<le> h" "h \<le> maxH" "w = maxW \<or> h = maxH" "same_ratio srcW srcH w h"
    by simp_all
qed

definition box_w :: "rectangle \<Rightarrow> int" where "box_w r = rect_x1 r - rect_x0 r"
definition box_h :: "rectangle \<Rightarrow> int" where "box_h r = rect_y1 r - rect_y0 r"

lemma cropBox_covers:
  assumes "tame_sizes srcW srcH w h" "cropBox srcW srcH w h = (sw, sh, box)"
  shows "w \<le> sw" "h \<le> sh" "box_w box = w" "box_h box = h"
    "0 \<le> rect_x0 box" "0 \<le> rect_y0 box" "rect_x1 box \<le> sw" "rect_y1 box \<le> sh"
    "\<bar>rect_x0 box - (sw - rect_x1 box)\<bar> \<le> 1" "\<bar>rect_y0 box - (sh - rect_y1 box)\<bar> \<le> 1"
proof -
  have pos: "0 < srcW" "0 < srcH" "0 < w" "0 < h" using assms(1) by (simp_all add: tame_sizes_def)
  have le: "w * srcH \<le> max_int64" "h * srcW \<le> max_int64" using assms(1) by (simp_all add: tame_sizes_def)
  note wr = tame_wraps [OF assms(1)]
  have small: "a \<le> max_int64 \<and> b \<le> max_int64" if "0 < a" "0 < b" "a * b \<le> max_int64" for a b :: int
  proof -
    have "a * 1 \<le> a * b" "1 * b \<le> a * b" using that by (intro mult_left_mono mult_right_mono; simp)+
    then show ?thesis using that(3) by simp
  qed
  have "w \<le> sw \<and> h \<le> sh \<and> box_w box = w \<and> box_h box = h \<and>
    0 \<le> rect_x0 box \<and> 0 \<le> rect_y0 box \<and> rect_x1 box \<le> sw \<and> rect_y1 box \<le> sh \<and>
    \<bar>rect_x0 box - (sw - rect_x1 box)\<bar> \<le> 1 \<and> \<bar>rect_y0 box - (sh - rect_y1 box)\<bar> \<le> 1"
  proof (cases "w * srcH > h * srcW")
    case True
    let ?q = "w * srcH div srcW"
    have q: "h \<le> ?q" using zdiv_mono1 [of "h * srcW" "w * srcH" srcW] True pos by simp
    have "?q \<le> w * srcH" using div_below [of "w * srcH" srcW] pos by simp
    then have ranges: "wrap64 (?q - h) = ?q - h" "wrap64 (h + (?q - h) div 2) = h + (?q - h) div 2"
      using q pos le(1) by (auto intro!: wrap64_id in_int64_nonneg)
    show ?thesis
      using assms(2) True q pos ranges
      by (auto simp: cropBox_def wr go_div_nonneg image_Rect_def box_w_def box_h_def Let_def)
  next
    case False
    let ?q = "h * srcW div srcH"
    have q: "w \<le> ?q" using zdiv_mono1 [of "w * srcH" "h * srcW" srcH] False pos by simp
    have "?q \<le> h * srcW" using div_below [of "h * srcW" srcH] pos by simp
    then have ranges: "wrap64 (?q - w) = ?q - w" "wrap64 (w + (?q - w) div 2) = w + (?q - w) div 2"
      using q pos le(2) by (auto intro!: wrap64_id in_int64_nonneg)
    show ?thesis
      using assms(2) False q pos ranges
      by (auto simp: cropBox_def wr go_div_nonneg image_Rect_def box_w_def box_h_def Let_def)
  qed
  then show "w \<le> sw" "h \<le> sh" "box_w box = w" "box_h box = h"
    "0 \<le> rect_x0 box" "0 \<le> rect_y0 box" "rect_x1 box \<le> sw" "rect_y1 box \<le> sh"
    "\<bar>rect_x0 box - (sw - rect_x1 box)\<bar> \<le> 1" "\<bar>rect_y0 box - (sh - rect_y1 box)\<bar> \<le> 1"
    by simp_all
qed

section \<open>Generation\<close>

text \<open>What the library documents: the sizes of the images its operations return, and that no decoder
  yields a side of \<open>2 ^ 31\<close> pixels.\<close>

definition sizes_documented :: "'i imaging \<Rightarrow> bool" where
  "sizes_documented L \<longleftrightarrow>
     (\<forall>b i v. im_Decode L b = Some i \<longrightarrow>
        im_Dx L (applyOrientation L i v) < 2 ^ 31 \<and> im_Dy L (applyOrientation L i v) < 2 ^ 31) \<and>
     (\<forall>i w h. 0 < w \<longrightarrow> 0 < h \<longrightarrow> 0 < im_Dx L i \<longrightarrow> 0 < im_Dy L i \<longrightarrow>
        im_Dx L (im_Resize L i w h) = w \<and> im_Dy L (im_Resize L i w h) = h) \<and>
     (\<forall>i r. 0 \<le> rect_x0 r \<longrightarrow> 0 \<le> rect_y0 r \<longrightarrow> 0 < box_w r \<longrightarrow> 0 < box_h r \<longrightarrow>
        rect_x1 r \<le> im_Dx L i \<longrightarrow> rect_y1 r \<le> im_Dy L i \<longrightarrow>
        im_Dx L (im_Crop L i r) = box_w r \<and> im_Dy L (im_Crop L i r) = box_h r)"

lemma render_total: "\<exists>r. render L limit req raw = Some r"
proof -
  obtain f where f: "firstWebPFrame raw = Some f" using firstWebPFrame_total by blast
  let ?d = "case f of Some x \<Rightarrow> x | None \<Rightarrow> raw"
  obtain v where "readJPEGOrientation ?d = Some v" using readJPEGOrientation_ok by blast
  then show ?thesis
    by (cases "im_Decode L ?d") (simp_all add: render_def f Let_def split: sum.split)
qed

lemma resample_sizes:
  assumes "sizes_documented L" "resample L limit req img = Inr out"
    and "0 < tq_Width req" "tq_Width req \<le> 2 ^ 32" "0 < tq_Height req" "tq_Height req \<le> 2 ^ 32"
    and "im_Dx L img < 2 ^ 31" "im_Dy L img < 2 ^ 31"
  shows "0 < im_Dx L img * im_Dy L img" "im_Dx L img * im_Dy L img < limit"
    and "tq_Method req = methodCrop \<longrightarrow> im_Dx L out = tq_Width req \<and> im_Dy L out = tq_Height req"
    and "tq_Method req \<noteq> methodCrop \<longrightarrow> 1 \<le> im_Dx L out \<and> im_Dx L out \<le> min (tq_Width req) (im_Dx L img) \<and>
      1 \<le> im_Dy L out \<and> im_Dy L out \<le> min (tq_Height req) (im_Dy L img)"
proof -
  let ?W = "im_Dx L img" and ?H = "im_Dy L img" and ?w = "tq_Width req" and ?h = "tq_Height req"
  have src: "0 < ?W" "0 < ?H" "wrap64 (?W * ?H) < limit"
    using assms(2) by (auto simp: resample_def Let_def split: if_splits)
  have bound: "a * b \<le> 2 ^ 32 * (2 ^ 31 - 1)" if "0 < a" "a \<le> 2 ^ 32" "0 < b" "b < 2 ^ 31" for a b :: int
    using that by (intro mult_mono) simp_all
  have tame: "tame_sizes ?W ?H ?w ?h"
    using bound [of ?w ?H] bound [of ?h ?W] assms(3-8) src by (simp add: tame_sizes_def max_int64_def)
  show "0 < ?W * ?H" using src by simp
  have "?W * ?H \<le> 2 ^ 32 * (2 ^ 31 - 1)" by (rule bound) (use src assms(7,8) in simp_all)
  then have wrap: "wrap64 (?W * ?H) = ?W * ?H"
    using src by (simp add: in_int64_nonneg max_int64_def)
  then show "?W * ?H < limit" using src by simp
  show "tq_Method req = methodCrop \<longrightarrow> im_Dx L out = ?w \<and> im_Dy L out = ?h"
  proof
    assume crop: "tq_Method req = methodCrop"
    obtain sw sh box where cb: "cropBox ?W ?H ?w ?h = (sw, sh, box)" by (cases "cropBox ?W ?H ?w ?h") auto
    note cov = cropBox_covers [OF tame cb]
    have out: "out = im_Crop L (im_Resize L img sw sh) box"
      using assms(2) src wrap crop cb by (simp add: resample_def Let_def)
    have "im_Dx L (im_Resize L img sw sh) = sw \<and> im_Dy L (im_Resize L img sw sh) = sh"
      using assms(1,3,5) src cov by (simp add: sizes_documented_def)
    then show "im_Dx L out = ?w \<and> im_Dy L out = ?h"
      using assms(1,3,5) cov by (simp add: out sizes_documented_def)
  qed
  show "tq_Method req \<noteq> methodCrop \<longrightarrow> 1 \<le> im_Dx L out \<and> im_Dx L out \<le> min ?w ?W \<and>
      1 \<le> im_Dy L out \<and> im_Dy L out \<le> min ?h ?H"
  proof
    assume scale: "tq_Method req \<noteq> methodCrop"
    then have m: "tq_Method req = methodScale"
      using assms(2) src wrap by (simp add: resample_def Let_def split: if_splits)
    obtain w h where asp: "aspect ?W ?H ?w ?h = (w, h)" by fastforce
    note fits = aspect_fits [OF tame asp]
    have out: "out = im_Resize L img (min ?W w) (min ?H h)"
      using assms(2) src wrap scale m asp by (simp add: resample_def Let_def)
    have "im_Dx L out = min ?W w \<and> im_Dy L out = min ?H h"
      using assms(1) src fits by (simp add: out sizes_documented_def)
    then show "1 \<le> im_Dx L out \<and> im_Dx L out \<le> min ?w ?W \<and> 1 \<le> im_Dy L out \<and> im_Dy L out \<le> min ?h ?H"
      using fits src by auto
  qed
qed


text \<open>A library that keeps only the sizes.\<close>

definition size_library :: "(int \<times> int) imaging" where
  "size_library =
     \<lparr>im_Decode = (\<lambda>b. if b = [] then None else Some (3, 2)), im_Dx = fst, im_Dy = snd,
      im_FlipH = id, im_FlipV = id, im_Transpose = prod.swap, im_Transverse = prod.swap,
      im_Rotate90 = prod.swap, im_Rotate180 = id, im_Rotate270 = prod.swap,
      im_Resize = (\<lambda>i w h. (w, h)), im_Crop = (\<lambda>i r. (box_w r, box_h r)),
      im_PNG = (\<lambda>i. Some [of_int (fst i), of_int (snd i)]), im_JPEG = (\<lambda>q i. Some [of_int (fst i), of_int (snd i)])\<rparr>"

definition sample_request :: ThumbnailRequest where
  "sample_request = \<lparr>tq_Width = 5, tq_Height = 5, tq_Method = methodCrop, tq_Animated = False, tq_Type = typePNG\<rparr>"

lemma size_library_documented: "sizes_documented size_library"
  by (auto simp: sizes_documented_def size_library_def applyOrientation_def)


text \<open>The geometry of both methods, for all sizes whose products fit 64 bits. A scaled image fits the
  rectangle, touches one of its sides and keeps the ratio to less than a pixel; a cropped one covers
  the rectangle, and the box has the requested size, lies inside the scaled image and is centred.\<close>

theorem thumbnail_geometry:
  assumes "tame_sizes srcW srcH w h"
  shows "(case aspect srcW srcH w h of (aw, ah) \<Rightarrow>
      aw \<in> {1..w} \<and> ah \<in> {1..h} \<and> (aw = w \<or> ah = h) \<and> same_ratio srcW srcH aw ah) \<and>
    (case cropBox srcW srcH w h of (sw, sh, box) \<Rightarrow>
      w \<le> sw \<and> h \<le> sh \<and> box_w box = w \<and> box_h box = h \<and>
      0 \<le> rect_x0 box \<and> 0 \<le> rect_y0 box \<and> rect_x1 box \<le> sw \<and> rect_y1 box \<le> sh \<and>
      \<bar>rect_x0 box - (sw - rect_x1 box)\<bar> \<le> 1 \<and> \<bar>rect_y0 box - (sh - rect_y1 box)\<bar> \<le> 1)"
proof -
  obtain sw sh box where cb: "cropBox srcW srcH w h = (sw, sh, box)" by (cases "cropBox srcW srcH w h") auto
  obtain aw ah where asp: "aspect srcW srcH w h = (aw, ah)" by fastforce
  show ?thesis
    unfolding cb asp using cropBox_covers [OF assms cb] aspect_fits [OF assms asp] by simp
qed

theorem thumbnail_geometry_witness:
  "(case aspect 640 480 100 90 of (aw, ah) \<Rightarrow>
      aw \<in> {1..100} \<and> ah \<in> {1..90} \<and> (aw = 100 \<or> ah = 90) \<and> same_ratio 640 480 aw ah) \<and>
    (case cropBox 640 480 100 90 of (sw, sh, box) \<Rightarrow>
      100 \<le> sw \<and> 90 \<le> sh \<and> box_w box = 100 \<and> box_h box = 90 \<and>
      0 \<le> rect_x0 box \<and> 0 \<le> rect_y0 box \<and> rect_x1 box \<le> sw \<and> rect_y1 box \<le> sh \<and>
      \<bar>rect_x0 box - (sw - rect_x1 box)\<bar> \<le> 1 \<and> \<bar>rect_y0 box - (sh - rect_y1 box)\<bar> \<le> 1)"
  by (rule thumbnail_geometry) (simp add: tame_sizes_def max_int64_def)

text \<open>The pixel limit bounds the source only. Whatever the source, a crop request of any size makes the
  worker allocate an image of at least that size.\<close>

theorem crop_size_unbounded:
  assumes "tame_sizes (im_Dx L img) (im_Dy L img) (tq_Width req) (tq_Height req)"
    and "wrap64 (im_Dx L img * im_Dy L img) < limit" "tq_Method req = methodCrop"
  shows "\<exists>sw sh box. resample L limit req img = Inr (im_Crop L (im_Resize L img sw sh) box) \<and>
    tq_Width req \<le> sw \<and> tq_Height req \<le> sh"
proof -
  obtain sw sh box where cb: "cropBox (im_Dx L img) (im_Dy L img) (tq_Width req) (tq_Height req) = (sw, sh, box)"
    by (cases "cropBox (im_Dx L img) (im_Dy L img) (tq_Width req) (tq_Height req)") auto
  have "resample L limit req img = Inr (im_Crop L (im_Resize L img sw sh) box)"
    using assms cb by (simp add: resample_def Let_def tame_sizes_def)
  then show ?thesis using cropBox_covers(1,2) [OF assms(1) cb] by blast
qed

theorem crop_size_unbounded_witness:
  "\<exists>sw sh box. resample size_library 100 (sample_request\<lparr>tq_Width := 10 ^ 12, tq_Height := 10 ^ 12\<rparr>) (3, 2) =
      Inr (im_Crop size_library (im_Resize size_library (3, 2) sw sh) box) \<and>
    tq_Width (sample_request\<lparr>tq_Width := 10 ^ 12, tq_Height := 10 ^ 12\<rparr>) \<le> sw \<and>
    tq_Height (sample_request\<lparr>tq_Width := 10 ^ 12, tq_Height := 10 ^ 12\<rparr>) \<le> sh"
  by (rule crop_size_unbounded)
    (simp_all add: size_library_def sample_request_def tame_sizes_def max_int64_def wrap64_def)

end
