(* ===== verification/Thumb_Cache.thy ===== *)
theory Thumb_Cache
  imports Install Thumbnail
begin

text \<open>
  src/thumbcache.go: the worker's own thumbnail store. The cache key determines the path; a thumbnail
  is written to a temporary file and renamed; a sweep removes the least recently used files until the
  cache fits. The lemmas show that two different requests never share a file, that the store's contract
  \<open>atomic_put\<close> holds for \<open>Put\<close> too, and what a sweep removes.
\<close>

section \<open>Model\<close>

record ThumbnailCache =
  tcache_dir :: string
  tcache_maxBytes :: int

definition NewThumbnailCache :: "string option \<Rightarrow> CacheConfig \<Rightarrow> ThumbnailCache res io" where
  "NewThumbnailCache cwd cfg =
     (let dir = path_join [cleanAbs cwd (cc_Dir cfg), ''thumbs''] in
      attempt (os_mkdir_all dir) (\<lambda>e. State_Monad.return (Inl e))
        (\<lambda>_. State_Monad.return (Inr \<lparr>tcache_dir = dir, tcache_maxBytes = cc_MaxBytes cfg\<rparr>)))"

definition format_bool :: "bool \<Rightarrow> string" where
  "format_bool b = (if b then ''true'' else ''false'')"

definition key_parts :: "string \<Rightarrow> string \<Rightarrow> ThumbnailRequest \<Rightarrow> string list" where
  "key_parts origin mediaID req =
     [origin, mediaID, show_int (tq_Width req) @ ''x'' @ show_int (tq_Height req),
      tq_Method req, tq_Type req, format_bool (tq_Animated req)]"

definition cacheKey :: "string \<Rightarrow> string \<Rightarrow> ThumbnailRequest \<Rightarrow> string" where
  "cacheKey origin mediaID req = sha256_hex (nul_terminated (key_parts origin mediaID req))"

text \<open>The slices of \<open>key\<close> are in range: a key has 64 characters.\<close>

definition pathFor :: "ThumbnailCache \<Rightarrow> string \<Rightarrow> string" where
  "pathFor c key = path_join [tcache_dir c, take 2 key, take 2 (drop 2 key), key]"

definition cache_Open :: "ThumbnailCache \<Rightarrow> string \<Rightarrow> bytes option io" where
  "cache_Open c key = attempt (os_open (pathFor c key))
     (\<lambda>_. State_Monad.return None) (\<lambda>f. State_Monad.return (Some f))"

text \<open>The deferred removal runs on every path out of \<open>Put\<close>; after the rename it finds nothing.\<close>

definition cache_Put :: "ThumbnailCache \<Rightarrow> string \<Rightarrow> bytes \<Rightarrow> unit res io" where
  "cache_Put c key data =
     (let path = pathFor c key in
      attempt (os_mkdir_all (path_dir path)) (\<lambda>e. State_Monad.return (Inl e)) (\<lambda>_.
      attempt (os_create_temp (path_dir path) ''.tmp-'') (\<lambda>e. State_Monad.return (Inl e)) (\<lambda>tmpName.
      do {
        r \<leftarrow> attempt (os_write tmpName data) (\<lambda>e. do { _ \<leftarrow> os_close tmpName; State_Monad.return (Inl e) }) (\<lambda>_.
             attempt (os_close tmpName) (\<lambda>e. State_Monad.return (Inl e)) (\<lambda>_.
             os_rename tmpName path));
        discard_file tmpName;
        State_Monad.return r })))"

definition cache_Delete :: "ThumbnailCache \<Rightarrow> string \<Rightarrow> unit io" where
  "cache_Delete c key = discard_file (pathFor c key)"

subsection \<open>Eviction\<close>

record entry =
  en_path :: string
  en_size :: int
  en_atime :: int

text \<open>What the walk collects: \<open>walk\<close> is the list of the files \<^verbatim>\<open>filepath.WalkDir\<close> visits, or its error,
  and \<open>atime\<close> the access times. A file that has gone since is skipped.\<close>

definition sweep_entry :: "(string \<Rightarrow> int) \<Rightarrow> world \<Rightarrow> string \<Rightarrow> entry option" where
  "sweep_entry atime w p = map_option
     (\<lambda>f. \<lparr>en_path = p, en_size = int (length (f_bytes f)), en_atime = atime p\<rparr>) (w_files w p)"

definition entries_size :: "entry list \<Rightarrow> int" where
  "entries_size es = sum_list (map en_size es)"

fun evict_loop :: "int \<Rightarrow> entry list \<Rightarrow> int \<Rightarrow> int \<Rightarrow> int \<Rightarrow> (int \<times> int) io" where
  "evict_loop maxBytes [] sum_bytes freed evicted = State_Monad.return (evicted, freed)"
| "evict_loop maxBytes (e # es) sum_bytes freed evicted =
     (if sum_bytes \<le> maxBytes then State_Monad.return (evicted, freed)
      else attempt (os_remove (en_path e))
        (\<lambda>_. evict_loop maxBytes es sum_bytes freed evicted)
        (\<lambda>_. evict_loop maxBytes es (sum_bytes - en_size e) (freed + en_size e) (evicted + 1)))"

text \<open>\<^verbatim>\<open>slices.SortFunc\<close> by access time; ties, which it may order either way, keep the order of the walk.\<close>

definition Sweep :: "ThumbnailCache \<Rightarrow> string list res \<Rightarrow> (string \<Rightarrow> int) \<Rightarrow> (int \<times> int) res io" where
  "Sweep c walk atime =
     (case walk of
        Inl e \<Rightarrow> State_Monad.return (Inl e)
      | Inr ps \<Rightarrow> do {
          entries \<leftarrow> State (\<lambda>w. (List.map_filter (sweep_entry atime w) ps, w));
          let sum_bytes = entries_size entries;
          (if tcache_maxBytes c \<le> 0 \<or> sum_bytes \<le> tcache_maxBytes c then State_Monad.return (Inr (0, 0))
           else do {
             r \<leftarrow> evict_loop (tcache_maxBytes c) (sort_key en_atime entries) sum_bytes 0 0;
             State_Monad.return (Inr r) }) })"

text \<open>The loop of \<^verbatim>\<open>RunJanitor\<close> over the ticks it receives; \<open>None\<close> is the stop.\<close>

fun janitor_loop :: "ThumbnailCache \<Rightarrow> (string list res \<times> (string \<Rightarrow> int)) option list \<Rightarrow> unit io" where
  "janitor_loop c [] = skip"
| "janitor_loop c (None # es) = skip"
| "janitor_loop c (Some (walk, atime) # es) = do {
     r \<leftarrow> Sweep c walk atime;
     _ \<leftarrow> (case r of Inl _ \<Rightarrow> skip
          | Inr (evicted, freed) \<Rightarrow>
              if evicted > 0 then log_note [''evicted'', show_int evicted, show_int freed] else skip);
     janitor_loop c es }"

definition RunJanitor :: "ThumbnailCache \<Rightarrow> int \<Rightarrow> (string list res \<times> (string \<Rightarrow> int)) option list \<Rightarrow> unit io" where
  "RunJanitor c interval events = (if interval \<le> 0 then skip else janitor_loop c events)"

section \<open>Keys and paths\<close>

lemma key_no_slash: "CHR ''/'' \<notin> set (sha256_hex m)" "CHR ''.'' \<notin> set (sha256_hex m)"
proof -
  have "\<not> is_hex_char CHR ''/''" "\<not> is_hex_char CHR ''.''"
    by (simp_all add: is_hex_char_def is_digit_def)
  then show "CHR ''/'' \<notin> set (sha256_hex m)" "CHR ''.'' \<notin> set (sha256_hex m)"
    using sha256_hex_chars by blast+
qed

definition key_shaped :: "string \<Rightarrow> bool" where
  "key_shaped key \<longleftrightarrow> length key = 64 \<and> CHR ''/'' \<notin> set key \<and> CHR ''.'' \<notin> set key"

lemma cacheKey_shaped: "key_shaped (cacheKey origin mediaID req)"
  by (simp add: key_shaped_def cacheKey_def key_no_slash)

lemma plain_no_dot: "x \<noteq> '''' \<Longrightarrow> CHR ''/'' \<notin> set x \<Longrightarrow> CHR ''.'' \<notin> set x \<Longrightarrow> plain x"
  by (auto simp: plain_def)

lemma key_plain:
  assumes "key_shaped key"
  shows "plain (take 2 key)" "plain (take 2 (drop 2 key))" "plain key"
proof -
  have s: "set (take 2 key) \<subseteq> set key" "set (take 2 (drop 2 key)) \<subseteq> set key"
    by (rule set_take_subset, meson order_trans set_take_subset set_drop_subset)
  have l: "length (take 2 key) = 2" "length (take 2 (drop 2 key)) = 2" "length key = 64"
    using assms by (simp_all add: key_shaped_def)
  have ne: "take 2 key \<noteq> ''''" "take 2 (drop 2 key) \<noteq> ''''" "key \<noteq> ''''"
    using l by (metis length_0_conv zero_neq_numeral)+
  show "plain (take 2 key)" "plain (take 2 (drop 2 key))" "plain key"
    using s ne assms by (auto intro!: plain_no_dot simp: key_shaped_def dest: in_set_takeD in_set_dropD)
qed

definition rooted_cache :: "ThumbnailCache \<Rightarrow> bool" where
  "rooted_cache c \<longleftrightarrow> (\<exists>cs. list_all plain cs \<and> tcache_dir c = abs_path cs)"

lemma pathFor_abs:
  assumes "list_all plain cs" "tcache_dir c = abs_path cs" "key_shaped key"
  shows "pathFor c key = abs_path (cs @ [take 2 key, take 2 (drop 2 key), key])"
  unfolding pathFor_def
  by (rule path_join_plain [OF assms(1,2)]) (use key_plain [OF assms(3)] in simp)

lemma pathFor_last:
  assumes "rooted_cache c" "key_shaped key"
  shows "\<exists>d. pathFor c key = d @ ''/'' @ key"
proof -
  from assms(1) obtain cs where cs: "list_all plain cs" "tcache_dir c = abs_path cs"
    by (auto simp: rooted_cache_def)
  have "abs_path (cs @ [take 2 key, take 2 (drop 2 key), key]) = abs_path (cs @ [take 2 key, take 2 (drop 2 key)]) @ ''/'' @ key"
    using abs_path_append [of "cs @ [take 2 key, take 2 (drop 2 key)]" "[key]"] by simp
  then show ?thesis using pathFor_abs [OF cs assms(2)] by (intro exI) simp
qed

lemma pathFor_not_scratch:
  assumes "rooted_cache c" "key_shaped key"
  shows "\<not> scratch_name ''.tmp-'' (pathFor c key)"
proof
  assume s: "scratch_name ''.tmp-'' (pathFor c key)"
  obtain d where "pathFor c key = d @ ''/'' @ key" using pathFor_last [OF assms] by blast
  with s have "scratch_name ''.tmp-'' (d @ ''/'' @ key)" by simp
  from scratch_name_last [OF this] assms(2) obtain n where "key = ''.tmp-'' @ show_nat n"
    by (auto simp: key_shaped_def)
  then show False using assms(2) by (simp add: key_shaped_def)
qed

lemma pathFor_inj:
  assumes "rooted_cache c" "key_shaped k1" "key_shaped k2" "pathFor c k1 = pathFor c k2"
  shows "k1 = k2"
proof -
  from assms(1) obtain cs where cs: "list_all plain cs" "tcache_dir c = abs_path cs"
    by (auto simp: rooted_cache_def)
  have "cs @ [take 2 k1, take 2 (drop 2 k1), k1] = cs @ [take 2 k2, take 2 (drop 2 k2), k2]"
    by (rule abs_path_inj)
      (use cs key_plain [OF assms(2)] key_plain [OF assms(3)] assms(4) pathFor_abs [OF cs] assms(2,3) in simp_all)
  then show ?thesis by simp
qed

section \<open>Put is an atomic write\<close>

lemma wp_discard_absent:
  assumes "w_files w tmp = None" "\<And>w'. files_only w w' \<Longrightarrow> w_files w' = w_files w \<Longrightarrow> Q () w'"
  shows "wp (discard_file tmp) Q w"
  unfolding discard_file_def wp_bind os_remove_def
  by (rule wp_call) (auto simp: assms(1) intro!: assms(2) files_only_upd(1))

lemma wp_mkdir:
  assumes "\<And>e w'. files_only w w' \<Longrightarrow> w_files w' = w_files w \<Longrightarrow> Q (Inl e) w'"
    and "\<And>w'. files_only w w' \<Longrightarrow> w_files w' = w_files w \<Longrightarrow> Q (Inr ()) w'"
  shows "wp (os_mkdir_all d) Q w"
  unfolding os_mkdir_all_def by (rule wp_call) (auto intro!: assms files_only_upd(1))

definition cache_file :: "bytes \<Rightarrow> disk_file" where
  "cache_file d = \<lparr>f_bytes = d, f_mode = 384, f_synced = False\<rparr>"

text \<open>Filling the temporary file and moving it.\<close>

lemma wp_cache_move:
  assumes "temp_phase w0 tmp w" "w_files w tmp = Some (cache_file [])" "tmp \<noteq> path"
    and "\<And>e w'. temp_phase w0 tmp w' \<Longrightarrow> Q (Inl e) w'"
    and "\<And>w'. files_only w0 w' \<Longrightarrow> w_files w' = (w_files w0)(tmp := None, path \<mapsto> cache_file data) \<Longrightarrow> Q (Inr ()) w'"
  shows "wp (attempt (os_write tmp data) (\<lambda>e. do { _ \<leftarrow> os_close tmp; State_Monad.return (Inl e) }) (\<lambda>_.
      attempt (os_close tmp) (\<lambda>e. State_Monad.return (Inl e)) (\<lambda>_. os_rename tmp path))) Q w"
proof -
  have close: "wp (attempt (os_close tmp) (\<lambda>e. State_Monad.return (Inl e)) (\<lambda>_. os_rename tmp path)) Q w'"
    if "temp_phase w0 tmp w'" "w_files w' tmp = Some (cache_file data)" for w'
    unfolding wp_attempt
    by (rule wp_close_tmp [OF that(1)])
      (simp only: sum.case wp_return assms(4), simp only: sum.case, rule wp_rename_tmp [OF _ _ assms(3)],
        assumption, simp add: that(2), erule assms(4), erule assms(5), assumption)
  have quit: "wp (os_close tmp \<bind> (\<lambda>_. State_Monad.return (Inl e))) Q w'" if "temp_phase w0 tmp w'" for e w'
    unfolding wp_bind wp_return by (rule wp_close_tmp [OF that]) (erule assms(4))+
  show ?thesis
    unfolding wp_attempt [of "os_write tmp data"]
    by (rule wp_write_tmp [OF assms(1)])
      (simp only: sum.case, erule quit, simp only: sum.case, rule close, assumption,
       simp add: assms(2) cache_file_def, force)
qed

text \<open>The rest of \<^verbatim>\<open>Put\<close> once its temporary file is there; the deferred removal finds nothing after the rename.\<close>

lemma wp_cache_fill:
  assumes path: "\<not> scratch_name ''.tmp-'' p"
    and err: "\<And>e w'. at_most_scratch (scratch_name ''.tmp-'') w w' \<Longrightarrow> Q (Inl e) w'"
    and ok: "\<And>w'. files_only w w' \<Longrightarrow> w_files w' = (w_files w)(p \<mapsto> cache_file data) \<Longrightarrow> Q (Inr ()) w'"
    and tmp: "scratch_name ''.tmp-'' tmp" "w_files w tmp = None" "temp_phase w tmp w1"
      "w_files w1 tmp = Some (cache_file [])"
  shows "wp (do { r \<leftarrow> attempt (os_write tmp data) (\<lambda>e. do { _ \<leftarrow> os_close tmp; State_Monad.return (Inl e) }) (\<lambda>_.
        attempt (os_close tmp) (\<lambda>e. State_Monad.return (Inl e)) (\<lambda>_. os_rename tmp p));
      discard_file tmp; State_Monad.return r }) Q w1"
proof -
  have ne: "tmp \<noteq> p" using tmp(1) path by blast
  show ?thesis
    unfolding wp_bind
  proof (rule wp_cache_move [OF tmp(3,4) ne])
    fix e w' assume "temp_phase w tmp w'"
    then show "wp (discard_file tmp) (\<lambda>a. wp (State_Monad.return (Inl e)) Q) w'"
      by (rule wp_discard_tmp)
        (simp add: err at_most_scratchI(2) [where s = "scratch_name ''.tmp-''", OF _ tmp(1)])
  next
    fix w' assume w': "files_only w w'" "w_files w' = (w_files w)(tmp := None, p \<mapsto> cache_file data)"
    then have gone: "w_files w' tmp = None" using ne by simp
    have eq: "w_files w' = (w_files w)(p \<mapsto> cache_file data)" using w'(2) tmp(2) by auto
    show "wp (discard_file tmp) (\<lambda>a. wp (State_Monad.return (Inr ())) Q) w'"
      by (rule wp_discard_absent [OF gone]) (simp add: ok files_only_trans [OF w'(1)] eq)
  qed
qed

lemma wp_cache_Put:
  assumes path: "\<not> scratch_name ''.tmp-'' (pathFor c key)"
    and err: "\<And>e w'. at_most_scratch (scratch_name ''.tmp-'') w w' \<Longrightarrow> Q (Inl e) w'"
    and ok: "\<And>w'. files_only w w' \<Longrightarrow> w_files w' = (w_files w)(pathFor c key \<mapsto> cache_file data) \<Longrightarrow> Q (Inr ()) w'"
  shows "wp (cache_Put c key data) Q w"
proof -
  let ?p = "pathFor c key"
  let ?body = "\<lambda>tmp. attempt (os_write tmp data) (\<lambda>e. do { _ \<leftarrow> os_close tmp; State_Monad.return (Inl e) }) (\<lambda>_.
      attempt (os_close tmp) (\<lambda>e. State_Monad.return (Inl e)) (\<lambda>_. os_rename tmp ?p))"
  let ?rest = "\<lambda>tmp. do { r \<leftarrow> ?body tmp; discard_file tmp; State_Monad.return r }"
  have temp: "wp (attempt (os_create_temp (path_dir ?p) ''.tmp-'') (\<lambda>e. State_Monad.return (Inl e)) ?rest) Q w1"
    if w1: "files_only w w1" "w_files w1 = w_files w" for w1
    unfolding wp_attempt
  proof (rule os_create_temp_step)
    fix e w' assume "files_only w1 w'" "w_files w' = w_files w1"
    then have "at_most_scratch (scratch_name ''.tmp-'') w w'"
      using w1 files_only_trans by (auto intro!: at_most_scratchI(1))
    then show "(case Inl e of Inl e \<Rightarrow> wp (State_Monad.return (Inl e)) Q | Inr x \<Rightarrow> wp (?rest x) Q) w'"
      by (simp add: err)
  next
    fix n w' assume n: "w_files w1 (temp_name (path_dir ?p) ''.tmp-'' n) = None"
      "temp_phase w1 (temp_name (path_dir ?p) ''.tmp-'' n) w'"
      "w_files w' (temp_name (path_dir ?p) ''.tmp-'' n) = Some \<lparr>f_bytes = [], f_mode = 384, f_synced = False\<rparr>"
    have "wp (?rest (temp_name (path_dir ?p) ''.tmp-'' n)) Q w'"
    proof (rule wp_cache_fill [OF path err ok])
      show "scratch_name ''.tmp-'' (temp_name (path_dir ?p) ''.tmp-'' n)" by (auto simp: scratch_name_def)
      show "w_files w (temp_name (path_dir ?p) ''.tmp-'' n) = None" using n(1) w1 by simp
      show "temp_phase w (temp_name (path_dir ?p) ''.tmp-'' n) w'"
        using n(2) w1 files_only_trans by (auto simp: temp_phase_def)
      show "w_files w' (temp_name (path_dir ?p) ''.tmp-'' n) = Some (cache_file [])"
        using n(3) by (simp add: cache_file_def)
    qed
    then show "(case Inr (temp_name (path_dir ?p) ''.tmp-'' n) of
        Inl e \<Rightarrow> wp (State_Monad.return (Inl e)) Q | Inr x \<Rightarrow> wp (?rest x) Q) w'"
      by (simp only: sum.case)
  qed
  show ?thesis
    unfolding cache_Put_def Let_def wp_attempt [of "os_mkdir_all (path_dir ?p)"]
    by (rule wp_mkdir) (simp add: err at_most_scratchI(1), simp only: sum.case, rule temp)
qed

interpretation cache_files: atomic_put "cache_Put c" "pathFor c"
  "\<lambda>key. key_shaped key \<and> rooted_cache c" "scratch_name ''.tmp-''" cache_file for c
  by unfold_locales (auto intro!: wp_cache_Put dest: pathFor_not_scratch)

section \<open>What a sweep removes\<close>

primrec evict_count :: "int \<Rightarrow> entry list \<Rightarrow> int \<Rightarrow> nat" where
  "evict_count maxBytes [] tot = 0"
| "evict_count maxBytes (e # es) tot =
     (if tot \<le> maxBytes then 0 else Suc (evict_count maxBytes es (tot - en_size e)))"

definition without :: "entry list \<Rightarrow> world \<Rightarrow> world" where
  "without es w = w\<lparr>w_files := (\<lambda>q. if q \<in> en_path ` set es then None else w_files w q)\<rparr>"

lemma run_attempt: "run_state (attempt m h k) w =
    (case run_state m w of (r, w') \<Rightarrow> (case r of Inl e \<Rightarrow> run_state (h e) w' | Inr x \<Rightarrow> run_state (k x) w'))"
  by (simp add: attempt_def run_state_bind split: prod.splits sum.splits)

lemma evict_loop_quiet:
  assumes "w_faults w = []" "distinct (map en_path es)" "\<forall>e \<in> set es. w_files w (en_path e) \<noteq> None"
  shows "run_state (evict_loop m es tot freed n) w =
    (let old = take (evict_count m es tot) es
     in ((n + int (length old), freed + entries_size old), without old w))"
  using assms
proof (induction es arbitrary: w tot freed n)
  case Nil
  then show ?case by (simp add: without_def entries_size_def)
next
  case (Cons e es)
  show ?case
  proof (cases "tot \<le> m")
    case True
    then show ?thesis by (simp add: without_def entries_size_def)
  next
    case False
    let ?w = "w\<lparr>w_files := (w_files w)(en_path e := None)\<rparr>"
    obtain f where f: "w_files w (en_path e) = Some f" using Cons.prems(3) by auto
    have rm: "run_state (os_remove (en_path e)) w = (Inr (), ?w)"
      using Cons.prems(1) f by (simp add: os_remove_def run_call_quiet)
    have ih: "run_state (evict_loop m es (tot - en_size e) (freed + en_size e) (n + 1)) ?w =
        (let old = take (evict_count m es (tot - en_size e)) es
         in ((n + 1 + int (length old), freed + en_size e + entries_size old), without old ?w))"
      by (rule Cons.IH) (use Cons.prems in \<open>auto simp: image_iff\<close>)
    have step: "run_state (evict_loop m (e # es) tot freed n) w =
        run_state (evict_loop m es (tot - en_size e) (freed + en_size e) (n + 1)) ?w"
      using False by (simp add: run_attempt rm)
    show ?thesis
      unfolding step ih using False by (simp add: Let_def entries_size_def without_def fun_eq_iff)
  qed
qed

lemma evict_count_fits:
  assumes "tot = entries_size es" "k = evict_count m es tot"
  shows "entries_size (drop k es) \<le> max m 0"
    and "0 < k \<Longrightarrow> m < entries_size (drop k es) + en_size (last (take k es))"
proof -
  have "entries_size (drop (evict_count m es tot) es) \<le> max m 0 \<and>
      (0 < evict_count m es tot \<longrightarrow>
        m < entries_size (drop (evict_count m es tot) es) + en_size (last (take (evict_count m es tot) es)))"
    if "tot = entries_size es" for tot
    using that
  proof (induction es arbitrary: tot)
    case (Cons e es)
    show ?case
    proof (cases "tot \<le> m")
      case False
      have t: "tot - en_size e = entries_size es" using Cons.prems by (simp add: entries_size_def)
      note ih = Cons.IH [OF t]
      show ?thesis
      proof (cases "evict_count m es (tot - en_size e)")
        case 0
        then show ?thesis using ih False Cons.prems by (simp add: entries_size_def)
      next
        case (Suc j)
        then have "es \<noteq> []" by (cases es) auto
        then show ?thesis using ih False Suc by simp
      qed
    qed (use Cons.prems in simp)
  qed (simp add: entries_size_def)
  from this [OF assms(1)] show "entries_size (drop k es) \<le> max m 0"
    and "0 < k \<Longrightarrow> m < entries_size (drop k es) + en_size (last (take k es))"
    by (simp_all add: assms(2))
qed

lemma sweep_entries:
  assumes "distinct ps"
  shows "distinct (map en_path (List.map_filter (sweep_entry atime w) ps))"
    "e \<in> set (List.map_filter (sweep_entry atime w) ps) \<Longrightarrow>
       en_path e \<in> set ps \<and> w_files w (en_path e) \<noteq> None \<and> en_atime e = atime (en_path e)"
proof -
  have "map en_path (List.map_filter (sweep_entry atime w) ps) = filter (\<lambda>p. w_files w p \<noteq> None) ps" for ps
    by (induction ps) (auto simp: List.map_filter_simps sweep_entry_def split: option.splits)
  then show "distinct (map en_path (List.map_filter (sweep_entry atime w) ps))" using assms by simp
  show "e \<in> set (List.map_filter (sweep_entry atime w) ps) \<Longrightarrow>
      en_path e \<in> set ps \<and> w_files w (en_path e) \<noteq> None \<and> en_atime e = atime (en_path e)"
    by (auto simp: List.map_filter_def sweep_entry_def)
qed

lemma sorted_split_atime:
  assumes "a \<in> set (take k (sort_key en_atime es))" "b \<in> set (drop k (sort_key en_atime es))"
  shows "en_atime a \<le> en_atime b"
proof -
  have "sorted (map en_atime (take k (sort_key en_atime es) @ drop k (sort_key en_atime es)))"
    unfolding append_take_drop_id by simp
  then show ?thesis using assms unfolding map_append sorted_append by auto
qed

text \<open>A sweep in which no removal fails evicts exactly a set of least recently used files: every file it
  removes was used no later than every file it keeps, what is kept fits the limit, and one file fewer
  would not have been enough; it reports the number and the bytes, and touches nothing else. A limit
  that is not positive removes nothing.\<close>

theorem Sweep_lru:
  assumes "w_faults w = []" "distinct ps"
  shows "\<exists>old kept. mset (old @ kept) = mset (List.map_filter (sweep_entry atime w) ps) \<and>
    run_state (Sweep c (Inr ps) atime) w = (Inr (int (length old), entries_size old), without old w) \<and>
    (\<forall>a \<in> set old. \<forall>b \<in> set kept. en_atime a \<le> en_atime b) \<and>
    (if tcache_maxBytes c \<le> 0 then old = [] else entries_size kept \<le> tcache_maxBytes c) \<and>
    (old = [] \<or> tcache_maxBytes c < entries_size kept + en_size (last old))"
proof -
  let ?es = "List.map_filter (sweep_entry atime w) ps" and ?m = "tcache_maxBytes c"
  let ?srt = "sort_key en_atime ?es" and ?tot = "entries_size ?es"
  have tot: "?tot = entries_size ?srt"
    unfolding entries_size_def by (metis mset_map mset_sort sum_mset_sum_list)
  show ?thesis
  proof (cases "?m \<le> 0 \<or> ?tot \<le> ?m")
    case True
    have "run_state (Sweep c (Inr ps) atime) w = (Inr (0, 0), without [] w)"
      using True by (simp add: Sweep_def run_state_bind Let_def without_def)
    then show ?thesis
      using True by (rule_tac exI [of _ "[]"], rule_tac exI [of _ ?es]) (auto simp: entries_size_def)
  next
    case False
    let ?k = "evict_count ?m ?srt ?tot"
    have "run_state (evict_loop ?m ?srt ?tot 0 0) w =
        (let old = take ?k ?srt in ((0 + int (length old), 0 + entries_size old), without old w))"
    proof (rule evict_loop_quiet [OF assms(1)])
      have "mset (map en_path ?srt) = mset (map en_path ?es)" by simp
      then show "distinct (map en_path ?srt)"
        using sweep_entries(1) [OF assms(2)] mset_eq_imp_distinct_iff by blast
      show "\<forall>e \<in> set ?srt. w_files w (en_path e) \<noteq> None"
        using sweep_entries(2) [OF assms(2)] by simp
    qed
    then have run: "run_state (Sweep c (Inr ps) atime) w =
        (Inr (int (length (take ?k ?srt)), entries_size (take ?k ?srt)), without (take ?k ?srt) w)"
      using False by (simp add: Sweep_def run_state_bind Let_def)
    have "mset (take ?k ?srt @ drop ?k ?srt) = mset ?es" unfolding append_take_drop_id by simp
    moreover have "entries_size (drop ?k ?srt) \<le> ?m"
      using evict_count_fits(1) [OF tot refl, of ?m] False by simp
    moreover have "take ?k ?srt = [] \<or> ?m < entries_size (drop ?k ?srt) + en_size (last (take ?k ?srt))"
      using evict_count_fits(2) [OF tot refl, of ?m] by (cases "?k = 0") auto
    ultimately show ?thesis
      using run sorted_split_atime [where es = ?es and k = ?k] False
      by (intro exI [of _ "take ?k ?srt"] exI [of _ "drop ?k ?srt"] conjI ballI) simp_all
  qed
qed

definition two_files :: world where
  "two_files = sample_world\<lparr>w_files := [''/c/a'' \<mapsto> cache_file [1, 2], ''/c/b'' \<mapsto> cache_file [3]]\<rparr>"

theorem Sweep_lru_witness:
  "\<exists>old kept. mset (old @ kept) = mset (List.map_filter (sweep_entry (\<lambda>p. if p = ''/c/a'' then 1 else 2) two_files) [''/c/a'', ''/c/b'']) \<and>
    run_state (Sweep \<lparr>tcache_dir = ''/c'', tcache_maxBytes = 2\<rparr> (Inr [''/c/a'', ''/c/b'']) (\<lambda>p. if p = ''/c/a'' then 1 else 2)) two_files =
      (Inr (int (length old), entries_size old), without old two_files) \<and>
    (\<forall>a \<in> set old. \<forall>b \<in> set kept. en_atime a \<le> en_atime b) \<and>
    (if tcache_maxBytes \<lparr>tcache_dir = ''/c'', tcache_maxBytes = 2\<rparr> \<le> 0 then old = []
     else entries_size kept \<le> tcache_maxBytes \<lparr>tcache_dir = ''/c'', tcache_maxBytes = 2\<rparr>) \<and>
    (old = [] \<or> tcache_maxBytes \<lparr>tcache_dir = ''/c'', tcache_maxBytes = 2\<rparr> < entries_size kept + en_size (last old))"
  by (rule Sweep_lru) (simp_all add: two_files_def)

text \<open>The cache isolates requests. Whatever call fails, a write for one request leaves the thumbnail
  of  every other request as it was, and its own as it was or whole.\<close>

theorem cache_isolated:
  assumes "rooted_cache c" "key_shaped k1" "key_shaped k2"
  shows "wp (cache_Put c k1 d) (\<lambda>r w'. w_files w' (pathFor c k2) =
    (if r = Inr () \<and> k1 = k2 then Some (cache_file d) else w_files w (pathFor c k2))) w"
proof -
  have "wp (cache_Put c k1 d) (\<lambda>r w'. files_only w w' \<and> w_files w' (pathFor c k2) =
      (if r = Inr () \<and> pathFor c k2 = pathFor c k1 then Some (cache_file d) else w_files w (pathFor c k2))) w"
    by (rule cache_files.put_cases) (use assms pathFor_not_scratch in simp_all)
  then show ?thesis
    by (rule wp_mono) (use pathFor_inj [OF assms] in auto)
qed

definition sample_cache :: ThumbnailCache where
  "sample_cache = \<lparr>tcache_dir = abs_path [''var'', ''cache''], tcache_maxBytes = 1000\<rparr>"

lemma sample_cache_rooted: "rooted_cache sample_cache"
  unfolding rooted_cache_def sample_cache_def by (intro exI [of _ "[''var'', ''cache'']"]) (simp add: plain_def)

theorem cache_isolated_witness:
  "wp (cache_Put sample_cache (cacheKey '''' ''abc'' sample_request) [1]) (\<lambda>r w'.
    w_files w' (pathFor sample_cache (cacheKey '''' ''abd'' sample_request)) =
     (if r = Inr () \<and> cacheKey '''' ''abc'' sample_request = cacheKey '''' ''abd'' sample_request then Some (cache_file [1])
      else w_files sample_world (pathFor sample_cache (cacheKey '''' ''abd'' sample_request)))) sample_world"
  by (rule cache_isolated [OF sample_cache_rooted cacheKey_shaped cacheKey_shaped])

lemma show_int_x_inj:
  assumes "0 \<le> a" "0 \<le> b" "0 \<le> c" "0 \<le> d" "show_int a @ ''x'' @ show_int b = show_int c @ ''x'' @ show_int d"
  shows "a = c \<and> b = d"
proof -
  have no: "CHR ''x'' \<notin> set (show_int n)" if "0 \<le> n" for n
    using that show_nat_digits [of "CHR ''x''" "nat n"] by (auto simp: show_int_def is_digit_def)
  have "cut CHR ''x'' (show_int a @ CHR ''x'' # show_int b) = cut CHR ''x'' (show_int c @ CHR ''x'' # show_int d)"
    using assms(5) by simp
  then have "show_int a = show_int c" "show_int b = show_int d"
    using no assms(1,3) by simp_all
  then show ?thesis using show_int_inj by blast
qed

lemma nul_char_free: "char_of (0::nat) \<notin> set s \<Longrightarrow> 0 \<notin> set (str_bytes s)"
proof
  assume n: "char_of (0::nat) \<notin> set s" and "0 \<in> set (str_bytes s)"
  then obtain x where x: "x \<in> set s" "(of_char x :: byte) = 0" by (auto simp: str_bytes_def)
  from x(2) have "x = char_of (0::nat)" using of_char_byte_inj nul_byte by metis
  with x(1) n show False by simp
qed

text \<open>What is hashed into a cache key determines the server, the medium and the whole request, so two
  different requests never share an entry (short of a collision of SHA-256), as long as no ID holds a
  zero byte.\<close>

theorem cache_key_separates:
  assumes "\<forall>s \<in> {o1, m1, o2, m2, tq_Method r1, tq_Type r1, tq_Method r2, tq_Type r2}. char_of (0::nat) \<notin> set s"
    and "\<forall>r \<in> {r1, r2}. 0 \<le> tq_Width r \<and> 0 \<le> tq_Height r"
    and "nul_terminated (key_parts o1 m1 r1) = nul_terminated (key_parts o2 m2 r2)"
  shows "o1 = o2 \<and> m1 = m2 \<and> r1 = r2"
proof -
  have dim: "char_of (0::nat) \<notin> set (show_int a @ ''x'' @ show_int b)" if "0 \<le> a" "0 \<le> b" for a b
  proof -
    have "char_of (0::nat) \<notin> set (show_nat n)" for n
      using show_nat_digits [of "char_of (0::nat)" n] by (auto simp: is_digit_def)
    then show ?thesis using that by (simp add: show_int_def char_of_def)
  qed
  have fb: "char_of (0::nat) \<notin> set (format_bool b)" for b by (simp add: format_bool_def char_of_def)
  have "key_parts o1 m1 r1 = key_parts o2 m2 r2"
  proof (rule nul_terminated_inj [OF _ _ assms(3)])
    fix p assume "p \<in> set (key_parts o1 m1 r1) \<union> set (key_parts o2 m2 r2)"
    then have "char_of (0::nat) \<notin> set p"
      using assms(1,2) dim [of "tq_Width r1" "tq_Height r1"] dim [of "tq_Width r2" "tq_Height r2"] fb
      by (simp only: key_parts_def list.set Un_iff insert_iff empty_iff simp_thms) blast
    then show "0 \<notin> set (str_bytes p)" by (rule nul_char_free)
  qed (simp add: key_parts_def)
  then have e: "o1 = o2" "m1 = m2" "tq_Method r1 = tq_Method r2" "tq_Type r1 = tq_Type r2"
    "show_int (tq_Width r1) @ ''x'' @ show_int (tq_Height r1) = show_int (tq_Width r2) @ ''x'' @ show_int (tq_Height r2)"
    "format_bool (tq_Animated r1) = format_bool (tq_Animated r2)"
    by (simp_all only: key_parts_def list.inject)
  moreover have "tq_Width r1 = tq_Width r2 \<and> tq_Height r1 = tq_Height r2"
    by (rule show_int_x_inj) (use assms(2) e(5) in simp_all)
  moreover have "tq_Animated r1 = tq_Animated r2"
    using e(6) by (cases "tq_Animated r1"; cases "tq_Animated r2") (simp_all add: format_bool_def)
  ultimately show ?thesis by (cases r1; cases r2) simp
qed

theorem cache_key_separates_witness:
  "nul_terminated (key_parts '''' ''abc'' sample_request) \<noteq>
   nul_terminated (key_parts '''' ''abc'' (sample_request\<lparr>tq_Height := 55\<rparr>))"
proof
  assume "nul_terminated (key_parts '''' ''abc'' sample_request) =
   nul_terminated (key_parts '''' ''abc'' (sample_request\<lparr>tq_Height := 55\<rparr>))"
  from cache_key_separates [OF _ _ this] show False
    by (simp add: sample_request_def thumbnail_names char_of_def)
qed

end
