(* ===== verification/Server.thy ===== *)
theory Server
  imports Reqlog Thumb_Cache
begin

text \<open>
  The server the handlers belong to (the struct of src/handlers.go), authentication by its token
  cache (src/authclient.go), the handing of a request to Synapse, and the two groups of endpoints that
  need no more than that: src/mediaconfig.go and src/passthrough.go.
\<close>

section \<open>The server\<close>

record Fetcher =
  ft_maxUploadSize :: int
  ft_timeout :: int

text \<open>\<^verbatim>\<open>NewFetcher\<close>; its number of slots only bounds the wait for one.\<close>

definition NewFetcher :: "int \<Rightarrow> int \<Rightarrow> Fetcher" where
  "NewFetcher maxUploadSize timeout =
     \<lparr>ft_maxUploadSize = maxUploadSize, ft_timeout = (if timeout \<le> 0 then 60 * Second else timeout)\<rparr>"

record RemoteFetcher =
  rf_fetcher :: Fetcher
  rf_authenticated :: bool

text \<open>A pointer that may be nil is an option, or a truth value where only its being nil matters. The
  database, the token cache and the clock are in the world.\<close>

record 'i Server =
  sv_cfg :: Config
  sv_paths :: MediaPaths
  sv_cache :: ThumbnailCache
  sv_maxImagePixels :: int
  sv_imaging :: "'i imaging"
  sv_remote :: "RemoteFetcher option"
  sv_uploader :: bool
  sv_downloadUp :: bool
  sv_thumbnailUp :: bool
  sv_uploadUp :: bool
  sv_passthroughUp :: bool

abbreviation sv_media :: "'i Server \<Rightarrow> MediaConfig" where
  "sv_media s \<equiv> cfg_Media (sv_cfg s)"

definition isMine :: "'i Server \<Rightarrow> string \<Rightarrow> bool" where
  "isMine s serverName \<longleftrightarrow> serverName = cfg_ServerName (sv_cfg s)"

definition validLegacyVersion :: "string \<Rightarrow> bool" where
  "validLegacyVersion v \<longleftrightarrow> v = ''r0'' \<or> v = ''v1'' \<or> v = ''v3''"

definition internalError :: "request \<Rightarrow> string \<Rightarrow> unit io" where
  "internalError r what = do {
     log_note [''log'', ''Failed '' @ what, rq_path r];
     writeMatrixError 500 ''M_UNKNOWN'' ''Internal server error'' }"

text \<open>\<^verbatim>\<open>ServeHTTP\<close> of a proxy: the answer is Synapse's.\<close>

definition forward :: "string \<Rightarrow> unit io" where
  "forward upstream = send_reply 0 (Upstream upstream)"

definition proxyDownload :: "'i Server \<Rightarrow> request \<Rightarrow> string \<Rightarrow> unit io" where
  "proxyDownload s r reason = do {
     inc_metric ''proxied_total'' [''download'', reason];
     setProxied reason;
     (if \<not> sv_downloadUp s then respondNotFound (rq_path r) else forward ''download'') }"

definition proxyThumbnail :: "'i Server \<Rightarrow> request \<Rightarrow> string \<Rightarrow> unit io" where
  "proxyThumbnail s r reason = do {
     inc_metric ''proxied_total'' [''thumbnail'', reason];
     inc_metric ''thumbnail_outcome_total'' [outcomeProxied];
     setProxied reason;
     (if \<not> sv_thumbnailUp s then respondNotFound (rq_path r) else forward ''thumbnail'') }"

section \<open>Authentication\<close>

definition auth_lookup :: "string \<Rightarrow> tokenVerdict option io" where
  "auth_lookup key = do {
     now \<leftarrow> go_now;
     State (\<lambda>w. case tc_lookup now key (w_auth w) of (v, a) \<Rightarrow> (v, w\<lparr>w_auth := a\<rparr>)) }"

definition auth_store :: "string \<Rightarrow> tokenVerdict \<Rightarrow> unit io" where
  "auth_store key v = State (\<lambda>w. ((), w\<lparr>w_auth := tc_store key v (w_auth w)\<rparr>))"

text \<open>The exchange with Synapse: the next reply, or \<open>None\<close> where the request fails.\<close>

definition ask_whoami :: "whoami_reply option io" where
  "ask_whoami = State (\<lambda>w. (case w_whoami w of [] \<Rightarrow> None | x # _ \<Rightarrow> x, w\<lparr>w_whoami := tl (w_whoami w)\<rparr>))"

text \<open>One caller of the \<^verbatim>\<open>singleflight\<close> group runs the function; the others get its result.\<close>

definition AuthenticateAs :: "Credentials \<Rightarrow> tokenVerdict res io" where
  "AuthenticateAs creds =
     (if cr_Token creds = '''' then State_Monad.return (Inr no_verdict)
      else (let key = cred_cacheKey creds in do {
        hit \<leftarrow> auth_lookup key;
        (case hit of
           Some v \<Rightarrow> State_Monad.return (Inr v)
         | None \<Rightarrow> do {
             again \<leftarrow> auth_lookup key;
             (case again of
                Some v \<Rightarrow> State_Monad.return (Inr v)
              | None \<Rightarrow> do {
                  reply \<leftarrow> ask_whoami;
                  now \<leftarrow> go_now;
                  w \<leftarrow> State (\<lambda>w. (w, w));
                  (case callWhoami (w_auth w) now reply of
                     Inl e \<Rightarrow> State_Monad.return (Inl e)
                   | Inr v \<Rightarrow> do { auth_store key v; State_Monad.return (Inr v) }) }) }) }))"

definition Authenticate :: "string \<Rightarrow> tokenVerdict res io" where
  "Authenticate token = AuthenticateAs \<lparr>cr_Token = token, cr_UserID = '''', cr_DeviceID = '''', cr_Forwarded = []\<rparr>"

definition authenticateClient :: "request \<Rightarrow> bool io" where
  "authenticateClient r =
     (let token = ExtractToken r in
      if token = '''' then do {
        inc_metric ''auth_total'' [''missing''];
        setOutcome outcomeUnauthorized;
        writeMatrixError 401 ''M_MISSING_TOKEN'' ''Missing access token'';
        State_Monad.return False }
      else attempt (AuthenticateAs \<lparr>cr_Token = token, cr_UserID = '''', cr_DeviceID = '''', cr_Forwarded = ClientHeaders r\<rparr>)
        (\<lambda>e. do {
           inc_metric ''auth_total'' [''error''];
           log_note [''log'', ''Could not validate access token''];
           writeMatrixError 503 ''M_UNKNOWN'' ''Could not validate access token'';
           State_Monad.return False })
        (\<lambda>verdict.
           if \<not> tv_valid verdict then do {
             inc_metric ''auth_total'' [''rejected''];
             setOutcome outcomeUnauthorized;
             writeMatrixError 401 ''M_UNKNOWN_TOKEN'' ''Invalid access token passed.'';
             State_Monad.return False }
           else do {
             inc_metric ''auth_total'' [''accepted''];
             w \<leftarrow> State (\<lambda>w. (w, w));
             inc_metric ''token_cache_entries'' [show_nat (tc_Len (w_auth w))];
             annotate_user (tv_userID verdict);
             State_Monad.return True }))"

text \<open>The uploading user, or \<open>None\<close> when the request has been answered.\<close>

definition authenticateUploader :: "request \<Rightarrow> string option io" where
  "authenticateUploader r =
     (let creds = ExtractCredentials r in
      if cr_Token creds = '''' then do {
        inc_metric ''auth_total'' [''missing''];
        setOutcome outcomeUnauthorized;
        writeMatrixError 401 ''M_MISSING_TOKEN'' ''Missing access token'';
        State_Monad.return None }
      else attempt (AuthenticateAs creds)
        (\<lambda>e. do {
           inc_metric ''auth_total'' [''error''];
           log_note [''log'', ''Could not validate access token''];
           writeMatrixError 503 ''M_UNKNOWN'' ''Could not validate access token'';
           State_Monad.return None })
        (\<lambda>verdict.
           if \<not> tv_valid verdict then do {
             inc_metric ''auth_total'' [''rejected''];
             setOutcome outcomeUnauthorized;
             (case tv_rejection verdict of
                Some (code, msg) \<Rightarrow> writeMatrixError (if tv_status verdict = 0 then 403 else tv_status verdict) code msg
              | None \<Rightarrow>
                  if cr_UserID creds \<noteq> '''' then
                    writeMatrixError 403 ''M_FORBIDDEN'' ''Application service cannot masquerade as this user''
                  else writeMatrixError 401 ''M_UNKNOWN_TOKEN'' ''Invalid access token passed.'');
             State_Monad.return None }
           else do {
             inc_metric ''auth_total'' [''accepted''];
             annotate_user (tv_userID verdict);
             State_Monad.return (Some (tv_userID verdict)) }))"

section \<open>src/passthrough.go\<close>

definition mediaPrefixes :: "string list" where
  "mediaPrefixes = [''/_matrix/media/'', ''/_matrix/client/v1/media/'']"

text \<open>The regular expressions: \<open>.*\<close> matches any bytes but a newline. \<open>match_infix p q\<close> is \<^verbatim>\<open>^p.*q.*$\<close> and
  so on; a path is a list of bytes, and a rune other than a newline is one or more of them.\<close>

definition no_newline :: "string \<Rightarrow> bool" where
  "no_newline s \<longleftrightarrow> lf \<notin> set s"

definition match_exact :: "string \<Rightarrow> string \<Rightarrow> bool" where
  "match_exact p s \<longleftrightarrow> s = p"

definition match_prefix :: "string \<Rightarrow> string \<Rightarrow> bool" where
  "match_prefix p s \<longleftrightarrow> has_prefix p s \<and> no_newline (drop (length p) s)"

text \<open>\<open>p.*m.*$\<close>: the middle part occurs somewhere after the prefix.\<close>

definition match_infix :: "string \<Rightarrow> string \<Rightarrow> string \<Rightarrow> bool" where
  "match_infix p m s \<longleftrightarrow> has_prefix p s \<and> no_newline (drop (length p) s) \<and>
     list_ex (\<lambda>i. has_prefix m (drop i (drop (length p) s))) [0..<Suc (length (drop (length p) s))]"

definition match_suffix :: "string \<Rightarrow> string \<Rightarrow> string \<Rightarrow> bool" where
  "match_suffix p m s \<longleftrightarrow> has_prefix p s \<and> no_newline (drop (length p) s) \<and> has_suffix m (drop (length p) s)"

definition isMediaAdminPath :: "string \<Rightarrow> bool" where
  "isMediaAdminPath path \<longleftrightarrow>
     match_exact ''/_synapse/admin/v1/purge_media_cache'' path \<or>
     match_infix ''/_synapse/admin/v1/room/'' ''/media'' path \<or>
     match_infix ''/_synapse/admin/v1/user/'' ''/media'' path \<or>
     match_prefix ''/_synapse/admin/v1/media/'' path \<or>
     match_prefix ''/_synapse/admin/v1/quarantine_media/'' path \<or>
     match_suffix ''/_synapse/admin/v1/users/'' ''/media'' path"

definition passthroughFor :: "'i Server \<Rightarrow> request \<Rightarrow> string \<Rightarrow> unit io" where
  "passthroughFor s r reason =
     (if \<not> sv_passthroughUp s then respondNotFound (rq_path r)
      else do {
        setOutcome outcomeProxied;
        annotate_reason reason;
        inc_metric ''proxied_total'' [''passthrough'', reason];
        forward ''passthrough'' })"

definition handlePassthrough :: "'i Server \<Rightarrow> request \<Rightarrow> unit io" where
  "handlePassthrough s r = passthroughFor s r ''not_implemented''"

definition handleAdminPassthrough :: "'i Server \<Rightarrow> request \<Rightarrow> unit io" where
  "handleAdminPassthrough s r =
     (if \<not> isMediaAdminPath (rq_path r) then do {
        annotate_reason ''not_media_admin'';
        respondNotFound (rq_path r) }
      else handlePassthrough s r)"

section \<open>src/mediaconfig.go\<close>

definition mediaConfigCacheControl :: string where
  "mediaConfigCacheControl = ''no-cache, no-store, must-revalidate''"

definition mediaConfigBody :: "int \<Rightarrow> bytes" where
  "mediaConfigBody maxUploadSize =
     str_bytes (''{'' @ [quote_char] @ ''m.upload.size'' @ [quote_char] @ '':'' @ show_int maxUploadSize @ ''}'')"

definition handleMediaConfig :: "'i Server \<Rightarrow> request \<Rightarrow> unit io" where
  "handleMediaConfig s r =
     (if ProxyMediaConfig (sv_media s) then passthroughFor s r ''module_config''
      else do {
        ok \<leftarrow> authenticateClient r;
        (if \<not> ok then skip
         else (let body = mediaConfigBody (MaxUploadSizeOrDefault (sv_media s)) in do {
           setOutcome outcomeServed;
           headers_set setCORSHeaders;
           headers_set (hset ''Content-Type'' ''application/json'');
           headers_set (hset ''Cache-Control'' mediaConfigCacheControl);
           headers_set (hset ''Content-Length'' (show_nat (length body)));
           send_reply 200 (Content body) })) })"

definition handleLegacyMediaConfig :: "'i Server \<Rightarrow> request \<Rightarrow> unit io" where
  "handleLegacyMediaConfig s r =
     (if \<not> validLegacyVersion (path_value r ''version'') then respondNotFound (rq_path r)
      else handleMediaConfig s r)"

section \<open>What these calls change\<close>

text \<open>The stores: files, tables and what feeds them; time passes. An answer and an authentication leave them alone.\<close>

definition same_stores :: "world \<Rightarrow> world \<Rightarrow> bool" where
  "same_stores w w' \<longleftrightarrow> w_files w' = w_files w \<and> w_local w' = w_local w \<and> w_remote w' = w_remote w \<and>
     w_lthumbs w' = w_lthumbs w \<and> w_rthumbs w' = w_rthumbs w \<and> w_draws w' = w_draws w \<and>
     w_temps w' = w_temps w \<and> w_faults w' = w_faults w \<and> w_cancelled w' = w_cancelled w \<and>
     w_recent_local w' = w_recent_local w \<and> w_recent_remote w' = w_recent_remote w \<and> w_awaits w' = w_awaits w \<and>
     w_clock w \<le> w_clock w'"

definition answered :: "(reply \<Rightarrow> bool) \<Rightarrow> world \<Rightarrow> world \<Rightarrow> bool" where
  "answered P w w' \<longleftrightarrow> (\<exists>rp. w_replies w' = w_replies w @ [rp] \<and> P rp)"

abbreviation status_in :: "nat set \<Rightarrow> reply \<Rightarrow> bool" where
  "status_in S rp \<equiv> rp_status rp \<in> S"

lemma same_stores_refl [simp]: "same_stores w w"
  by (simp add: same_stores_def)

lemma same_stores_trans: "same_stores w v \<Longrightarrow> same_stores v u \<Longrightarrow> same_stores w u"
  by (simp add: same_stores_def)

text \<open>A refusal in the shape of the Matrix specification.\<close>

definition refusal :: "reply \<Rightarrow> bool" where
  "refusal rp \<longleftrightarrow> (\<exists>code b. rp_body rp = JsonBody ((''errcode'', JStr code) # b))"

lemma wp_writeMatrixError:
  assumes "\<And>w'. same_stores w w' \<Longrightarrow> w_auth w' = w_auth w \<Longrightarrow>
      answered (\<lambda>rp. rp_status rp = st \<and> refusal rp) w w' \<Longrightarrow> Q () w'"
  shows "wp (writeMatrixError st code msg) Q w"
  unfolding writeMatrixError_def by (simp, rule assms) (simp_all add: same_stores_def answered_def refusal_def)

lemma wp_respondNotFound:
  assumes "\<And>w'. same_stores w w' \<Longrightarrow> w_auth w' = w_auth w \<Longrightarrow>
      answered (\<lambda>rp. rp_status rp = 404 \<and> refusal rp) w w' \<Longrightarrow> Q () w'"
  shows "wp (respondNotFound p) Q w"
  unfolding respondNotFound_def by (rule wp_writeMatrixError) (rule assms)

lemma lookup_twice:
  "fst (tc_lookup t k a) = None \<Longrightarrow> fst (tc_lookup t' k (snd (tc_lookup t k a))) = None"
  by (auto simp: tc_lookup_def Let_def split: option.splits if_splits)

lemma wp_auth_lookup:
  assumes "\<And>now w'. w_clock w \<le> now \<Longrightarrow> same_stores w w' \<Longrightarrow> w_replies w' = w_replies w \<Longrightarrow> w_whoami w' = w_whoami w \<Longrightarrow>
      w_clock w' = now \<Longrightarrow> w_auth w' = snd (tc_lookup now k (w_auth w)) \<Longrightarrow> Q (fst (tc_lookup now k (w_auth w))) w'"
  shows "wp (auth_lookup k) Q w"
proof -
  have "wp go_now (\<lambda>now w'. wp (State (\<lambda>w. case tc_lookup now k (w_auth w) of (v, a) \<Rightarrow> (v, w\<lparr>w_auth := a\<rparr>))) Q w') w"
  proof -
    let ?d = "case w_ticks w of [] \<Rightarrow> 0 | n # _ \<Rightarrow> int n"
    have d: "0 \<le> ?d" by (simp split: list.splits)
    let ?w = "w\<lparr>w_clock := w_clock w + ?d, w_ticks := tl (w_ticks w)\<rparr>"
    let ?r = "tc_lookup (w_clock w + ?d) k (w_auth w)"
    have "Q (fst ?r) (?w\<lparr>w_auth := snd ?r\<rparr>)"
      by (rule assms [of "w_clock w + ?d"]) (use d in \<open>simp_all add: same_stores_def\<close>)
    then show ?thesis by (simp add: go_now_def Let_def case_prod_beta)
  qed
  then show ?thesis by (simp only: auth_lookup_def wp_bind)
qed

lemma wp_return_fun [simp]: "wp (State_Monad.return x) Q = Q x"
  by (simp add: fun_eq_iff)

text \<open>Coarser: the tables, and the files but those of \<open>P\<close>.\<close>

definition kept :: "(string \<Rightarrow> bool) \<Rightarrow> world \<Rightarrow> world \<Rightarrow> bool" where
  "kept P w w' \<longleftrightarrow> w_local w' = w_local w \<and> w_remote w' = w_remote w \<and> w_lthumbs w' = w_lthumbs w \<and>
     w_rthumbs w' = w_rthumbs w \<and> (\<forall>q. \<not> P q \<longrightarrow> w_files w' q = w_files w q) \<and>
     (w_cancelled w \<longrightarrow> w_cancelled w')"

lemma kept_refl [simp]: "kept P w w"
  by (simp add: kept_def)

lemma kept_trans [trans]: "kept P w v \<Longrightarrow> kept P v u \<Longrightarrow> kept P w u"
  by (auto simp: kept_def)

lemma kept_same_stores: "same_stores w w' \<Longrightarrow> kept P w w'"
  by (simp add: kept_def same_stores_def)

lemma kept_scratch: "at_most_scratch P w w' \<Longrightarrow> kept P w w'"
  unfolding at_most_scratch_def kept_def by (metis files_only_same(1-4) files_only_cancelled)

lemma kept_fields [simp]:
  "kept P w (w'\<lparr>w_notes := ns\<rparr>) = kept P w w'" "kept P (w\<lparr>w_notes := ns\<rparr>) w' = kept P w w'"
  "kept P w (w'\<lparr>w_clock := i, w_ticks := ts\<rparr>) = kept P w w'" "kept P w (w'\<lparr>w_draws := ds\<rparr>) = kept P w w'"
  by (simp_all add: kept_def)

text \<open>A call that reads: it may fail, and the client may have gone.\<close>

definition env_step :: "world \<Rightarrow> world \<Rightarrow> bool" where
  "env_step w w' \<longleftrightarrow> (\<exists>fs c. (w_cancelled w \<longrightarrow> c) \<and> w' = w\<lparr>w_faults := fs, w_cancelled := c\<rparr>)"

lemma env_stepI: "(w_cancelled w \<Longrightarrow> c) \<Longrightarrow> env_step w (w\<lparr>w_faults := fs, w_cancelled := c\<rparr>)"
  by (auto simp: env_step_def)

lemma env_step_refl: "env_step w w"
  by (metis env_stepI world.surjective world.update_convs(6) world.update_convs(11))

lemma env_step_trans: "env_step w v \<Longrightarrow> env_step v u \<Longrightarrow> env_step w u"
  unfolding env_step_def
proof (elim exE conjE)
  fix fs c fs' c'
  assume "w_cancelled w \<longrightarrow> c" "v = w\<lparr>w_faults := fs, w_cancelled := c\<rparr>"
    "w_cancelled v \<longrightarrow> c'" "u = v\<lparr>w_faults := fs', w_cancelled := c'\<rparr>"
  then have "(w_cancelled w \<longrightarrow> c') \<and> u = w\<lparr>w_faults := fs', w_cancelled := c'\<rparr>" by simp
  then show "\<exists>fs c. (w_cancelled w \<longrightarrow> c) \<and> u = w\<lparr>w_faults := fs, w_cancelled := c\<rparr>" by blast
qed

lemma env_step_same:
  assumes "env_step w w'"
  shows "w_files w' = w_files w" "w_local w' = w_local w" "w_remote w' = w_remote w" "w_lthumbs w' = w_lthumbs w"
    "w_rthumbs w' = w_rthumbs w" "w_draws w' = w_draws w" "w_temps w' = w_temps w" "w_replies w' = w_replies w"
    "w_hdrs w' = w_hdrs w" "w_notes w' = w_notes w" "w_clock w' = w_clock w" "w_ticks w' = w_ticks w"
    "w_fed w' = w_fed w" "w_redirects w' = w_redirects w" "w_awaits w' = w_awaits w" "w_auth w' = w_auth w" "w_whoami w' = w_whoami w"
    "w_recent_local w' = w_recent_local w" "w_recent_remote w' = w_recent_remote w"
    "kept P w w'" "w_cancelled w \<longrightarrow> w_cancelled w'"
  using assms by (auto simp: env_step_def kept_def)

lemma wp_read_call:
  assumes "\<And>v. snd (f v) = v"
    and "\<And>e w'. env_step w w' \<Longrightarrow> (e = ErrContext \<Longrightarrow> w_cancelled w') \<Longrightarrow> Q (Inl (g e)) w'"
    and "\<And>w'. env_step w w' \<Longrightarrow> Q (fst (f w')) w'"
  shows "wp (call_with g f) Q w"
proof (rule wp_call, goal_cases)
  case (1 e fs c)
  then show ?case by (intro assms(2) env_stepI) simp_all
next
  case (2 fs c)
  then show ?case
    using assms(1) [of "w\<lparr>w_faults := fs, w_cancelled := c\<rparr>"] assms(3) [OF env_stepI [of w c fs]]
    by (simp add: case_prod_beta)
qed

lemma wp_acquire:
  assumes "\<And>w'. env_step w w' \<Longrightarrow> Q (Inr ()) w'"
    and "\<And>w'. env_step w w' \<Longrightarrow> w_cancelled w' \<Longrightarrow> Q (Inl ErrContext) w'"
  shows "wp acquire Q w"
  unfolding acquire_def wp_bind
proof (rule wp_next_fault, goal_cases)
  case (1 ft fs c)
  have e: "env_step w (w\<lparr>w_faults := fs, w_cancelled := c\<rparr>)" "env_step w (w\<lparr>w_faults := fs, w_cancelled := True\<rparr>)"
    using 1 by (auto intro: env_stepI)
  show ?case
    using assms(1) [OF e(1)] assms(2) [OF e(2)] by (cases ft) simp_all
qed

text \<open>A verdict is one the cache held and that had not expired, or what Synapse has just answered.\<close>

definition vouched :: "world \<Rightarrow> Credentials \<Rightarrow> tokenVerdict \<Rightarrow> bool" where
  "vouched w creds v \<longleftrightarrow>
     (\<exists>now. w_clock w \<le> now \<and> fst (tc_lookup now (cred_cacheKey creds) (w_auth w)) = Some v) \<or>
     (\<exists>now a rep. w_whoami w \<noteq> [] \<and> hd (w_whoami w) = Some rep \<and> callWhoami a now (Some rep) = Inr v)"

lemma wp_ask_and_store:
  assumes w1: "same_stores w w1" "w_replies w1 = w_replies w" "w_whoami w1 = w_whoami w"
    and err: "\<And>e w'. same_stores w w' \<Longrightarrow> w_replies w' = w_replies w \<Longrightarrow> Q (Inl e) w'"
    and ok: "\<And>v w'. same_stores w w' \<Longrightarrow> w_replies w' = w_replies w \<Longrightarrow> vouched w creds v \<Longrightarrow> Q (Inr v) w'"
  shows "wp (do { reply \<leftarrow> ask_whoami; now \<leftarrow> go_now; w \<leftarrow> State (\<lambda>w. (w, w));
      (case callWhoami (w_auth w) now reply of
         Inl e \<Rightarrow> State_Monad.return (Inl e)
       | Inr v \<Rightarrow> do { auth_store k v; State_Monad.return (Inr v) }) }) Q w1"
proof -
  let ?rep = "case w_whoami w of [] \<Rightarrow> None | x # _ \<Rightarrow> x"
  let ?w2 = "w1\<lparr>w_whoami := tl (w_whoami w)\<rparr>"
  let ?now = "w_clock w1 + (case w_ticks w1 of [] \<Rightarrow> 0 | n # _ \<Rightarrow> int n)"
  let ?w3 = "?w2\<lparr>w_clock := ?now, w_ticks := tl (w_ticks w1)\<rparr>"
  have s3: "same_stores w ?w3" "w_replies ?w3 = w_replies w"
    using w1 by (auto simp: same_stores_def split: list.splits)
  show ?thesis
  proof (cases "callWhoami (w_auth w1) ?now ?rep")
    case (Inl e)
    then show ?thesis
      using err [OF s3] w1 by (simp add: ask_whoami_def go_now_def Let_def)
  next
    case (Inr v)
    then obtain rep where rep: "?rep = Some rep" by (cases ?rep) (simp_all add: callWhoami_def)
    then have "w_whoami w \<noteq> [] \<and> hd (w_whoami w) = Some rep" by (cases "w_whoami w") simp_all
    then have vo: "vouched w creds v" using Inr rep unfolding vouched_def by auto
    have s4: "same_stores w (?w3\<lparr>w_auth := tc_store k v (w_auth w1)\<rparr>)" using s3 by (simp add: same_stores_def)
    from ok [OF s4 _ vo] w1 Inr show ?thesis
      by (simp add: ask_whoami_def go_now_def Let_def auth_store_def)
  qed
qed

lemma wp_AuthenticateAs:
  assumes "cr_Token creds \<noteq> ''''"
    and "\<And>e w'. same_stores w w' \<Longrightarrow> w_replies w' = w_replies w \<Longrightarrow> Q (Inl e) w'"
    and "\<And>v w'. same_stores w w' \<Longrightarrow> w_replies w' = w_replies w \<Longrightarrow> vouched w creds v \<Longrightarrow> Q (Inr v) w'"
  shows "wp (AuthenticateAs creds) Q w"
proof -
  let ?k = "cred_cacheKey creds"
  show ?thesis
    unfolding AuthenticateAs_def Let_def
  proof (simp only: assms(1) if_False wp_bind, rule wp_auth_lookup, goal_cases)
    case (1 now w1)
    let ?r = "tc_lookup now ?k (w_auth w)"
    show ?case
    proof (cases "fst ?r")
      case (Some v)
      then have "vouched w creds v" unfolding vouched_def using 1(1) by blast
      then show ?thesis using assms(3) [OF 1(2,3)] Some by simp
    next
      case None
      show ?thesis
        unfolding None option.case wp_bind
      proof (rule wp_auth_lookup, goal_cases)
        case (1 now' w2)
        have n: "fst (tc_lookup now' ?k (w_auth w1)) = None"
          using lookup_twice [OF None] \<open>w_auth w1 = snd ?r\<close> by simp
        have "same_stores w w2" "w_replies w2 = w_replies w" "w_whoami w2 = w_whoami w"
          using 1(2-4) \<open>same_stores w w1\<close> \<open>w_replies w1 = w_replies w\<close> \<open>w_whoami w1 = w_whoami w\<close>
            same_stores_trans by auto
        then show ?case unfolding n option.case by (rule wp_ask_and_store) (use assms(2,3) in auto)
      qed
    qed
  qed
qed


lemma same_stores_notes [simp]:
  "same_stores w (w'\<lparr>w_notes := ns\<rparr>) = same_stores w w'" "same_stores (w\<lparr>w_notes := ns\<rparr>) w' = same_stores w w'"
  "answered P w (w'\<lparr>w_notes := ns\<rparr>) = answered P w w'" "answered P (w\<lparr>w_notes := ns\<rparr>) w' = answered P w w'"
  by (simp_all add: same_stores_def answered_def)

lemma answered_mono: "answered P w w' \<Longrightarrow> (\<And>rp. P rp \<Longrightarrow> R rp) \<Longrightarrow> answered R w w'"
  by (auto simp: answered_def)

lemma answered_after: "answered P w1 w' \<Longrightarrow> w_replies w1 = w_replies w \<Longrightarrow> answered P w w'"
  by (simp add: answered_def)

lemma authenticateUploader_cases:
  "wp (authenticateUploader r) (\<lambda>user w'. same_stores w w' \<and>
     (case user of
        None \<Rightarrow> answered refusal w w'
      | Some u \<Rightarrow> w_replies w' = w_replies w \<and> cr_Token (ExtractCredentials r) \<noteq> '''' \<and>
          (\<exists>v. vouched w (ExtractCredentials r) v \<and> tv_valid v \<and> tv_userID v = u))) w"
proof (cases "cr_Token (ExtractCredentials r) = ''''")
  case True
  show ?thesis
    unfolding authenticateUploader_def Let_def if_P [OF True]
    by (simp only: wp_bind notes_simps, rule wp_writeMatrixError) (auto elim: answered_mono)
next
  case False
  show ?thesis
    unfolding authenticateUploader_def Let_def if_not_P [OF False] wp_attempt
  proof (rule wp_AuthenticateAs [OF False], goal_cases)
    case (1 e w')
    show ?case
      unfolding sum.case wp_bind notes_simps wp_log_note
      by (rule wp_writeMatrixError) (use 1 in \<open>auto elim: answered_mono intro: same_stores_trans answered_after\<close>)
  next
    case (2 v w')
    show ?case
    proof (cases "tv_valid v")
      case True
      then show ?thesis using 2 False by auto
    next
      case invalid: False
      have refuse: "wp (writeMatrixError st code msg)
          (\<lambda>_. wp (State_Monad.return None) (\<lambda>user w'. same_stores w w' \<and>
             (case user of None \<Rightarrow> answered refusal w w'
              | Some u \<Rightarrow> w_replies w' = w_replies w \<and> cr_Token (ExtractCredentials r) \<noteq> '''' \<and>
                 (\<exists>v. vouched w (ExtractCredentials r) v \<and> tv_valid v \<and> tv_userID v = u))))
          (w'\<lparr>w_notes := ns\<rparr>)" for st code msg ns
        by (rule wp_writeMatrixError) (use 2 in \<open>auto elim: answered_mono intro: same_stores_trans answered_after\<close>)
      show ?thesis
        using invalid refuse
        by (cases "tv_rejection v"; cases "cr_UserID (ExtractCredentials r) = ''''") (simp_all add: case_prod_beta)
    qed
  qed
qed


end
