(* ===== verification/Upload.thy ===== *)
theory Upload
  imports Server
begin

text \<open>
  src/upload.go: the three upload endpoints, from the headers of the request to the file and the row.
  The bytes go to a temporary file and are hashed on the way; a synchronous upload installs the file
  and then writes its row, an asynchronous one wins its row and then installs the file. The lemmas
  follow the request through these phases; what the client is told agrees with what the store holds.
  A body that breaks off is a failing read; what had arrived by then is in a file that is thrown away.
\<close>

section \<open>Names\<close>

definition quarantinedBySystem :: string where "quarantinedBySystem = ''system''"

definition uploadEndpointSync :: string where "uploadEndpointSync = ''sync''"
definition uploadEndpointCreate :: string where "uploadEndpointCreate = ''create''"
definition uploadEndpointAsync :: string where "uploadEndpointAsync = ''async''"

definition uploadResultStored :: string where "uploadResultStored = ''stored''"
definition uploadResultReserved :: string where "uploadResultReserved = ''reserved''"
definition uploadResultTooLarge :: string where "uploadResultTooLarge = ''too_large''"
definition uploadResultLimited :: string where "uploadResultLimited = ''limited''"
definition uploadResultOverQuota :: string where "uploadResultOverQuota = ''over_quota''"
definition uploadResultForbidden :: string where "uploadResultForbidden = ''forbidden''"
definition uploadResultNotFound :: string where "uploadResultNotFound = ''not_found''"
definition uploadResultConflict :: string where "uploadResultConflict = ''conflict''"
definition uploadResultFailed :: string where "uploadResultFailed = ''failed''"
definition uploadResultProxied :: string where "uploadResultProxied = ''proxied''"

definition count_upload :: "string \<Rightarrow> string \<Rightarrow> unit io" where
  "count_upload endpoint result = inc_metric ''uploads_total'' [endpoint, result]"

definition content_uri :: "'i Server \<Rightarrow> string \<Rightarrow> string" where
  "content_uri s mediaID = ''mxc://'' @ cfg_ServerName (sv_cfg s) @ ''/'' @ mediaID"

definition uploadResponse :: "string \<Rightarrow> (string \<times> json) list" where
  "uploadResponse uri = [(''content_uri'', JStr uri)]"

definition createResponse :: "string \<Rightarrow> int \<Rightarrow> (string \<times> json) list" where
  "createResponse uri expires = [(''content_uri'', JStr uri), (''unused_expires_at'', JInt expires)]"

text \<open>The number of slots of \<^verbatim>\<open>NewUploader\<close>.\<close>

definition upload_slots :: "Config \<Rightarrow> int" where
  "upload_slots cfg = (let n = mc_MaxConcurrentUploads (cfg_Media cfg) in if n \<le> 0 then 8 else n)"

text \<open>A step that answers the request itself when it yields nothing.\<close>

definition on_some :: "'a option io \<Rightarrow> ('a \<Rightarrow> unit io) \<Rightarrow> unit io" where
  "on_some m k = do { x \<leftarrow> m; case x of None \<Rightarrow> skip | Some y \<Rightarrow> k y }"

section \<open>Replies\<close>

definition writeJSON :: "nat \<Rightarrow> (string \<times> json) list \<Rightarrow> unit io" where
  "writeJSON st body = do {
     headers_set setCORSHeaders;
     headers_set (hset ''Content-Type'' ''application/json'');
     send_reply st (JsonBody body) }"

definition writeRateLimited :: "int \<Rightarrow> unit io" where
  "writeRateLimited retryAfterMS = do {
     headers_set setCORSHeaders;
     headers_set (hset ''Content-Type'' ''application/json'');
     send_reply 429 (JsonBody [(''errcode'', JStr ''M_LIMIT_EXCEEDED''),
       (''error'', JStr ''Too many pending media uploads''), (''retry_after_ms'', JInt retryAfterMS)]) }"

definition writeUserLimitExceeded :: "MediaUploadLimit \<Rightarrow> unit io" where
  "writeUserLimitExceeded limit =
     writeMatrixErrorFields 403 ''M_USER_LIMIT_EXCEEDED'' ''Media upload limit exceeded''
       ((''info_uri'', JStr (mul_InfoURI limit)) # (if mul_CanUpgrade limit then [(''can_upgrade'', JBool True)] else []))"

text \<open>\<^verbatim>\<open>errors.Is(err, r.Context().Err())\<close>: the request's context has ended and \<open>err\<close> says so.\<close>

definition uploadFailed :: "request \<Rightarrow> string \<Rightarrow> err \<Rightarrow> string \<Rightarrow> unit io" where
  "uploadFailed r endpoint e what =
     (if e = ErrUploadTooLarge then do {
        setOutcome outcomeTooLarge;
        count_upload endpoint uploadResultTooLarge;
        writeMatrixError 413 ''M_TOO_LARGE'' ''Upload request body is too large'' }
      else do {
        gone \<leftarrow> is_cancelled;
        (if e = ErrContext \<and> gone then skip
         else do { count_upload endpoint uploadResultFailed; internalError r what }) })"

definition uploadEndpointFor :: "request \<Rightarrow> string" where
  "uploadEndpointFor r =
     (if rq_method r = ''PUT'' then uploadEndpointAsync
      else if has_suffix ''/create'' (rq_path r) then uploadEndpointCreate
      else uploadEndpointSync)"

definition proxyUpload :: "'i Server \<Rightarrow> request \<Rightarrow> string \<Rightarrow> unit io" where
  "proxyUpload s r reason = do {
     inc_metric ''proxied_total'' [''upload'', reason];
     count_upload (uploadEndpointFor r) uploadResultProxied;
     setProxied reason;
     (if sv_uploadUp s then forward ''upload''
      else if sv_downloadUp s then forward ''download''
      else respondNotFound (rq_path r)) }"

definition respondUploaded :: "'i Server \<Rightarrow> string \<Rightarrow> string \<Rightarrow> int \<Rightarrow> string \<Rightarrow> unit io" where
  "respondUploaded s endpoint mediaID len quarantinedBy = do {
     setMedia '''' mediaID;
     (if quarantinedBy \<noteq> '''' then annotate_reason ''hash_quarantined'' else skip);
     setOutcome outcomeUploaded;
     count_upload endpoint uploadResultStored;
     inc_metric ''uploaded_bytes_total'' [show_int len];
     writeJSON 200 (uploadResponse (content_uri s mediaID)) }"

section \<open>The request's headers\<close>

definition uploadMetadata :: "'i Server \<Rightarrow> request \<Rightarrow> (string \<times> string \<times> int) option io" where
  "uploadMetadata s r =
     (let raw = rheader r ''Content-Length'' in
      if raw = '''' then do {
        writeMatrixError 400 ''M_UNKNOWN'' ''Request must specify a Content-Length'';
        State_Monad.return None }
      else (case parse_int64 raw of
        None \<Rightarrow> do {
          writeMatrixError 400 ''M_UNKNOWN'' ''Content-Length value is invalid'';
          State_Monad.return None }
      | Some len \<Rightarrow>
          (if len < 0 then do {
             writeMatrixError 400 ''M_UNKNOWN'' ''Content-Length value is invalid'';
             State_Monad.return None }
           else if len > MaxUploadSizeOrDefault (sv_media s) then do {
             setOutcome outcomeTooLarge;
             writeMatrixError 413 ''M_TOO_LARGE'' ''Upload request body is too large'';
             State_Monad.return None }
           else State_Monad.return (Some
             ((let t = rheader r ''Content-Type'' in if t = '''' then ''application/octet-stream'' else t),
              query_get (url_query r) ''filename'', len)))))"

section \<open>The bytes\<close>

record storedUpload =
  su_path :: string
  su_tmpPath :: string
  su_length :: int
  su_sha256 :: string

definition su_commit :: "storedUpload \<Rightarrow> storedUpload res io" where
  "su_commit st =
     attempt (os_rename (su_tmpPath st) (su_path st))
       (\<lambda>e. do { discard_file (su_tmpPath st); State_Monad.return (Inl e) })
       (\<lambda>_. State_Monad.return (Inr (st\<lparr>su_tmpPath := ''''\<rparr>)))"

definition su_discard :: "storedUpload \<Rightarrow> storedUpload io" where
  "su_discard st =
     (if su_tmpPath st \<noteq> '''' then do {
        discard_file (su_tmpPath st); State_Monad.return (st\<lparr>su_tmpPath := ''''\<rparr>) }
      else State_Monad.return st)"

definition body_err :: "err \<Rightarrow> err" where
  "body_err e = (if e = ErrContext then ErrContext else ErrIO)"

text \<open>\<^verbatim>\<open>io.LimitReader(r.Body, n)\<close>: at most \<open>n\<close> bytes, none where \<open>n\<close> is not positive.\<close>

definition read_limited :: "request \<Rightarrow> int \<Rightarrow> bytes res io" where
  "read_limited r n = call_with body_err (\<lambda>w. (Inr (take (nat n) (rq_body r)), w))"

abbreviation failed :: "err \<Rightarrow> 'a res io" where
  "failed e \<equiv> State_Monad.return (Inl e)"

text \<open>\<^verbatim>\<open>store\<close>; its cleanup is \<open>close_discard\<close>, and its end the one of \<^verbatim>\<open>writeFileAtomic\<close>.\<close>

definition upload_store :: "'i Server \<Rightarrow> request \<Rightarrow> string \<Rightarrow> storedUpload res io" where
  "upload_store s r mediaID =
     attempt acquire failed (\<lambda>_.
     attempt (State_Monad.return (LocalMedia (sv_paths s) mediaID)) failed (\<lambda>path.
     attempt (State_Monad.return (WritablePath (sv_paths s) path)) failed (\<lambda>_.
     attempt (os_mkdir_all (path_dir path)) failed (\<lambda>_.
     attempt (CreateTemp (sv_paths s) path ''.incoming-'') failed (\<lambda>tmp.
     (let max = MaxUploadSizeOrDefault (sv_media s) in
     attempt (read_limited r (wrap64 (max + 1))) (\<lambda>e. do { close_discard tmp; failed e }) (\<lambda>data.
     attempt (os_write tmp data) (\<lambda>e. do { close_discard tmp; failed e }) (\<lambda>_.
     if int (length data) > max then do { close_discard tmp; failed ErrUploadTooLarge }
     else attempt (finish_temp tmp) failed (\<lambda>_.
     State_Monad.return (Inr \<lparr>su_path = path, su_tmpPath = tmp, su_length = int (length data),
       su_sha256 = sha256_hex data\<rparr>))))))))))"

definition quarantineFor :: "string \<Rightarrow> string res io" where
  "quarantineFor sha256hex =
     attempt (IsHashQuarantined sha256hex) (\<lambda>e. State_Monad.return (Inl e)) (\<lambda>quarantined.
     State_Monad.return (Inr (if quarantined then quarantinedBySystem else '''')))"

section \<open>Limits\<close>

text \<open>The loop of \<^verbatim>\<open>evaluateUploadLimits\<close>; \<open>used\<close> and \<open>measured\<close> are its variables.\<close>

fun limits_loop ::
  "MediaUploadLimit list \<Rightarrow> int \<Rightarrow> int \<Rightarrow> (int \<Rightarrow> int res io) \<Rightarrow> int \<Rightarrow> bool \<Rightarrow> MediaUploadLimit option res io" where
  "limits_loop [] len now usage used measured = State_Monad.return (Inr None)"
| "limits_loop (limit # ls) len now usage used measured =
     (if \<not> measured \<or> wrap64 (used + len) > mul_MaxBytes limit then
        attempt (usage (unix_milli (now + wrap64 (- mul_Window limit)))) failed (\<lambda>used'.
          if wrap64 (used' + len) > mul_MaxBytes limit then State_Monad.return (Inr (Some limit))
          else limits_loop ls len now usage used' True)
      else limits_loop ls len now usage used measured)"

definition evaluateUploadLimits ::
  "MediaUploadLimit list \<Rightarrow> int \<Rightarrow> int \<Rightarrow> (int \<Rightarrow> int res io) \<Rightarrow> MediaUploadLimit option res io" where
  "evaluateUploadLimits limits len now usage = limits_loop limits len now usage 0 False"

definition exceededLimit :: "'i Server \<Rightarrow> string \<Rightarrow> int \<Rightarrow> MediaUploadLimit option res io" where
  "exceededLimit s userID len = do {
     now \<leftarrow> go_now;
     evaluateUploadLimits (UploadLimits (sv_media s)) len now (UploadedSizeForUser userID) }"

definition withinUploadLimits :: "'i Server \<Rightarrow> request \<Rightarrow> string \<Rightarrow> string \<Rightarrow> storedUpload \<Rightarrow> bool io" where
  "withinUploadLimits s r endpoint user stored =
     attempt (exceededLimit s user (su_length stored))
       (\<lambda>e. do {
          _ \<leftarrow> su_discard stored;
          uploadFailed r endpoint e ''checking media upload limits'';
          State_Monad.return False })
       (\<lambda>limit. case limit of
          None \<Rightarrow> State_Monad.return True
        | Some l \<Rightarrow> do {
            _ \<leftarrow> su_discard stored;
            setOutcome outcomeOverQuota;
            count_upload endpoint uploadResultOverQuota;
            log_note [''log'', ''Refused an upload over the user's media upload limit'', user];
            writeUserLimitExceeded l;
            State_Monad.return False })"

section \<open>Thumbnails of uploads\<close>

definition synapseDefaultThumbnailSizes :: "(int \<times> int \<times> string) list" where
  "synapseDefaultThumbnailSizes =
     [(32, 32, methodCrop), (96, 96, methodCrop), (320, 240, methodScale), (640, 480, methodScale),
      (800, 600, methodScale)]"

definition synapseThumbnailType :: "string \<Rightarrow> string option" where
  "synapseThumbnailType sourceType =
     (let t = baseMediaType sourceType in
      if t = ''image/jpeg'' \<or> t = ''image/jpg'' \<or> t = ''image/webp'' then Some typeJPEG
      else if t = ''image/gif'' \<or> t = ''image/png'' then Some typePNG
      else None)"

text \<open>One turn of the loop; every failure but the last ends it with \<^verbatim>\<open>continue\<close>.\<close>

definition upload_thumbnail ::
  "'i Server \<Rightarrow> string \<Rightarrow> string \<Rightarrow> string \<Rightarrow> string \<Rightarrow> int \<times> int \<times> string \<Rightarrow> unit io" where
  "upload_thumbnail s mediaID srcPath mediaType outputType dims =
     (let req = \<lparr>tq_Width = fst dims, tq_Height = fst (snd dims), tq_Method = snd (snd dims),
                 tq_Animated = False, tq_Type = outputType\<rparr> in
      attempt (Generate (sv_imaging s) (sv_maxImagePixels s) srcPath mediaType req) (\<lambda>_. skip) (\<lambda>data.
      attempt (State_Monad.return (LocalThumbnail (sv_paths s) mediaID (tq_Width req) (tq_Height req)
          (tq_Type req) (tq_Method req))) (\<lambda>_. skip) (\<lambda>path.
      attempt (State_Monad.return (WritablePath (sv_paths s) path)) (\<lambda>_. skip) (\<lambda>_.
      attempt (os_mkdir_all (path_dir path)) (\<lambda>_. skip) (\<lambda>_.
      attempt (writeFileAtomic (sv_paths s) path data) (\<lambda>_. skip) (\<lambda>_. do {
        info \<leftarrow> os_stat path;
        let len = (case info of Inr n \<Rightarrow> n | Inl _ \<Rightarrow> int (length data));
        _ \<leftarrow> StoreLocalThumbnail mediaID
          \<lparr>tn_Width = tq_Width req, tn_Height = tq_Height req, tn_Type = tq_Type req,
           tn_Method = tq_Method req, tn_Length = len, tn_FilesystemID = ''''\<rparr>;
        skip }))))))"

fun upload_thumbnails ::
  "'i Server \<Rightarrow> string \<Rightarrow> string \<Rightarrow> string \<Rightarrow> string \<Rightarrow> (int \<times> int \<times> string) list \<Rightarrow> unit io" where
  "upload_thumbnails s mediaID srcPath mediaType outputType [] = skip"
| "upload_thumbnails s mediaID srcPath mediaType outputType (d # sizes) = do {
     upload_thumbnail s mediaID srcPath mediaType outputType d;
     upload_thumbnails s mediaID srcPath mediaType outputType sizes }"

definition generateUploadThumbnails :: "'i Server \<Rightarrow> string \<Rightarrow> string \<Rightarrow> string \<Rightarrow> unit io" where
  "generateUploadThumbnails s mediaID srcPath mediaType =
     (case synapseThumbnailType mediaType of
        None \<Rightarrow> skip
      | Some outputType \<Rightarrow>
          upload_thumbnails s mediaID srcPath mediaType outputType synapseDefaultThumbnailSizes)"

text \<open>The goroutine is noted where it is started; it runs \<open>generateUploadThumbnails\<close> at any time after.\<close>

definition maybeThumbnail :: "'i Server \<Rightarrow> string \<Rightarrow> string \<Rightarrow> string \<Rightarrow> unit io" where
  "maybeThumbnail s mediaID srcPath mediaType =
     (if mc_UploadThumbnails (sv_media s) \<noteq> uploadThumbnailsSynapse then skip
      else log_note [''go'', ''generateUploadThumbnails'', mediaID, srcPath, mediaType])"

section \<open>The endpoints\<close>

text \<open>The part the two endpoints share: the body, the quarantine of its hash, the user's limits.\<close>

definition receive_upload ::
  "'i Server \<Rightarrow> request \<Rightarrow> string \<Rightarrow> string \<Rightarrow> string \<Rightarrow> (storedUpload \<Rightarrow> string \<Rightarrow> unit io) \<Rightarrow> unit io" where
  "receive_upload s r endpoint user mediaID k =
     attempt (upload_store s r mediaID)
       (\<lambda>e. uploadFailed r endpoint e ''storing upload'') (\<lambda>stored.
     attempt (quarantineFor (su_sha256 stored))
       (\<lambda>e. do { _ \<leftarrow> su_discard stored; uploadFailed r endpoint e ''checking quarantined hashes'' })
       (\<lambda>quarantinedBy. do {
     ok \<leftarrow> withinUploadLimits s r endpoint user stored;
     (if \<not> ok then skip else k stored quarantinedBy) }))"

text \<open>The end of a synchronous upload: the file, and then its row.\<close>

definition record_upload ::
  "'i Server \<Rightarrow> request \<Rightarrow> string \<Rightarrow> string \<Rightarrow> string \<times> string \<times> int \<Rightarrow> storedUpload \<Rightarrow> string \<Rightarrow> unit io" where
  "record_upload s r user mediaID meta stored quarantinedBy =
     attempt (su_commit stored)
       (\<lambda>e. uploadFailed r uploadEndpointSync e ''installing upload'') (\<lambda>stored. do {
     t \<leftarrow> go_now;
     let media = \<lparr>lm_MediaID = mediaID, lm_MediaType = fst meta, lm_Length = Some (su_length stored),
            lm_UploadName = fst (snd meta), lm_QuarantinedBy = '''', lm_URLCache = '''',
            lm_Authenticated = False, lm_CreatedTS = unix_milli t, lm_UserID = user\<rparr>;
     attempt (StoreLocalMedia media (su_sha256 stored) (AuthenticatedMedia (sv_media s)) quarantinedBy)
       (\<lambda>e. do { discard_file (su_path stored); uploadFailed r uploadEndpointSync e ''recording upload'' })
       (\<lambda>_. do {
          maybeThumbnail s mediaID (su_path stored) (fst meta);
          respondUploaded s uploadEndpointSync mediaID (su_length stored) quarantinedBy }) })"

definition handleUpload :: "'i Server \<Rightarrow> request \<Rightarrow> unit io" where
  "handleUpload s r =
     (if \<not> validLegacyVersion (path_value r ''version'') then respondNotFound (rq_path r)
      else if \<not> sv_uploader s then proxyUpload s r ''uploads_disabled''
      else on_some (authenticateUploader r) (\<lambda>user.
           on_some (uploadMetadata s r) (\<lambda>meta.
           on_some fresh_id (\<lambda>mediaID.
           receive_upload s r uploadEndpointSync user mediaID (record_upload s r user mediaID meta)))))"

definition handleCreateMedia :: "'i Server \<Rightarrow> request \<Rightarrow> unit io" where
  "handleCreateMedia s r =
     (if \<not> sv_uploader s then proxyUpload s r ''uploads_disabled''
      else on_some (authenticateUploader r) (\<lambda>user. do {
      t \<leftarrow> go_now;
      let expiry = mc_UnusedExpirationTime (sv_media s);
      attempt (CountPendingMedia user (unix_milli (t + wrap64 (- expiry))))
        (\<lambda>e. internalError r ''counting pending media'') (\<lambda>(pending, oldest).
      if mc_MaxPendingMediaUploads (sv_media s) > 0 \<and> pending \<ge> mc_MaxPendingMediaUploads (sv_media s) then do {
        t \<leftarrow> go_now;
        let after = wrap64 (wrap64 (oldest + milliseconds expiry) - unix_milli t);
        setOutcome outcomeLimited;
        count_upload uploadEndpointCreate uploadResultLimited;
        writeRateLimited (if after < 0 then 0 else after) }
      else on_some fresh_id (\<lambda>mediaID. do {
        t \<leftarrow> go_now;
        let now = unix_milli t;
        attempt (StoreLocalMediaID mediaID now user (AuthenticatedMedia (sv_media s)))
          (\<lambda>e. internalError r ''reserving media id'') (\<lambda>_. do {
        setMedia '''' mediaID;
        setOutcome outcomeReserved;
        count_upload uploadEndpointCreate uploadResultReserved;
        inc_metric ''pending_media_reserved_total'' [];
        writeJSON 200 (createResponse (content_uri s mediaID) (wrap64 (now + milliseconds expiry))) }) })) }))"


text \<open>The checks of Synapse's \<^verbatim>\<open>verify_can_upload\<close>, in its order: unknown, ownership, already uploaded,
  expired. \<open>Some\<close> is the row of a media ID the user may still upload to.\<close>

definition verify_can_upload :: "'i Server \<Rightarrow> request \<Rightarrow> string \<Rightarrow> string \<Rightarrow> local_media option io" where
  "verify_can_upload s r mediaID user =
     attempt (GetLocalMedia mediaID)
       (\<lambda>e. if e = ErrNotFound then do {
              count_upload uploadEndpointAsync uploadResultNotFound;
              writeMatrixError 404 ''M_NOT_FOUND'' ''Unknown media ID'';
              State_Monad.return None }
            else do { internalError r ''looking up media id''; State_Monad.return None })
       (\<lambda>media.
          if lm_UserID media \<noteq> user then do {
            count_upload uploadEndpointAsync uploadResultForbidden;
            writeMatrixError 403 ''M_FORBIDDEN'' ''Only the creator of the media ID can upload to it'';
            State_Monad.return None }
          else if lm_Length media \<noteq> None then do {
            count_upload uploadEndpointAsync uploadResultConflict;
            writeMatrixError 409 ''M_CANNOT_OVERWRITE_MEDIA'' ''Media ID already has content'';
            State_Monad.return None }
          else do {
            t \<leftarrow> go_now;
            (if lm_CreatedTS media < unix_milli (t + wrap64 (- mc_UnusedExpirationTime (sv_media s))) then do {
               count_upload uploadEndpointAsync uploadResultNotFound;
               writeMatrixError 404 ''M_NOT_FOUND'' ''Media ID has expired'';
               State_Monad.return None }
             else State_Monad.return (Some media)) })"

text \<open>The end of an asynchronous upload: the row is won, and then the file installed.\<close>

definition complete_upload ::
  "'i Server \<Rightarrow> request \<Rightarrow> string \<Rightarrow> string \<times> string \<times> int \<Rightarrow> storedUpload \<Rightarrow> string \<Rightarrow> unit io" where
  "complete_upload s r mediaID meta stored quarantinedBy =
     attempt (CompleteLocalMedia mediaID (fst meta) (fst (snd meta)) (su_length stored) (su_sha256 stored) quarantinedBy)
       (\<lambda>e. do { _ \<leftarrow> su_discard stored; uploadFailed r uploadEndpointAsync e ''completing upload'' })
       (\<lambda>won.
      if \<not> won then do {
        _ \<leftarrow> su_discard stored;
        count_upload uploadEndpointAsync uploadResultConflict;
        writeMatrixError 409 ''M_CANNOT_OVERWRITE_MEDIA'' ''Media ID already has content'' }
      else attempt (su_commit stored)
       (\<lambda>e. do {
          log_note [''log'', ''Completed the row but could not install the file; media will 404'', mediaID];
          uploadFailed r uploadEndpointAsync e ''installing upload'' })
       (\<lambda>stored. do {
          maybeThumbnail s mediaID (su_path stored) (fst meta);
          respondUploaded s uploadEndpointAsync mediaID (su_length stored) quarantinedBy }))"

definition handleAsyncUpload :: "'i Server \<Rightarrow> request \<Rightarrow> unit io" where
  "handleAsyncUpload s r =
     (if \<not> validLegacyVersion (path_value r ''version'') then respondNotFound (rq_path r)
      else if \<not> sv_uploader s then proxyUpload s r ''uploads_disabled''
      else let serverName = path_value r ''serverName''; mediaID = path_value r ''mediaId'' in do {
      setMedia '''' mediaID;
      (if \<not> isMine s serverName then do {
         count_upload uploadEndpointAsync uploadResultNotFound;
         writeMatrixError 404 ''M_NOT_FOUND'' ''Non-local server name specified'' }
       else on_some (authenticateUploader r) (\<lambda>user.
            on_some (verify_can_upload s r mediaID user) (\<lambda>media.
            on_some (uploadMetadata s r) (\<lambda>meta.
            receive_upload s r uploadEndpointAsync user mediaID (complete_upload s r mediaID meta))))) })"

end
