(* ===== verification/Upload_Correct.thy ===== *)
theory Upload_Correct
  imports Upload
begin

text \<open>
  What the upload endpoints do to the store: the phases of a request, and a contract for each
  endpoint over every world, so over every sequence of failures and every client that goes away.
\<close>

section \<open>Phases\<close>

abbreviation incoming :: "string \<Rightarrow> bool" where
  "incoming \<equiv> scratch_name ''.incoming-''"

text \<open>Nothing has been done but to temporary files, and nothing said.\<close>

definition idle :: "world \<Rightarrow> world \<Rightarrow> bool" where
  "idle w w' \<longleftrightarrow> kept incoming w w' \<and> w_replies w' = w_replies w"

text \<open>The request is over with nothing done: it has been refused once, or the client has gone.\<close>

definition refused :: "world \<Rightarrow> world \<Rightarrow> bool" where
  "refused w w' \<longleftrightarrow> kept incoming w w' \<and>
     (answered refusal w w' \<or> w_replies w' = w_replies w \<and> w_cancelled w')"

lemma idle_trans: "idle w v \<Longrightarrow> idle v u \<Longrightarrow> idle w u"
  by (auto simp: idle_def intro: kept_trans)

lemma idle_refused: "idle w v \<Longrightarrow> refused v u \<Longrightarrow> refused w u"
  by (auto simp: idle_def refused_def answered_def intro: kept_trans)

lemma idle_refl [simp]: "idle w w"
  by (simp add: idle_def)

lemma idle_env: "env_step w w' \<Longrightarrow> idle w w'"
  by (simp add: idle_def env_step_same)

lemma idle_same_stores: "same_stores w w' \<Longrightarrow> w_replies w' = w_replies w \<Longrightarrow> idle w w'"
  by (simp add: idle_def kept_same_stores)

lemma idle_files: "files_only w w' \<Longrightarrow> (\<And>q. \<not> incoming q \<Longrightarrow> w_files w' q = w_files w q) \<Longrightarrow> idle w w'"
  by (simp add: idle_def files_only_same kept_scratch at_most_scratch_def)

lemma refused_same_stores: "same_stores w w' \<Longrightarrow> answered refusal w w' \<Longrightarrow> refused w w'"
  by (simp add: refused_def kept_same_stores)

lemma idle_fields [simp]:
  "idle w (w'\<lparr>w_notes := ns\<rparr>) = idle w w'" "idle w (w'\<lparr>w_clock := i, w_ticks := ts\<rparr>) = idle w w'"
  "idle w (w'\<lparr>w_draws := ds\<rparr>) = idle w w'" "idle (w\<lparr>w_notes := ns\<rparr>) w' = idle w w'"
  "refused (w\<lparr>w_notes := ns\<rparr>) w' = refused w w'"
  by (simp_all add: idle_def refused_def)

lemma wp_refuse:
  assumes "idle w w1" "\<And>w'. refused w w' \<Longrightarrow> Q () w'"
  shows "wp (writeMatrixError st code msg) Q w1"
  by (rule wp_writeMatrixError)
    (auto intro!: assms(2) idle_refused [OF assms(1)] refused_same_stores elim: answered_mono)

lemma wp_on_some [simp]:
  "wp (on_some m k) Q w = wp m (\<lambda>x. case x of None \<Rightarrow> Q () | Some y \<Rightarrow> wp (k y) Q) w"
  unfolding on_some_def wp_bind by (rule arg_cong [of _ _ "\<lambda>P. wp m P w"]) (auto simp: fun_eq_iff split: option.splits)

lemma wp_count_upload [simp]:
  "wp (count_upload a b) Q w = Q () (w\<lparr>w_notes := w_notes w @ [[''metric'', ''uploads_total'', a, b]]\<rparr>)"
  by (simp add: count_upload_def)

lemma wp_uploadFailed:
  assumes "idle w w1" "\<And>w'. refused w w' \<Longrightarrow> Q () w'"
  shows "wp (uploadFailed r endpoint e what) Q w1"
proof (cases "e = ErrUploadTooLarge")
  case True
  show ?thesis
    unfolding uploadFailed_def if_P [OF True]
    by (simp only: wp_bind notes_simps wp_count_upload, rule wp_refuse [of w]) (simp_all add: assms)
next
  case False
  show ?thesis
  proof (cases "e = ErrContext \<and> w_cancelled w1")
    case True
    then have "refused w w1" using assms(1) by (simp add: refused_def idle_def)
    then show ?thesis using assms(2) True by (simp add: uploadFailed_def)
  next
    case e: False
    have "wp (writeMatrixError 500 ''M_UNKNOWN'' ''Internal server error'') Q (w1\<lparr>w_notes := ns\<rparr>)" for ns
      by (rule wp_refuse [of w]) (simp_all add: assms)
    then show ?thesis
      using False e by (auto simp: uploadFailed_def internalError_def)
  qed
qed

section \<open>The bytes\<close>

lemma temp_idle: "temp_phase w tmp w' \<Longrightarrow> incoming tmp \<Longrightarrow> idle w w'"
  by (rule idle_files) (auto simp: temp_phase_def)

lemma wp_su_discard:
  assumes "idle w w1" "incoming (su_tmpPath st)" "\<And>st' w'. idle w w' \<Longrightarrow> Q st' w'"
  shows "wp (su_discard st) Q w1"
proof -
  have t: "temp_phase w1 (su_tmpPath st) w1" by (simp add: temp_phase_def files_only_refl)
  have "wp (discard_file (su_tmpPath st)) (\<lambda>_. Q st') w1" for st'
    by (rule wp_discard_tmp [OF t]) (intro assms(3) idle_trans [OF assms(1)] temp_idle [OF _ assms(2)])
  then show ?thesis
    using assms(1,3) by (simp add: su_discard_def)
qed

lemma wp_su_commit:
  assumes "w_files w (su_tmpPath st) = Some f" "incoming (su_tmpPath st)"
    and err: "\<And>e w'. idle w w' \<Longrightarrow> Q (Inl e) w'"
    and ok: "\<And>st' w'. su_path st' = su_path st \<Longrightarrow> su_length st' = su_length st \<Longrightarrow> su_sha256 st' = su_sha256 st \<Longrightarrow>
      files_only w w' \<Longrightarrow> w_files w' = (w_files w)(su_tmpPath st := None, su_path st := Some f) \<Longrightarrow> Q (Inr st') w'"
  shows "wp (su_commit st) Q w"
  unfolding su_commit_def wp_attempt os_rename_def
proof (rule wp_call, goal_cases)
  case (1 e fs c)
  let ?w = "w\<lparr>w_faults := fs, w_cancelled := c\<rparr>"
  have t: "temp_phase ?w (su_tmpPath st) ?w" by (simp add: temp_phase_def files_only_refl)
  have "idle w ?w" using 1 by (intro idle_env env_stepI)
  then show ?case
    unfolding sum.case wp_bind
    by (intro wp_discard_tmp [OF t]) (simp, intro err idle_trans [OF \<open>idle w ?w\<close>] temp_idle [OF _ assms(2)])
next
  case (2 fs c)
  then show ?case
    using assms(1) by (auto intro!: ok files_only_upd(2))
qed

lemma temp_phase_env_step: "temp_phase w0 tmp w \<Longrightarrow> env_step w w' \<Longrightarrow> temp_phase w0 tmp w' \<and> w_files w' = w_files w"
  by (auto simp: env_step_def intro: temp_phase_env(1))

lemma wp_mkdir_env:
  assumes "\<And>r w'. env_step w w' \<Longrightarrow> Q r w'"
  shows "wp (os_mkdir_all d) Q w"
  unfolding os_mkdir_all_def by (rule wp_read_call) (auto intro: assms)

lemma wp_read_limited:
  assumes "\<And>e w'. env_step w w' \<Longrightarrow> Q (Inl e) w'"
    and "\<And>w'. env_step w w' \<Longrightarrow> Q (Inr (take (nat n) (rq_body r))) w'"
  shows "wp (read_limited r n) Q w"
  unfolding read_limited_def by (rule wp_read_call) (auto intro: assms)

definition arrived :: "'i Server \<Rightarrow> request \<Rightarrow> bytes" where
  "arrived s r = take (nat (wrap64 (MaxUploadSizeOrDefault (sv_media s) + 1))) (rq_body r)"

text \<open>A temporary file that is ready: complete, synced, readable by all.\<close>

definition staged :: "'i Server \<Rightarrow> request \<Rightarrow> string \<Rightarrow> storedUpload \<Rightarrow> world \<Rightarrow> bool" where
  "staged s r mediaID st w \<longleftrightarrow>
     LocalMedia (sv_paths s) mediaID = Inr (su_path st) \<and> WritablePath (sv_paths s) (su_path st) = Inr () \<and>
     int (length (arrived s r)) \<le> MaxUploadSizeOrDefault (sv_media s) \<and> incoming (su_tmpPath st) \<and>
     su_length st = int (length (arrived s r)) \<and> su_sha256 st = sha256_hex (arrived s r) \<and>
     w_files w (su_tmpPath st) = Some \<lparr>f_bytes = arrived s r, f_mode = 420, f_synced = True\<rparr>"

lemma wp_quit_incoming:
  assumes "temp_phase w1 tmp w" "idle w0 w1" "incoming tmp" "\<And>w'. idle w0 w' \<Longrightarrow> Q (Inl e) w'"
  shows "wp (close_discard tmp) (\<lambda>a. wp (failed e) Q) w"
  by (rule wp_quit(1) [OF assms(1)]) (intro assms(4) idle_trans [OF assms(2)] temp_idle [OF _ assms(3)])

text \<open>The body into the fresh temporary file: what is staged once every call has gone through.\<close>

lemma wp_upload_fill:
  assumes err: "\<And>e w'. idle w w' \<Longrightarrow> Q (Inl e) w'"
    and ok: "\<And>st w'. idle w w' \<Longrightarrow> staged s r mediaID st w' \<Longrightarrow> Q (Inr st) w'"
    and path: "LocalMedia (sv_paths s) mediaID = Inr path" "WritablePath (sv_paths s) path = Inr ()"
    and w1: "idle w w1" and tmp: "incoming tmp" "temp_phase w1 tmp w2"
      "w_files w2 tmp = Some \<lparr>f_bytes = [], f_mode = 384, f_synced = False\<rparr>"
  shows "wp (attempt (read_limited r (wrap64 (MaxUploadSizeOrDefault (sv_media s) + 1))) (\<lambda>e. do { close_discard tmp; failed e }) (\<lambda>data.
     attempt (os_write tmp data) (\<lambda>e. do { close_discard tmp; failed e }) (\<lambda>_.
     if int (length data) > MaxUploadSizeOrDefault (sv_media s) then do { close_discard tmp; failed ErrUploadTooLarge }
     else attempt (finish_temp tmp) failed (\<lambda>_.
     State_Monad.return (Inr \<lparr>su_path = path, su_tmpPath = tmp, su_length = int (length data),
       su_sha256 = sha256_hex data\<rparr>))))) Q w2"
  unfolding wp_attempt [of "read_limited r n" for n]
proof (rule wp_read_limited, goal_cases)
  case (1 e w3)
  then show ?case
    unfolding sum.case wp_bind using temp_phase_env_step [OF tmp(2)] by (intro wp_quit_incoming [OF _ w1 tmp(1)] err) auto
next
  case (2 w3)
  then have w3: "temp_phase w1 tmp w3" "w_files w3 tmp = Some \<lparr>f_bytes = [], f_mode = 384, f_synced = False\<rparr>"
    using temp_phase_env_step [OF tmp(2)] tmp(3) by auto
  show ?case
    unfolding sum.case wp_attempt [of "os_write tmp d" for d] arrived_def [symmetric]
  proof (rule wp_write_tmp [OF w3(1)], goal_cases)
    case (1 e w4)
    then show ?case unfolding sum.case wp_bind by (intro wp_quit_incoming [OF _ w1 tmp(1)] err)
  next
    case (2 f w4)
    show ?case
    proof (cases "int (length (arrived s r)) > MaxUploadSizeOrDefault (sv_media s)")
      case True
      show ?thesis
        unfolding sum.case if_P [OF True] wp_bind by (rule wp_quit_incoming [OF 2(2) w1 tmp(1)]) (rule err)
    next
      case False
      show ?thesis
        unfolding sum.case if_not_P [OF False] wp_attempt [of "finish_temp tmp"]
        by (rule wp_finish_temp [OF 2(2,3)])
          (use idle_trans [OF w1 temp_idle [OF _ tmp(1)]] path tmp(1) False \<open>w_files w3 tmp = Some f\<close> w3(2) err
            in \<open>auto intro!: ok simp: staged_def\<close>)
    qed
  qed
qed

lemma wp_attempt_pure:
  assumes "\<And>e. x = Inl e \<Longrightarrow> wp (f e) Q w" "\<And>a. x = Inr a \<Longrightarrow> wp (k a) Q w"
  shows "wp (attempt (State_Monad.return x) f k) Q w"
  using assms by (cases x) simp_all

lemma wp_upload_store:
  assumes err: "\<And>e w'. idle w w' \<Longrightarrow> Q (Inl e) w'"
    and ok: "\<And>st w'. idle w w' \<Longrightarrow> staged s r mediaID st w' \<Longrightarrow> Q (Inr st) w'"
  shows "wp (upload_store s r mediaID) Q w"
proof -
  have fails: "wp (failed e) Q v" if "idle w v" for e v
    using that by (simp add: err)
  show ?thesis
    unfolding upload_store_def Let_def wp_attempt [of acquire]
  proof (rule wp_acquire, unfold sum.case, rule wp_attempt_pure, rule fails [OF idle_env], assumption,
      rule wp_attempt_pure, rule fails [OF idle_env], assumption, unfold wp_attempt [of "os_mkdir_all d" for d],
      rule wp_mkdir_env, goal_cases)
    case (1 w1 path u res w2)
    then have w2: "idle w w2" using idle_trans [OF idle_env idle_env] by blast
    show ?case
    proof (cases res)
      case (Inl e)
      then show ?thesis using fails [OF w2] by simp
    next
      case (Inr v)
      show ?thesis
        unfolding Inr sum.case wp_attempt [of "CreateTemp p q x" for p q x]
      proof (rule wp_CreateTemp, goal_cases)
        case (1 e w3)
        then have "idle w w3" by (intro idle_trans [OF w2 idle_files]) simp_all
        then show ?case by (simp add: err)
      next
        case (2 tmp w3)
        then show ?case
          unfolding sum.case by (intro wp_upload_fill [OF err ok 1(2) _ w2] temp_of_scratch) (simp_all add: 1(3))
      qed
    qed
  next
    case (2 w1)
    then show ?case by (auto intro: err idle_env)
  qed
qed

section \<open>Quarantine and limits\<close>

lemma idle_env_trans: "idle w w1 \<Longrightarrow> env_step w1 w2 \<Longrightarrow> idle w w2"
  using idle_trans idle_env by blast

lemma wp_quarantineFor:
  assumes "sha \<noteq> ''''"
    and "\<And>e w'. env_step w w' \<Longrightarrow> Q (Inl e) w'"
    and "\<And>w'. env_step w w' \<Longrightarrow> Q (Inr (if hash_quarantined sha w then quarantinedBySystem else '''')) w'"
  shows "wp (quarantineFor sha) Q w"
  unfolding quarantineFor_def IsHashQuarantined_def if_not_P [OF assms(1)] wp_attempt
proof (rule wp_read_call, goal_cases)
  case (3 w')
  then show ?case using assms(3) [OF 3] by (simp add: hash_quarantined_def env_step_same)
qed (simp_all add: assms(2))

lemma uploaded_same: "env_step w w' \<Longrightarrow> uploaded_total u t (w_local w') = uploaded_total u t (w_local w)"
  by (simp add: env_step_same)

lemma wp_UploadedSizeForUser:
  assumes "\<And>e w'. env_step w w' \<Longrightarrow> w_faults w \<noteq> [] \<or> \<not> in_int64 (uploaded_total u t (w_local w)) \<Longrightarrow> Q (Inl e) w'"
    and "\<And>w'. env_step w w' \<Longrightarrow> (w_faults w = [] \<Longrightarrow> w' = w) \<Longrightarrow> in_int64 (uploaded_total u t (w_local w)) \<Longrightarrow>
      Q (Inr (uploaded_total u t (w_local w))) w'"
  shows "wp (UploadedSizeForUser u t) Q w"
proof (cases "w_faults w = []")
  case True
  then show ?thesis
    using assms(1) [of w ErrDB] assms(2) [of w] env_step_refl [of w]
    by (cases "in_int64 (uploaded_total u t (w_local w))") (simp_all add: UploadedSizeForUser_def wp_call_quiet Let_def)
next
  case False
  show ?thesis
    unfolding UploadedSizeForUser_def
  proof (rule wp_read_call, goal_cases)
    case (3 w')
    then show ?case
      using False uploaded_same [OF 3] by (auto intro: assms simp: Let_def)
  qed (auto intro: assms simp: False Let_def)
qed

lemma wp_limits_loop:
  assumes "\<And>res w'. env_step w w' \<Longrightarrow> Q res w'"
  shows "wp (limits_loop ls len now (UploadedSizeForUser u) used m) Q w"
  using assms
proof (induction ls arbitrary: used m w)
  case (Cons l ls)
  have "wp (UploadedSizeForUser u t) (\<lambda>r. case r of Inl e \<Rightarrow> Q (Inl e)
      | Inr used' \<Rightarrow> (if wrap64 (used' + len) > mul_MaxBytes l then Q (Inr (Some l))
          else wp (limits_loop ls len now (UploadedSizeForUser u) used' True) Q)) w" for t
    by (rule wp_UploadedSizeForUser) (auto intro!: Cons elim: env_step_trans)
  then show ?case
    using Cons.IH [of w] Cons.prems by (auto simp: if_distrib [of "\<lambda>m. wp m Q"] cong: if_cong sum.case_cong)
qed (simp add: env_step_refl)

text \<open>The reference: the first limit, in the order of the configuration, over which the uploads of its
  window and this one would be.\<close>

definition over_limit :: "local_row list \<Rightarrow> string \<Rightarrow> int \<Rightarrow> int \<Rightarrow> MediaUploadLimit \<Rightarrow> bool" where
  "over_limit rows user len now l \<longleftrightarrow>
     uploaded_total user (unix_milli (now - mul_Window l)) rows + len > mul_MaxBytes l"

definition user_bytes :: "string \<Rightarrow> local_row list \<Rightarrow> int" where
  "user_bytes user rows = sum_list (List.map_filter lr_length (filter (\<lambda>r. lr_user_id r = Some user) rows))"

definition lengths_ok :: "local_row list \<Rightarrow> bool" where
  "lengths_ok rows \<longleftrightarrow> list_all (\<lambda>r. case lr_length r of None \<Rightarrow> True | Some n \<Rightarrow> 0 \<le> n) rows"

text \<open>What the configuration's reader establishes: longest window first, windows that can be negated.\<close>

definition limits_ok :: "MediaUploadLimit list \<Rightarrow> bool" where
  "limits_ok ls \<longleftrightarrow> sorted_wrt (\<lambda>a b. mul_Window b \<le> mul_Window a) ls \<and> list_all (\<lambda>l. in_int64 (- mul_Window l)) ls"

lemma map_filter_Cons: "List.map_filter f (x # xs) = (case f x of None \<Rightarrow> List.map_filter f xs | Some y \<Rightarrow> y # List.map_filter f xs)"
  by (simp add: List.map_filter_def split: option.splits)

lemma uploaded_total_mono:
  assumes "lengths_ok rows" "t \<le> t'"
  shows "0 \<le> uploaded_total u t' rows \<and> uploaded_total u t' rows \<le> uploaded_total u t rows \<and>
    uploaded_total u t rows \<le> user_bytes u rows"
  using assms
proof (induction rows)
  case (Cons r rows)
  then have ih: "0 \<le> uploaded_total u t' rows" "uploaded_total u t' rows \<le> uploaded_total u t rows"
      "uploaded_total u t rows \<le> user_bytes u rows"
    and n: "\<And>n. lr_length r = Some n \<Longrightarrow> 0 \<le> n" by (auto simp: lengths_ok_def split: option.splits)
  have a: "after ts t' \<Longrightarrow> after ts t" for ts using assms(2) by (auto simp: after_def split: option.splits)
  show ?case
    using ih n a by (cases "lr_length r") (auto simp: uploaded_total_def user_bytes_def map_filter_Cons)
qed (simp add: uploaded_total_def user_bytes_def List.map_filter_def)

lemma uploaded_fits:
  assumes "lengths_ok rows" "user_bytes u rows + len \<le> max_int64" "0 \<le> len"
  shows "in_int64 (uploaded_total u t rows)" "wrap64 (uploaded_total u t rows + len) = uploaded_total u t rows + len"
  using uploaded_total_mono [OF assms(1) order_refl, of u t] assms(2,3) by (auto intro!: wrap64_id in_int64_nonneg)

lemma limits_loop_reference:
  assumes "lengths_ok rows" "user_bytes u rows + len \<le> max_int64" "0 \<le> len" "limits_ok ls" "w_local w = rows"
    and "m \<Longrightarrow> \<exists>t. used = uploaded_total u t rows \<and> list_all (\<lambda>l. t \<le> unix_milli (now - mul_Window l)) ls"
  shows "wp (limits_loop ls len now (UploadedSizeForUser u) used m) (\<lambda>res w'.
    res = Inr (find (over_limit rows u len now) ls) \<or> w_faults w \<noteq> [] \<and> (\<exists>e. res = Inl e)) w"
  using assms(4-6)
proof (induction ls arbitrary: used m w)
  case (Cons l ls)
  note fits = uploaded_fits [OF assms(1-3)] and mono = uploaded_total_mono [OF assms(1)]
  from Cons.prems(1) have ls: "limits_ok ls" and win: "wrap64 (- mul_Window l) = - mul_Window l"
    and later: "list_all (\<lambda>l'. mul_Window l' \<le> mul_Window l) ls"
    by (simp_all add: limits_ok_def list_all_iff)
  let ?t = "unix_milli (now - mul_Window l)"
  show ?case
  proof (cases "\<not> m \<or> wrap64 (used + len) > mul_MaxBytes l")
    case True
    have nx: "list_all (\<lambda>l'. ?t \<le> unix_milli (now - mul_Window l')) ls"
      using later by (auto simp: list_all_iff unix_milli_def intro!: zdiv_mono1)
    show ?thesis
      unfolding limits_loop.simps if_P [OF True] wp_attempt win
    proof (simp only: add_uminus_conv_diff, rule wp_UploadedSizeForUser, goal_cases)
      case (1 e w1)
      then show ?case using fits(1) Cons.prems(2) by simp
    next
      case (2 w1)
      let ?used = "uploaded_total u ?t (w_local w)"
      show ?case
      proof (cases "wrap64 (?used + len) > mul_MaxBytes l")
        case True
        then show ?thesis using fits(2) Cons.prems(2) by (simp add: over_limit_def)
      next
        case False
        have "wp (limits_loop ls len now (UploadedSizeForUser u) ?used True) (\<lambda>res w'.
            res = Inr (find (over_limit rows u len now) ls) \<or> w_faults w1 \<noteq> [] \<and> (\<exists>e. res = Inl e)) w1"
          by (rule Cons.IH [OF ls]) (use 2(1) nx Cons.prems(2) in \<open>auto simp: env_step_same\<close>)
        then show ?thesis
          unfolding sum.case if_not_P [OF False]
          by (rule wp_mono) (use False fits(2) Cons.prems(2) 2(2) in \<open>auto simp: over_limit_def\<close>)
      qed
    qed
  next
    case False
    then obtain t where t: "used = uploaded_total u t rows" "t \<le> ?t"
        "list_all (\<lambda>l'. t \<le> unix_milli (now - mul_Window l')) ls"
      using Cons.prems(3) by auto
    have "\<not> over_limit rows u len now l"
      using False mono [OF t(2), of u] fits(2) t(1) by (simp add: over_limit_def)
    moreover have "wp (limits_loop ls len now (UploadedSizeForUser u) used m) (\<lambda>res w'.
        res = Inr (find (over_limit rows u len now) ls) \<or> w_faults w \<noteq> [] \<and> (\<exists>e. res = Inl e)) w"
      by (rule Cons.IH [OF ls Cons.prems(2)]) (use t in blast)
    ultimately show ?thesis unfolding limits_loop.simps if_not_P [OF False] by simp
  qed
qed simp


section \<open>What the endpoints share\<close>

lemma staged_tmp:
  assumes "staged s r mediaID st w"
  shows "w_files w (su_tmpPath st) = Some \<lparr>f_bytes = arrived s r, f_mode = 420, f_synced = True\<rparr>" "incoming (su_tmpPath st)"
  using assms by (simp_all add: staged_def)

lemma staged_files: "staged s r mediaID st w \<Longrightarrow> w_files w' = w_files w \<Longrightarrow> staged s r mediaID st w'"
  by (simp add: staged_def)

text \<open>A step after which the files are as they were.\<close>

definition paused :: "world \<Rightarrow> world \<Rightarrow> bool" where
  "paused w w' \<longleftrightarrow> idle w w' \<and> w_files w' = w_files w"

lemma paused_env: "env_step w w' \<Longrightarrow> paused w w'"
  by (simp add: paused_def idle_env env_step_same)

lemma paused_trans: "paused w v \<Longrightarrow> paused v u \<Longrightarrow> paused w u"
  by (auto simp: paused_def intro: idle_trans)

lemma wp_withinUploadLimits:
  assumes "staged s r mediaID st w"
    and no: "\<And>w'. refused w w' \<Longrightarrow> Q False w'"
    and yes: "\<And>w'. paused w w' \<Longrightarrow> Q True w'"
  shows "wp (withinUploadLimits s r endpoint user st) Q w"
proof -
  have tmp: "incoming (su_tmpPath st)" using assms(1) by (simp add: staged_def)
  show ?thesis
    unfolding withinUploadLimits_def wp_attempt exceededLimit_def evaluateUploadLimits_def wp_bind
  proof (rule wp_go_now, rule wp_limits_loop, goal_cases)
    case (1 t ts res w')
    have "idle w (w\<lparr>w_clock := t, w_ticks := ts\<rparr>)" by simp
    then have w': "idle w w'" using 1(2) by (rule idle_env_trans)
    have refuse: "wp (writeMatrixErrorFields 403 c m ex) (\<lambda>_. Q False) (w1\<lparr>w_notes := ns\<rparr>)"
      if "idle w w1" for c m ex ns w1
    proof -
      have "refused w (w1\<lparr>w_notes := ns, w_hdrs := h, w_replies := w_replies w1 @ [\<lparr>rp_status = 403, rp_headers = h,
          rp_body = JsonBody ((''errcode'', JStr c) # (''error'', JStr m) # ex)\<rparr>]\<rparr>)" for h
        using that by (simp add: refused_def idle_def kept_def answered_def refusal_def)
      then show ?thesis by (simp add: writeMatrixErrorFields_def no)
    qed
    show ?case
    proof (cases res)
      case (Inl e)
      show ?thesis
        unfolding Inl sum.case wp_bind
        by (rule wp_su_discard [OF w' tmp], rule wp_uploadFailed, assumption) (simp add: no)
    next
      case (Inr l)
      show ?thesis
      proof (cases l)
        case None
        have "paused w w'" using w' 1(2) by (simp add: paused_def env_step_same)
        then show ?thesis using Inr None by (simp add: yes)
      next
        case (Some x)
        show ?thesis
          unfolding Inr Some sum.case option.case wp_bind writeUserLimitExceeded_def
            notes_simps wp_count_upload wp_log_note
          by (rule wp_su_discard [OF w' tmp]) (simp add: refuse)
      qed
    qed
  qed
qed

lemma wp_receive_upload:
  assumes no: "\<And>w'. refused w w' \<Longrightarrow> Q () w'"
    and yes: "\<And>st w'. idle w w' \<Longrightarrow> staged s r mediaID st w' \<Longrightarrow>
      wp (k st (if hash_quarantined (sha256_hex (arrived s r)) w then quarantinedBySystem else '''')) Q w'"
  shows "wp (receive_upload s r endpoint user mediaID k) Q w"
  unfolding receive_upload_def wp_attempt [of "upload_store s r mediaID"]
proof (rule wp_upload_store, goal_cases)
  case (1 e w1)
  then show ?case unfolding sum.case by (rule wp_uploadFailed) (rule no)
next
  case (2 st w1)
  then have sha: "su_sha256 st = sha256_hex (arrived s r)" and tmp: "incoming (su_tmpPath st)"
    and same: "hash_quarantined x w1 = hash_quarantined x w" for x
    by (auto simp: staged_def idle_def kept_def hash_quarantined_def)
  show ?case
    unfolding sum.case wp_attempt [of "quarantineFor x" for x] sha
  proof (rule wp_quarantineFor, goal_cases)
    case (2 e w2)
    show ?case
      unfolding sum.case wp_bind
      by (rule wp_su_discard [OF idle_env_trans [OF \<open>idle w w1\<close> 2] tmp], rule wp_uploadFailed, assumption) (rule no)
  next
    case (3 w2)
    have w2: "idle w w2" by (rule idle_env_trans [OF \<open>idle w w1\<close> 3])
    have st: "staged s r mediaID st w2"
      by (rule staged_files [OF \<open>staged s r mediaID st w1\<close>]) (simp add: env_step_same [OF 3])
    show ?case
      unfolding sum.case wp_bind same
    proof (rule wp_withinUploadLimits [OF st], goal_cases)
      case (1 w3)
      then show ?case using idle_refused [OF w2] by (simp add: no)
    next
      case (2 w3)
      then show ?case using yes [OF idle_trans [OF w2] staged_files [OF st]] by (simp add: paused_def)
    qed
  qed simp
qed

section \<open>The contract of a synchronous upload\<close>

text \<open>The type and the name an upload declares.\<close>

definition declared :: "request \<Rightarrow> string \<times> string \<times> int \<Rightarrow> bool" where
  "declared r meta \<longleftrightarrow>
     fst meta = (if rheader r ''Content-Type'' = '''' then ''application/octet-stream'' else rheader r ''Content-Type'') \<and>
     fst (snd meta) = query_get (url_query r) ''filename'' \<and>
     parse_int64 (rheader r ''Content-Length'') = Some (snd (snd meta))"

lemma wp_uploadMetadata:
  assumes "\<And>w'. refused w w' \<Longrightarrow> Q None w'"
    and "\<And>meta. declared r meta \<Longrightarrow> 0 \<le> snd (snd meta) \<Longrightarrow>
      snd (snd meta) \<le> MaxUploadSizeOrDefault (sv_media s) \<Longrightarrow> Q (Some meta) w"
  shows "wp (uploadMetadata s r) Q w"
proof -
  let ?raw = "rheader r ''Content-Length''"
  have refuse: "wp (writeMatrixError st code msg) (\<lambda>_. Q None) w" for st code msg
    by (rule wp_refuse [OF idle_refl]) (rule assms(1))
  have refuse_note: "wp (writeMatrixError st code msg) (\<lambda>_. Q None) (w\<lparr>w_notes := ns\<rparr>)" for st code msg ns
    by (rule wp_refuse [of w]) (simp_all add: assms(1))
  show ?thesis
  proof (cases "?raw = ''''")
    case True
    then show ?thesis by (simp add: uploadMetadata_def refuse)
  next
    case raw: False
    show ?thesis
    proof (cases "parse_int64 ?raw")
      case None
      then show ?thesis using raw by (simp add: uploadMetadata_def refuse)
    next
      case (Some n)
      then show ?thesis
        using raw
        by (simp add: uploadMetadata_def refuse refuse_note)
          (auto intro!: assms(2) simp: declared_def)
    qed
  qed
qed

definition tables_but_local :: "world \<Rightarrow> world \<Rightarrow> bool" where
  "tables_but_local w w' \<longleftrightarrow> w_remote w' = w_remote w \<and> w_lthumbs w' = w_lthumbs w \<and> w_rthumbs w' = w_rthumbs w"

definition upload_row :: "'i Server \<Rightarrow> request \<Rightarrow> string \<Rightarrow> string \<Rightarrow> string \<times> string \<times> int \<Rightarrow> int \<Rightarrow> string \<Rightarrow> local_row" where
  "upload_row s r user mediaID meta ts quarantinedBy =
     local_media_row \<lparr>lm_MediaID = mediaID, lm_MediaType = fst meta, lm_Length = Some (int (length (arrived s r))),
        lm_UploadName = fst (snd meta), lm_QuarantinedBy = '''', lm_URLCache = '''', lm_Authenticated = False,
        lm_CreatedTS = ts, lm_UserID = user\<rparr>
       (sha256_hex (arrived s r)) (AuthenticatedMedia (sv_media s)) quarantinedBy"

text \<open>Success: one row more, for a new ID, in the name of the authenticated user, with the hash and the
  length of the bytes that arrived and flagged exactly when that hash is quarantined; its file holds
  those bytes; the client has been told.\<close>

definition stored_upload :: "'i Server \<Rightarrow> request \<Rightarrow> world \<Rightarrow> world \<Rightarrow> bool" where
  "stored_upload s r w w' \<longleftrightarrow> (\<exists>user v mediaID meta path ts h.
     vouched w (ExtractCredentials r) v \<and> tv_valid v \<and> tv_userID v = user \<and> declared r meta \<and>
     LocalMedia (sv_paths s) mediaID = Inr path \<and> WritablePath (sv_paths s) path = Inr () \<and>
     mediaID \<notin> lr_media_id ` set (w_local w) \<and>
     int (length (arrived s r)) \<le> MaxUploadSizeOrDefault (sv_media s) \<and>
     w_local w' = w_local w @ [upload_row s r user mediaID meta ts
       (if hash_quarantined (sha256_hex (arrived s r)) w then quarantinedBySystem else '''')] \<and>
     tables_but_local w w' \<and>
     w_files w' path = Some \<lparr>f_bytes = arrived s r, f_mode = 420, f_synced = True\<rparr> \<and>
     (\<forall>q. q \<noteq> path \<longrightarrow> \<not> incoming q \<longrightarrow> w_files w' q = w_files w q) \<and>
     w_replies w' = w_replies w @ [\<lparr>rp_status = 200, rp_headers = h,
       rp_body = JsonBody (uploadResponse (content_uri s mediaID))\<rparr>])"

text \<open>A failure of the last step: the row may be missing or there, the file of the new ID too, and the
  client has been told of a failure; nothing else has changed.\<close>

definition half_done :: "'i Server \<Rightarrow> world \<Rightarrow> string \<Rightarrow> string \<Rightarrow> world \<Rightarrow> bool" where
  "half_done s w mediaID path w' \<longleftrightarrow>
     LocalMedia (sv_paths s) mediaID = Inr path \<and>
     (w_local w' = w_local w \<or> mediaID \<notin> lr_media_id ` set (w_local w) \<and>
        (\<exists>row. lr_media_id row = mediaID \<and> w_local w' = w_local w @ [row])) \<and>
     tables_but_local w w' \<and>
     (\<forall>q. q \<noteq> path \<longrightarrow> \<not> incoming q \<longrightarrow> w_files w' q = w_files w q)"

definition unrecorded_upload :: "'i Server \<Rightarrow> world \<Rightarrow> world \<Rightarrow> bool" where
  "unrecorded_upload s w w' \<longleftrightarrow> (\<exists>mediaID path. half_done s w mediaID path w' \<and>
     (answered refusal w w' \<or> w_replies w' = w_replies w \<and> w_cancelled w'))"

text \<open>A row that is inserted, or not, whether or not an error is reported.\<close>

definition inserted :: "local_row \<Rightarrow> world \<Rightarrow> world \<Rightarrow> bool" where
  "inserted row w w' \<longleftrightarrow> lr_media_id row \<notin> lr_media_id ` set (w_local w) \<and>
     (\<exists>w0. env_step w w0 \<and> w' = w0\<lparr>w_local := w_local w @ [row]\<rparr>)"

lemma wp_insert_local:
  assumes "\<And>e w'. env_step w w' \<or> inserted row w w' \<Longrightarrow> Q (Inl e) w'"
    and "\<And>w'. inserted row w w' \<Longrightarrow> Q (Inr ()) w'"
  shows "wp (db_write (insert_local row)) Q w"
proof (rule wp_lossy, goal_cases)
  case (1 e fs c)
  then show ?case by (intro assms(1) disjI1 env_stepI)
next
  case (2 e fs c)
  let ?w = "w\<lparr>w_faults := fs, w_cancelled := c\<rparr>"
  have env: "env_step w ?w" using 2 by (intro env_stepI)
  show ?case
    using assms(1) [of ?w] assms(1) [of "?w\<lparr>w_local := w_local w @ [row]\<rparr>"] env
    by (cases "lr_media_id row \<in> lr_media_id ` set (w_local w)") (auto simp: insert_local_def inserted_def)
next
  case (3 fs c)
  let ?w = "w\<lparr>w_faults := fs, w_cancelled := c\<rparr>"
  have env: "env_step w ?w" using 3 by (intro env_stepI)
  show ?case
    using assms(1) [of ?w] assms(2) [of "?w\<lparr>w_local := w_local w @ [row]\<rparr>"] env
    by (cases "lr_media_id row \<in> lr_media_id ` set (w_local w)") (auto simp: insert_local_def inserted_def)
qed

lemma refused_unrecorded:
  assumes "half_done s w mediaID path w1" "w_replies w1 = w_replies w" "refused w1 w'"
  shows "unrecorded_upload s w w'"
  unfolding unrecorded_upload_def
proof (intro exI conjI)
  show "half_done s w mediaID path w'"
    using assms(1,3) by (simp add: half_done_def refused_def kept_def tables_but_local_def)
  show "answered refusal w w' \<or> w_replies w' = w_replies w \<and> w_cancelled w'"
    using assms(2,3) by (auto simp: refused_def answered_def)
qed

lemma wp_discard_landed:
  assumes "half_done s w mediaID path w1" "w_replies w1 = w_replies w"
    and "\<And>w'. half_done s w mediaID path w' \<Longrightarrow> w_replies w' = w_replies w \<Longrightarrow> Q () w'"
  shows "wp (discard_file path) Q w1"
proof (rule wp_discard_tmp)
  show "temp_phase w1 path w1" by (simp add: temp_phase_def files_only_refl)
next
  fix w' assume "temp_phase w1 path w'"
  then show "Q () w'"
    using assms(1,2) by (intro assms(3)) (auto simp: half_done_def temp_phase_def tables_but_local_def files_only_same)
qed

lemma wp_respondUploaded:
  "wp (respondUploaded s endpoint mediaID len q) (\<lambda>_ w'. \<exists>ns h. w' = w\<lparr>w_notes := ns, w_hdrs := h,
     w_replies := w_replies w @ [\<lparr>rp_status = 200, rp_headers = h,
       rp_body = JsonBody (uploadResponse (content_uri s mediaID))\<rparr>]\<rparr>) w"
  by (auto simp: respondUploaded_def writeJSON_def)

lemma wp_maybeThumbnail:
  assumes "\<And>ns. Q () (w\<lparr>w_notes := ns\<rparr>)"
  shows "wp (maybeThumbnail s mediaID path t) Q w"
  using assms assms [of "w_notes w"] by (simp add: maybeThumbnail_def)

text \<open>The row of a synchronous upload whose file is in place.\<close>

lemma wp_record_row:
  assumes st: "staged s r mediaID st w1"
    and v: "vouched w (ExtractCredentials r) v" "tv_valid v" "tv_userID v = user" and meta: "declared r meta"
    and q: "q = (if hash_quarantined (sha256_hex (arrived s r)) w then quarantinedBySystem else '''')"
    and w2: "half_done s w mediaID (su_path st) w2" "w_replies w2 = w_replies w" "w_local w2 = w_local w"
      "w_files w2 (su_path st) = Some \<lparr>f_bytes = arrived s r, f_mode = 420, f_synced = True\<rparr>"
  shows "wp (attempt (db_write (insert_local (upload_row s r user mediaID meta ts q)))
       (\<lambda>e. do { discard_file (su_path st); uploadFailed r uploadEndpointSync e ''recording upload'' })
       (\<lambda>_. do { maybeThumbnail s mediaID (su_path st) (fst meta);
          respondUploaded s uploadEndpointSync mediaID (int (length (arrived s r))) q }))
     (\<lambda>_ w'. refused w w' \<or> stored_upload s r w w' \<or> unrecorded_upload s w w') w2"
  unfolding wp_attempt
proof (rule wp_insert_local, goal_cases)
  case (1 e w3)
  have "half_done s w mediaID (su_path st) w3 \<and> w_replies w3 = w_replies w"
    using 1
  proof
    assume "env_step w2 w3"
    then show ?thesis using w2 by (simp add: half_done_def tables_but_local_def env_step_same)
  next
    assume "inserted (upload_row s r user mediaID meta ts q) w2 w3"
    then show ?thesis
      using w2 by (auto simp: half_done_def tables_but_local_def env_step_same inserted_def upload_row_def local_media_row_def)
  qed
  then show ?case
    unfolding sum.case wp_bind
    by (intro wp_discard_landed [of s w mediaID "su_path st" w3], simp_all)
      (rule wp_uploadFailed [OF idle_refl], blast intro: refused_unrecorded)
next
  case (2 w3)
  then have w3: "mediaID \<notin> lr_media_id ` set (w_local w)" "w_local w3 = w_local w @ [upload_row s r user mediaID meta ts q]"
      "tables_but_local w w3" "w_files w3 = w_files w2" "w_replies w3 = w_replies w"
    using w2 by (auto simp: inserted_def env_step_same upload_row_def local_media_row_def half_done_def tables_but_local_def)
  have told: "stored_upload s r w (w3\<lparr>w_notes := ns, w_hdrs := h, w_replies := w_replies w3 @ [\<lparr>rp_status = 200, rp_headers = h,
     rp_body = JsonBody (uploadResponse (content_uri s mediaID))\<rparr>]\<rparr>)" for ns h
    unfolding stored_upload_def
    by (intro exI [of _ user] exI [of _ v] exI [of _ mediaID] exI [of _ meta] exI [of _ "su_path st"] exI [of _ ts] exI [of _ h])
      (use v meta w3 w2 st in \<open>simp add: q staged_def half_done_def tables_but_local_def\<close>)
  show ?case
    unfolding sum.case wp_bind
    by (rule wp_maybeThumbnail, rule wp_mono [OF wp_respondUploaded]) (use told in auto)
qed

lemma wp_record_upload:
  assumes w1: "idle w w1" and st: "staged s r mediaID st w1"
    and v: "vouched w (ExtractCredentials r) v" "tv_valid v" "tv_userID v = user" and meta: "declared r meta"
    and q: "q = (if hash_quarantined (sha256_hex (arrived s r)) w then quarantinedBySystem else '''')"
  shows "wp (record_upload s r user mediaID meta st q) (\<lambda>_ w'.
    refused w w' \<or> stored_upload s r w w' \<or> unrecorded_upload s w w') w1"
  unfolding record_upload_def wp_attempt [of "su_commit st"]
proof (rule wp_su_commit [OF staged_tmp [OF st]], goal_cases)
  case (1 e w2)
  then show ?case
    unfolding sum.case by (intro wp_uploadFailed [OF idle_trans [OF w1 1]]) simp
next
  case (2 st' w2)
  note 4 = 2
  let ?path = "su_path st" and ?file = "\<lparr>f_bytes = arrived s r, f_mode = 420, f_synced = True\<rparr>"
  have st': "su_length st' = int (length (arrived s r))" "su_sha256 st' = sha256_hex (arrived s r)" "su_path st' = ?path"
    using st 4(1-3) by (auto simp: staged_def)
  have w2: "half_done s w mediaID ?path w2" "w_replies w2 = w_replies w" "w_files w2 ?path = Some ?file" "w_local w2 = w_local w"
    using st w1 4(4,5) by (auto simp: half_done_def staged_def idle_def kept_def tables_but_local_def files_only_same)
  show ?case
    unfolding sum.case wp_bind
    by (rule wp_go_now)
      (use wp_record_row [OF st v meta q, of "w2\<lparr>w_clock := t, w_ticks := ticks\<rparr>" for t ticks] w2 in
        \<open>simp add: Let_def st' StoreLocalMedia_def upload_row_def half_done_def tables_but_local_def\<close>)
qed

definition handed_over :: "world \<Rightarrow> world \<Rightarrow> bool" where
  "handed_over w w' \<longleftrightarrow> same_stores w w' \<and> answered (\<lambda>rp. \<exists>u. rp_body rp = Upstream u) w w'"

lemma wp_authenticateUploader:
  assumes "\<And>w'. refused w w' \<Longrightarrow> Q None w'"
    and "\<And>v w'. vouched w (ExtractCredentials r) v \<Longrightarrow> tv_valid v \<Longrightarrow> idle w w' \<Longrightarrow> same_stores w w' \<Longrightarrow>
      Q (Some (tv_userID v)) w'"
  shows "wp (authenticateUploader r) Q w"
  by (rule wp_mono [OF authenticateUploader_cases])
    (auto split: option.splits intro!: assms refused_same_stores idle_same_stores)

lemma wp_proxyUpload:
  "wp (proxyUpload s r reason) (\<lambda>_ w'. refused w w' \<or> handed_over w w') w"
proof -
  have up: "handed_over w (w\<lparr>w_notes := ns, w_replies := w_replies w @ [\<lparr>rp_status = n, rp_headers = h, rp_body = Upstream u\<rparr>]\<rparr>)"
    for ns n h u by (simp add: handed_over_def same_stores_def answered_def)
  have "wp (respondNotFound p) (\<lambda>_ w'. refused w w' \<or> handed_over w w') (w\<lparr>w_notes := ns\<rparr>)" for p ns
    unfolding respondNotFound_def by (rule wp_refuse [of w]) simp_all
  then show ?thesis by (simp add: proxyUpload_def forward_def up)
qed

lemma wp_fresh_id: "wp fresh_id Q w = (case newFilesystemID (w_draws w) of
    None \<Rightarrow> Q None w | Some (i, ds) \<Rightarrow> Q (Some i) (w\<lparr>w_draws := ds\<rparr>))"
  by (simp add: fresh_id_def split: option.splits)

abbreviation sync_post :: "'i Server \<Rightarrow> request \<Rightarrow> world \<Rightarrow> world \<Rightarrow> bool" where
  "sync_post s r w w' \<equiv> stored_upload s r w w' \<or> refused w w' \<or> unrecorded_upload s w w' \<or>
     \<not> sv_uploader s \<and> handed_over w w' \<or> newFilesystemID (w_draws w) = None \<and> idle w w'"

lemma wp_sync_receive:
  assumes "idle w w1" "vouched w (ExtractCredentials r) v" "tv_valid v" "declared r meta"
  shows "wp (receive_upload s r uploadEndpointSync (tv_userID v) mediaID (record_upload s r (tv_userID v) mediaID meta))
    (\<lambda>_. sync_post s r w) w1"
proof (rule wp_receive_upload, goal_cases)
  case (1 w')
  then show ?case using idle_refused [OF assms(1)] by blast
next
  case (2 st w2)
  have same: "hash_quarantined x w1 = hash_quarantined x w" for x
    using assms(1) by (simp add: idle_def kept_def hash_quarantined_def)
  show ?case
    unfolding same
    by (rule wp_mono [OF wp_record_upload [OF idle_trans [OF assms(1) 2(1)] 2(2) assms(2,3) refl assms(4) refl]]) blast
qed

text \<open>C2: a synchronous upload, whatever fails and whoever goes away, ends in one of these ways: it is
  stored, with its row and all of its bytes, and the client is told the URI of a new medium; it is
  refused once, or the client has gone, and no table and no file but a temporary one has changed; its
  last step failed, which the client is told, and nothing but the new ID's row and file can have
  changed; it was handed to Synapse, which happens only where uploads are off; or the random source failed.\<close>

theorem handleUpload_contract:
  "wp (handleUpload s r) (\<lambda>_ w'. stored_upload s r w w' \<or> refused w w' \<or> unrecorded_upload s w w' \<or>
     \<not> sv_uploader s \<and> handed_over w w' \<or> newFilesystemID (w_draws w) = None \<and> idle w w') w"
  (is "wp _ ?Q w")
proof (cases "validLegacyVersion (path_value r ''version'')")
  case False
  then show ?thesis
    unfolding handleUpload_def by (simp add: respondNotFound_def) (rule wp_refuse [OF idle_refl], blast)
next
  case version: True
  show ?thesis
  proof (cases "sv_uploader s")
    case False
    then show ?thesis
      using version unfolding handleUpload_def by simp (rule wp_mono [OF wp_proxyUpload], blast)
  next
    case True
    have body: "handleUpload s r = on_some (authenticateUploader r) (\<lambda>user. on_some (uploadMetadata s r) (\<lambda>meta.
        on_some fresh_id (\<lambda>mediaID.
        receive_upload s r uploadEndpointSync user mediaID (record_upload s r user mediaID meta))))"
      by (simp add: handleUpload_def version True)
    show ?thesis
      unfolding body wp_on_some [of "authenticateUploader r"]
    proof (rule wp_authenticateUploader, goal_cases)
      case (1 w1)
      then show ?case by simp
    next
      case (2 v w1)
      then have draws: "w_draws w1 = w_draws w" by (simp add: same_stores_def)
      show ?case
        unfolding option.case wp_on_some [of "uploadMetadata s r"]
      proof (rule wp_uploadMetadata, goal_cases)
        case (1 w2)
        then show ?case using idle_refused [OF \<open>idle w w1\<close>] by simp
      next
        case (2 meta)
        then show ?case
          using wp_sync_receive [of w "w1\<lparr>w_draws := ds\<rparr>" r v meta s for ds] \<open>idle w w1\<close> \<open>vouched w (ExtractCredentials r) v\<close> \<open>tv_valid v\<close>
          by (auto simp: wp_fresh_id draws split: option.splits)
      qed
    qed
  qed
qed

section \<open>The contract of an asynchronous upload\<close>

lemma wp_GetLocalMedia:
  assumes "\<And>e w'. env_step w w' \<Longrightarrow> e \<noteq> ErrNotFound \<Longrightarrow> Q (Inl e) w'"
    and "\<And>w'. env_step w w' \<Longrightarrow> find (\<lambda>row. lr_media_id row = mediaID) (w_local w) = None \<Longrightarrow> Q (Inl ErrNotFound) w'"
    and "\<And>row w'. env_step w w' \<Longrightarrow> find (\<lambda>row. lr_media_id row = mediaID) (w_local w) = Some row \<Longrightarrow>
      Q (Inr (scan_local mediaID row)) w'"
  shows "wp (GetLocalMedia mediaID) Q w"
  unfolding GetLocalMedia_def
proof (rule wp_read_call, goal_cases)
  case (3 w')
  then show ?case
    using assms(2,3) [OF 3] by (cases "find (\<lambda>row. lr_media_id row = mediaID) (w_local w)") (simp_all add: env_step_same)
qed (auto intro: assms split: option.splits)

text \<open>The row of a media ID that its user has reserved, not used and not let expire.\<close>

definition reserved :: "'i Server \<Rightarrow> world \<Rightarrow> string \<Rightarrow> string \<Rightarrow> local_row \<Rightarrow> bool" where
  "reserved s w mediaID user row \<longleftrightarrow> find (\<lambda>row. lr_media_id row = mediaID) (w_local w) = Some row \<and>
     coalesce (lr_user_id row) '''' = user \<and> lr_length row = None \<and>
     (\<exists>now \<ge> w_clock w. unix_milli (now + wrap64 (- mc_UnusedExpirationTime (sv_media s))) \<le> coalesce (lr_created_ts row) 0)"

lemma wp_verify_can_upload:
  assumes no: "\<And>w'. refused w w' \<Longrightarrow> Q None w'"
    and yes: "\<And>m row w'. reserved s w mediaID user row \<Longrightarrow> idle w w' \<Longrightarrow> Q (Some m) w'"
  shows "wp (verify_can_upload s r mediaID user) Q w"
proof -
  have refuse: "wp (writeMatrixError st code msg) (\<lambda>_. Q None) (w1\<lparr>w_notes := ns\<rparr>)" if "idle w w1" for st code msg ns w1
    by (rule wp_refuse [of w]) (simp_all add: that no)
  show ?thesis
    unfolding verify_can_upload_def wp_attempt
  proof (rule wp_GetLocalMedia, goal_cases)
    case (1 e w1)
    then show ?case using refuse [OF idle_env [OF 1(1)]] by (simp add: internalError_def)
  next
    case (2 w1)
    then show ?case using refuse [OF idle_env [OF 2(1)]] by simp
  next
    case (3 row w1)
    note w1 = idle_env [OF 3(1)]
    have rest: "wp (do { t \<leftarrow> go_now;
        (if lm_CreatedTS (scan_local mediaID row) < unix_milli (t + wrap64 (- mc_UnusedExpirationTime (sv_media s))) then do {
           count_upload uploadEndpointAsync uploadResultNotFound;
           writeMatrixError 404 ''M_NOT_FOUND'' ''Media ID has expired'';
           State_Monad.return None }
         else State_Monad.return (Some (scan_local mediaID row))) }) Q w1"
      if "lm_UserID (scan_local mediaID row) = user" "lm_Length (scan_local mediaID row) = None"
      unfolding wp_bind
    proof (rule wp_go_now, goal_cases)
      case (1 t ts)
      have "idle w (w1\<lparr>w_clock := t, w_ticks := ts\<rparr>)" using w1 by simp
      then show ?case
        using refuse [of "w1\<lparr>w_clock := t, w_ticks := ts\<rparr>"] that 3(2) 1 env_step_same(11) [OF 3(1)]
        by (auto simp: scan_local_def reserved_def intro!: yes exI [of _ t])
    qed
    show ?case
      using refuse [OF w1] rest by auto
  qed
qed

definition completed_rows :: "'i Server \<Rightarrow> request \<Rightarrow> string \<Rightarrow> string \<times> string \<times> int \<Rightarrow> string \<Rightarrow> local_row list \<Rightarrow> local_row list" where
  "completed_rows s r mediaID meta quarantinedBy rows =
     map (\<lambda>row. if completes mediaID row
          then complete_row (fst meta) (fst (snd meta)) (int (length (arrived s r))) (sha256_hex (arrived s r)) quarantinedBy row
          else row) rows"

text \<open>Success: the reserved row of the authenticated user, and no other, has been completed with the hash,
  the length and the flag of the bytes that arrived, and its file holds those bytes.\<close>

definition completed_upload :: "'i Server \<Rightarrow> request \<Rightarrow> string \<Rightarrow> world \<Rightarrow> world \<Rightarrow> bool" where
  "completed_upload s r mediaID w w' \<longleftrightarrow> (\<exists>v meta row path h.
     vouched w (ExtractCredentials r) v \<and> tv_valid v \<and> reserved s w mediaID (tv_userID v) row \<and>
     declared r meta \<and> length (filter (completes mediaID) (w_local w)) = 1 \<and>
     LocalMedia (sv_paths s) mediaID = Inr path \<and> WritablePath (sv_paths s) path = Inr () \<and>
     int (length (arrived s r)) \<le> MaxUploadSizeOrDefault (sv_media s) \<and>
     w_local w' = completed_rows s r mediaID meta
       (if hash_quarantined (sha256_hex (arrived s r)) w then quarantinedBySystem else '''') (w_local w) \<and>
     tables_but_local w w' \<and>
     w_files w' path = Some \<lparr>f_bytes = arrived s r, f_mode = 420, f_synced = True\<rparr> \<and>
     (\<forall>q. q \<noteq> path \<longrightarrow> \<not> incoming q \<longrightarrow> w_files w' q = w_files w q) \<and>
     w_replies w' = w_replies w @ [\<lparr>rp_status = 200, rp_headers = h,
       rp_body = JsonBody (uploadResponse (content_uri s mediaID))\<rparr>])"

text \<open>The row was completed, or may have been, but no file was installed: the one case that leaves a
  medium without its bytes. The client is told of a failure.\<close>

definition uninstalled_upload :: "'i Server \<Rightarrow> request \<Rightarrow> string \<Rightarrow> world \<Rightarrow> world \<Rightarrow> bool" where
  "uninstalled_upload s r mediaID w w' \<longleftrightarrow>
     (\<exists>meta q. w_local w' = completed_rows s r mediaID meta q (w_local w)) \<and> tables_but_local w w' \<and>
     (\<forall>q. \<not> incoming q \<longrightarrow> w_files w' q = w_files w q) \<and>
     (answered refusal w w' \<or> w_replies w' = w_replies w \<and> w_cancelled w')"

lemma reserved_before:
  assumes "reserved s w1 mediaID user row" "idle w w1" "w_clock w \<le> w_clock w1"
  shows "reserved s w mediaID user row"
  using assms by (auto simp: reserved_def idle_def kept_def intro: order_trans)

lemma wp_CompleteLocalMedia:
  assumes err: "\<And>e w'. env_step w w' \<Longrightarrow> Q (Inl e) w'"
    and lost: "\<And>e w'. env_step w w' \<Longrightarrow> Q (Inl e) (w'\<lparr>w_local := completed_rows s r mediaID meta q (w_local w)\<rparr>)"
    and ok: "\<And>w'. env_step w w' \<Longrightarrow> Q (Inr (length (filter (completes mediaID) (w_local w)) = 1))
      (w'\<lparr>w_local := completed_rows s r mediaID meta q (w_local w)\<rparr>)"
  shows "wp (CompleteLocalMedia mediaID (fst meta) (fst (snd meta)) (int (length (arrived s r)))
    (sha256_hex (arrived s r)) q) Q w"
  unfolding CompleteLocalMedia_def
proof (rule wp_lossy, goal_cases)
  case (1 e fs c)
  then show ?case by (intro err env_stepI)
next
  case (2 e fs c)
  then show ?case using lost [OF env_stepI [of w c fs]] by (simp add: completed_rows_def)
next
  case (3 fs c)
  then show ?case using ok [OF env_stepI [of w c fs]] by (simp add: completed_rows_def)
qed

definition rows_done :: "'i Server \<Rightarrow> request \<Rightarrow> string \<Rightarrow> world \<Rightarrow> world \<Rightarrow> bool" where
  "rows_done s r mediaID w w' \<longleftrightarrow> (\<exists>meta q. w_local w' = completed_rows s r mediaID meta q (w_local w)) \<and>
     tables_but_local w w' \<and> (\<forall>q. \<not> incoming q \<longrightarrow> w_files w' q = w_files w q) \<and> w_replies w' = w_replies w"

lemma refused_uninstalled:
  "rows_done s r mediaID w w1 \<Longrightarrow> refused w1 w' \<Longrightarrow> uninstalled_upload s r mediaID w w'"
  by (auto simp: rows_done_def uninstalled_upload_def refused_def kept_def tables_but_local_def answered_def)

text \<open>The winner of the row installs its file.\<close>

lemma wp_complete_install:
  assumes w1: "idle w w1" and st: "staged s r mediaID st w1"
    and v: "vouched w (ExtractCredentials r) v" "tv_valid v" "reserved s w mediaID (tv_userID v) row" and meta: "declared r meta"
    and q: "q = (if hash_quarantined (sha256_hex (arrived s r)) w then quarantinedBySystem else '''')"
    and won: "length (filter (completes mediaID) (w_local w)) = 1"
    and w2: "env_step w1 w2" "rows_done s r mediaID w (w2\<lparr>w_local := completed_rows s r mediaID meta q (w_local w)\<rparr>)"
  shows "wp (attempt (su_commit st)
       (\<lambda>e. do { log_note msg; uploadFailed r uploadEndpointAsync e ''installing upload'' })
       (\<lambda>stored. do {
          maybeThumbnail s mediaID (su_path stored) (fst meta);
          respondUploaded s uploadEndpointAsync mediaID (su_length stored) q }))
    (\<lambda>_ w'. refused w w' \<or> completed_upload s r mediaID w w' \<or> uninstalled_upload s r mediaID w w')
    (w2\<lparr>w_local := completed_rows s r mediaID meta q (w_local w)\<rparr>)" (is "wp _ ?Q ?w3")
proof -
  have tmp: "incoming (su_tmpPath st)" by (rule staged_tmp [OF st])
  have len: "su_length st = int (length (arrived s r))" using st by (auto simp: staged_def)
  have f: "w_files ?w3 (su_tmpPath st) = Some \<lparr>f_bytes = arrived s r, f_mode = 420, f_synced = True\<rparr>"
    using staged_tmp(1) [OF st] w2(1) by (simp add: env_step_same)
  show ?thesis
    unfolding wp_attempt [of "su_commit st"]
  proof (rule wp_su_commit [OF f tmp], goal_cases)
    case (1 e w4)
    have rows: "rows_done s r mediaID w w4"
      using w2(2) 1 by (auto simp: rows_done_def idle_def kept_def tables_but_local_def)
    have "wp (uploadFailed r uploadEndpointAsync e what) ?Q (w4\<lparr>w_notes := ns\<rparr>)" for what ns
      by (rule wp_uploadFailed [of w4]) (simp, use refused_uninstalled [OF rows] in blast)
    then show ?case by simp
  next
    case (2 st'' w4)
    have w4: "w_local w4 = completed_rows s r mediaID meta q (w_local w)" "tables_but_local w w4" "w_replies w4 = w_replies w"
      "w_files w4 (su_path st) = Some \<lparr>f_bytes = arrived s r, f_mode = 420, f_synced = True\<rparr>"
      "x \<noteq> su_path st \<Longrightarrow> \<not> incoming x \<Longrightarrow> w_files w4 x = w_files w x" for x
      using files_only_same [OF 2(4)] 2(5) w1 w2(1) tmp
      by (auto simp: tables_but_local_def idle_def kept_def env_step_same)
    have told: "completed_upload s r mediaID w (w4\<lparr>w_notes := ns, w_hdrs := h, w_replies := w_replies w4 @ [\<lparr>rp_status = 200, rp_headers = h,
       rp_body = JsonBody (uploadResponse (content_uri s mediaID))\<rparr>]\<rparr>)" for ns h
      unfolding completed_upload_def
      by (intro exI [of _ v] exI [of _ meta] exI [of _ row] exI [of _ "su_path st"] exI [of _ h])
        (use v meta w4 won st in \<open>simp add: q staged_def tables_but_local_def\<close>)
    show ?case
      unfolding sum.case wp_bind 2(1) len
      by (rule wp_maybeThumbnail, rule wp_mono [OF wp_respondUploaded]) (use told 2(2,3) len in auto)
  qed
qed

lemma wp_complete_upload:
  assumes w1: "idle w w1" and st: "staged s r mediaID st w1"
    and v: "vouched w (ExtractCredentials r) v" "tv_valid v" "reserved s w mediaID (tv_userID v) row" and meta: "declared r meta"
    and q: "q = (if hash_quarantined (sha256_hex (arrived s r)) w then quarantinedBySystem else '''')"
  shows "wp (complete_upload s r mediaID meta st q) (\<lambda>_ w'.
    refused w w' \<or> completed_upload s r mediaID w w' \<or> uninstalled_upload s r mediaID w w') w1"
  (is "wp _ ?Q w1")
proof -
  let ?path = "su_path st" and ?rows = "completed_rows s r mediaID meta q (w_local w)"
  have st': "su_length st = int (length (arrived s r))" "su_sha256 st = sha256_hex (arrived s r)" "w_local w1 = w_local w"
    using st w1 by (auto simp: staged_def idle_def kept_def)
  have tmp: "incoming (su_tmpPath st)" by (rule staged_tmp [OF st])
  have rows: "rows_done s r mediaID w (w2\<lparr>w_local := ?rows\<rparr>)" if "env_step w1 w2" for w2
    unfolding rows_done_def
    by (intro conjI exI [of _ meta] exI [of _ q])
      (use w1 that in \<open>auto simp: tables_but_local_def idle_def kept_def env_step_same\<close>)
  have keep: "rows_done s r mediaID w w4" if "rows_done s r mediaID w w3" "idle w3 w4" for w3 w4
    using that by (auto simp: rows_done_def idle_def kept_def tables_but_local_def)
  have fail: "wp (uploadFailed r uploadEndpointAsync e what) ?Q w3" if "rows_done s r mediaID w w3" for e what w3
    by (rule wp_uploadFailed [OF idle_refl]) (use refused_uninstalled [OF that] in blast)
  show ?thesis
    unfolding complete_upload_def st'(1,2) wp_attempt [of "CompleteLocalMedia a b c d e f" for a b c d e f]
  proof (rule wp_CompleteLocalMedia, goal_cases)
    case (1 e w2)
    show ?case
      unfolding sum.case wp_bind
      by (rule wp_su_discard [OF idle_env_trans [OF w1 1] tmp], rule wp_uploadFailed, assumption) blast
  next
    case (2 e w2)
    show ?case
      unfolding sum.case wp_bind st'(3)
      by (rule wp_su_discard [OF idle_refl tmp], rule fail, rule keep [OF rows [OF 2]])
  next
    case (3 w2)
    let ?w3 = "w2\<lparr>w_local := ?rows\<rparr>"
    show ?case
    proof (cases "length (filter (completes mediaID) (w_local w)) = 1")
      case False
      have "wp (writeMatrixError 409 ''M_CANNOT_OVERWRITE_MEDIA'' ''Media ID already has content'') ?Q (w4\<lparr>w_notes := ns\<rparr>)"
        if "idle ?w3 w4" for w4 ns
        by (rule wp_refuse [of ?w3]) (use that refused_uninstalled [OF rows [OF 3]] in auto)
      then show ?thesis
        using False unfolding sum.case st'(3)
        by (simp only: if_False not_False_eq_True if_True wp_bind wp_count_upload)
          (rule wp_su_discard [OF idle_refl tmp], simp)
    next
      case won: True
      then have won': "\<not> length (filter (completes mediaID) (w_local w)) \<noteq> 1" by simp
      show ?thesis
        unfolding sum.case st'(3) if_not_P [OF won']
        by (rule wp_complete_install [OF w1 st v meta q won 3 rows [OF 3]])
    qed
  qed
qed

abbreviation async_post :: "'i Server \<Rightarrow> request \<Rightarrow> world \<Rightarrow> world \<Rightarrow> bool" where
  "async_post s r w w' \<equiv> completed_upload s r (path_value r ''mediaId'') w w' \<or> refused w w' \<or>
     uninstalled_upload s r (path_value r ''mediaId'') w w' \<or> \<not> sv_uploader s \<and> handed_over w w'"

lemma wp_async_receive:
  assumes "idle w w1" "vouched w (ExtractCredentials r) v" "tv_valid v"
    "reserved s w (path_value r ''mediaId'') (tv_userID v) row" "declared r meta"
  shows "wp (receive_upload s r uploadEndpointAsync (tv_userID v) (path_value r ''mediaId'')
    (complete_upload s r (path_value r ''mediaId'') meta)) (\<lambda>_. async_post s r w) w1"
proof (rule wp_receive_upload, goal_cases)
  case (1 w')
  then show ?case using idle_refused [OF assms(1)] by blast
next
  case (2 st w2)
  have same: "hash_quarantined x w1 = hash_quarantined x w" for x
    using assms(1) by (simp add: idle_def kept_def hash_quarantined_def)
  show ?case
    unfolding same
    by (rule wp_mono [OF wp_complete_upload [OF idle_trans [OF assms(1) 2(1)] 2(2) assms(2-5) refl]]) blast
qed

lemma wp_async_local:
  assumes "w0 = w\<lparr>w_notes := ns\<rparr>"
  shows "wp (on_some (authenticateUploader r) (\<lambda>user. on_some (verify_can_upload s r (path_value r ''mediaId'') user) (\<lambda>media.
    on_some (uploadMetadata s r) (\<lambda>meta. receive_upload s r uploadEndpointAsync user (path_value r ''mediaId'')
      (complete_upload s r (path_value r ''mediaId'') meta))))) (\<lambda>_. async_post s r w) w0"
  unfolding wp_on_some [of "authenticateUploader r"] assms
proof (rule wp_authenticateUploader, goal_cases)
  case (1 w1)
  then show ?case by simp
next
  case (2 v w1)
  then have v: "vouched w (ExtractCredentials r) v" and w1: "idle w w1" and clock: "w_clock w \<le> w_clock w1"
    by (simp_all add: vouched_def same_stores_def)
  show ?case
    unfolding option.case wp_on_some [of "verify_can_upload s r i u" for i u]
  proof (rule wp_verify_can_upload, goal_cases)
    case (1 w2)
    then show ?case using idle_refused [OF w1] by simp
  next
    case (2 m row w2)
    note row = reserved_before [OF 2(1) w1 clock] and w2 = idle_trans [OF w1 2(2)]
    show ?case
      unfolding option.case wp_on_some [of "uploadMetadata s r"]
    proof (rule wp_uploadMetadata, goal_cases)
      case (1 w3)
      then show ?case using idle_refused [OF w2] by simp
    next
      case (2 meta)
      then show ?case using wp_async_receive [OF w2 v \<open>tv_valid v\<close> row] by simp
    qed
  qed
qed


section \<open>The contract of a reservation\<close>

definition pending_rows :: "string \<Rightarrow> int \<Rightarrow> local_row list \<Rightarrow> local_row list" where
  "pending_rows user notBefore rows =
     filter (\<lambda>r. lr_user_id r = Some user \<and> after (lr_created_ts r) notBefore \<and> lr_length r = None) rows"

lemma wp_CountPendingMedia:
  assumes "\<And>e w'. env_step w w' \<Longrightarrow> Q (Inl e) w'"
    and "\<And>oldest w'. env_step w w' \<Longrightarrow> Q (Inr (int (length (pending_rows user t (w_local w))), oldest)) w'"
  shows "wp (CountPendingMedia user t) Q w"
  unfolding CountPendingMedia_def
proof (rule wp_read_call, goal_cases)
  case (3 w')
  then show ?case using assms(2) [OF 3] by (simp add: Let_def pending_rows_def env_step_same)
qed (simp_all add: Let_def assms(1))

text \<open>Success: a new pending row for the authenticated user, who had fewer than the allowed number.\<close>

definition reserved_media :: "'i Server \<Rightarrow> request \<Rightarrow> world \<Rightarrow> world \<Rightarrow> bool" where
  "reserved_media s r w w' \<longleftrightarrow> (\<exists>v mediaID ts notBefore h expires.
     vouched w (ExtractCredentials r) v \<and> tv_valid v \<and> mediaID \<notin> lr_media_id ` set (w_local w) \<and>
     (mc_MaxPendingMediaUploads (sv_media s) > 0 \<longrightarrow>
        int (length (pending_rows (tv_userID v) notBefore (w_local w))) < mc_MaxPendingMediaUploads (sv_media s)) \<and>
     w_local w' = w_local w @ [pending_row mediaID ts (tv_userID v) (AuthenticatedMedia (sv_media s))] \<and>
     tables_but_local w w' \<and> (\<forall>q. \<not> incoming q \<longrightarrow> w_files w' q = w_files w q) \<and>
     w_replies w' = w_replies w @ [\<lparr>rp_status = 200, rp_headers = h,
       rp_body = JsonBody (createResponse (content_uri s mediaID) expires)\<rparr>])"

text \<open>The row was written, but the database reported an error.\<close>

definition reserved_unknowingly :: "world \<Rightarrow> world \<Rightarrow> bool" where
  "reserved_unknowingly w w' \<longleftrightarrow> (\<exists>row. lr_media_id row \<notin> lr_media_id ` set (w_local w) \<and> lr_length row = None \<and>
     w_local w' = w_local w @ [row] \<and> tables_but_local w w' \<and>
     (\<forall>q. \<not> incoming q \<longrightarrow> w_files w' q = w_files w q) \<and> answered refusal w w')"

lemma wp_reserve:
  assumes w1: "idle w w1" and v: "vouched w (ExtractCredentials r) v" "tv_valid v"
    and free: "mc_MaxPendingMediaUploads (sv_media s) > 0 \<Longrightarrow>
      int (length (pending_rows (tv_userID v) notBefore (w_local w))) < mc_MaxPendingMediaUploads (sv_media s)"
  shows "wp (attempt (StoreLocalMediaID mediaID now (tv_userID v) (AuthenticatedMedia (sv_media s)))
      (\<lambda>e. internalError r ''reserving media id'') (\<lambda>_. do {
        setMedia '''' mediaID;
        setOutcome outcomeReserved;
        count_upload uploadEndpointCreate uploadResultReserved;
        inc_metric ''pending_media_reserved_total'' [];
        writeJSON 200 (createResponse (content_uri s mediaID) expires) }))
    (\<lambda>_ w'. reserved_media s r w w' \<or> refused w w' \<or> reserved_unknowingly w w') w1" (is "wp _ ?Q w1")
proof -
  let ?row = "pending_row mediaID now (tv_userID v) (AuthenticatedMedia (sv_media s))"
  have ins: "mediaID \<notin> lr_media_id ` set (w_local w) \<and> w_local w2 = w_local w @ [?row] \<and> tables_but_local w w2 \<and>
      (\<forall>q. \<not> incoming q \<longrightarrow> w_files w2 q = w_files w q) \<and> w_replies w2 = w_replies w" if "inserted ?row w1 w2" for w2
    using that w1 by (auto simp: inserted_def pending_row_def idle_def kept_def tables_but_local_def env_step_same)
  show ?thesis
    unfolding StoreLocalMediaID_def wp_attempt
  proof (rule wp_insert_local, goal_cases)
    case (1 e w2)
    have "wp (writeMatrixError 500 ''M_UNKNOWN'' ''Internal server error'') ?Q (w2\<lparr>w_notes := ns\<rparr>)" for ns
    proof (cases "env_step w1 w2")
      case True
      show ?thesis by (rule wp_refuse [of w]) (use idle_env_trans [OF w1 True] in simp_all)
    next
      case False
      then have i: "inserted ?row w1 w2" using 1 by blast
      show ?thesis
        by (rule wp_writeMatrixError, intro disjI2, unfold reserved_unknowingly_def, intro exI [of _ ?row])
          (use ins [OF i] in \<open>auto simp: same_stores_def tables_but_local_def answered_def pending_row_def\<close>)
    qed
    then show ?case by (simp add: internalError_def)
  next
    case (2 w2)
    have "reserved_media s r w (w2\<lparr>w_notes := ns, w_hdrs := h, w_replies := w_replies w2 @ [\<lparr>rp_status = 200, rp_headers = h,
        rp_body = JsonBody (createResponse (content_uri s mediaID) expires)\<rparr>]\<rparr>)" for ns h
      unfolding reserved_media_def
      by (intro exI [of _ v] exI [of _ mediaID] exI [of _ now] exI [of _ notBefore] exI [of _ h] exI [of _ expires])
        (use ins [OF 2] v free in \<open>simp add: tables_but_local_def\<close>)
    then show ?case by (simp add: writeJSON_def)
  qed
qed

abbreviation create_post :: "'i Server \<Rightarrow> request \<Rightarrow> world \<Rightarrow> world \<Rightarrow> bool" where
  "create_post s r w w' \<equiv> reserved_media s r w w' \<or> refused w w' \<or> reserved_unknowingly w w' \<or>
     \<not> sv_uploader s \<and> handed_over w w' \<or> newFilesystemID (w_draws w) = None \<and> idle w w'"

lemma wp_rate_limited:
  assumes "idle w w1"
  shows "wp (writeRateLimited n) (\<lambda>_. create_post s r w) (w1\<lparr>w_notes := ns\<rparr>)"
proof -
  have "refused w (w1\<lparr>w_notes := ns, w_hdrs := h, w_replies := w_replies w1 @ [\<lparr>rp_status = 429, rp_headers = h,
      rp_body = JsonBody ((''errcode'', JStr c) # b)\<rparr>]\<rparr>)" for h b c
    using assms by (auto simp: refused_def idle_def kept_def answered_def refusal_def)
  then show ?thesis by (simp add: writeRateLimited_def)
qed

text \<open>The end of \<^verbatim>\<open>handleCreateMedia\<close>: a new ID and its row.\<close>

lemma wp_create_fresh:
  assumes w2: "idle w w2" "w_draws w2 = w_draws w" and v: "vouched w (ExtractCredentials r) v" "tv_valid v"
    and free: "mc_MaxPendingMediaUploads (sv_media s) > 0 \<Longrightarrow>
      int (length (pending_rows (tv_userID v) notBefore (w_local w))) < mc_MaxPendingMediaUploads (sv_media s)"
  shows "wp (on_some fresh_id (\<lambda>mediaID. do {
        t \<leftarrow> go_now;
        let now = unix_milli t;
        attempt (StoreLocalMediaID mediaID now (tv_userID v) (AuthenticatedMedia (sv_media s)))
          (\<lambda>e. internalError r ''reserving media id'') (\<lambda>_. do {
        setMedia '''' mediaID;
        setOutcome outcomeReserved;
        count_upload uploadEndpointCreate uploadResultReserved;
        inc_metric ''pending_media_reserved_total'' [];
        writeJSON 200 (createResponse (content_uri s mediaID) (wrap64 (now + milliseconds expiry))) }) }))
    (\<lambda>_. create_post s r w) w2"
proof (cases "newFilesystemID (w_draws w)")
  case None
  then show ?thesis using w2 by (auto simp: wp_fresh_id)
next
  case (Some x)
  obtain i ds where x: "x = (i, ds)" by (cases x)
  have w3: "idle w (w2\<lparr>w_draws := ds, w_clock := t', w_ticks := ts'\<rparr>)" for t' ts' using w2(1) by simp
  show ?thesis
    unfolding wp_on_some wp_fresh_id w2(2) Some x option.case prod.case wp_bind Let_def
    by (rule wp_go_now, rule wp_mono [OF wp_reserve [OF w3 v free]], assumption) blast
qed


section \<open>A commit whose answer is lost\<close>

text \<open>If the connection to the database drops after the row of a synchronous upload was committed,
  the client is told of a failure and the file is removed, but the completed row stays: from then on the
  medium exists and has no bytes.\<close>

theorem lost_commit_orphans_row:
  assumes "staged s r mediaID st w" "w_faults w = [NoFault, Lost ErrDB]" "mediaID \<notin> lr_media_id ` set (w_local w)"
  shows "wp (record_upload s r user mediaID meta st q) (\<lambda>_ w'.
    (\<exists>row \<in> set (w_local w'). lr_media_id row = mediaID \<and> lr_length row \<noteq> None) \<and>
    w_files w' (su_path st) = None \<and> answered (\<lambda>rp. rp_status rp = 500 \<and> refusal rp) w w') w"
proof -
  note tmp = staged_tmp(1) [OF assms(1)]
  show ?thesis
    using assms(3)
    by (simp add: record_upload_def su_commit_def os_rename_def call_with_def lossy_with_def next_fault_def assms(2) tmp
        go_now_def Let_def StoreLocalMedia_def insert_local_def local_media_row_def discard_file_def os_remove_def
        uploadFailed_def db_err_def internalError_def writeMatrixError_def answered_def refusal_def)
qed

definition sample_server :: "(int \<times> int) Server" where
  "sample_server =
     \<lparr>sv_cfg = defaultConfig\<lparr>cfg_ServerName := ''example.org'', cfg_Media := defaultMedia\<lparr>
        mc_uploadLimits := [\<lparr>mul_MaxBytes = 100, mul_Window = 24 * Hour, mul_InfoURI = '''', mul_CanUpgrade = False\<rparr>,
          \<lparr>mul_MaxBytes = 10, mul_Window = Hour, mul_InfoURI = ''i'', mul_CanUpgrade = True\<rparr>]\<rparr>\<rparr>,
      sv_paths = AllowUploadWrites sample_store, sv_cache = sample_cache, sv_maxImagePixels = 100,
      sv_imaging = size_library, sv_remote = None, sv_uploader = True, sv_downloadUp = True,
      sv_thumbnailUp = True, sv_uploadUp = True, sv_passthroughUp = True\<rparr>"

definition empty_upload :: request where
  "empty_upload = \<lparr>rq_method = ''POST'', rq_path = ''/_matrix/media/v3/upload'', rq_rawquery = '''', rq_headers = [],
     rq_pathvals = [], rq_body = [], rq_remote = '''', rq_host = '''', rq_tls = True\<rparr>"

definition empty_stored :: storedUpload where
  "empty_stored = \<lparr>su_path = ''/data/media_store/local_content/ab/cd/efghij'',
     su_tmpPath = temp_name ''/data/media_store/local_content/.tmp'' ''.incoming-'' 1, su_length = 0,
     su_sha256 = sha256_hex []\<rparr>"

definition lost_world :: world where
  "lost_world = sample_world\<lparr>w_faults := [NoFault, Lost ErrDB],
     w_files := [su_tmpPath empty_stored \<mapsto> \<lparr>f_bytes = [], f_mode = 420, f_synced = True\<rparr>]\<rparr>"

lemma sample_local_path:
  "LocalMedia (AllowUploadWrites sample_store) ''abcdefghij'' = Inr ''/data/media_store/local_content/ab/cd/efghij''"
  "WritablePath (AllowUploadWrites sample_store) ''/data/media_store/local_content/ab/cd/efghij'' = Inr ()"
  by code_simp+

lemma empty_staged: "staged sample_server empty_upload ''abcdefghij'' empty_stored lost_world"
proof -
  have a: "arrived sample_server empty_upload = []" by (simp add: arrived_def empty_upload_def)
  have p: "sv_paths sample_server = AllowUploadWrites sample_store" by (simp add: sample_server_def)
  have i: "incoming (su_tmpPath empty_stored)" by (auto simp: empty_stored_def scratch_name_def)
  have m: "0 \<le> MaxUploadSizeOrDefault (sv_media sample_server)"
    by (simp add: sample_server_def MaxUploadSizeOrDefault_def defaultMedia_def synapseDefaultMaxUploadSize_def)
  show ?thesis
    unfolding staged_def a p using i m sample_local_path by (simp add: lost_world_def) (simp add: empty_stored_def)
qed

theorem lost_commit_orphans_row_witness:
  "wp (record_upload sample_server empty_upload ''@u:example.org'' ''abcdefghij'' (''image/png'', '''', 0) empty_stored '''')
    (\<lambda>_ w'. (\<exists>row \<in> set (w_local w'). lr_media_id row = ''abcdefghij'' \<and> lr_length row \<noteq> None) \<and>
      w_files w' (su_path empty_stored) = None \<and> answered (\<lambda>rp. rp_status rp = 500 \<and> refusal rp) lost_world w') lost_world"
  by (rule lost_commit_orphans_row [OF empty_staged]) (simp_all add: lost_world_def sample_world_def)


end
