(* ===== verification/Upload_Races.thy ===== *)
theory Upload_Races
  imports Upload_Correct
begin

text \<open>
  Uploads that race for one reserved media ID (src/upload.go: the comment on \<^verbatim>\<open>storedUpload\<close> and the
  end of \<^verbatim>\<open>handleAsyncUpload\<close>). Each client has its bytes in a temporary file of its own; the steps are
  the conditional update of the row, the rename onto the path they share, and the discarding of a
  loser's file, in any order between the clients and with anything else happening in between.
\<close>

section \<open>Steps\<close>

record offer =
  of_stored :: storedUpload
  of_type :: string
  of_name :: string
  of_quarantined :: string
  of_file :: disk_file

record race =
  rc_mediaID :: string
  rc_path :: string
  rc_offer :: "nat \<Rightarrow> offer"

abbreviation rc_stored :: "race \<Rightarrow> nat \<Rightarrow> storedUpload" where
  "rc_stored R i \<equiv> of_stored (rc_offer R i)"

abbreviation rc_tmp :: "race \<Rightarrow> nat \<Rightarrow> string" where
  "rc_tmp R i \<equiv> su_tmpPath (rc_stored R i)"

datatype phase = Staged | Winner | Loser | Installed | Uninstalled | Gone

definition complete_call :: "race \<Rightarrow> nat \<Rightarrow> bool res io" where
  "complete_call R i = CompleteLocalMedia (rc_mediaID R) (of_type (rc_offer R i)) (of_name (rc_offer R i))
     (su_length (rc_stored R i)) (su_sha256 (rc_stored R i)) (of_quarantined (rc_offer R i))"

definition rows_of :: "race \<Rightarrow> world \<Rightarrow> local_row list" where
  "rows_of R w = filter (\<lambda>row. lr_media_id row = rc_mediaID R) (w_local w)"

text \<open>What anything else may do: it leaves this row, this path and these temporary files alone.\<close>

definition elsewhere :: "race \<Rightarrow> world \<Rightarrow> world \<Rightarrow> bool" where
  "elsewhere R w w' \<longleftrightarrow> rows_of R w' = rows_of R w \<and> w_files w' (rc_path R) = w_files w (rc_path R) \<and>
     (\<forall>i. w_files w' (rc_tmp R i) = w_files w (rc_tmp R i))"

inductive race_step :: "race \<Rightarrow> world \<times> (nat \<Rightarrow> phase) \<Rightarrow> world \<times> (nat \<Rightarrow> phase) \<Rightarrow> bool" for R where
  race_complete: "ph i = Staged \<Longrightarrow> run_state (complete_call R i) w = (res, w') \<Longrightarrow>
    race_step R (w, ph) (w', ph(i := (if res = Inr True then Winner else Loser)))"
| race_install: "ph i = Winner \<Longrightarrow> run_state (su_commit (rc_stored R i)) w = (res, w') \<Longrightarrow>
    race_step R (w, ph) (w', ph(i := (if is_ok res then Installed else Uninstalled)))"
| race_discard: "ph i = Loser \<Longrightarrow> run_state (su_discard (rc_stored R i)) w = (st, w') \<Longrightarrow>
    race_step R (w, ph) (w', ph(i := Gone))"
| race_other: "elsewhere R w w' \<Longrightarrow> race_step R (w, ph) (w', ph)"

inductive race_reach :: "race \<Rightarrow> world \<times> (nat \<Rightarrow> phase) \<Rightarrow> world \<times> (nat \<Rightarrow> phase) \<Rightarrow> bool" for R s where
  race_refl: "race_reach R s s"
| race_next: "race_reach R s t \<Longrightarrow> race_step R t u \<Longrightarrow> race_reach R s u"

inductive_cases race_stepE: "race_step R (w, ph) t"

section \<open>Effects of the steps\<close>

lemma complete_call_effect:
  assumes "rows_of R w = [row]"
  shows "wp (complete_call R i) (\<lambda>res w'. w_files w' = w_files w \<and>
    (rows_of R w' = [row] \<and> res \<noteq> Inr True \<or>
     lr_length row = None \<and> rows_of R w' = [complete_row (of_type (rc_offer R i)) (of_name (rc_offer R i))
       (su_length (rc_stored R i)) (su_sha256 (rc_stored R i)) (of_quarantined (rc_offer R i)) row])) w"
proof -
  let ?c = "complete_row (of_type (rc_offer R i)) (of_name (rc_offer R i))
       (su_length (rc_stored R i)) (su_sha256 (rc_stored R i)) (of_quarantined (rc_offer R i))"
  let ?f = "\<lambda>r. if completes (rc_mediaID R) r then ?c r else r"
  have id: "lr_media_id (?f r) = lr_media_id r" for r by (simp add: complete_row_def)
  have rows: "filter (\<lambda>row. lr_media_id row = rc_mediaID R) (map ?f (w_local w)) = [?f row]"
    using assms by (simp add: filter_map o_def id rows_of_def)
  have row: "lr_media_id row = rc_mediaID R"
    using assms by (auto simp: rows_of_def filter_eq_Cons_iff)
  have count: "filter (completes (rc_mediaID R)) (w_local w) = filter (\<lambda>r. lr_length r = None) [row]"
    unfolding assms [symmetric] rows_of_def filter_filter completes_def by (rule filter_cong) auto
  have g: "rows_of R (w\<lparr>w_faults := fs, w_cancelled := c, w_local := map ?f (w_local w)\<rparr>) = [?f row]" for fs c
    using rows by (simp add: rows_of_def)
  show ?thesis
    unfolding complete_call_def CompleteLocalMedia_def
    by (rule wp_lossy; cases "lr_length row = None")
      (use assms row count g in \<open>auto simp: completes_def rows_of_def\<close>)
qed

lemma su_commit_effect:
  assumes "w_files w (su_tmpPath st) = Some f"
  shows "wp (su_commit st) (\<lambda>res w'. w_local w' = w_local w \<and>
    (if is_ok res then w_files w' = (w_files w)(su_tmpPath st := None, su_path st := Some f)
     else \<forall>q. q \<noteq> su_tmpPath st \<longrightarrow> w_files w' q = w_files w q)) w"
  unfolding su_commit_def wp_attempt os_rename_def
proof (rule wp_call, goal_cases)
  case (1 e fs c)
  let ?w = "w\<lparr>w_faults := fs, w_cancelled := c\<rparr>"
  have t: "temp_phase ?w (su_tmpPath st) ?w" by (simp add: temp_phase_def files_only_refl)
  show ?case
    unfolding sum.case wp_bind
    by (rule wp_discard_tmp [OF t]) (auto simp: temp_phase_def files_only_same)
next
  case (2 fs c)
  then show ?case using assms by simp
qed

lemma su_discard_effect:
  "wp (su_discard st) (\<lambda>st' w'. w_local w' = w_local w \<and> (\<forall>q. q \<noteq> su_tmpPath st \<longrightarrow> w_files w' q = w_files w q)) w"
proof -
  have t: "temp_phase w (su_tmpPath st) w" by (simp add: temp_phase_def files_only_refl)
  have "wp (discard_file (su_tmpPath st)) (\<lambda>_ w'. w_local w' = w_local w \<and>
      (\<forall>q. q \<noteq> su_tmpPath st \<longrightarrow> w_files w' q = w_files w q)) w"
    by (rule wp_discard_tmp [OF t]) (auto simp: temp_phase_def files_only_same)
  then show ?thesis by (simp add: su_discard_def)
qed

section \<open>The invariant\<close>

definition has_won :: "phase \<Rightarrow> bool" where
  "has_won p \<longleftrightarrow> p = Winner \<or> p = Installed \<or> p = Uninstalled"

definition describes :: "race \<Rightarrow> nat \<Rightarrow> local_row \<Rightarrow> bool" where
  "describes R i row \<longleftrightarrow> lr_media_id row = rc_mediaID R \<and> lr_length row = Some (su_length (rc_stored R i)) \<and>
     lr_sha256 row = nullableString (su_sha256 (rc_stored R i)) \<and> lr_media_type row = Some (of_type (rc_offer R i))"

lemma has_won_simps [simp]:
  "has_won Winner" "has_won Installed" "has_won Uninstalled" "\<not> has_won Staged" "\<not> has_won Loser" "\<not> has_won Gone"
  by (simp_all add: has_won_def)

text \<open>One path for all, a temporary file for each.\<close>

definition race_wf :: "race \<Rightarrow> bool" where
  "race_wf R \<longleftrightarrow> inj (rc_tmp R) \<and> (\<forall>i. su_path (rc_stored R i) = rc_path R \<and> rc_tmp R i \<noteq> rc_path R)"

definition race_inv :: "race \<Rightarrow> world \<times> (nat \<Rightarrow> phase) \<Rightarrow> bool" where
  "race_inv R s \<longleftrightarrow> (case s of (w, ph) \<Rightarrow>
     \<exists>row. rows_of R w = [row] \<and>
       (\<forall>i. has_won (ph i) \<longrightarrow> describes R i row \<and> (\<forall>j. has_won (ph j) \<longrightarrow> j = i)) \<and>
       (\<forall>i. ph i = Staged \<or> ph i = Winner \<longrightarrow> w_files w (rc_tmp R i) = Some (of_file (rc_offer R i))) \<and>
       (\<forall>i. ph i = Installed \<longrightarrow> w_files w (rc_path R) = Some (of_file (rc_offer R i))))"

definition race_start :: "race \<Rightarrow> world \<times> (nat \<Rightarrow> phase) \<Rightarrow> bool" where
  "race_start R s \<longleftrightarrow> (case s of (w, ph) \<Rightarrow>
     race_wf R \<and> length (rows_of R w) = 1 \<and> list_all (\<lambda>row. lr_length row = None) (rows_of R w) \<and>
     (\<forall>i. ph i = Gone \<or> ph i = Staged \<and> w_files w (rc_tmp R i) = Some (of_file (rc_offer R i))))"

lemma race_start_inv: "race_start R s \<Longrightarrow> race_inv R s"
proof -
  assume s: "race_start R s"
  obtain w ph where e: "s = (w, ph)" by (cases s)
  from s e have ph: "ph i = Gone \<or> ph i = Staged \<and> w_files w (rc_tmp R i) = Some (of_file (rc_offer R i))" for i
    by (simp add: race_start_def)
  have "\<not> has_won (ph i)" "ph i \<noteq> Installed" for i using ph [of i] by (auto simp: has_won_def)
  moreover have "ph i = Staged \<or> ph i = Winner \<Longrightarrow> w_files w (rc_tmp R i) = Some (of_file (rc_offer R i))" for i
    using ph [of i] by auto
  ultimately show ?thesis
    using s e by (auto simp: race_start_def race_inv_def length_Suc_conv)
qed

lemma complete_row_describes:
  "lr_media_id row = rc_mediaID R \<Longrightarrow>
   describes R i (complete_row (of_type (rc_offer R i)) (of_name (rc_offer R i))
       (su_length (rc_stored R i)) (su_sha256 (rc_stored R i)) q row)"
  by (simp add: describes_def complete_row_def)

text \<open>The step that completes the row, or finds it complete.\<close>

lemma race_inv_complete:
  assumes row: "rows_of R w = [row]" "lr_media_id row = rc_mediaID R"
    and won: "\<And>i. has_won (ph i) \<Longrightarrow> describes R i row" "\<And>i j. has_won (ph i) \<Longrightarrow> has_won (ph j) \<Longrightarrow> j = i"
    and tmp: "\<And>i. ph i = Staged \<or> ph i = Winner \<Longrightarrow> w_files w (rc_tmp R i) = Some (of_file (rc_offer R i))"
    and path: "\<And>i. ph i = Installed \<Longrightarrow> w_files w (rc_path R) = Some (of_file (rc_offer R i))"
    and run: "run_state (complete_call R i) w = (res, w')" and i: "ph i = Staged"
  shows "race_inv R (w', ph(i := if res = Inr True then Winner else Loser))"
proof -
  from wp_run [OF complete_call_effect [OF row(1)] run]
  have files: "w_files w' = w_files w"
    and rows: "rows_of R w' = [row] \<and> res \<noteq> Inr True \<or>
      (\<exists>row'. lr_length row = None \<and> rows_of R w' = [row'] \<and> describes R i row')"
    using complete_row_describes [OF row(2)] by blast+
  show ?thesis
  proof (cases "res = Inr True")
    case True
    then obtain row' where row': "lr_length row = None" "rows_of R w' = [row']" "describes R i row'"
      using rows by blast
    then have "\<not> has_won (ph j)" for j using won(1) [of j] by (auto simp: describes_def)
    then show ?thesis
      using row' files tmp path i True by (auto simp: race_inv_def has_won_def)
  next
    case False
    from rows have "\<exists>row'. rows_of R w' = [row'] \<and> (lr_length row = None \<or> row' = row)" by auto
    then obtain row' where row': "rows_of R w' = [row']" "lr_length row = None \<or> row' = row" by blast
    have d: "has_won (ph j) \<Longrightarrow> describes R j row'" for j
      using won(1) [of j] row'(2) by (auto simp: describes_def)
    have "has_won ((ph(i := Loser)) j) \<Longrightarrow> has_won (ph j)" for j by (auto split: if_splits)
    then have "\<forall>j. has_won ((ph(i := Loser)) j) \<longrightarrow> describes R j row' \<and> (\<forall>k. has_won ((ph(i := Loser)) k) \<longrightarrow> k = j)"
      using d won(2) by blast
    then show ?thesis
      using row'(1) files tmp path i False by (auto simp: race_inv_def)
  qed
qed

lemma race_inv_step:
  assumes wf: "race_wf R" and inv: "race_inv R s" and step: "race_step R s t"
  shows "race_inv R t"
proof -
  obtain w ph where s: "s = (w, ph)" by (cases s)
  obtain row where row: "rows_of R w = [row]"
    and won: "\<And>i. has_won (ph i) \<Longrightarrow> describes R i row" "\<And>i j. has_won (ph i) \<Longrightarrow> has_won (ph j) \<Longrightarrow> j = i"
    and tmp: "\<And>i. ph i = Staged \<or> ph i = Winner \<Longrightarrow> w_files w (rc_tmp R i) = Some (of_file (rc_offer R i))"
    and path: "\<And>i. ph i = Installed \<Longrightarrow> w_files w (rc_path R) = Some (of_file (rc_offer R i))"
    using inv unfolding s race_inv_def by auto
  have id: "lr_media_id row = rc_mediaID R" using row by (auto simp: rows_of_def filter_eq_Cons_iff)
  have apart: "rc_tmp R i = rc_tmp R j \<longleftrightarrow> i = j" "rc_tmp R i \<noteq> rc_path R" "su_path (rc_stored R i) = rc_path R" for i j
    using wf by (auto simp: race_wf_def inj_def)
  have path_tmp: "rc_path R \<noteq> rc_tmp R i" for i using apart(2) [of i] by metis
  show ?thesis
  proof (rule race_stepE [OF step [unfolded s]], goal_cases)
    case (1 i res w')
    with race_inv_complete [OF row id won tmp path] show ?thesis by blast
  next
    case (2 i res w')
    from wp_run [OF su_commit_effect [OF tmp] 2(3)] 2(2)
    have eff: "w_local w' = w_local w" "if is_ok res then w_files w' = (w_files w)(rc_tmp R i := None,
        rc_path R := Some (of_file (rc_offer R i))) else \<forall>q. q \<noteq> rc_tmp R i \<longrightarrow> w_files w' q = w_files w q"
      by (auto simp: apart)
    have only: "has_won (ph j) \<Longrightarrow> j = i" for j using won(2) [of i j] 2(2) by (simp add: has_won_def)
    have rows: "rows_of R w' = [row]" using row eff(1) by (simp add: rows_of_def)
    have d: "describes R i row" using won(1) [of i] 2(2) by (simp add: has_won_def)
    show ?thesis
      using rows d only eff(2) tmp path 2(1)
      by (cases "is_ok res") (auto simp: race_inv_def has_won_def apart path_tmp)
  next
    case (3 i st w')
    from wp_run [OF su_discard_effect 3(3)]
    have "w_local w' = w_local w" "\<And>q. q \<noteq> rc_tmp R i \<Longrightarrow> w_files w' q = w_files w q" by auto
    then show ?thesis
      using row won tmp path 3(1,2) by (auto simp: race_inv_def has_won_def apart path_tmp rows_of_def)
  next
    case (4 w')
    then show ?thesis
      using row won tmp path unfolding elsewhere_def race_inv_def by auto
  qed
qed

lemma race_inv_reach:
  assumes "race_reach R s t" "race_start R s"
  shows "race_inv R t"
  using assms(1)
proof (induction rule: race_reach.induct)
  case race_refl
  then show ?case by (rule race_start_inv [OF assms(2)])
next
  case (race_next t u)
  moreover have "race_wf R" using assms(2) by (auto simp: race_start_def)
  ultimately show ?case using race_inv_step by blast
qed

text \<open>C4: when any number of clients upload to one reserved ID at once, in any interleaving and with any
  failures, then a client whose upload was installed is the only one that completed the row, the row
  describes its bytes, and from then on the file holds its bytes, whatever the others still do.\<close>

theorem upload_race_safe:
  assumes "race_start R (w0, ph0)" "race_reach R (w0, ph0) (w, ph)" "ph i = Installed"
  shows "w_files w (rc_path R) = Some (of_file (rc_offer R i)) \<and>
    (\<exists>row. rows_of R w = [row] \<and> describes R i row) \<and> (\<forall>j. has_won (ph j) \<longrightarrow> j = i)"
  using race_inv_reach [OF assms(2,1)] assms(3) unfolding race_inv_def has_won_def by auto

subsection \<open>Two clients\<close>

definition two_file :: "nat \<Rightarrow> disk_file" where
  "two_file i = \<lparr>f_bytes = [of_nat i], f_mode = 420, f_synced = True\<rparr>"

definition two_race :: race where
  "two_race = \<lparr>rc_mediaID = ''abcdefghij'', rc_path = ''p'', rc_offer = (\<lambda>i.
     \<lparr>of_stored = \<lparr>su_path = ''p'', su_tmpPath = replicate (Suc i) (CHR ''a''), su_length = 1, su_sha256 = ''00''\<rparr>,
      of_type = ''image/png'', of_name = '''', of_quarantined = '''', of_file = two_file i\<rparr>)\<rparr>"

definition two_start :: world where
  "two_start = pending_world\<lparr>w_files := [''a'' \<mapsto> two_file 0, ''aa'' \<mapsto> two_file 1]\<rparr>"

definition two_phases :: "nat \<Rightarrow> phase" where
  "two_phases = (\<lambda>i. if i < 2 then Staged else Gone)"

lemma two_race_start: "race_start two_race (two_start, two_phases)"
proof -
  have "inj (rc_tmp two_race)" by (auto simp: inj_def two_race_def)
  moreover have "su_path (rc_stored two_race i) = rc_path two_race \<and> rc_tmp two_race i \<noteq> rc_path two_race" for i
    by (cases i) (simp_all add: two_race_def)
  moreover have "two_phases i = Gone \<or> two_phases i = Staged \<and> w_files two_start (rc_tmp two_race i) = Some (of_file (rc_offer two_race i))" for i
    by (cases "i = 0"; cases "i = 1") (simp_all add: two_phases_def two_start_def two_race_def)
  ultimately show ?thesis
    by (simp add: race_start_def race_wf_def rows_of_def two_start_def pending_world_def pending_row_def)
      (simp add: two_race_def)
qed

definition two_won :: world where
  "two_won = snd (run_state (complete_call two_race 0) two_start)"

lemma two_won:
  "run_state (complete_call two_race 0) two_start = (Inr True, two_won)" "w_faults two_won = []"
  "w_files two_won = [''a'' \<mapsto> two_file 0, ''aa'' \<mapsto> two_file 1]"
  by (simp_all add: two_won_def complete_call_def CompleteLocalMedia_def run_lossy_quiet two_start_def pending_world_def
      sample_world_def completes_def pending_row_def two_race_def)

definition two_installed :: world where
  "two_installed = snd (run_state (su_commit (rc_stored two_race 0)) two_won)"

lemma two_installed: "\<exists>st. run_state (su_commit (rc_stored two_race 0)) two_won = (Inr st, two_installed)"
  by (simp add: two_installed_def su_commit_def attempt_def run_state_bind os_rename_def run_call_quiet two_won
      State_Monad.return_def) (simp add: two_race_def)

theorem upload_race_safe_witness:
  "w_files two_installed (rc_path two_race) = Some (of_file (rc_offer two_race 0)) \<and>
    (\<exists>row. rows_of two_race two_installed = [row] \<and> describes two_race 0 row) \<and>
    \<not> (\<exists>j. has_won ((two_phases(0 := Winner, 0 := Installed)) j) \<and> j \<noteq> 0)"
proof -
  have "race_reach two_race (two_start, two_phases) (two_won, two_phases(0 := (if Inr True = (Inr True :: bool res) then Winner else Loser)))"
    by (rule race_next [OF race_refl], rule race_complete [OF _ two_won(1)]) (simp add: two_phases_def)
  then have won: "race_reach two_race (two_start, two_phases) (two_won, two_phases(0 := Winner))" by simp
  obtain st where st: "run_state (su_commit (rc_stored two_race 0)) two_won = (Inr st, two_installed)"
    using two_installed by blast
  have step: "race_step two_race (two_won, two_phases(0 := Winner)) (two_installed, two_phases(0 := Winner, 0 := Installed))"
    using race_install [where R = two_race and ph = "two_phases(0 := Winner)" and i = 0, OF _ st]
    by (simp only: fun_upd_same is_ok_simps if_True simp_thms)
  show ?thesis
    using upload_race_safe [OF two_race_start race_next [OF won step], of 0] by (simp only: fun_upd_same) blast
qed

end
