(* ===== verification/Mime.thy ===== *)
theory Mime
  imports Serve
begin

text \<open>
  \<^verbatim>\<open>mime.ParseMediaType\<close> as \<^verbatim>\<open>filenameFromDisposition\<close> of src/fetch.go uses it: the parameters of a
  header value, their duplicates, and the continuations and encodings of RFC 2231. With the
  dispositions this worker sends (Serve) it gives the round trip of a file name between two servers.
\<close>

section \<open>Tokens and values\<close>

definition tspecial :: "char \<Rightarrow> bool" where
  "tspecial c \<longleftrightarrow> c \<in> set (''()<>@,;:'' @ [backslash, quote_char] @ ''/[]?='')"

definition mime_char :: "char \<Rightarrow> bool" where
  "mime_char c \<longleftrightarrow> 32 < (of_char c :: nat) \<and> (of_char c :: nat) < 127 \<and> \<not> tspecial c"

definition trim_left :: "string \<Rightarrow> string" where
  "trim_left s = trim_front space_seqs s"

definition consumeToken :: "string \<Rightarrow> string \<times> string" where
  "consumeToken v = (takeWhile mime_char v, dropWhile mime_char v)"

text \<open>The rest of a quoted string; \<open>None\<close> where it is not closed on one line.\<close>

fun quoted_value :: "string \<Rightarrow> string \<Rightarrow> (string \<times> string) option" where
  "quoted_value acc [] = None"
| "quoted_value acc (c # cs) =
     (if c = quote_char then Some (rev acc, cs)
      else if c = backslash \<and> cs \<noteq> [] \<and> tspecial (hd cs) then quoted_value (hd cs # acc) (tl cs)
      else if c = cr \<or> c = lf then None
      else quoted_value (c # acc) cs)"

definition consumeValue :: "string \<Rightarrow> string \<times> string" where
  "consumeValue v =
     (if v = [] then ([], [])
      else if hd v \<noteq> quote_char then consumeToken v
      else (case quoted_value [] (tl v) of Some x \<Rightarrow> x | None \<Rightarrow> ([], v)))"

text \<open>\<open>None\<close> where the code returns an empty parameter name.\<close>

definition consumeMediaParam :: "string \<Rightarrow> (string \<times> string \<times> string) option" where
  "consumeMediaParam v =
     (let r0 = trim_left v in
      if take 1 r0 \<noteq> '';'' then None
      else (case consumeToken (trim_left (drop 1 r0)) of
        (name, r1) \<Rightarrow>
          if name = [] then None
          else (let r2 = trim_left r1 in
            if take 1 r2 \<noteq> ''='' then None
            else (let r3 = trim_left (drop 1 r2) in
              case consumeValue r3 of
                (value, r4) \<Rightarrow> if value = [] \<and> r4 = r3 then None else Some (to_lower name, value, r4)))))"

section \<open>The loop over the parameters\<close>

lemma trim_front_shorter: "length (trim_front seqs s) \<le> length s"
proof (induction seqs s rule: trim_front.induct)
  case (1 seqs s)
  show ?case
  proof (cases "find (\<lambda>p. p \<noteq> [] \<and> has_prefix p s) seqs")
    case None
    then show ?thesis by (simp add: trim_front.simps [of seqs s])
  next
    case (Some p)
    with 1 [OF Some] show ?thesis by (simp add: trim_front.simps [of seqs s])
  qed
qed

lemma quoted_value_shorter: "quoted_value acc s = Some (v, rest) \<Longrightarrow> length rest < length s"
proof (induction acc s arbitrary: v rest rule: quoted_value.induct)
  case (2 acc c cs)
  show ?case
  proof (cases "c \<noteq> quote_char \<and> c = backslash \<and> cs \<noteq> [] \<and> tspecial (hd cs)")
    case True
    then have "length rest < length (tl cs)" using 2 by auto
    then show ?thesis by simp
  next
    case False
    then show ?thesis using 2 by (auto split: if_splits)
  qed
qed simp

lemma consumeValue_shorter: "length (snd (consumeValue v)) \<le> length v"
  by (cases v) (auto simp: consumeValue_def consumeToken_def length_dropWhile_le le_SucI
      dest: quoted_value_shorter split: option.splits)

lemma consumeMediaParam_shorter:
  assumes "consumeMediaParam v = Some (k, x, rest)"
  shows "length rest < length v"
proof -
  let ?r0 = "trim_left v" and ?t = "consumeToken (trim_left (drop 1 (trim_left v)))"
  let ?r3 = "trim_left (drop 1 (trim_left (snd ?t)))"
  from assms have a: "take 1 ?r0 = '';''" "rest = snd (consumeValue ?r3)"
    by (auto simp: consumeMediaParam_def Let_def split: if_splits prod.splits)
  have "length rest \<le> length ?r3" using a(2) consumeValue_shorter by simp
  also have "\<dots> \<le> length (snd ?t)"
    by (metis diff_le_self le_trans length_drop trim_front_shorter trim_left_def)
  also have "\<dots> \<le> length (drop 1 ?r0)"
    unfolding consumeToken_def snd_conv by (metis le_trans length_dropWhile_le trim_front_shorter trim_left_def)
  also have "\<dots> < length ?r0" using a(1) by (cases ?r0) auto
  also have "\<dots> \<le> length v" using trim_front_shorter by (simp add: trim_left_def)
  finally show ?thesis .
qed

text \<open>The parameters in order; \<open>None\<close> is a parse error or a name with two values.\<close>

function media_params :: "(string \<times> string) list \<Rightarrow> string \<Rightarrow> (string \<times> string) list option" where
  "media_params ps v =
     (if trim_left v = [] then Some ps
      else (case consumeMediaParam (trim_left v) of
        None \<Rightarrow> (if trim_space (trim_left v) = '';'' then Some ps else None)
      | Some (k, x, rest) \<Rightarrow>
          (case map_of ps k of
             Some y \<Rightarrow> if y = x then media_params ps rest else None
           | None \<Rightarrow> media_params (ps @ [(k, x)]) rest)))"
  by pat_completeness auto
termination
  by (relation "measure (length \<circ> snd)")
    (use trim_front_shorter [of space_seqs] in
      \<open>auto simp: trim_left_def dest!: consumeMediaParam_shorter intro: less_le_trans\<close>)

declare media_params.simps [simp del]

definition checkMediaTypeDisposition :: "string \<Rightarrow> bool" where
  "checkMediaTypeDisposition s =
     (case consumeToken s of
        (typ, rest) \<Rightarrow>
          typ \<noteq> [] \<and>
          (rest = [] \<or>
           take 1 rest = ''/'' \<and> (case consumeToken (drop 1 rest) of (sub, rest') \<Rightarrow> sub \<noteq> [] \<and> rest' = [])))"

section \<open>RFC 2231\<close>

fun percentHexUnescape :: "string \<Rightarrow> string option" where
  "percentHexUnescape [] = Some []"
| "percentHexUnescape (c # cs) =
     (if c \<noteq> CHR ''%'' then map_option (Cons c) (percentHexUnescape cs)
      else (case cs of
        h # l # rest \<Rightarrow>
          (case (hex_val h, hex_val l) of
             (Some a, Some b) \<Rightarrow> map_option (Cons (char_of (16 * a + b))) (percentHexUnescape rest)
           | _ \<Rightarrow> None)
      | _ \<Rightarrow> None))"

definition decode2231Enc :: "string \<Rightarrow> string option" where
  "decode2231Enc v =
     (case cut apostrophe v of
        (charset, r1, found) \<Rightarrow>
          if \<not> found then None
          else (case cut apostrophe r1 of
            (lang, r2, found2) \<Rightarrow>
              if \<not> found2 then None
              else if to_lower charset \<noteq> ''us-ascii'' \<and> to_lower charset \<noteq> ''utf-8'' then None
              else percentHexUnescape r2))"

text \<open>The pieces \<open>key*0\<close>, \<open>key*1\<close> and so on, plain or encoded, as long as there is a next one; there
  are no more pieces than parameters.\<close>

definition coalesce_str :: "string option \<Rightarrow> string" where
  "coalesce_str x = (case x of None \<Rightarrow> [] | Some s \<Rightarrow> s)"

fun stitch :: "(string \<times> string) list \<Rightarrow> string \<Rightarrow> nat \<Rightarrow> nat \<Rightarrow> string list" where
  "stitch ps key n 0 = []"
| "stitch ps key n (Suc fuel) =
     (let piece = key @ ''*'' @ show_nat n in
      case map_of ps piece of
        Some v \<Rightarrow> v # stitch ps key (Suc n) fuel
      | None \<Rightarrow>
          (case map_of ps (piece @ ''*'') of
             None \<Rightarrow> []
           | Some v \<Rightarrow>
               (if n = 0 then coalesce_str (decode2231Enc v) else coalesce_str (percentHexUnescape v))
                 # stitch ps key (Suc n) fuel))"

text \<open>\<^verbatim>\<open>params[key]\<close> of the result: a valid encoding or continuation of the key replaces its plain
  value.\<close>

definition mime_param :: "(string \<times> string) list \<Rightarrow> string \<Rightarrow> string" where
  "mime_param ps key =
     (let plain = coalesce_str (map_of ps key) in
      case map_of ps (key @ ''*'') of
        Some v \<Rightarrow> (case decode2231Enc v of Some d \<Rightarrow> d | None \<Rightarrow> plain)
      | None \<Rightarrow>
          (case stitch ps key 0 (length ps) of [] \<Rightarrow> plain | ws \<Rightarrow> concat ws))"

text \<open>\<^verbatim>\<open>mime.ParseMediaType\<close>: the type, and its parameters before their stitching.\<close>

definition ParseMediaType :: "string \<Rightarrow> (string \<times> (string \<times> string) list) option" where
  "ParseMediaType v =
     (let b = takeWhile (\<lambda>c. c \<noteq> CHR '';'') v;
          mediatype = trim_space (to_lower b) in
      if \<not> checkMediaTypeDisposition mediatype then None
      else map_option (\<lambda>ps. (mediatype, ps)) (media_params [] (drop (length b) v)))"

section \<open>src/fetch.go: file names\<close>

definition headerOrDefault :: "string \<Rightarrow> string \<Rightarrow> string" where
  "headerOrDefault v fallback = (if trim_space v = '''' then fallback else v)"

text \<open>The part after the last slash or backslash.\<close>

definition strip_dirs :: "string \<Rightarrow> string" where
  "strip_dirs name = rev (takeWhile (\<lambda>c. c \<noteq> CHR ''/'' \<and> c \<noteq> backslash) (rev name))"

definition filenameFromDisposition :: "string \<Rightarrow> string" where
  "filenameFromDisposition disposition =
     (if disposition = '''' then ''''
      else (case ParseMediaType disposition of
        None \<Rightarrow> ''''
      | Some (_, params) \<Rightarrow>
          (let name = mime_param params ''filename'' in
           if name = '''' then ''''
           else (let stripped = strip_dirs name in
             if stripped = ''.'' \<or> stripped = ''..'' then '''' else stripped))))"

section \<open>The name that arrives\<close>

text \<open>Whatever a server sends, the stored name has no directory in it.\<close>

lemma filenameFromDisposition_flat:
  "CHR ''/'' \<notin> set (filenameFromDisposition d) \<and> backslash \<notin> set (filenameFromDisposition d) \<and>
   filenameFromDisposition d \<noteq> ''.'' \<and> filenameFromDisposition d \<noteq> ''..''"
proof -
  have "CHR ''/'' \<notin> set (strip_dirs n) \<and> backslash \<notin> set (strip_dirs n)" for n
    by (auto simp: strip_dirs_def dest: set_takeWhileD)
  then show ?thesis
    by (simp add: filenameFromDisposition_def Let_def split: option.splits prod.splits)
qed

text \<open>Where trimming stops.\<close>

definition solid :: "char \<Rightarrow> bool" where
  "solid c \<longleftrightarrow> of_char c \<notin> {9::nat, 10, 11, 12, 13, 32, 194, 225, 226, 227}"

lemma trim_left_solid: "solid c \<Longrightarrow> trim_left (c # s) = c # s"
proof -
  assume c: "solid c"
  have "find (\<lambda>p. p \<noteq> [] \<and> has_prefix p (c # s)) space_seqs = None"
    unfolding find_None_iff
  proof
    assume "\<exists>p. p \<in> set space_seqs \<and> p \<noteq> [] \<and> has_prefix p (c # s)"
    then obtain p where p: "p \<in> set space_seqs" "p \<noteq> []" "has_prefix p (c # s)" by blast
    obtain t where "c # s = p @ t" using p(3) by (auto simp: has_prefix_iff)
    then have "hd p = c" using p(2) by (cases p) simp_all
    moreover have "\<not> solid (hd p)" using p(1) by (auto simp: space_seqs_def solid_def)
    ultimately show False using c by simp
  qed
  then show ?thesis by (simp add: trim_left_def trim_front.simps [of space_seqs])
qed

lemma space_seqs_head: "\<exists>rest. space_seqs = [CHR 0x09] # [CHR 0x0A] # [CHR 0x0B] # [CHR 0x0C] # [CHR 0x0D] # '' '' # rest"
  by (simp add: space_seqs_def char_of_eq_iff)

lemma trim_left_space: "trim_left (CHR '' '' # s) = trim_left s"
proof -
  obtain rest where r: "space_seqs = [CHR 0x09] # [CHR 0x0A] # [CHR 0x0B] # [CHR 0x0C] # [CHR 0x0D] # '' '' # rest"
    using space_seqs_head by blast
  have "find (\<lambda>p. p \<noteq> [] \<and> has_prefix p (CHR '' '' # s)) space_seqs = Some '' ''"
    unfolding r by (simp add: has_prefix_def)
  then show ?thesis by (simp add: trim_left_def trim_front.simps [of space_seqs "CHR '' '' # s"])
qed

lemma trim_left_Nil [simp]: "trim_left [] = []"
proof -
  have "find (\<lambda>p. p \<noteq> [] \<and> has_prefix p []) space_seqs = None" by (simp add: find_None_iff has_prefix_def)
  then show ?thesis unfolding trim_left_def by (subst trim_front.simps) simp
qed

lemma trim_front_drop: "\<exists>k. trim_front seqs s = drop k s"
proof (induction seqs s rule: trim_front.induct)
  case (1 seqs s)
  show ?case
  proof (cases "find (\<lambda>p. p \<noteq> [] \<and> has_prefix p s) seqs")
    case None
    then show ?thesis by (simp add: trim_front.simps [of seqs s]) (metis drop0)
  next
    case (Some p)
    with 1 [OF Some] show ?thesis by (auto simp: trim_front.simps [of seqs s])
  qed
qed

lemma trim_space_head: "solid c \<Longrightarrow> trim_space (c # s) = [] \<or> hd (trim_space (c # s)) = c"
proof -
  assume c: "solid c"
  obtain k where "trim_front (map rev space_seqs) (rev (c # s)) = drop k (rev (c # s))"
    using trim_front_drop by blast
  then have "trim_space (c # s) = rev (drop k (rev (c # s)))"
    using trim_left_solid [OF c, of s] by (simp only: trim_space_def trim_left_def)
  then have "trim_space (c # s) = take (Suc (length s) - k) (c # s)"
    by (simp only: rev_drop rev_rev_ident length_rev list.size add_0_right add_Suc_right)
  then show ?thesis by (cases "Suc (length s) - k") auto
qed

text \<open>A string that begins and ends with a printable ASCII character.\<close>

lemma trim_space_ascii:
  assumes "solid c" "s @ [d] = c # t" "32 < (of_char d :: nat)" "(of_char d :: nat) < 128"
  shows "trim_space (s @ [d]) = s @ [d]"
proof -
  have "find (\<lambda>p. p \<noteq> [] \<and> has_prefix p (d # rev s)) (map rev space_seqs) = None"
    unfolding find_None_iff
  proof
    assume "\<exists>p. p \<in> set (map rev space_seqs) \<and> p \<noteq> [] \<and> has_prefix p (d # rev s)"
    then obtain p where p: "rev p \<in> set space_seqs" "p \<noteq> []" "has_prefix p (d # rev s)"
      by (metis (no_types, lifting) image_iff list.set_map rev_rev_ident)
    obtain t where "d # rev s = p @ t" using p(3) by (auto simp: has_prefix_iff)
    then have "last (rev p) = d" using p(2) by (cases p) simp_all
    moreover have "of_char (last (rev p)) \<le> (32 :: nat) \<or> of_char (last (rev p)) \<ge> (128 :: nat)"
      using p(1) by (auto simp: space_seqs_def)
    ultimately show False using assms(3,4) by simp
  qed
  then have "trim_front (map rev space_seqs) (rev (s @ [d])) = rev (s @ [d])"
    by (subst trim_front.simps) simp
  moreover have "trim_front space_seqs (s @ [d]) = s @ [d]"
    using trim_left_solid [OF assms(1), of t] assms(2) by (simp add: trim_left_def)
  ultimately show ?thesis by (simp add: trim_space_def)
qed

lemma token_mime: "token_char c \<Longrightarrow> mime_char c"
  by (auto simp: token_char_def mime_char_def disallowedTokenChars_def tspecial_def)

lemma mime_solid: "mime_char c \<Longrightarrow> solid c"
  by (auto simp: mime_char_def solid_def)

lemma mime_not_quote: "mime_char c \<Longrightarrow> c \<noteq> quote_char"
  by (auto simp: mime_char_def tspecial_def)

lemma not_mime_slash: "\<not> mime_char CHR ''/''"
  by (simp add: mime_char_def tspecial_def)

lemma consumeToken_all:
  "list_all mime_char s \<Longrightarrow> \<not> mime_char x \<Longrightarrow> consumeToken (s @ x # rest) = (s, x # rest)"
  "list_all mime_char s \<Longrightarrow> consumeToken s = (s, [])"
  by (auto simp: consumeToken_def list_all_iff takeWhile_eq_all_conv dropWhile_append3
      takeWhile_append dropWhile_append)

text \<open>One parameter with a bare value.\<close>

lemma consumeMediaParam_bare:
  assumes k: "list_all mime_char k" "k \<noteq> []" and v: "list_all mime_char v" "v \<noteq> []"
    and rest: "rest = [] \<or> \<not> mime_char (hd rest)"
  shows "consumeMediaParam (''; '' @ k @ ''='' @ v @ rest) = Some (to_lower k, v, rest)"
proof -
  have solid: "solid (CHR '';'')" "solid (CHR ''='')" "\<not> mime_char CHR ''=''"
    by (simp_all add: solid_def mime_char_def tspecial_def)
  obtain c cs where kc: "k = c # cs" using k by (cases k) auto
  obtain d ds where vd: "v = d # ds" using v by (cases v) auto
  have h: "solid c" "solid d" "d \<noteq> quote_char"
    using k v kc vd by (auto intro: mime_solid dest: mime_not_quote)
  have t0: "trim_left ('';'' @ s) = '';'' @ s" for s using trim_left_solid [OF solid(1)] by simp
  have t1: "trim_left (drop 1 (''; '' @ k @ s)) = k @ s" for s
    using trim_left_solid [OF h(1)] by (simp add: trim_left_space kc)
  have t2: "consumeToken (k @ ''='' @ s) = (k, ''='' @ s)" for s
    using consumeToken_all(1) [OF k(1) solid(3)] by simp
  have t3: "trim_left (''='' @ s) = ''='' @ s" for s using trim_left_solid [OF solid(2)] by simp
  have t4: "trim_left (v @ s) = v @ s" for s using trim_left_solid [OF h(2)] by (simp add: vd)
  have "consumeToken (v @ rest) = (v, rest)"
    using rest consumeToken_all [OF v(1)] by (cases rest) auto
  then have t5: "consumeValue (v @ rest) = (v, rest)" using h(3) by (simp add: consumeValue_def vd)
  have "trim_left (''; '' @ k @ ''='' @ v @ rest) = ''; '' @ k @ ''='' @ v @ rest"
    using t0 [of "'' '' @ k @ ''='' @ v @ rest"] by simp
  then show ?thesis
    unfolding consumeMediaParam_def Let_def t1
    using k(2) v(2) by (simp only: t1 t2 prod.case) (use t3 t4 t5 in \<open>simp add: vd\<close>)
qed

section \<open>The round trip\<close>

lemma sanitize_plain:
  "quote_char \<notin> set s \<Longrightarrow> cr \<notin> set s \<Longrightarrow> lf \<notin> set s \<Longrightarrow> sanitizeHeaderValue s = s"
  by (induction s) (auto simp: sanitizeHeaderValue_def)

lemma not_mime: "\<not> mime_char quote_char" "\<not> mime_char cr" "\<not> mime_char lf"
  by (simp_all add: mime_char_def tspecial_def special_chars)

lemma sanitize_token: "list_all mime_char s \<Longrightarrow> sanitizeHeaderValue s = s"
  using not_mime by (intro sanitize_plain) (auto simp: list_all_iff)

lemma sanitize_append: "sanitizeHeaderValue (a @ b) = sanitizeHeaderValue a @ sanitizeHeaderValue b"
  by (simp add: sanitizeHeaderValue_def)

lemma percent_encode_char: "percentHexUnescape (encode_name_char c @ rest) = map_option (Cons c) (percentHexUnescape rest)"
proof (cases "is_alnum c \<or> c \<in> set ''_.-~/''")
  case True
  then have "c \<noteq> CHR ''%''" by (auto simp: is_alnum_def)
  with True show ?thesis by (simp add: encode_name_char_def)
next
  case False
  then have "encode_name_char c = pct c" by (simp only: encode_name_char_def if_False)
  then show ?thesis using char_nibbles [of c] by (simp add: pct_def Let_def)
qed

lemma percent_urlEncode: "percentHexUnescape (urlEncodeFilename n) = Some n"
  by (induction n) (simp_all add: urlEncodeFilename_def percent_encode_char)

lemma alnum_mime: "is_alnum c \<Longrightarrow> mime_char c"
proof -
  assume c: "is_alnum c"
  have "list_all (\<lambda>c. \<not> is_alnum c) (''()<>@,;:'' @ [backslash, quote_char] @ ''/[]?='')" by code_simp
  then have "\<not> tspecial c" using c unfolding tspecial_def list_all_iff by blast
  then show ?thesis using c unfolding mime_char_def is_alnum_def Let_def by linarith
qed

lemma sign_mime: "list_all mime_char ''%_.-~''"
  by code_simp

lemma pct_mime: "list_all mime_char (pct c)"
  unfolding list_all_iff using pct_chars [of _ c] alnum_mime sign_mime by auto

lemma encode_name_char_mime: "c \<noteq> CHR ''/'' \<Longrightarrow> list_all mime_char (encode_name_char c)"
  using pct_mime [of c] alnum_mime [of c] sign_mime by (auto simp: encode_name_char_def)

lemma urlEncode_mime: "CHR ''/'' \<notin> set n \<Longrightarrow> list_all mime_char (urlEncodeFilename n)"
  by (induction n) (auto simp: urlEncodeFilename_def intro!: encode_name_char_mime)

lemma sanitize_encoded: "sanitizeHeaderValue (urlEncodeFilename n) = urlEncodeFilename n"
proof -
  have "x \<noteq> quote_char \<and> x \<noteq> cr \<and> x \<noteq> lf" if "x \<in> set (urlEncodeFilename n)" for x
    using urlEncodeFilename_chars [OF that] by (auto simp: is_alnum_def special_chars Let_def)
  then have "quote_char \<notin> set (urlEncodeFilename n)" "cr \<notin> set (urlEncodeFilename n)" "lf \<notin> set (urlEncodeFilename n)"
    by blast+
  then show ?thesis by (rule sanitize_plain)
qed

lemma media_params_one:
  assumes "consumeMediaParam (CHR '';'' # v) = Some (k, x, rest)"
  shows "media_params [] (CHR '';'' # v) = media_params [(k, x)] rest"
proof -
  have "trim_left (CHR '';'' # v) = CHR '';'' # v" by (rule trim_left_solid) (simp add: solid_def)
  then show ?thesis using assms by (subst media_params.simps) simp
qed

lemma media_params_Nil: "media_params ps [] = Some ps"
  by (simp add: media_params.simps [of ps "[]"])

lemma media_params_slash: "media_params ps (CHR ''/'' # v) = None"
proof -
  have solid: "solid CHR ''/''" by (simp add: solid_def)
  have "trim_space (CHR ''/'' # v) \<noteq> '';''" using trim_space_head [OF solid, of v] by auto
  moreover have "consumeMediaParam (CHR ''/'' # v) = None"
    using trim_left_solid [OF solid, of v] by (simp add: consumeMediaParam_def Let_def)
  ultimately show ?thesis
    using trim_left_solid [OF solid, of v] by (subst media_params.simps) simp
qed

lemma ParseMediaType_disposition:
  assumes "d = ''inline'' \<or> d = ''attachment''"
  shows "ParseMediaType (d @ CHR '';'' # v) = map_option (\<lambda>ps. (d, ps)) (media_params [] (CHR '';'' # v))"
    "ParseMediaType d = Some (d, [])"
proof -
  have t: "takeWhile (\<lambda>c. c \<noteq> CHR '';'') (d @ CHR '';'' # v) = d" "takeWhile (\<lambda>c. c \<noteq> CHR '';'') d = d"
    using assms by auto
  have l: "to_lower ''inline'' = ''inline''" "to_lower ''attachment'' = ''attachment''" by code_simp+
  have e: "trim_space (to_lower ''inline'') = ''inline''" "trim_space (to_lower ''attachment'') = ''attachment''"
    unfolding l
    using trim_space_ascii [of "CHR ''i''" "''inlin''" "CHR ''e''" "''nline''"]
      trim_space_ascii [of "CHR ''a''" "''attachmen''" "CHR ''t''" "''ttachment''"] by (simp_all add: solid_def)
  have "checkMediaTypeDisposition ''inline''" "checkMediaTypeDisposition ''attachment''"
    by (simp_all add: checkMediaTypeDisposition_def consumeToken_def mime_char_def tspecial_def special_chars)
  then have d: "trim_space (to_lower d) = d" "checkMediaTypeDisposition d" using assms e by auto
  show "ParseMediaType (d @ CHR '';'' # v) = map_option (\<lambda>ps. (d, ps)) (media_params [] (CHR '';'' # v))"
    unfolding ParseMediaType_def Let_def t by (simp add: d)
  show "ParseMediaType d = Some (d, [])"
    unfolding ParseMediaType_def Let_def t by (simp add: d media_params_Nil)
qed

lemma filename_of_params:
  assumes "d = ''inline'' \<or> d = ''attachment''" "media_params [] (CHR '';'' # v) = Some ps"
    "mime_param ps ''filename'' = n"
  shows "filenameFromDisposition (d @ CHR '';'' # v) = (if strip_dirs n \<in> {''.'', ''..''} then '''' else strip_dirs n)"
proof -
  have "strip_dirs '''' = ''''" by (simp add: strip_dirs_def)
  then show ?thesis
    using ParseMediaType_disposition(1) [OF assms(1), of v] assms(2,3)
    by (simp add: filenameFromDisposition_def Let_def)
qed

lemma keys_mime: "list_all mime_char ''filename''" "list_all mime_char ''filename*''"
  "list_all mime_char (''utf-8'' @ [apostrophe, apostrophe])"
  by code_simp+

lemma bare_name:
  assumes "canEncodeFilenameAsToken n"
  shows "media_params [] (''; filename='' @ n) = Some [(''filename'', n)]"
proof -
  have n: "list_all mime_char n" "n \<noteq> []"
    using assms token_mime by (auto simp: canEncodeFilenameAsToken_def list_all_iff)
  have "consumeMediaParam (''; filename='' @ n) = Some (''filename'', n, [])"
    using consumeMediaParam_bare [OF keys_mime(1) _ n, of "[]"] by (simp add: lower_char_def)
  then show ?thesis using media_params_one [of "'' filename='' @ n"] by (simp add: media_params_Nil)
qed

lemma split_slash: "CHR ''/'' \<in> set n \<Longrightarrow> \<exists>a b. urlEncodeFilename n = urlEncodeFilename a @ CHR ''/'' # urlEncodeFilename b \<and> CHR ''/'' \<notin> set a"
proof -
  assume "CHR ''/'' \<in> set n"
  then obtain a b where "n = a @ CHR ''/'' # b" "CHR ''/'' \<notin> set a" by (meson split_list_first)
  then show ?thesis by (auto simp: urlEncodeFilename_def encode_name_char_def)
qed

lemma encoded_name:
  "media_params [] (''; filename*=utf-8'' @ [apostrophe, apostrophe] @ urlEncodeFilename n) =
   (if CHR ''/'' \<in> set n then None
    else Some [(''filename*'', ''utf-8'' @ [apostrophe, apostrophe] @ urlEncodeFilename n)])"
proof (cases "CHR ''/'' \<in> set n")
  case True
  then obtain a b where ab: "urlEncodeFilename n = urlEncodeFilename a @ CHR ''/'' # urlEncodeFilename b" "CHR ''/'' \<notin> set a"
    using split_slash by blast
  let ?v = "''utf-8'' @ [apostrophe, apostrophe] @ urlEncodeFilename a"
  have v: "list_all mime_char ?v" using keys_mime(3) urlEncode_mime [OF ab(2)] by simp
  have "consumeMediaParam (''; filename*='' @ ?v @ CHR ''/'' # urlEncodeFilename b) =
      Some (''filename*'', ?v, CHR ''/'' # urlEncodeFilename b)"
    using consumeMediaParam_bare [OF keys_mime(2) _ v, of "CHR ''/'' # urlEncodeFilename b"] not_mime_slash
    by (simp add: lower_char_def)
  then show ?thesis
    using media_params_one [of "'' filename*='' @ ?v @ CHR ''/'' # urlEncodeFilename b"] True
    by (simp add: ab(1) media_params_slash)
next
  case False
  let ?v = "''utf-8'' @ [apostrophe, apostrophe] @ urlEncodeFilename n"
  have v: "list_all mime_char ?v" using keys_mime(3) urlEncode_mime [OF False] by simp
  have "consumeMediaParam (''; filename*='' @ ?v) = Some (''filename*'', ?v, [])"
    using consumeMediaParam_bare [OF keys_mime(2) _ v, of "[]"] by (simp add: lower_char_def)
  then show ?thesis
    using media_params_one [of "'' filename*='' @ ?v"] False by (simp add: media_params_Nil)
qed

lemma decode_encoded: "decode2231Enc (''utf-8'' @ [apostrophe, apostrophe] @ urlEncodeFilename n) = Some n"
proof -
  have "cut apostrophe (''utf-8'' @ apostrophe # apostrophe # urlEncodeFilename n) = (''utf-8'', apostrophe # urlEncodeFilename n, True)"
    by (rule cut_append) (simp add: apostrophe_def)
  moreover have "cut apostrophe ([] @ apostrophe # urlEncodeFilename n) = ([], urlEncodeFilename n, True)"
    by (rule cut_append) simp
  ultimately show ?thesis
    by (simp add: decode2231Enc_def lower_char_def percent_urlEncode)
qed

abbreviation disposition_type :: "string \<Rightarrow> string" where
  "disposition_type t \<equiv> if base_type t \<in> set inlineContentTypes then ''inline'' else ''attachment''"

lemma sanitize_type: "sanitizeHeaderValue (disposition_type t) = disposition_type t"
  by (rule sanitize_token) (simp add: mime_char_def tspecial_def special_chars)

lemma filename_token:
  assumes "n \<noteq> ''''" "canEncodeFilenameAsToken n"
  shows "filenameFromDisposition (sanitizeHeaderValue (contentDisposition t n)) =
    (if strip_dirs n \<in> {''.'', ''..''} then '''' else strip_dirs n) \<and> CHR ''/'' \<notin> set n"
proof -
  have d: "disposition_type t = ''inline'' \<or> disposition_type t = ''attachment''" by simp
  have tok: "list_all mime_char n" using assms token_mime by (auto simp: canEncodeFilenameAsToken_def list_all_iff)
  then have slash: "CHR ''/'' \<notin> set n" using not_mime_slash by (auto simp: list_all_iff)
  have "sanitizeHeaderValue ''; filename='' = ''; filename=''" by (rule sanitize_plain) (simp_all add: special_chars)
  then have "sanitizeHeaderValue (contentDisposition t n) = disposition_type t @ CHR '';'' # '' filename='' @ n"
    using assms sanitize_type [of t] sanitize_token [OF tok] sanitize_append [of "''; filename=''" n]
    by (simp add: contentDisposition_def sanitize_append [of "disposition_type t"] Let_def)
  moreover have "mime_param [(''filename'', n)] ''filename'' = n"
    using assms(1) by (simp add: mime_param_def coalesce_str_def)
  ultimately show ?thesis
    using filename_of_params [OF d, of "'' filename='' @ n"] bare_name [OF assms(2)] slash by simp
qed

lemma filename_encoded:
  assumes "n \<noteq> ''''" "\<not> canEncodeFilenameAsToken n"
  shows "filenameFromDisposition (sanitizeHeaderValue (contentDisposition t n)) =
    (if CHR ''/'' \<in> set n \<or> strip_dirs n \<in> {''.'', ''..''} then '''' else strip_dirs n)"
proof -
  have d: "disposition_type t = ''inline'' \<or> disposition_type t = ''attachment''" by simp
  have "sanitizeHeaderValue (''; filename*=utf-8'' @ [apostrophe, apostrophe]) = ''; filename*=utf-8'' @ [apostrophe, apostrophe]"
    by (rule sanitize_plain) (simp_all add: special_chars)
  then have v: "sanitizeHeaderValue (contentDisposition t n) =
      disposition_type t @ CHR '';'' # '' filename*=utf-8'' @ [apostrophe, apostrophe] @ urlEncodeFilename n"
    using assms sanitize_type [of t] sanitize_encoded [of n]
      sanitize_append [of "''; filename*=utf-8'' @ [apostrophe, apostrophe]" "urlEncodeFilename n"]
    by (simp add: contentDisposition_def sanitize_append [of "disposition_type t"] Let_def)
  show ?thesis
  proof (cases "CHR ''/'' \<in> set n")
    case True
    then show ?thesis
      unfolding v
      using ParseMediaType_disposition(1) [OF d, of "'' filename*=utf-8'' @ [apostrophe, apostrophe] @ urlEncodeFilename n"]
        encoded_name [of n]
      by (simp add: filenameFromDisposition_def)
  next
    case False
    have "mime_param [(''filename*'', ''utf-8'' @ [apostrophe, apostrophe] @ urlEncodeFilename n)] ''filename'' = n"
      using decode_encoded [of n] by (simp add: mime_param_def)
    then show ?thesis
      unfolding v
      using filename_of_params [OF d, of "'' filename*=utf-8'' @ [apostrophe, apostrophe] @ urlEncodeFilename n"]
        encoded_name [of n] False
      by simp
  qed
qed

text \<open>The name another server running this code stores for a file is the last component of the one it
  was uploaded with, whatever bytes it is made of, as long as it has no slash; a name with a slash is
  lost, since the slash is sent unescaped and ends the value; and \<^verbatim>\<open>.\<close> and \<^verbatim>\<open>..\<close> are never stored.\<close>

theorem filename_roundtrip:
  "filenameFromDisposition (sanitizeHeaderValue (contentDisposition t n)) =
   (if CHR ''/'' \<in> set n \<or> strip_dirs n \<in> {''.'', ''..''} then '''' else strip_dirs n)"
proof (cases "n = ''''")
  case True
  have "disposition_type t = ''inline'' \<or> disposition_type t = ''attachment''" by simp
  from ParseMediaType_disposition(2) [OF this] sanitize_type [of t] True show ?thesis
    by (simp add: contentDisposition_def filenameFromDisposition_def mime_param_def coalesce_str_def strip_dirs_def Let_def)
next
  case False
  then show ?thesis using filename_token filename_encoded by (cases "canEncodeFilenameAsToken n") auto
qed

end
