(* ===== verification/Fetch_Store.thy ===== *)
theory Fetch_Store
  imports Upload_Correct Mime
begin

text \<open>
  src/fetch.go and src/store.go: media of other servers. A download is read out of the federation
  envelope, or from the address it names, into a temporary file; the file is installed, and only then
  its row is inserted, which the first writer wins. The requests themselves are the federation
  library's: what comes back is the next entry of the world. A body that breaks off leaves what had
  arrived in a temporary file, which is thrown away.
\<close>

section \<open>src/fetch.go\<close>

record FetchedMedia =
  fm_MediaType :: string
  fm_UploadName :: string
  fm_Length :: int
  fm_SHA256 :: string

text \<open>The client's answer: its error or a response; and the status of the origin server in the error.\<close>

definition originStatus :: "fed_error \<Rightarrow> int" where
  "originStatus e =
     (case e of
        OtherFailure \<Rightarrow> 0
      | HTTPError respError response \<Rightarrow>
          (case respError of
             Some status \<Rightarrow> (if status \<noteq> 0 then status else (case response of Some st \<Rightarrow> st | None \<Rightarrow> 0))
           | None \<Rightarrow> (case response of Some st \<Rightarrow> st | None \<Rightarrow> 0)))"

definition next_fed :: "(fed_error + fed_reply) io" where
  "next_fed = State (\<lambda>w. (case w_fed w of [] \<Rightarrow> Inl OtherFailure | x # _ \<Rightarrow> x, w\<lparr>w_fed := tl (w_fed w)\<rparr>))"

definition next_redirect :: "redirect_reply option io" where
  "next_redirect = State (\<lambda>w. (case w_redirects w of [] \<Rightarrow> None | x # _ \<Rightarrow> x, w\<lparr>w_redirects := tl (w_redirects w)\<rparr>))"

definition copyBody :: "Fetcher \<Rightarrow> bytes \<times> bool \<Rightarrow> string \<Rightarrow> FetchedMedia \<Rightarrow> FetchedMedia res io" where
  "copyBody f src dst info =
     (let limit = nat (wrap64 (ft_maxUploadSize f + 1)); data = take limit (fst src) in
      attempt (os_write dst data) (\<lambda>_. failed ErrFetchFailed) (\<lambda>_.
      if length (fst src) < limit \<and> \<not> snd src then failed ErrFetchFailed
      else if int (length data) > ft_maxUploadSize f then failed ErrTooLarge
      else State_Monad.return (Inr (info\<lparr>fm_Length := int (length data), fm_SHA256 := sha256_hex data\<rparr>))))"

text \<open>The scheme \<^verbatim>\<open>url.Parse\<close> finds, in lower case, before the fragment; empty where there is none. Every
  other way in which parsing or requesting the address can fail is the missing response below, since
  the code answers them all with the same error.\<close>

fun scheme_scan :: "nat \<Rightarrow> string \<Rightarrow> string \<Rightarrow> string" where
  "scheme_scan i acc [] = ''''"
| "scheme_scan i acc (c # cs) =
     (let n = (of_char c :: nat) in
      if 97 \<le> n \<and> n \<le> 122 \<or> 65 \<le> n \<and> n \<le> 90 then scheme_scan (Suc i) (acc @ [c]) cs
      else if is_digit c \<or> c \<in> set ''+-.'' then (if i = 0 then '''' else scheme_scan (Suc i) (acc @ [c]) cs)
      else if c = CHR '':'' then acc
      else '''')"

definition url_scheme :: "string \<Rightarrow> string" where
  "url_scheme rawURL = to_lower (scheme_scan 0 [] (fst (cut CHR ''#'' rawURL)))"

definition part_info :: "headers \<Rightarrow> FetchedMedia" where
  "part_info h =
     \<lparr>fm_MediaType = headerOrDefault (hget h ''Content-Type'') ''application/octet-stream'',
      fm_UploadName = filenameFromDisposition (hget h ''Content-Disposition''), fm_Length = 0, fm_SHA256 = ''''\<rparr>"

definition fetchRedirect :: "Fetcher \<Rightarrow> string \<Rightarrow> string \<Rightarrow> FetchedMedia res io" where
  "fetchRedirect f rawURL dst =
     (if url_scheme rawURL \<noteq> ''https'' then failed ErrFetchFailed
      else do {
        log_note [''redirect'', rawURL];
        rep \<leftarrow> next_redirect;
        (case rep of
           None \<Rightarrow> failed ErrFetchFailed
         | Some resp \<Rightarrow>
             (if rd_status resp \<noteq> 200 then failed ErrFetchFailed
              else if rd_content_length resp > 0 \<and> rd_content_length resp > ft_maxUploadSize f then failed ErrTooLarge
              else copyBody f (rd_body resp) dst (part_info (rd_headers resp)))) })"

definition readMultipart :: "Fetcher \<Rightarrow> fed_reply \<Rightarrow> string \<Rightarrow> FetchedMedia res io" where
  "readMultipart f resp dst =
     (case fr_media_type resp of
        None \<Rightarrow> failed ErrFetchFailed
      | Some (mediaType, params) \<Rightarrow>
          (if mediaType \<noteq> ''multipart/mixed'' then failed ErrFetchFailed
           else if hget params ''boundary'' = '''' then failed ErrFetchFailed
           else (case fr_meta resp of
             None \<Rightarrow> failed ErrFetchFailed
           | Some ct \<Rightarrow>
               (if \<not> has_prefix ''application/json'' ct then failed ErrFetchFailed
                else if \<not> fr_meta_reads resp then failed ErrFetchFailed
                else (case fr_file resp of
                  None \<Rightarrow> failed ErrFetchFailed
                | Some h \<Rightarrow>
                    (if hget h ''Location'' \<noteq> '''' then fetchRedirect f (hget h ''Location'') dst
                     else copyBody f (fr_body resp) dst (part_info h)))))))"

definition Fetch :: "Fetcher \<Rightarrow> string \<Rightarrow> string \<Rightarrow> string \<Rightarrow> FetchedMedia res io" where
  "Fetch f serverName mediaID dst =
     attempt acquire failed (\<lambda>_. do {
       log_note [''fetch'', serverName, mediaID, show_int (milliseconds (ft_timeout f))];
       rep \<leftarrow> next_fed;
       (case rep of
          Inl e \<Rightarrow> failed (if originStatus e = 404 then ErrOriginNotFound else ErrFetchFailed)
        | Inr resp \<Rightarrow>
            (if fr_content_length resp > 0 \<and> fr_content_length resp > ft_maxUploadSize f then failed ErrTooLarge
             else readMultipart f resp dst)) })"

section \<open>src/store.go\<close>

text \<open>The metadata and the name of the temporary file.\<close>

definition fetch_download ::
  "RemoteFetcher \<Rightarrow> MediaPaths \<Rightarrow> string \<Rightarrow> string \<Rightarrow> string \<Rightarrow> (FetchedMedia \<times> string) res io" where
  "fetch_download rf p origin mediaID finalPath =
     attempt (CreateTemp p finalPath ''.incoming-'') failed (\<lambda>tmp.
     attempt (Fetch (rf_fetcher rf) origin mediaID tmp) (\<lambda>e. do { close_discard tmp; failed e }) (\<lambda>info.
     attempt (finish_temp tmp) failed (\<lambda>_. State_Monad.return (Inr (info, tmp)))))"

text \<open>What \<^verbatim>\<open>fetchAndStore\<close> does with the new filesystem ID.\<close>

definition fetch_into :: "RemoteFetcher \<Rightarrow> MediaPaths \<Rightarrow> string \<Rightarrow> string \<Rightarrow> string \<Rightarrow> remote_media res io" where
  "fetch_into rf p origin mediaID fsID =
     attempt (State_Monad.return (RemoteMedia p origin fsID)) failed (\<lambda>path.
     attempt (State_Monad.return (WritablePath p path)) failed (\<lambda>_.
     attempt (os_mkdir_all (path_dir path)) failed (\<lambda>_.
     attempt (fetch_download rf p origin mediaID path) failed (\<lambda>(info, tmp).
     attempt (os_rename tmp path) (\<lambda>e. do { discard_file tmp; failed e }) (\<lambda>_.
     (let media = \<lparr>rm_Origin = origin, rm_MediaID = mediaID, rm_MediaType = fm_MediaType info,
            rm_Length = Some (fm_Length info), rm_UploadName = fm_UploadName info, rm_FilesystemID = fsID,
            rm_QuarantinedBy = '''', rm_Authenticated = rf_authenticated rf\<rparr> in
     attempt (StoreRemoteMedia media (fm_SHA256 info) (rf_authenticated rf))
       (\<lambda>e. do { discard_file path; failed e })
       (\<lambda>won. if \<not> won then do {
          discard_file path;
          attempt (GetRemoteMedia origin mediaID) failed (\<lambda>existing. State_Monad.return (Inr existing)) }
        else State_Monad.return (Inr media))))))))"

text \<open>\<open>None\<close> is the panic of \<^verbatim>\<open>newFilesystemID\<close>.\<close>

definition fetch_anew :: "RemoteFetcher \<Rightarrow> MediaPaths \<Rightarrow> string \<Rightarrow> string \<Rightarrow> remote_media res option io" where
  "fetch_anew rf p origin mediaID = do {
     i \<leftarrow> fresh_id;
     (case i of
        None \<Rightarrow> State_Monad.return None
      | Some fsID \<Rightarrow> do { res \<leftarrow> fetch_into rf p origin mediaID fsID; State_Monad.return (Some res) }) }"

definition fetchAndStore :: "RemoteFetcher \<Rightarrow> MediaPaths \<Rightarrow> string \<Rightarrow> string \<Rightarrow> remote_media res option io" where
  "fetchAndStore rf p origin mediaID = do {
     r \<leftarrow> GetRemoteMedia origin mediaID;
     (case r of
        Inr existing \<Rightarrow>
          (if rm_Length existing \<noteq> None then
             (case RemoteMedia p origin (rm_FilesystemID existing) of
                Inr path \<Rightarrow> do {
                  st \<leftarrow> os_stat path;
                  (if is_ok st then State_Monad.return (Some (Inr existing)) else fetch_anew rf p origin mediaID) }
              | Inl _ \<Rightarrow> fetch_anew rf p origin mediaID)
           else fetch_anew rf p origin mediaID)
      | Inl e \<Rightarrow> if e \<noteq> ErrNotFound then State_Monad.return (Some (Inl e)) else fetch_anew rf p origin mediaID) }"

text \<open>One caller of the \<^verbatim>\<open>singleflight\<close> group runs the function; the others get its result.\<close>

definition FetchAndStore :: "RemoteFetcher \<Rightarrow> MediaPaths \<Rightarrow> string \<Rightarrow> string \<Rightarrow> remote_media res option io" where
  "FetchAndStore rf p origin mediaID = fetchAndStore rf p origin mediaID"

definition WriteThroughRemoteThumbnail ::
  "MediaPaths \<Rightarrow> string \<Rightarrow> string \<Rightarrow> string \<Rightarrow> ThumbnailRequest \<Rightarrow> bytes \<Rightarrow> unit res io" where
  "WriteThroughRemoteThumbnail p origin mediaID filesystemID req data =
     attempt (State_Monad.return (RemoteThumbnail p origin filesystemID (tq_Width req) (tq_Height req)
         (tq_Type req) (tq_Method req))) failed (\<lambda>path.
     attempt (State_Monad.return (WritablePath p path)) failed (\<lambda>_.
     attempt (os_mkdir_all (path_dir path)) failed (\<lambda>_.
     attempt (writeFileAtomic p path data) failed (\<lambda>_.
     attempt (os_stat path) failed (\<lambda>size.
     StoreRemoteThumbnail origin mediaID filesystemID
       \<lparr>tn_Width = tq_Width req, tn_Height = tq_Height req, tn_Type = tq_Type req,
        tn_Method = tq_Method req, tn_Length = size, tn_FilesystemID = ''''\<rparr>)))))"

end
