(* ===== verification/Handlers.thy ===== *)
theory Handlers
  imports Fetch_Store
begin

text \<open>
  src/handlers.go: the download and thumbnail endpoints. The gates of a medium (quarantine, hiding from
  the legacy endpoints, waiting for its upload), the choice between the store, the cache, generation,
  fetching and Synapse, and the replies. A deferred close does nothing here, since an open file is its
  bytes; callers of one \<^verbatim>\<open>singleflight\<close> group are modelled one after the other.
\<close>

section \<open>The gates\<close>

definition hiddenFromLegacy :: "'i Server \<Rightarrow> bool \<Rightarrow> bool \<Rightarrow> bool" where
  "hiddenFromLegacy s mediaAuthenticated allowAuthenticated \<longleftrightarrow>
     AuthenticatedMedia (sv_media s) \<and> \<not> allowAuthenticated \<and> mediaAuthenticated"

definition uploadTimeout :: "'i Server \<Rightarrow> request \<Rightarrow> int" where
  "uploadTimeout s r =
     (let v = query_get (url_query r) ''timeout_ms'';
          timeout = (if v \<noteq> '''' then (case parse_int64 v of
              Some ms \<Rightarrow> (if ms \<ge> 0 then wrap64 (ms * Millisecond) else mc_DefaultTimeout (sv_media s))
            | None \<Rightarrow> mc_DefaultTimeout (sv_media s))
            else mc_DefaultTimeout (sv_media s))
      in min timeout (mc_MaxTimeout (sv_media s)))"

text \<open>The loop of \<^verbatim>\<open>awaitUpload\<close> over what its \<^verbatim>\<open>select\<close> receives; where the list ends, so does the
  request's context. Both errors of package \<^verbatim>\<open>context\<close> are \<open>ErrContext\<close>: the caller answers every
  error alike.\<close>

definition context_done :: "'a res io" where
  "context_done = State (\<lambda>w. (Inl ErrContext, w\<lparr>w_cancelled := True\<rparr>))"

definition time_passes :: "nat \<Rightarrow> local_row list \<Rightarrow> (string \<rightharpoonup> disk_file) \<Rightarrow> unit io" where
  "time_passes d rows files = State (\<lambda>w. ((), w\<lparr>w_clock := w_clock w + int d, w_local := rows, w_files := files\<rparr>))"

fun await_loop :: "int \<Rightarrow> string \<Rightarrow> await_event list \<Rightarrow> local_media res io" where
  "await_loop deadline mediaID [] = context_done"
| "await_loop deadline mediaID (Gone # es) = context_done"
| "await_loop deadline mediaID (Poll d rows files # es) = do {
     time_passes d rows files;
     attempt (GetLocalMedia mediaID) failed (\<lambda>media.
       if lm_Length media \<noteq> None then State_Monad.return (Inr media)
       else do {
         now \<leftarrow> go_now;
         (if now > deadline then failed ErrContext else await_loop deadline mediaID es) }) }"

definition awaitUpload :: "'i Server \<Rightarrow> request \<Rightarrow> string \<Rightarrow> local_media res io" where
  "awaitUpload s r mediaID = do {
     now \<leftarrow> go_now;
     es \<leftarrow> State (\<lambda>w. (w_awaits w, w\<lparr>w_awaits := []\<rparr>));
     await_loop (now + uploadTimeout s r) mediaID es }"

text \<open>\<open>None\<close>: the request has been answered.\<close>

definition resolveLocalMedia :: "'i Server \<Rightarrow> request \<Rightarrow> string \<Rightarrow> bool \<Rightarrow> local_media option io" where
  "resolveLocalMedia s r mediaID allowAuthenticated =
     attempt (GetLocalMedia mediaID)
       (\<lambda>e. if e = ErrNotFound then do { respondNotFound (rq_path r); State_Monad.return None }
            else do { internalError r ''querying local media''; State_Monad.return None })
       (\<lambda>media.
          if local_quarantined media then do {
            setOutcome outcomeNotFound; annotate_reason ''quarantined'';
            respondNotFound (rq_path r);
            State_Monad.return None }
          else if hiddenFromLegacy s (lm_Authenticated media) allowAuthenticated then do {
            respondNotFound (rq_path r);
            State_Monad.return None }
          else if lm_Length media = None then
            attempt (awaitUpload s r mediaID)
              (\<lambda>e. do { respondNotYetUploaded; State_Monad.return None })
              (\<lambda>media. State_Monad.return (Some media))
          else State_Monad.return (Some media))"

definition localMediaPath :: "'i Server \<Rightarrow> local_media \<Rightarrow> string res" where
  "localMediaPath s media =
     (if IsURLCache media then URLCache (sv_paths s) (lm_MediaID media)
      else LocalMedia (sv_paths s) (lm_MediaID media))"

text \<open>\<open>None\<close>: the request has been answered, or \<^verbatim>\<open>newFilesystemID\<close> panicked.\<close>

definition fetchRemote ::
  "'i Server \<Rightarrow> request \<Rightarrow> string \<Rightarrow> string \<Rightarrow> string \<Rightarrow> (string \<Rightarrow> unit io) \<Rightarrow> remote_media option io" where
  "fetchRemote s r origin mediaID reason fallback =
     (case sv_remote s of
        None \<Rightarrow> do { fallback reason; State_Monad.return None }
      | Some rf \<Rightarrow> do {
          res \<leftarrow> FetchAndStore rf (sv_paths s) origin mediaID;
          (case res of
             None \<Rightarrow> State_Monad.return None
           | Some (Inl e) \<Rightarrow>
               (if e = ErrTooLarge then do {
                  inc_metric ''remote_fetches_total'' [''too_large''];
                  writeMatrixError 502 ''M_TOO_LARGE'' ''Requested file is too large'';
                  State_Monad.return None }
                else do {
                  inc_metric ''remote_fetches_total'' [''failed''];
                  (if \<not> ProxyFetchFailures (sv_media s) then do {
                     log_note [''log'', ''Could not fetch remote media'', origin, mediaID];
                     (if e = ErrOriginNotFound then do {
                        inc_metric ''remote_fetches_total'' [''origin_not_found''];
                        setOutcome outcomeNotFound;
                        annotate_reason ''origin_not_found'';
                        respondNotFound (rq_path r);
                        State_Monad.return None }
                      else do {
                        setOutcome outcomeUnreachable;
                        annotate_reason ''origin_unreachable'';
                        writeMatrixError 502 ''M_UNKNOWN'' ''Failed to fetch remote media'';
                        State_Monad.return None }) }
                   else do {
                     log_note [''log'', ''Could not fetch remote media, falling back to Synapse'', origin, mediaID];
                     fallback ''fetch_failed'';
                     State_Monad.return None }) })
           | Some (Inr media) \<Rightarrow> do {
               inc_metric ''remote_fetches_total'' [''fetched''];
               setOutcome outcomeFetched;
               State_Monad.return (Some media) }) })"

section \<open>Downloads\<close>

text \<open>A panic of \<^verbatim>\<open>newBoundary\<close> ends the request with no reply. \<^verbatim>\<open>length\<close> is what the caller knows of the
  body's length.\<close>

definition respondMultipart :: "request \<Rightarrow> bytes \<Rightarrow> string \<Rightarrow> string \<Rightarrow> int option \<Rightarrow> unit io" where
  "respondMultipart r body mediaType uploadName len =
     on_some newBoundary (\<lambda>boundary.
       let parts = newMultipartParts boundary mediaType uploadName in do {
         headers_set (multipart_headers parts (coalesce len (-1)));
         (if rq_method r = ''HEAD'' then send_reply 200 Empty
          else send_reply 200 (Content (multipart_body parts body))) })"

definition serveLocalDownload :: "'i Server \<Rightarrow> request \<Rightarrow> string \<Rightarrow> bool \<Rightarrow> bool \<Rightarrow> unit io" where
  "serveLocalDownload s r mediaID allowAuthenticated federation =
     on_some (resolveLocalMedia s r mediaID allowAuthenticated) (\<lambda>media.
     attempt (State_Monad.return (localMediaPath s media))
       (\<lambda>e. do {
          log_note [''log'', ''Could not build media path'', mediaID];
          setOutcome outcomeNotFound;
          respondNotFound (rq_path r) }) (\<lambda>path.
     attempt (os_open path)
       (\<lambda>e. do {
          log_note [''log'', ''Media row exists but file is missing'', mediaID, path];
          setOutcome outcomeNotFound;
          respondNotFound (rq_path r) }) (\<lambda>f. do {
     MarkRecentlyAccessedLocal (cfg_Database (sv_cfg s)) mediaID;
     setOutcome outcomeServed;
     (if federation then respondMultipart r f (lm_MediaType media) (lm_UploadName media) (lm_Length media)
      else do {
        headers_set setCORSHeaders;
        headers_set setCORPHeaders;
        headers_set setDownloadSecurityHeaders;
        (if notModified r then do { setOutcome outcomeNotModified; respondNotModified }
         else do {
           headers_set (addFileHeaders (lm_MediaType media) (lm_UploadName media));
           serveFile f }) }) })))"

definition serve_remote_file :: "'i Server \<Rightarrow> request \<Rightarrow> string \<Rightarrow> string \<Rightarrow> bool \<Rightarrow> remote_media \<Rightarrow> unit io" where
  "serve_remote_file s r serverName mediaID allowAuthenticated media =
     (if remote_quarantined media then respondNotFound (rq_path r)
      else if hiddenFromLegacy s (rm_Authenticated media) allowAuthenticated then respondNotFound (rq_path r)
      else if rm_Length media = None then proxyDownload s r ''remote_incomplete''
      else attempt (State_Monad.return (RemoteMedia (sv_paths s) serverName (rm_FilesystemID media)))
        (\<lambda>e. do {
           log_note [''log'', ''Could not build remote media path'', serverName, mediaID];
           respondNotFound (rq_path r) }) (\<lambda>path.
      attempt (os_open path) (\<lambda>e. proxyDownload s r ''remote_file_missing'') (\<lambda>f. do {
      MarkRecentlyAccessedRemote (cfg_Database (sv_cfg s)) serverName mediaID;
      setOutcome outcomeServed;
      headers_set setCORSHeaders;
      headers_set setCORPHeaders;
      headers_set setDownloadSecurityHeaders;
      (if notModified r then do { setOutcome outcomeNotModified; respondNotModified }
       else do {
         headers_set (addFileHeaders (rm_MediaType media) (rm_UploadName media));
         serveFile f }) })))"

definition serveRemoteDownload :: "'i Server \<Rightarrow> request \<Rightarrow> string \<Rightarrow> string \<Rightarrow> bool \<Rightarrow> unit io" where
  "serveRemoteDownload s r serverName mediaID allowAuthenticated =
     attempt (GetRemoteMedia serverName mediaID)
       (\<lambda>e. if e = ErrNotFound then
            on_some (fetchRemote s r serverName mediaID ''remote_not_cached'' (proxyDownload s r))
              (serve_remote_file s r serverName mediaID allowAuthenticated)
          else internalError r ''querying remote media'')
       (serve_remote_file s r serverName mediaID allowAuthenticated)"

definition serveDownload :: "'i Server \<Rightarrow> request \<Rightarrow> string \<Rightarrow> string \<Rightarrow> bool \<Rightarrow> unit io" where
  "serveDownload s r serverName mediaID allowAuthenticated = do {
     setMedia serverName mediaID;
     (if isMine s serverName then serveLocalDownload s r mediaID allowAuthenticated False
      else serveRemoteDownload s r serverName mediaID allowAuthenticated) }"

definition handleClientDownload :: "'i Server \<Rightarrow> request \<Rightarrow> unit io" where
  "handleClientDownload s r = do {
     ok \<leftarrow> authenticateClient r;
     (if \<not> ok then skip
      else serveDownload s r (path_value r ''serverName'') (path_value r ''mediaId'') True) }"

definition handleLegacyDownload :: "'i Server \<Rightarrow> request \<Rightarrow> unit io" where
  "handleLegacyDownload s r =
     (if \<not> validLegacyVersion (path_value r ''version'') then respondNotFound (rq_path r)
      else serveDownload s r (path_value r ''serverName'') (path_value r ''mediaId'') False)"

definition handleFederationDownload :: "'i Server \<Rightarrow> request \<Rightarrow> unit io" where
  "handleFederationDownload s r = do {
     setMedia (cfg_ServerName (sv_cfg s)) (path_value r ''mediaId'');
     serveLocalDownload s r (path_value r ''mediaId'') True True }"

section \<open>Thumbnails\<close>

definition respondThumbnailBytes :: "request \<Rightarrow> bytes \<Rightarrow> string \<Rightarrow> bool \<Rightarrow> unit io" where
  "respondThumbnailBytes r data mediaType federation =
     (if federation then respondMultipart r data mediaType '''' (Some (int (length data)))
      else do {
        headers_set setCORSHeaders;
        headers_set setCORPHeaders;
        (if notModified r then do { setOutcome outcomeNotModified; respondNotModified }
         else do { headers_set (addFileHeaders mediaType ''''); serveFile data }) })"

text \<open>\<^verbatim>\<open>fileSize\<close>: the length of an open file, or nothing where \<^verbatim>\<open>Stat\<close> fails.\<close>

definition fileSize :: "bytes \<Rightarrow> int option io" where
  "fileSize f = attempt (sys (\<lambda>w. (Inr (int (length f)), w)))
     (\<lambda>e. State_Monad.return None) (\<lambda>n. State_Monad.return (Some n))"

definition readAllFile :: "bytes \<Rightarrow> bytes res io" where
  "readAllFile f = sys (\<lambda>w. (Inr f, w))"

definition respondThumbnailFile :: "request \<Rightarrow> bytes \<Rightarrow> string \<Rightarrow> bool \<Rightarrow> unit io" where
  "respondThumbnailFile r f mediaType federation =
     (if federation then do { size \<leftarrow> fileSize f; respondMultipart r f mediaType '''' size }
      else do {
        headers_set setCORSHeaders;
        headers_set setCORPHeaders;
        (if notModified r then do { setOutcome outcomeNotModified; respondNotModified }
         else do { headers_set (addFileHeaders mediaType ''''); serveFile f }) })"

definition writeThroughRemote :: "'i Server \<Rightarrow> string \<Rightarrow> string \<Rightarrow> RemoteFetcher option" where
  "writeThroughRemote s origin filesystemID =
     (if mc_WriteThroughThumbnails (sv_media s) \<and> origin \<noteq> '''' \<and> filesystemID \<noteq> '''' then sv_remote s else None)"

definition storeGeneratedThumbnail ::
  "'i Server \<Rightarrow> string \<Rightarrow> string \<Rightarrow> string \<Rightarrow> string \<Rightarrow> ThumbnailRequest \<Rightarrow> bytes \<Rightarrow> unit io" where
  "storeGeneratedThumbnail s origin mediaID filesystemID key req data =
     (let to_cache = attempt (cache_Put (sv_cache s) key data)
            (\<lambda>e. log_note [''log'', ''Could not store generated thumbnail'', mediaID]) (\<lambda>_. skip)
      in if writeThroughRemote s origin filesystemID \<noteq> None then
           attempt (WriteThroughRemoteThumbnail (sv_paths s) origin mediaID filesystemID req data)
             (\<lambda>e. do { inc_metric ''thumbnail_write_through_total'' [''failed'']; to_cache })
             (\<lambda>_. inc_metric ''thumbnail_write_through_total'' [''stored''])
         else to_cache)"

text \<open>What runs under \<^verbatim>\<open>generating.Do\<close>.\<close>

definition generate_thumbnail ::
  "'i Server \<Rightarrow> string \<Rightarrow> string \<Rightarrow> string \<Rightarrow> string \<Rightarrow> string \<Rightarrow> string \<Rightarrow> ThumbnailRequest \<Rightarrow> bytes res io" where
  "generate_thumbnail s origin mediaID filesystemID key srcPath sourceType req = do {
     hit \<leftarrow> cache_Open (sv_cache s) key;
     (case hit of
        Some f \<Rightarrow> readAllFile f
      | None \<Rightarrow> do {
          start \<leftarrow> go_now;
          attempt (Generate (sv_imaging s) (sv_maxImagePixels s) srcPath sourceType req) failed (\<lambda>out. do {
            now \<leftarrow> go_now;
            inc_metric ''thumbnail_generate_seconds'' [show_int (now - start)];
            storeGeneratedThumbnail s origin mediaID filesystemID key req out;
            State_Monad.return (Inr out) }) }) }"

definition serveGeneratedThumbnail ::
  "'i Server \<Rightarrow> request \<Rightarrow> string \<Rightarrow> string \<Rightarrow> string \<Rightarrow> string \<Rightarrow> string \<Rightarrow> ThumbnailRequest \<Rightarrow> bool \<Rightarrow> unit io" where
  "serveGeneratedThumbnail s r origin mediaID filesystemID srcPath sourceType req federation =
     (let key = cacheKey origin mediaID req in do {
      hit \<leftarrow> cache_Open (sv_cache s) key;
      (case hit of
         Some f \<Rightarrow> do {
           inc_metric ''thumbnail_outcome_total'' [outcomeWorkerCache];
           setOutcome outcomeWorkerCache;
           respondThumbnailFile r f (tq_Type req) federation }
       | None \<Rightarrow>
           (if \<not> CanGenerate sourceType req then
              proxyThumbnail s r (if tq_Animated req then ''animated'' else ''unsupported_format'')
            else attempt (generate_thumbnail s origin mediaID filesystemID key srcPath sourceType req)
              (\<lambda>e. if e = ErrCannotGenerate then proxyThumbnail s r ''generate_refused''
                 else if e = ErrNotExist then proxyThumbnail s r ''source_missing''
                 else do {
                   log_note [''log'', ''Thumbnail generation failed'', mediaID];
                   proxyThumbnail s r ''generate_failed'' })
              (\<lambda>data. do {
                inc_metric ''thumbnail_outcome_total'' [outcomeGenerated];
                setOutcome outcomeGenerated;
                respondThumbnailBytes r data (tq_Type req) federation }))) })"

text \<open>The first of the candidate paths that can be opened.\<close>

fun open_first :: "string res list \<Rightarrow> bytes option io" where
  "open_first [] = State_Monad.return None"
| "open_first (Inl e # ps) = open_first ps"
| "open_first (Inr path # ps) = attempt (os_open path) (\<lambda>_. open_first ps) (\<lambda>f. State_Monad.return (Some f))"

definition stored_local_thumbnail :: "'i Server \<Rightarrow> local_media \<Rightarrow> string \<Rightarrow> ThumbnailRow \<Rightarrow> bytes option io" where
  "stored_local_thumbnail s media mediaID row =
     open_first [if IsURLCache media
       then URLCacheThumbnail (sv_paths s) mediaID (tn_Width row) (tn_Height row) (tn_Type row) (tn_Method row)
       else LocalThumbnail (sv_paths s) mediaID (tn_Width row) (tn_Height row) (tn_Type row) (tn_Method row)]"

definition serveLocalThumbnail :: "'i Server \<Rightarrow> request \<Rightarrow> string \<Rightarrow> ThumbnailRequest \<Rightarrow> bool \<Rightarrow> bool \<Rightarrow> unit io" where
  "serveLocalThumbnail s r mediaID req allowAuthenticated federation =
     on_some (resolveLocalMedia s r mediaID allowAuthenticated) (\<lambda>media.
     attempt (GetLocalThumbnails mediaID) (\<lambda>e. internalError r ''querying local thumbnails'') (\<lambda>rows. do {
     stored \<leftarrow> (case FindExact rows req of
        None \<Rightarrow> State_Monad.return None
      | Some row \<Rightarrow> do {
          f \<leftarrow> stored_local_thumbnail s media mediaID row;
          State_Monad.return (map_option (\<lambda>d. (row, d)) f) });
     (case stored of
        Some (row, f) \<Rightarrow> do {
          MarkRecentlyAccessedLocal (cfg_Database (sv_cfg s)) mediaID;
          inc_metric ''thumbnail_outcome_total'' [outcomeSynapseStore];
          setOutcome outcomeSynapseStore;
          respondThumbnailFile r f (tn_Type row) federation }
      | None \<Rightarrow>
          attempt (State_Monad.return (localMediaPath s media)) (\<lambda>e. respondNotFound (rq_path r)) (\<lambda>srcPath. do {
            serveGeneratedThumbnail s r '''' mediaID '''' srcPath (lm_MediaType media) req federation;
            MarkRecentlyAccessedLocal (cfg_Database (sv_cfg s)) mediaID })) }))"

definition stored_remote_thumbnail :: "'i Server \<Rightarrow> string \<Rightarrow> remote_media \<Rightarrow> ThumbnailRow \<Rightarrow> bytes option io" where
  "stored_remote_thumbnail s serverName media row =
     (let fsID = (if tn_FilesystemID row = '''' then rm_FilesystemID media else tn_FilesystemID row) in
      open_first
        [RemoteThumbnail (sv_paths s) serverName fsID (tn_Width row) (tn_Height row) (tn_Type row) (tn_Method row),
         RemoteThumbnailLegacy (sv_paths s) serverName fsID (tn_Width row) (tn_Height row) (tn_Type row)])"

definition serve_remote_thumbnail ::
  "'i Server \<Rightarrow> request \<Rightarrow> string \<Rightarrow> string \<Rightarrow> ThumbnailRequest \<Rightarrow> bool \<Rightarrow> remote_media \<Rightarrow> unit io" where
  "serve_remote_thumbnail s r serverName mediaID req allowAuthenticated media =
     (if remote_quarantined media then respondNotFound (rq_path r)
      else if hiddenFromLegacy s (rm_Authenticated media) allowAuthenticated then respondNotFound (rq_path r)
      else attempt (GetRemoteThumbnails serverName mediaID) (\<lambda>e. internalError r ''querying remote thumbnails'') (\<lambda>rows. do {
      stored \<leftarrow> (case FindExact rows req of
         None \<Rightarrow> State_Monad.return None
       | Some row \<Rightarrow> do {
           f \<leftarrow> stored_remote_thumbnail s serverName media row;
           State_Monad.return (map_option (\<lambda>d. (row, d)) f) });
      (case stored of
         Some (row, f) \<Rightarrow> do {
           MarkRecentlyAccessedRemote (cfg_Database (sv_cfg s)) serverName mediaID;
           inc_metric ''thumbnail_outcome_total'' [outcomeSynapseStore];
           setOutcome outcomeSynapseStore;
           respondThumbnailFile r f (tn_Type row) False }
       | None \<Rightarrow>
           attempt (State_Monad.return (RemoteMedia (sv_paths s) serverName (rm_FilesystemID media)))
             (\<lambda>e. proxyThumbnail s r ''remote_path_invalid'') (\<lambda>srcPath. do {
             serveGeneratedThumbnail s r serverName mediaID (rm_FilesystemID media) srcPath (rm_MediaType media) req False;
             MarkRecentlyAccessedRemote (cfg_Database (sv_cfg s)) serverName mediaID })) }))"

definition serveRemoteThumbnail ::
  "'i Server \<Rightarrow> request \<Rightarrow> string \<Rightarrow> string \<Rightarrow> ThumbnailRequest \<Rightarrow> bool \<Rightarrow> unit io" where
  "serveRemoteThumbnail s r serverName mediaID req allowAuthenticated =
     attempt (GetRemoteMedia serverName mediaID)
       (\<lambda>e. if e = ErrNotFound then
            on_some (fetchRemote s r serverName mediaID ''remote_not_cached'' (proxyThumbnail s r))
              (serve_remote_thumbnail s r serverName mediaID req allowAuthenticated)
          else internalError r ''querying remote media'')
       (serve_remote_thumbnail s r serverName mediaID req allowAuthenticated)"

definition serveThumbnail :: "'i Server \<Rightarrow> request \<Rightarrow> string \<Rightarrow> string \<Rightarrow> bool \<Rightarrow> bool \<Rightarrow> unit io" where
  "serveThumbnail s r serverName mediaID allowAuthenticated federation = do {
     setMedia serverName mediaID;
     (case ParseThumbnailRequest r of
        Inl msg \<Rightarrow> writeMatrixError 400 ''M_INVALID_PARAM'' msg
      | Inr req \<Rightarrow> do {
          annotate_thumb (show_int (tq_Width req) @ ''x'' @ show_int (tq_Height req) @ ''/'' @ tq_Method req);
          (if isMine s serverName then serveLocalThumbnail s r mediaID req allowAuthenticated federation
           else serveRemoteThumbnail s r serverName mediaID req allowAuthenticated) }) }"

definition handleClientThumbnail :: "'i Server \<Rightarrow> request \<Rightarrow> unit io" where
  "handleClientThumbnail s r = do {
     ok \<leftarrow> authenticateClient r;
     (if \<not> ok then skip
      else serveThumbnail s r (path_value r ''serverName'') (path_value r ''mediaId'') True False) }"

definition handleLegacyThumbnail :: "'i Server \<Rightarrow> request \<Rightarrow> unit io" where
  "handleLegacyThumbnail s r =
     (if \<not> validLegacyVersion (path_value r ''version'') then respondNotFound (rq_path r)
      else serveThumbnail s r (path_value r ''serverName'') (path_value r ''mediaId'') False False)"

definition handleFederationThumbnail :: "'i Server \<Rightarrow> request \<Rightarrow> unit io" where
  "handleFederationThumbnail s r =
     serveThumbnail s r (cfg_ServerName (sv_cfg s)) (path_value r ''mediaId'') True True"

end
