(* ===== verification/Fetch_Correct.thy ===== *)
theory Fetch_Correct
  imports Fetch_Store
begin

text \<open>
  What fetching a remote medium does to the store, over every answer of the other server and every
  failure: the phases of the download, the contract of \<^verbatim>\<open>fetchAndStore\<close>, and a state it cannot leave.
\<close>

section \<open>The download\<close>

definition blank :: "string \<Rightarrow> world \<Rightarrow> bool" where
  "blank tmp w \<longleftrightarrow> w_files w tmp = Some \<lparr>f_bytes = [], f_mode = 384, f_synced = False\<rparr>"

text \<open>The metadata describe the bytes, and the bytes are in the temporary file.\<close>

definition received :: "Fetcher \<Rightarrow> FetchedMedia \<Rightarrow> bytes \<Rightarrow> bool" where
  "received f info d \<longleftrightarrow> fm_Length info = int (length d) \<and> fm_SHA256 info = sha256_hex d \<and>
     int (length d) \<le> ft_maxUploadSize f"

definition downloaded :: "Fetcher \<Rightarrow> string \<Rightarrow> FetchedMedia \<Rightarrow> world \<Rightarrow> bool" where
  "downloaded f tmp info w \<longleftrightarrow>
     (\<exists>d. received f info d \<and> w_files w tmp = Some \<lparr>f_bytes = d, f_mode = 384, f_synced = False\<rparr>)"

lemma blank_files: "blank tmp w \<Longrightarrow> w_files w' = w_files w \<Longrightarrow> blank tmp w'"
  by (simp add: blank_def)

lemma wp_copyBody:
  assumes "incoming tmp" "blank tmp w"
    and err: "\<And>e w'. idle w w' \<Longrightarrow> Q (Inl e) w'"
    and ok: "\<And>info' w'. idle w w' \<Longrightarrow> downloaded f tmp info' w' \<Longrightarrow> Q (Inr info') w'"
  shows "wp (copyBody f src tmp info) Q w"
proof -
  have t: "temp_phase w tmp w" by (simp add: temp_phase_def files_only_refl)
  show ?thesis
    unfolding copyBody_def Let_def wp_attempt
  proof (rule wp_write_tmp [OF t], goal_cases)
    case (1 e w')
    then show ?case using temp_idle [OF _ assms(1)] by (simp add: err)
  next
    case (2 g w')
    then show ?case
      using temp_idle [OF 2(2) assms(1)] assms(2)
      by (auto simp: err downloaded_def received_def blank_def intro!: ok)
  qed
qed

lemma idle_world_fields [simp]:
  "idle w (w'\<lparr>w_fed := xs\<rparr>) = idle w w'" "idle (w\<lparr>w_fed := xs\<rparr>) w' = idle w w'"
  "idle w (w'\<lparr>w_redirects := ys\<rparr>) = idle w w'" "idle (w\<lparr>w_redirects := ys\<rparr>) w' = idle w w'"
  by (simp_all add: idle_def kept_def)

lemma blank_fields [simp]:
  "blank tmp (w\<lparr>w_fed := xs\<rparr>) = blank tmp w" "blank tmp (w\<lparr>w_redirects := ys\<rparr>) = blank tmp w"
  "blank tmp (w\<lparr>w_notes := ns\<rparr>) = blank tmp w"
  by (simp_all add: blank_def)

text \<open>A program that downloads into a temporary file.\<close>

definition downloads :: "Fetcher \<Rightarrow> string \<Rightarrow> FetchedMedia res io \<Rightarrow> bool" where
  "downloads f tmp m \<longleftrightarrow> (\<forall>w. blank tmp w \<longrightarrow>
     wp m (\<lambda>r w'. idle w w' \<and> (case r of Inl e \<Rightarrow> True | Inr info \<Rightarrow> downloaded f tmp info w')) w)"

lemma downloads_failed [simp]: "downloads f tmp (failed e)"
  by (simp add: downloads_def)

lemma downloads_if: "downloads f tmp m \<Longrightarrow> downloads f tmp n \<Longrightarrow> downloads f tmp (if c then m else n)"
  by simp

lemma downloads_copyBody: "incoming tmp \<Longrightarrow> downloads f tmp (copyBody f src tmp info)"
  unfolding downloads_def by (intro allI impI wp_copyBody) auto

text \<open>A step before it that neither fails nor touches a file.\<close>

lemma downloads_step:
  assumes "\<And>rep. downloads f tmp (k rep)" "\<And>w. idle w (snd (g w)) \<and> w_files (snd (g w)) = w_files w"
  shows "downloads f tmp (State g \<bind> k)"
  unfolding downloads_def
proof (intro allI impI)
  fix w assume "blank tmp w"
  then have "blank tmp (snd (g w))" using assms(2) blank_files by blast
  with assms(1) [of "fst (g w)"] have "wp (k (fst (g w))) (\<lambda>r w'. idle (snd (g w)) w' \<and>
      (case r of Inl e \<Rightarrow> True | Inr info \<Rightarrow> downloaded f tmp info w')) (snd (g w))"
    unfolding downloads_def by blast
  then have "wp (k (fst (g w))) (\<lambda>r w'. idle w w' \<and>
      (case r of Inl e \<Rightarrow> True | Inr info \<Rightarrow> downloaded f tmp info w')) (snd (g w))"
    by (rule wp_mono) (use assms(2) idle_trans in blast)
  then show "wp (State g \<bind> k) (\<lambda>r w'. idle w w' \<and> (case r of Inl e \<Rightarrow> True | Inr info \<Rightarrow> downloaded f tmp info w')) w"
    by (simp add: case_prod_beta)
qed

lemma downloads_note: "downloads f tmp m \<Longrightarrow> downloads f tmp (log_note xs \<bind> (\<lambda>_. m))"
  unfolding log_note_def by (rule downloads_step) simp_all

lemma downloads_next:
  "(\<And>rep. downloads f tmp (k rep)) \<Longrightarrow> downloads f tmp (next_redirect \<bind> k)"
  "(\<And>rep. downloads f tmp (k' rep)) \<Longrightarrow> downloads f tmp (next_fed \<bind> k')"
  unfolding next_redirect_def next_fed_def by (rule downloads_step; simp)+

lemma downloads_fetchRedirect: "incoming tmp \<Longrightarrow> downloads f tmp (fetchRedirect f url tmp)"
  unfolding fetchRedirect_def
  by (auto intro!: downloads_note downloads_next(1) downloads_copyBody split: option.split)

lemma downloads_readMultipart: "incoming tmp \<Longrightarrow> downloads f tmp (readMultipart f resp tmp)"
  unfolding readMultipart_def
  by (auto intro!: downloads_fetchRedirect downloads_copyBody split: option.split prod.split)

lemma downloads_Fetch: "incoming tmp \<Longrightarrow> downloads f tmp (Fetch f serverName mediaID tmp)"
proof -
  assume tmp: "incoming tmp"
  let ?k = "do { log_note [''fetch'', serverName, mediaID, show_int (milliseconds (ft_timeout f))];
       rep \<leftarrow> next_fed;
       (case rep of
          Inl e \<Rightarrow> failed (if originStatus e = 404 then ErrOriginNotFound else ErrFetchFailed)
        | Inr resp \<Rightarrow>
            (if fr_content_length resp > 0 \<and> fr_content_length resp > ft_maxUploadSize f then failed ErrTooLarge
             else readMultipart f resp tmp)) }"
  have k: "downloads f tmp ?k"
    by (rule downloads_note, rule downloads_next(2))
      (auto intro: downloads_readMultipart [OF tmp] split: sum.split)
  show ?thesis
    unfolding Fetch_def
    unfolding downloads_def wp_attempt
  proof (intro allI impI, rule wp_acquire, goal_cases)
    case (1 w w1)
    then have "blank tmp w1" by (simp add: blank_def env_step_same)
    with k show ?case
      unfolding downloads_def sum.case by (auto elim!: allE [of _ w1] wp_mono intro: idle_trans [OF idle_env [OF 1(2)]])
  next
    case (2 w w1)
    then show ?case by (simp add: idle_env)
  qed
qed

lemma wp_fetch_download:
  assumes err: "\<And>e w'. idle w w' \<Longrightarrow> Q (Inl e) w'"
    and ok: "\<And>info tmp d w'. idle w w' \<Longrightarrow> incoming tmp \<Longrightarrow> received (rf_fetcher rf) info d \<Longrightarrow>
      w_files w' tmp = Some \<lparr>f_bytes = d, f_mode = 420, f_synced = True\<rparr> \<Longrightarrow> Q (Inr (info, tmp)) w'"
  shows "wp (fetch_download rf p origin mediaID path) Q w"
  unfolding fetch_download_def wp_attempt [of "CreateTemp p path pre" for pre]
proof (rule wp_CreateTemp, goal_cases)
  case (1 e w1)
  then show ?case by (simp add: err idle_files)
next
  case (2 tmp w1)
  have tmp: "incoming tmp" using 2(1) by (rule temp_of_scratch)
  have w1: "idle w w1" by (rule temp_idle [OF 2(3) tmp])
  have "blank tmp w1" using 2(4) by (simp add: blank_def)
  with downloads_Fetch [OF tmp]
  have F: "wp (Fetch (rf_fetcher rf) origin mediaID tmp) (\<lambda>r w'. idle w1 w' \<and>
      (case r of Inl e \<Rightarrow> True | Inr info \<Rightarrow> downloaded (rf_fetcher rf) tmp info w')) w1"
    unfolding downloads_def by blast
  show ?case
    unfolding sum.case wp_attempt [of "Fetch f a b c" for f a b c]
  proof (rule wp_mono [OF F], goal_cases)
    case (1 r w2)
    then have w2: "idle w w2" using w1 idle_trans by blast
    have t: "temp_phase w2 tmp w2" by (simp add: temp_phase_def files_only_refl)
    show ?case
    proof (cases r)
      case (Inl e)
      show ?thesis unfolding Inl sum.case wp_bind by (rule wp_quit_incoming [OF t w2 tmp]) (rule err)
    next
      case (Inr info)
      then obtain d where d: "received (rf_fetcher rf) info d"
          "w_files w2 tmp = Some \<lparr>f_bytes = d, f_mode = 384, f_synced = False\<rparr>"
        using 1 by (auto simp: downloaded_def)
      show ?thesis
        unfolding Inr sum.case wp_attempt [of "finish_temp tmp"]
      proof (rule wp_finish_temp [OF t d(2)], goal_cases)
        case (1 e w3)
        then show ?case using idle_trans [OF w2 temp_idle [OF _ tmp]] by (simp add: err)
      next
        case (2 w3)
        then show ?case using idle_trans [OF w2 temp_idle [OF _ tmp]] d(1) tmp by (simp add: ok)
      qed
    qed
  qed
qed

section \<open>The contract\<close>

text \<open>The path a new ID gives the medium.\<close>

definition fresh_path :: "MediaPaths \<Rightarrow> string \<Rightarrow> world \<Rightarrow> string \<Rightarrow> bool" where
  "fresh_path p origin w q \<longleftrightarrow> (\<exists>i ds. newFilesystemID (w_draws w) = Some (i, ds) \<and>
     RemoteMedia p origin i = Inr q \<and> WritablePath p q = Inr ())"

text \<open>What is never touched: every table but the one of remote media, every file but the new medium's
  and temporary ones; and nothing is said to the client.\<close>

definition fetch_frame :: "MediaPaths \<Rightarrow> string \<Rightarrow> world \<Rightarrow> world \<Rightarrow> bool" where
  "fetch_frame p origin w w' \<longleftrightarrow> w_local w' = w_local w \<and> w_lthumbs w' = w_lthumbs w \<and> w_rthumbs w' = w_rthumbs w \<and>
     w_replies w' = w_replies w \<and> (w_cancelled w \<longrightarrow> w_cancelled w') \<and>
     (\<forall>q. \<not> incoming q \<longrightarrow> \<not> fresh_path p origin w q \<longrightarrow> w_files w' q = w_files w q)"

text \<open>A medium is stored: its row is new and describes the bytes, which are all in its file.\<close>

definition fetched :: "RemoteFetcher \<Rightarrow> MediaPaths \<Rightarrow> string \<Rightarrow> string \<Rightarrow> remote_media \<Rightarrow> world \<Rightarrow> world \<Rightarrow> bool" where
  "fetched rf p origin mediaID m w w' \<longleftrightarrow> (\<exists>path d now.
     (origin, mediaID) \<notin> remote_key ` set (w_remote w) \<and> rm_Origin m = origin \<and> rm_MediaID m = mediaID \<and>
     rm_QuarantinedBy m = '''' \<and> rm_Authenticated m = rf_authenticated rf \<and>
     rm_Length m = Some (int (length d)) \<and> int (length d) \<le> ft_maxUploadSize (rf_fetcher rf) \<and>
     RemoteMedia p origin (rm_FilesystemID m) = Inr path \<and> WritablePath p path = Inr () \<and>
     (\<exists>ds. newFilesystemID (w_draws w) = Some (rm_FilesystemID m, ds)) \<and>
     w_remote w' = w_remote w @ [remote_media_row now m (sha256_hex d) (rf_authenticated rf)] \<and>
     w_files w' path = Some \<lparr>f_bytes = d, f_mode = 420, f_synced = True\<rparr>)"

definition row_added :: "string \<Rightarrow> string \<Rightarrow> world \<Rightarrow> world \<Rightarrow> bool" where
  "row_added origin mediaID w w' \<longleftrightarrow> (origin, mediaID) \<notin> remote_key ` set (w_remote w) \<and>
     (\<exists>row. remote_key row = (origin, mediaID) \<and> w_remote w' = w_remote w @ [row])"

definition fetch_result :: "RemoteFetcher \<Rightarrow> MediaPaths \<Rightarrow> string \<Rightarrow> string \<Rightarrow> world \<Rightarrow> remote_media res \<Rightarrow> world \<Rightarrow> bool" where
  "fetch_result rf p origin mediaID w res w' \<longleftrightarrow> fetch_frame p origin w w' \<and>
     (case res of
        Inl e \<Rightarrow> w_remote w' = w_remote w \<or> row_added origin mediaID w w'
      | Inr m \<Rightarrow> w_remote w' = w_remote w \<and>
            (\<exists>row. find (\<lambda>r. remote_key r = (origin, mediaID)) (w_remote w) = Some row \<and> m = scan_remote origin mediaID row) \<or>
          fetched rf p origin mediaID m w w')"

lemma wp_GetRemoteMedia:
  assumes "\<And>e w'. env_step w w' \<Longrightarrow> e \<noteq> ErrNotFound \<Longrightarrow> Q (Inl e) w'"
    and "\<And>w'. env_step w w' \<Longrightarrow> find (\<lambda>r. remote_key r = (origin, mediaID)) (w_remote w) = None \<Longrightarrow> Q (Inl ErrNotFound) w'"
    and "\<And>row w'. env_step w w' \<Longrightarrow> find (\<lambda>r. remote_key r = (origin, mediaID)) (w_remote w) = Some row \<Longrightarrow>
      Q (Inr (scan_remote origin mediaID row)) w'"
  shows "wp (GetRemoteMedia origin mediaID) Q w"
  unfolding GetRemoteMedia_def
proof (rule wp_read_call, goal_cases)
  case (3 w')
  then show ?case
    using assms(2,3) [OF 3]
    by (cases "find (\<lambda>r. remote_key r = (origin, mediaID)) (w_remote w)") (simp_all add: env_step_same)
qed (auto intro: assms split: option.splits)

lemma idle_frame: "idle w w' \<Longrightarrow> fetch_frame p origin w w'"
  by (auto simp: idle_def kept_def fetch_frame_def)

lemma idle_result: "idle w w' \<Longrightarrow> fetch_result rf p origin mediaID w (Inl e) w'"
  by (simp add: fetch_result_def idle_frame) (simp add: idle_def kept_def)

lemma frame_env:
  assumes "fetch_frame p origin w w'" "env_step w' w''"
  shows "fetch_frame p origin w w''" "w_remote w'' = w_remote w'" "w_files w'' = w_files w'"
  using assms by (auto simp: fetch_frame_def env_step_same)

lemma wp_discard_fresh:
  assumes "fetch_frame p origin w w1" "fresh_path p origin w path"
    and "\<And>w'. fetch_frame p origin w w' \<Longrightarrow> w_remote w' = w_remote w1 \<Longrightarrow> Q () w'"
  shows "wp (discard_file path) Q w1"
proof (rule wp_discard_tmp)
  show "temp_phase w1 path w1" by (simp add: temp_phase_def files_only_refl)
next
  fix w' assume t: "temp_phase w1 path w'"
  then have "w_files w' q = w_files w1 q" if "\<not> fresh_path p origin w q" for q
    using that assms(2) by (auto simp: temp_phase_def)
  then show "Q () w'"
    using t assms(1) by (intro assms(3)) (auto simp: fetch_frame_def temp_phase_def files_only_same dest: files_only_cancelled)
qed

text \<open>A step that changes at most the table of remote media.\<close>

definition remote_only :: "world \<Rightarrow> world \<Rightarrow> bool" where
  "remote_only w w' \<longleftrightarrow> w_files w' = w_files w \<and> w_local w' = w_local w \<and> w_lthumbs w' = w_lthumbs w \<and>
     w_rthumbs w' = w_rthumbs w \<and> w_replies w' = w_replies w \<and> (w_cancelled w \<longrightarrow> w_cancelled w')"

lemma frame_remote_only: "fetch_frame p origin w w1 \<Longrightarrow> remote_only w1 w' \<Longrightarrow> fetch_frame p origin w w'"
  by (simp add: fetch_frame_def remote_only_def)

text \<open>The row: added, or there before, or not there and an error; an error may hide that it was added.\<close>

lemma wp_StoreRemoteMedia:
  assumes err: "\<And>e w'. remote_only w w' \<Longrightarrow>
      w_remote w' = w_remote w \<or> row_added (rm_Origin m) (rm_MediaID m) w w' \<Longrightarrow> Q (Inl e) w'"
    and lost: "\<And>w'. remote_only w w' \<Longrightarrow> w_remote w' = w_remote w \<Longrightarrow> Q (Inr False) w'"
    and won: "\<And>now w'. remote_only w w' \<Longrightarrow> (rm_Origin m, rm_MediaID m) \<notin> remote_key ` set (w_remote w) \<Longrightarrow>
      w_remote w' = w_remote w @ [remote_media_row now m sha auth] \<Longrightarrow> Q (Inr True) w'"
  shows "wp (StoreRemoteMedia m sha auth) Q w"
  unfolding StoreRemoteMedia_def wp_bind Let_def
proof (rule wp_go_now, rule wp_lossy, goal_cases)
  case (1 t ts e fs c)
  then show ?case by (intro err) (simp_all add: remote_only_def)
next
  case (2 t ts e fs c)
  show ?case
    using 2 by (auto intro!: err simp: remote_only_def row_added_def image_image)
next
  case (3 t ts fs c)
  show ?case
    using 3 by (auto intro!: lost won simp: remote_only_def image_image)
qed

lemma scan_found: "find (\<lambda>r. remote_key r = k) rows = None \<longleftrightarrow> k \<notin> remote_key ` set rows"
  by (rule find_None_key)

lemma wp_fetch_record:
  assumes path: "RemoteMedia p origin i = Inr path" "WritablePath p path = Inr ()"
    and i: "newFilesystemID (w_draws w) = Some (i, ds)"
    and d: "received (rf_fetcher rf) info d"
    and m: "m = \<lparr>rm_Origin = origin, rm_MediaID = mediaID, rm_MediaType = fm_MediaType info,
            rm_Length = Some (fm_Length info), rm_UploadName = fm_UploadName info, rm_FilesystemID = i,
            rm_QuarantinedBy = '''', rm_Authenticated = rf_authenticated rf\<rparr>"
    and w2: "fetch_frame p origin w w2" "w_remote w2 = w_remote w"
      "w_files w2 path = Some \<lparr>f_bytes = d, f_mode = 420, f_synced = True\<rparr>"
  shows "wp (attempt (StoreRemoteMedia m (fm_SHA256 info) (rf_authenticated rf))
       (\<lambda>e. do { discard_file path; failed e })
       (\<lambda>won. if \<not> won then do {
          discard_file path;
          attempt (GetRemoteMedia origin mediaID) failed (\<lambda>existing. State_Monad.return (Inr existing)) }
        else State_Monad.return (Inr m))) (fetch_result rf p origin mediaID w) w2"
proof -
  have fresh: "fresh_path p origin w path" using path i by (auto simp: fresh_path_def)
  show ?thesis
    unfolding wp_attempt [of "StoreRemoteMedia a b c" for a b c]
  proof (rule wp_StoreRemoteMedia, goal_cases)
    case (1 e w3)
    note f3 = frame_remote_only [OF w2(1) 1(1)]
    have "w_remote w3 = w_remote w \<or> row_added origin mediaID w w3"
      using 1(2) w2(2) by (auto simp: row_added_def m)
    then show ?case
      unfolding sum.case wp_bind
      by (intro wp_discard_fresh [OF f3 fresh]) (auto simp: fetch_result_def row_added_def)
  next
    case (2 w3)
    note f3 = frame_remote_only [OF w2(1) 2(1)]
    show ?case
      unfolding sum.case not_False_eq_True if_True wp_bind
    proof (rule wp_discard_fresh [OF f3 fresh], unfold wp_attempt, rule wp_GetRemoteMedia, goal_cases)
      case (1 w4 e w5)
      then show ?case using frame_env [OF 1(1,3)] 2(2) w2(2) by (simp add: fetch_result_def)
    next
      case (2 w4 w5)
      then show ?case
        using frame_env [OF 2(1,3)] \<open>w_remote w3 = w_remote w2\<close> w2(2) by (simp add: fetch_result_def)
    next
      case (3 w4 row w5)
      then show ?case
        using frame_env [OF 3(1,3)] \<open>w_remote w3 = w_remote w2\<close> w2(2) by (simp add: fetch_result_def)
    qed
  next
    case (3 now w3)
    note f3 = frame_remote_only [OF w2(1) 3(1)]
    have "fetched rf p origin mediaID m w w3"
      unfolding fetched_def
      by (intro exI [of _ path] exI [of _ d] exI [of _ now])
        (use 3 w2 d path i in \<open>simp add: m received_def remote_only_def\<close>)
    then show ?case using f3 by (simp add: fetch_result_def)
  qed
qed

text \<open>From the finished temporary file on.\<close>

lemma wp_fetch_install:
  assumes w1: "idle w w1" and path: "RemoteMedia p origin i = Inr path" "WritablePath p path = Inr ()"
    and i: "newFilesystemID (w_draws w) = Some (i, ds)"
    and tmp: "incoming tmp" "w_files w1 tmp = Some \<lparr>f_bytes = d, f_mode = 420, f_synced = True\<rparr>"
    and d: "received (rf_fetcher rf) info d"
    and m: "m = \<lparr>rm_Origin = origin, rm_MediaID = mediaID, rm_MediaType = fm_MediaType info,
            rm_Length = Some (fm_Length info), rm_UploadName = fm_UploadName info, rm_FilesystemID = i,
            rm_QuarantinedBy = '''', rm_Authenticated = rf_authenticated rf\<rparr>"
  shows "wp (attempt (os_rename tmp path) (\<lambda>e. do { discard_file tmp; failed e }) (\<lambda>_.
     attempt (StoreRemoteMedia m (fm_SHA256 info) (rf_authenticated rf))
       (\<lambda>e. do { discard_file path; failed e })
       (\<lambda>won. if \<not> won then do {
          discard_file path;
          attempt (GetRemoteMedia origin mediaID) failed (\<lambda>existing. State_Monad.return (Inr existing)) }
        else State_Monad.return (Inr m)))) (fetch_result rf p origin mediaID w) w1"
proof -
  have fresh: "fresh_path p origin w path" using path i by (auto simp: fresh_path_def)
  let ?file = "\<lparr>f_bytes = d, f_mode = 420, f_synced = True\<rparr>"
  show ?thesis
    unfolding wp_attempt [of "os_rename a b" for a b]
    unfolding os_rename_def
  proof (rule wp_call, goal_cases)
    case (1 e fs c)
    let ?w = "w1\<lparr>w_faults := fs, w_cancelled := c\<rparr>"
    have t: "temp_phase ?w tmp ?w" by (simp add: temp_phase_def files_only_refl)
    have w: "idle w ?w" using w1 idle_env [OF env_stepI [of w1 c fs]] 1 idle_trans by blast
    show ?case
      unfolding sum.case wp_bind
      by (rule wp_discard_tmp [OF t]) (simp add: idle_result [OF idle_trans [OF w temp_idle [OF _ tmp(1)]]])
  next
    case (2 fs c)
    let ?w = "w1\<lparr>w_faults := fs, w_cancelled := c, w_files := (w_files w1)(tmp := None, path := Some ?file)\<rparr>"
    have "fetch_frame p origin w ?w"
      using w1 fresh tmp(1) 2 by (auto simp: fetch_frame_def idle_def kept_def)
    then have "wp (attempt (StoreRemoteMedia m (fm_SHA256 info) (rf_authenticated rf))
       (\<lambda>e. do { discard_file path; failed e })
       (\<lambda>won. if \<not> won then do {
          discard_file path;
          attempt (GetRemoteMedia origin mediaID) failed (\<lambda>existing. State_Monad.return (Inr existing)) }
        else State_Monad.return (Inr m))) (fetch_result rf p origin mediaID w) ?w"
      by (rule wp_fetch_record [OF path i d m]) (use w1 in \<open>simp_all add: idle_def kept_def\<close>)
    then show ?case using tmp(2) by simp
  qed
qed

lemma wp_fetch_into:
  assumes w1: "idle w w1" and i: "newFilesystemID (w_draws w) = Some (i, ds)"
  shows "wp (fetch_into rf p origin mediaID i) (fetch_result rf p origin mediaID w) w1"
proof (cases "RemoteMedia p origin i")
  case (Inl e)
  then show ?thesis using w1 by (simp add: fetch_into_def idle_result)
next
  case path: (Inr path)
  show ?thesis
  proof (cases "WritablePath p path")
    case (Inl e)
    then show ?thesis using w1 path by (simp add: fetch_into_def idle_result)
  next
    case (Inr u)
    show ?thesis
      unfolding fetch_into_def wp_attempt [of "State_Monad.return x" for x] wp_return path Inr sum.case
        wp_attempt [of "os_mkdir_all x" for x]
    proof (rule wp_mkdir_env, goal_cases)
      case (1 r w2)
      then have w2: "idle w w2" using w1 idle_env_trans by blast
      show ?case
      proof (cases r)
        case (Inl e)
        then show ?thesis using w2 by (simp add: idle_result)
      next
        case r: (Inr u')
        show ?thesis
          unfolding r sum.case wp_attempt [of "fetch_download a b c d x" for a b c d x]
        proof (rule wp_fetch_download, goal_cases)
          case (1 e w3)
          then show ?case using w2 by (simp add: idle_result [OF idle_trans])
        next
          case (2 info tmp d w3)
          show ?case
            unfolding sum.case prod.case Let_def
            by (rule wp_fetch_install [OF idle_trans [OF w2 2(1)] path _ i 2(2,4,3)]) (simp_all add: Inr)
        qed
      qed
    qed
  qed
qed

definition fetch_outcome :: "RemoteFetcher \<Rightarrow> MediaPaths \<Rightarrow> string \<Rightarrow> string \<Rightarrow> world \<Rightarrow> remote_media res option \<Rightarrow> world \<Rightarrow> bool" where
  "fetch_outcome rf p origin mediaID w res w' \<longleftrightarrow>
     (case res of
        None \<Rightarrow> newFilesystemID (w_draws w) = None \<and> idle w w' \<and> w_draws w' = w_draws w
      | Some r \<Rightarrow> fetch_result rf p origin mediaID w r w')"

lemma wp_fetch_anew:
  assumes "env_step w w1"
  shows "wp (fetch_anew rf p origin mediaID) (fetch_outcome rf p origin mediaID w) w1"
proof (cases "newFilesystemID (w_draws w)")
  case None
  then show ?thesis
    using assms by (simp add: fetch_anew_def wp_fresh_id env_step_same fetch_outcome_def idle_env)
next
  case (Some x)
  obtain i ds where x: "x = (i, ds)" by (cases x)
  have "idle w (w1\<lparr>w_draws := ds\<rparr>)" using idle_env [OF assms] by simp
  from wp_fetch_into [OF this, of i ds] show ?thesis
    using Some x assms by (simp add: fetch_anew_def wp_fresh_id env_step_same fetch_outcome_def)
qed

lemma fetchAndStore_cases:
  "wp (fetchAndStore rf p origin mediaID) (fetch_outcome rf p origin mediaID w) w"
  unfolding fetchAndStore_def wp_bind
proof (rule wp_GetRemoteMedia, goal_cases)
  case (1 e w1)
  then show ?case by (simp add: fetch_outcome_def idle_result idle_env)
next
  case (2 w1)
  then show ?case by (simp add: wp_fetch_anew)
next
  case (3 row w1)
  let ?m = "scan_remote origin mediaID row"
  have anew: "env_step w w2 \<Longrightarrow> wp (fetch_anew rf p origin mediaID) (fetch_outcome rf p origin mediaID w) w2" for w2
    by (rule wp_fetch_anew)
  have kept: "env_step w w2 \<Longrightarrow> fetch_outcome rf p origin mediaID w (Some (Inr ?m)) w2" for w2
    using idle_frame [OF idle_env] 3(2) by (simp add: fetch_outcome_def fetch_result_def env_step_same)
  show ?case
  proof (cases "rm_Length ?m \<noteq> None \<and> is_ok (RemoteMedia p origin (rm_FilesystemID ?m))")
    case True
    then obtain path where path: "rm_Length ?m \<noteq> None" "RemoteMedia p origin (rm_FilesystemID ?m) = Inr path"
      by (auto simp: is_ok_iff)
    show ?thesis
      unfolding sum.case if_P [OF path(1)] path(2) wp_bind os_stat_def
      by (rule wp_read_call)
        (auto simp: is_ok_iff intro: anew kept dest: env_step_trans [OF 3(1)] split: option.split)
  next
    case False
    then show ?thesis using anew [OF 3(1)] by (auto split: sum.split)
  qed
qed


section \<open>A row without its file\<close>

text \<open>A remote row whose file is gone stays so for good: whatever its origin answers, fetching the medium
  again leaves the row as it is and its file missing, since the downloaded copy has another ID and the
  row's writer came first.\<close>

theorem missing_file_never_heals:
  assumes "find (\<lambda>r. remote_key r = (origin, mediaID)) (w_remote w) = Some row"
    and "RemoteMedia p origin (derefString (rr_filesystem_id row)) = Inr path" "w_files w path = None"
    and "\<not> incoming path" "\<not> fresh_path p origin w path"
  shows "wp (fetchAndStore rf p origin mediaID) (\<lambda>res w'. w_files w' path = None \<and> w_remote w' = w_remote w \<and>
    (\<forall>m. res = Some (Inr m) \<longrightarrow> m = scan_remote origin mediaID row)) w"
proof (rule wp_mono [OF fetchAndStore_cases])
  fix res w' assume o: "fetch_outcome rf p origin mediaID w res w'"
  have k: "(origin, mediaID) \<in> remote_key ` set (w_remote w)"
    using assms(1) by (metis find_None_key option.distinct(1))
  show "w_files w' path = None \<and> w_remote w' = w_remote w \<and>
    (\<forall>m. res = Some (Inr m) \<longrightarrow> m = scan_remote origin mediaID row)"
  proof (cases res)
    case None
    then show ?thesis using o assms(3,4) by (auto simp: fetch_outcome_def idle_def kept_def)
  next
    case (Some r)
    then show ?thesis
      using o k assms(1,3-5)
      by (cases r) (auto simp: fetch_outcome_def fetch_result_def fetch_frame_def row_added_def fetched_def)
  qed
qed

definition orphan_row :: remote_row where
  "orphan_row = \<lparr>rr_origin = ''other.org'', rr_media_id = ''m'', rr_media_type = Some ''image/png'', rr_length = Some 1,
     rr_created_ts = Some 0, rr_upload_name = None, rr_filesystem_id = Some ''abcdefghij'', rr_quarantined_by = None,
     rr_authenticated = Some True, rr_sha256 = None, rr_last_access_ts = None\<rparr>"

definition orphan_world :: world where
  "orphan_world = sample_world\<lparr>w_remote := [orphan_row],
     w_fed := [Inr \<lparr>fr_content_length = 1, fr_media_type = Some (''multipart/mixed'', [(''boundary'', ''b'')]),
       fr_meta = Some ''application/json'', fr_meta_reads = True, fr_file = Some [], fr_body = ([1], True)\<rparr>]\<rparr>"

definition sample_fetcher :: RemoteFetcher where
  "sample_fetcher = \<lparr>rf_fetcher = NewFetcher 100 0, rf_authenticated = True\<rparr>"

lemma orphan_fresh: "\<not> fresh_path sample_store ''other.org'' orphan_world
   (''/data/media_store/remote_content/other.org/ab/cd'' @ ''/'' @ ''efghij'')"
proof -
  have "case newFilesystemID (map Some [0..<96]) of None \<Rightarrow> True | Some (i, ds) \<Rightarrow>
      RemoteMedia sample_store ''other.org'' i \<noteq> Inr (''/data/media_store/remote_content/other.org/ab/cd'' @ ''/'' @ ''efghij'')"
    by code_simp
  then show ?thesis by (auto simp: fresh_path_def orphan_world_def sample_world_def)
qed

theorem missing_file_never_heals_witness:
  "wp (fetchAndStore sample_fetcher sample_store ''other.org'' ''m'') (\<lambda>res w'.
    w_files w' (''/data/media_store/remote_content/other.org/ab/cd'' @ ''/'' @ ''efghij'') = None \<and>
    w_remote w' = w_remote orphan_world \<and>
    (\<forall>m. res = Some (Inr m) \<longrightarrow> m = scan_remote ''other.org'' ''m'' orphan_row)) orphan_world"
proof (rule missing_file_never_heals [OF _ _ _ _ orphan_fresh])
  show "find (\<lambda>r. remote_key r = (''other.org'', ''m'')) (w_remote orphan_world) = Some orphan_row"
    by (simp add: orphan_world_def remote_key_def orphan_row_def)
  have "RemoteMedia sample_store ''other.org'' ''abcdefghij'' =
      Inr (''/data/media_store/remote_content/other.org/ab/cd'' @ ''/'' @ ''efghij'')" by code_simp
  then show "RemoteMedia sample_store ''other.org'' (derefString (rr_filesystem_id orphan_row)) =
      Inr (''/data/media_store/remote_content/other.org/ab/cd'' @ ''/'' @ ''efghij'')"
    by (simp add: orphan_row_def derefString_def)
  show "w_files orphan_world (''/data/media_store/remote_content/other.org/ab/cd'' @ ''/'' @ ''efghij'') = None"
    by (simp add: orphan_world_def sample_world_def)
  show "\<not> incoming (''/data/media_store/remote_content/other.org/ab/cd'' @ ''/'' @ ''efghij'')"
    using scratch_name_last [of "''.incoming-''" "''/data/media_store/remote_content/other.org/ab/cd''" "''efghij''"] by auto
qed

end
