(* ===== verification/Handlers_Correct.thy ===== *)
theory Handlers_Correct
  imports Handlers Fetch_Correct
begin

text \<open>
  What the download and thumbnail endpoints answer: exactly one reply each, never a blocked medium, and
  for a download the stored bytes; how long a request waits for an upload, and what it then skips.
\<close>

section \<open>One reply\<close>

text \<open>A request ends with one reply more, or with none where a random source that failed made it panic.\<close>

definition no_randomness :: "world \<Rightarrow> bool" where
  "no_randomness w \<longleftrightarrow> newFilesystemID (w_draws w) = None \<or>
     length (take 16 (w_draws w)) < 16 \<or> None \<in> set (take 16 (w_draws w))"

definition one_reply :: "world \<Rightarrow> world \<Rightarrow> bool" where
  "one_reply w w' \<longleftrightarrow> (\<exists>rp. w_replies w' = w_replies w @ [rp]) \<or>
     w_replies w' = w_replies w \<and> no_randomness w'"

text \<open>Programs that say nothing, that answer, that answer or yield something, and that come after an answer.\<close>

definition quiet :: "'a io \<Rightarrow> bool" where
  "quiet m \<longleftrightarrow> (\<forall>w. wp m (\<lambda>_ w'. w_replies w' = w_replies w) w)"

definition replies :: "'a io \<Rightarrow> bool" where
  "replies m \<longleftrightarrow> (\<forall>w. wp m (\<lambda>_ w'. one_reply w w') w)"

definition asks :: "'a option io \<Rightarrow> bool" where
  "asks m \<longleftrightarrow> (\<forall>w. wp m (\<lambda>r w'. if r = None then one_reply w w' else w_replies w' = w_replies w) w)"

definition inert :: "'a io \<Rightarrow> bool" where
  "inert m \<longleftrightarrow> (\<forall>w. wp m (\<lambda>_ w'. w_replies w' = w_replies w \<and> w_draws w' = w_draws w) w)"

lemma wp_all: "\<forall>w. wp m (P w) w \<Longrightarrow> (\<And>a w'. P w a w' \<Longrightarrow> Q a w') \<Longrightarrow> wp m Q w"
  by (blast intro: wp_mono)

lemma all_bind:
  assumes "\<forall>w. wp m (P w) w" "\<And>x w w'. P w x w' \<Longrightarrow> wp (k x) (Q w) w'"
  shows "\<forall>w. wp (m \<bind> k) (Q w) w"
  unfolding wp_bind by (intro allI wp_all [OF assms(1)] assms(2))

named_theorems quiet_intros
named_theorems reply_intros

lemma quiet_return [quiet_intros]: "quiet (State_Monad.return x)"
  by (simp add: quiet_def)

lemma quiet_skip [quiet_intros]: "quiet skip"
  by (simp add: quiet_def)

lemma quiet_State: "(\<And>w. w_replies (snd (f w)) = w_replies w) \<Longrightarrow> quiet (State f)"
  by (simp add: quiet_def case_prod_beta)

lemma quiet_bind [quiet_intros]: "quiet m \<Longrightarrow> (\<And>x. quiet (k x)) \<Longrightarrow> quiet (m \<bind> k)"
  unfolding quiet_def by (erule all_bind) (rule wp_all, assumption, simp)

lemma quiet_attempt [quiet_intros]:
  "quiet m \<Longrightarrow> (\<And>e. quiet (h e)) \<Longrightarrow> (\<And>x. quiet (k x)) \<Longrightarrow> quiet (attempt m h k)"
  unfolding attempt_def by (rule quiet_bind) (simp_all split: sum.split)

lemma quiet_if [quiet_intros]: "quiet m \<Longrightarrow> quiet n \<Longrightarrow> quiet (if c then m else n)"
  by simp

lemma quiet_option [quiet_intros]: "quiet m \<Longrightarrow> (\<And>x. quiet (k x)) \<Longrightarrow> quiet (case y of None \<Rightarrow> m | Some x \<Rightarrow> k x)"
  by (simp split: option.split)

lemma quiet_sum [quiet_intros]: "(\<And>e. quiet (h e)) \<Longrightarrow> (\<And>x. quiet (k x)) \<Longrightarrow> quiet (case y of Inl e \<Rightarrow> h e | Inr x \<Rightarrow> k x)"
  by (simp split: sum.split)

lemma quiet_next_fault: "quiet next_fault"
  unfolding next_fault_def by (rule quiet_State) (simp split: list.split)

lemma quiet_call: "(\<And>w. w_replies (snd (f w)) = w_replies w) \<Longrightarrow> quiet (call_with g f)"
  unfolding call_with_def
  by (rule quiet_bind [OF quiet_next_fault]) (auto intro: quiet_State quiet_intros split: fault.split)

lemma quiet_lossy: "(\<And>w. w_replies (snd (f w)) = w_replies w) \<Longrightarrow> quiet (lossy_with g f)"
  unfolding lossy_with_def
  by (rule quiet_bind [OF quiet_next_fault]) (auto intro!: quiet_State quiet_intros split: fault.split)

lemma quiet_acquire [quiet_intros]: "quiet acquire"
  unfolding acquire_def
  by (rule quiet_bind [OF quiet_next_fault]) (auto intro!: quiet_State quiet_intros split: fault.split)

lemma quiet_now [quiet_intros]: "quiet go_now"
  unfolding go_now_def by (rule quiet_State) (simp add: Let_def)

lemma quiet_notes [quiet_intros]:
  "quiet (log_note xs)" "quiet (setOutcome o')" "quiet (annotate_reason x)" "quiet (annotate_thumb x)"
  "quiet (setProxied x)" "quiet (setMedia a b)" "quiet (inc_metric a ls)" "quiet (annotate_user x)" "quiet (headers_set g)"
  by (simp_all add: quiet_def)

lemma quiet_files [quiet_intros]:
  "quiet (os_open p)" "quiet (os_stat p)" "quiet (os_mkdir_all p)" "quiet (os_write p d)" "quiet (os_sync p)"
  "quiet (os_close p)" "quiet (os_chmod p n)" "quiet (os_rename p q)" "quiet (os_remove p)" "quiet (os_create_temp p pre)"
  unfolding os_open_def os_stat_def os_mkdir_all_def os_write_def os_sync_def os_close_def os_chmod_def
    os_rename_def os_remove_def os_create_temp_def
  by (auto intro!: quiet_call quiet_lossy simp: on_file_def split: option.split list.split)

lemma quiet_discard [quiet_intros]: "quiet (discard_file p)" "quiet (close_discard p)"
  unfolding discard_file_def close_discard_def by (intro quiet_intros)+

lemma quiet_queries [quiet_intros]:
  "quiet (GetLocalMedia i)" "quiet (GetRemoteMedia o' i)" "quiet (GetLocalThumbnails i)" "quiet (GetRemoteThumbnails o' i)"
  "quiet (StoreRemoteThumbnail o' i fs t)"
  unfolding GetLocalMedia_def GetRemoteMedia_def GetLocalThumbnails_def GetRemoteThumbnails_def StoreRemoteThumbnail_def Let_def
  by (auto intro!: quiet_call quiet_lossy split: option.split)

lemma quiet_mark [quiet_intros]:
  "quiet (MarkRecentlyAccessedLocal c i)" "quiet (MarkRecentlyAccessedRemote c o' i)"
  unfolding MarkRecentlyAccessedLocal_def MarkRecentlyAccessedRemote_def
  by (simp_all add: quiet_def)

lemma quiet_writes [quiet_intros]:
  "quiet (writeFileAtomic p path d)" "quiet (cache_Open c k)" "quiet (cache_Put c k d)"
  unfolding writeFileAtomic_def cache_Open_def cache_Put_def CreateTemp_def finish_temp_def Let_def
  by (intro quiet_intros)+

lemma quiet_generate [quiet_intros]: "quiet (Generate L n p t q)"
  unfolding Generate_def by (intro quiet_intros)

lemma quiet_store_thumbnail [quiet_intros]: "quiet (storeGeneratedThumbnail s o' i fs k q d)"
  unfolding storeGeneratedThumbnail_def WriteThroughRemoteThumbnail_def Let_def by (intro quiet_intros)

lemma quiet_read [quiet_intros]: "quiet (readAllFile f)" "quiet (fileSize f)"
  unfolding readAllFile_def fileSize_def by (intro quiet_intros quiet_call; simp)+

lemma quiet_generate_thumbnail [quiet_intros]: "quiet (generate_thumbnail s o' i fs k p t q)"
  unfolding generate_thumbnail_def by (intro quiet_intros)

lemma quiet_open_first [quiet_intros]: "quiet (open_first ps)"
  by (induction ps rule: open_first.induct) (simp_all add: quiet_intros)

subsection \<open>Answers\<close>

lemma replies_if [reply_intros]: "replies m \<Longrightarrow> replies n \<Longrightarrow> replies (if c then m else n)"
  by simp

lemma replies_option [reply_intros]:
  "replies m \<Longrightarrow> (\<And>x. replies (k x)) \<Longrightarrow> replies (case y of None \<Rightarrow> m | Some x \<Rightarrow> k x)"
  by (simp split: option.split)

lemma one_reply_after: "w_replies w1 = w_replies w \<Longrightarrow> one_reply w1 w' \<Longrightarrow> one_reply w w'"
  by (simp add: one_reply_def)

lemma replies_bind [reply_intros]: "quiet m \<Longrightarrow> (\<And>x. replies (k x)) \<Longrightarrow> replies (m \<bind> k)"
  unfolding quiet_def replies_def by (erule all_bind) (rule wp_all, assumption, rule one_reply_after)

lemma replies_attempt [reply_intros]:
  "quiet m \<Longrightarrow> (\<And>e. replies (h e)) \<Longrightarrow> (\<And>x. replies (k x)) \<Longrightarrow> replies (attempt m h k)"
  unfolding attempt_def by (rule replies_bind) (simp_all split: sum.split)

lemma replies_then: "replies m \<Longrightarrow> inert k \<Longrightarrow> replies (m \<bind> (\<lambda>_. k))"
  unfolding replies_def inert_def wp_bind
  by (auto elim!: wp_all simp: one_reply_def no_randomness_def)

lemma inert_mark: "inert (MarkRecentlyAccessedLocal c i)" "inert (MarkRecentlyAccessedRemote c o' i)"
  unfolding MarkRecentlyAccessedLocal_def MarkRecentlyAccessedRemote_def by (simp_all add: inert_def)

lemma replies_send [reply_intros]: "replies (send_reply st b)" "replies (serveFile f)" "replies (forward u)"
  by (simp_all add: replies_def one_reply_def serveFile_def forward_def)

lemma replies_error [reply_intros]:
  "replies (writeMatrixError st c m)" "replies (respondNotFound p)" "replies respondNotYetUploaded"
  "replies respondNotModified" "replies (internalError r x)"
  unfolding writeMatrixError_def respondNotFound_def respondNotYetUploaded_def respondNotModified_def internalError_def
  by (intro reply_intros quiet_intros)+

lemma replies_proxy [reply_intros]: "replies (proxyDownload s r x)" "replies (proxyThumbnail s r x)"
  unfolding proxyDownload_def proxyThumbnail_def by (intro reply_intros quiet_intros)+

lemma replies_on_some [reply_intros]:
  assumes "asks m" "\<And>x. replies (k x)"
  shows "replies (on_some m k)"
  unfolding replies_def on_some_def
proof (rule all_bind [OF assms(1) [unfolded asks_def]], goal_cases)
  case (1 x w w')
  then show ?case
    using assms(2) [unfolded replies_def]
    by (cases x) (auto intro: wp_all [OF assms(2) [unfolded replies_def]] one_reply_after)
qed

lemma asks_none [reply_intros]: "replies m \<Longrightarrow> asks (m \<bind> (\<lambda>_. State_Monad.return None))"
  unfolding asks_def replies_def wp_bind by (auto elim!: wp_all)

lemma asks_some [reply_intros]: "asks (State_Monad.return (Some x))"
  by (simp add: asks_def)

lemma asks_bind [reply_intros]: "quiet m \<Longrightarrow> (\<And>x. asks (k x)) \<Longrightarrow> asks (m \<bind> k)"
  unfolding asks_def quiet_def
  by (erule all_bind) (rule wp_all, assumption, auto intro: one_reply_after split: if_splits)

lemma asks_if [reply_intros]: "asks m \<Longrightarrow> asks n \<Longrightarrow> asks (if c then m else n)"
  by simp

lemma asks_attempt [reply_intros]:
  "quiet m \<Longrightarrow> (\<And>e. asks (h e)) \<Longrightarrow> (\<And>x. asks (k x)) \<Longrightarrow> asks (attempt m h k)"
  unfolding attempt_def by (rule asks_bind) (simp_all split: sum.split)

lemma asks_newBoundary: "asks newBoundary"
  by (auto simp: asks_def newBoundary_def Let_def one_reply_def no_randomness_def)

lemma replies_multipart [reply_intros]: "replies (respondMultipart r b t u n)"
  unfolding respondMultipart_def Let_def by (intro reply_intros quiet_intros asks_newBoundary)

lemma replies_thumbnail [reply_intros]:
  "replies (respondThumbnailBytes r d t fed)" "replies (respondThumbnailFile r d t fed)"
  unfolding respondThumbnailBytes_def respondThumbnailFile_def by (intro reply_intros quiet_intros)+

lemma replies_generated [reply_intros]: "replies (serveGeneratedThumbnail s r o' i fs p t q fed)"
  unfolding serveGeneratedThumbnail_def Let_def by (intro reply_intros quiet_intros)

lemma quiet_clock [quiet_intros]: "quiet context_done" "quiet (time_passes d rows files)"
  by (simp_all add: quiet_def context_done_def time_passes_def)

lemma quiet_await [quiet_intros]: "quiet (await_loop d i es)"
proof (induction es)
  case (Cons e es)
  show ?case
  proof (cases e)
    case (Poll t rows files)
    show ?thesis unfolding Poll await_loop.simps by (intro quiet_intros Cons)
  qed (simp add: quiet_intros)
qed (simp add: quiet_intros)

lemma asks_resolve: "asks (resolveLocalMedia s r i allow)"
  unfolding resolveLocalMedia_def awaitUpload_def
  by (intro reply_intros quiet_intros quiet_State; simp)

lemma asks_fetchRemote:
  assumes "\<And>x. replies (fb x)"
  shows "asks (fetchRemote s r o' i reason fb)"
proof (cases "sv_remote s")
  case None
  then show ?thesis using assms by (auto simp: fetchRemote_def intro!: reply_intros)
next
  case (Some rf)
  show ?thesis
    unfolding fetchRemote_def Some option.case FetchAndStore_def asks_def wp_bind
  proof (intro allI, rule wp_mono [OF fetchAndStore_cases], goal_cases)
    case (1 w res w1)
    have q: "w_replies w1 = w_replies w"
      using 1 by (auto simp: fetch_outcome_def fetch_result_def fetch_frame_def idle_def split: option.splits)
    have asks: "asks m \<Longrightarrow> wp m (\<lambda>x w'. if x = None then one_reply w w' else w_replies w' = w_replies w) w1" for m :: "remote_media option io"
      unfolding asks_def using q by (auto elim!: wp_all intro: one_reply_after)
    show ?case
    proof (cases res)
      case None
      then have "newFilesystemID (w_draws w) = None \<and> idle w w1" using 1 by (simp add: fetch_outcome_def)
      then show ?thesis using None q 1 by (simp add: one_reply_def no_randomness_def fetch_outcome_def)
    next
      case (Some x)
      show ?thesis
        unfolding Some option.case
        by (cases x; simp only: sum.case; rule asks; intro reply_intros quiet_intros assms)
    qed
  qed
qed

lemma wp_authenticateClient:
  assumes "\<And>w'. same_stores w w' \<Longrightarrow> answered refusal w w' \<Longrightarrow> Q False w'"
    and "\<And>w'. same_stores w w' \<Longrightarrow> w_replies w' = w_replies w \<Longrightarrow> Q True w'"
  shows "wp (authenticateClient r) Q w"
proof -
  let ?c = "\<lparr>cr_Token = ExtractToken r, cr_UserID = '''', cr_DeviceID = '''', cr_Forwarded = ClientHeaders r\<rparr>"
  have refuse: "wp (writeMatrixError st c m) (\<lambda>_. Q False) (w1\<lparr>w_notes := ns\<rparr>)"
    if "same_stores w w1" "w_replies w1 = w_replies w" for w1 ns st c m
  proof (rule wp_writeMatrixError, goal_cases)
    case (1 w')
    show ?case
      by (rule assms(1))
        (use 1 that in \<open>auto simp: answered_after intro: same_stores_trans answered_after elim: answered_mono [OF answered_after]\<close>)
  qed
  show ?thesis
  proof (cases "ExtractToken r = ''''")
    case True
    show ?thesis
      unfolding authenticateClient_def Let_def if_P [OF True] using refuse [of w] by simp
  next
    case False
    have c: "cr_Token ?c \<noteq> ''''" using False by simp
    show ?thesis
      unfolding authenticateClient_def Let_def if_not_P [OF False] wp_attempt
    proof (rule wp_AuthenticateAs [OF c], goal_cases)
      case (1 e w')
      then show ?case using refuse by simp
    next
      case (2 v w')
      then show ?case using refuse by (simp add: assms(2))
    qed
  qed
qed

text \<open>The endpoints that serve media, each with the server name it asks for and whether it may see
  authenticated media.\<close>

definition media_endpoints :: "'i Server \<Rightarrow> request \<Rightarrow> (unit io \<times> string \<times> bool) list" where
  "media_endpoints s r =
     [(handleClientDownload s r, path_value r ''serverName'', True),
      (handleLegacyDownload s r, path_value r ''serverName'', False),
      (handleFederationDownload s r, cfg_ServerName (sv_cfg s), True),
      (handleClientThumbnail s r, path_value r ''serverName'', True),
      (handleLegacyThumbnail s r, path_value r ''serverName'', False),
      (handleFederationThumbnail s r, cfg_ServerName (sv_cfg s), True)]"

lemma replies_local_download [reply_intros]: "replies (serveLocalDownload s r i allow fed)"
  unfolding serveLocalDownload_def by (intro reply_intros quiet_intros asks_resolve)

lemma replies_remote_file [reply_intros]: "replies (serve_remote_file s r o' i allow m)"
  unfolding serve_remote_file_def by (intro reply_intros quiet_intros)

lemma replies_download [reply_intros]: "replies (serveDownload s r o' i allow)"
  unfolding serveDownload_def serveRemoteDownload_def by (intro reply_intros quiet_intros asks_fetchRemote)

lemma quiet_stored [quiet_intros]: "quiet (stored_local_thumbnail s m i row)" "quiet (stored_remote_thumbnail s o' rm row)"
  unfolding stored_local_thumbnail_def stored_remote_thumbnail_def Let_def by (intro quiet_intros)+

lemma replies_pair [reply_intros]:
  "replies m \<Longrightarrow> (\<And>x y. replies (k x y)) \<Longrightarrow> replies (case z of None \<Rightarrow> m | Some (x, y) \<Rightarrow> k x y)"
  by (simp split: option.split prod.split)

lemma replies_local_thumbnail [reply_intros]: "replies (serveLocalThumbnail s r i q allow fed)"
  unfolding serveLocalThumbnail_def by (intro reply_intros quiet_intros asks_resolve replies_then inert_mark)

lemma replies_remote_thumbnail [reply_intros]: "replies (serve_remote_thumbnail s r o' i q allow m)"
  unfolding serve_remote_thumbnail_def by (intro reply_intros quiet_intros replies_then inert_mark)

lemma replies_serveThumbnail [reply_intros]: "replies (serveThumbnail s r o' i allow fed)"
  unfolding serveThumbnail_def serveRemoteThumbnail_def
  by (cases "ParseThumbnailRequest r") (simp only: sum.case, intro reply_intros quiet_intros asks_fetchRemote)+

lemma replies_authenticated:
  assumes "replies m"
  shows "replies (do { ok \<leftarrow> authenticateClient r; if \<not> ok then skip else m })"
  unfolding replies_def wp_bind
proof (intro allI wp_authenticateClient, goal_cases)
  case (1 w w')
  then show ?case by (auto simp: answered_def one_reply_def)
next
  case (2 w w')
  show ?case
    using assms [unfolded replies_def] 2 by (auto elim!: wp_all intro: one_reply_after)
qed


section \<open>Blocked media\<close>

text \<open>A medium that is quarantined, or that the endpoint may not show.\<close>

definition blocked :: "'i Server \<Rightarrow> world \<Rightarrow> string \<Rightarrow> string \<Rightarrow> bool \<Rightarrow> bool" where
  "blocked s w serverName mediaID allow \<longleftrightarrow>
     (if isMine s serverName then
        \<exists>row. find (\<lambda>r. lr_media_id r = mediaID) (w_local w) = Some row \<and>
          (local_quarantined (scan_local mediaID row) \<or> AuthenticatedMedia (sv_media s) \<and> \<not> allow \<and> lm_Authenticated (scan_local mediaID row))
      else
        \<exists>row. find (\<lambda>r. remote_key r = (serverName, mediaID)) (w_remote w) = Some row \<and>
          (remote_quarantined (scan_remote serverName mediaID row) \<or>
           AuthenticatedMedia (sv_media s) \<and> \<not> allow \<and> rm_Authenticated (scan_remote serverName mediaID row)))"

lemma blocked_iff:
  "blocked s w serverName mediaID allow \<longleftrightarrow>
     (if isMine s serverName then
        \<exists>row. find (\<lambda>r. lr_media_id r = mediaID) (w_local w) = Some row \<and>
          (local_quarantined (scan_local mediaID row) \<or> hiddenFromLegacy s (lm_Authenticated (scan_local mediaID row)) allow)
      else
        \<exists>row. find (\<lambda>r. remote_key r = (serverName, mediaID)) (w_remote w) = Some row \<and>
          (remote_quarantined (scan_remote serverName mediaID row) \<or>
           hiddenFromLegacy s (rm_Authenticated (scan_remote serverName mediaID row)) allow))"
  by (simp add: blocked_def hiddenFromLegacy_def)

text \<open>Refused once, with no table and no file changed.\<close>

definition barred :: "world \<Rightarrow> world \<Rightarrow> bool" where
  "barred w w' \<longleftrightarrow> answered refusal w w' \<and> kept (\<lambda>_. False) w w'"

lemma barred_after: "kept (\<lambda>_. False) w w1 \<Longrightarrow> w_replies w1 = w_replies w \<Longrightarrow> barred w1 w' \<Longrightarrow> barred w w'"
  by (auto simp: barred_def answered_def intro: kept_trans)

lemma wp_bar:
  assumes "kept (\<lambda>_. False) w w1" "w_replies w1 = w_replies w" "\<And>w'. barred w w' \<Longrightarrow> Q () w'"
  shows "wp (writeMatrixError st c m) Q w1"
proof (rule wp_writeMatrixError, rule assms(3), rule barred_after [OF assms(1,2)])
  fix w' assume "same_stores w1 w'" "answered (\<lambda>rp. rp_status rp = st \<and> refusal rp) w1 w'"
  then show "barred w1 w'" by (auto simp: barred_def kept_same_stores elim: answered_mono)
qed

lemma blocked_after: "kept (\<lambda>_. False) w w1 \<Longrightarrow> blocked s w1 o' i allow = blocked s w o' i allow"
  by (simp add: blocked_iff kept_def)

lemma wp_resolve_blocked:
  assumes "blocked s w serverName i allow" "isMine s serverName" "\<And>w'. barred w w' \<Longrightarrow> Q None w'"
  shows "wp (resolveLocalMedia s r i allow) Q w"
  unfolding resolveLocalMedia_def wp_attempt [of "GetLocalMedia i"]
proof (rule wp_GetLocalMedia, goal_cases)
  case (1 e w1)
  then show ?case
    using wp_bar [of w "w1\<lparr>w_notes := ns\<rparr>" for ns] by (simp add: internalError_def env_step_same assms(3))
next
  case (2 w1)
  then show ?case using assms(1,2) by (simp add: blocked_iff)
next
  case (3 row w1)
  have bar: "wp (writeMatrixError st c m) (\<lambda>_. Q None) (w1\<lparr>w_notes := ns\<rparr>)" for st c m ns
    by (rule wp_bar [of w]) (simp_all add: 3 env_step_same [OF 3(1)] assms(3))
  have bar': "wp (writeMatrixError st c m) (\<lambda>_. Q None) w1" for st c m
    by (rule wp_bar [of w]) (simp_all add: 3 env_step_same [OF 3(1)] assms(3))
  show ?case
    using assms(1,2) 3(2) bar bar' by (auto simp: blocked_iff respondNotFound_def)
qed

lemma wp_remote_blocked:
  assumes "blocked s w serverName i allow" "\<not> isMine s serverName"
    and "\<And>m w'. (remote_quarantined m \<or> hiddenFromLegacy s (rm_Authenticated m) allow) \<Longrightarrow> env_step w w' \<Longrightarrow>
      wp (k m) Q w'"
    and "\<And>w'. barred w w' \<Longrightarrow> Q () w'"
  shows "wp (attempt (GetRemoteMedia serverName i)
    (\<lambda>e. if e = ErrNotFound then h else internalError r x) k) Q w"
  unfolding wp_attempt
proof (rule wp_GetRemoteMedia, goal_cases)
  case (1 e w1)
  then show ?case
    using wp_bar [of w "w1\<lparr>w_notes := ns\<rparr>" for ns] by (simp add: internalError_def env_step_same assms(4))
next
  case (2 w1)
  then show ?case using assms(1,2) by (simp add: blocked_iff)
next
  case (3 row w1)
  then show ?case using assms(1,2) by (auto simp: blocked_iff intro!: assms(3))
qed

lemma wp_local_blocked:
  assumes "blocked s w serverName i allow" "isMine s serverName"
  shows "wp (serveLocalDownload s r i allow fed) (\<lambda>_. barred w) w"
    "wp (serveLocalThumbnail s r i q allow fed) (\<lambda>_. barred w) w"
  unfolding serveLocalDownload_def serveLocalThumbnail_def wp_on_some [of "resolveLocalMedia s r i allow"]
  by (rule wp_resolve_blocked [OF assms], simp)+

lemma wp_remote_gate:
  assumes "remote_quarantined m \<or> hiddenFromLegacy s (rm_Authenticated m) allow" "env_step w w1"
  shows "wp (serve_remote_file s r serverName i allow m) (\<lambda>_. barred w) w1"
    "wp (serve_remote_thumbnail s r serverName i q allow m) (\<lambda>_. barred w) w1"
  using assms(1) wp_bar [of w w1 "\<lambda>_. barred w"] env_step_same [OF assms(2)]
  by (auto simp: serve_remote_file_def serve_remote_thumbnail_def respondNotFound_def)

text \<open>The same after a note in the log.\<close>

lemma barred_notes [simp]: "barred (w\<lparr>w_notes := ns\<rparr>) = barred w"
  by (simp add: fun_eq_iff barred_def)

lemma blocked_notes [simp]: "blocked s (w\<lparr>w_notes := ns\<rparr>) = blocked s w"
  by (simp add: fun_eq_iff blocked_iff)

lemma wp_barred_notes:
  assumes "\<And>v. blocked s v o' i allow \<Longrightarrow> wp m (\<lambda>_. barred v) v" "blocked s w o' i allow"
  shows "wp m (\<lambda>_. barred w) (w\<lparr>w_notes := ns\<rparr>)"
  using assms(1) [of "w\<lparr>w_notes := ns\<rparr>"] assms(2) by simp

lemma serveDownload_blocked:
  assumes "blocked s w serverName i allow"
  shows "wp (serveDownload s r serverName i allow) (\<lambda>_. barred w) w"
proof -
  have "wp (if isMine s serverName then serveLocalDownload s r i allow False
      else serveRemoteDownload s r serverName i allow) (\<lambda>_. barred v) v" if b: "blocked s v serverName i allow" for v
  proof (cases "isMine s serverName")
    case False
    show ?thesis
      unfolding if_not_P [OF False] serveRemoteDownload_def
      by (rule wp_remote_blocked [OF b False wp_remote_gate(1)], assumption+)
  qed (simp add: wp_local_blocked [OF b])
  from wp_barred_notes [OF this assms] show ?thesis
    by (simp add: serveDownload_def)
qed

lemma serveThumbnail_blocked:
  assumes "blocked s w serverName i allow"
  shows "wp (serveThumbnail s r serverName i allow fed) (\<lambda>_. barred w) w"
proof (cases "ParseThumbnailRequest r")
  case (Inl m)
  then show ?thesis using wp_bar [of w "w\<lparr>w_notes := ns\<rparr>" "\<lambda>_. barred w" for ns] by (simp add: serveThumbnail_def)
next
  case (Inr q)
  have "wp (if isMine s serverName then serveLocalThumbnail s r i q allow fed
      else serveRemoteThumbnail s r serverName i q allow) (\<lambda>_. barred v) v" if b: "blocked s v serverName i allow" for v
  proof (cases "isMine s serverName")
    case False
    show ?thesis
      unfolding if_not_P [OF False] serveRemoteThumbnail_def
      by (rule wp_remote_blocked [OF b False wp_remote_gate(2)], assumption+)
  qed (simp add: wp_local_blocked [OF b])
  from wp_barred_notes [OF this assms] Inr show ?thesis
    by (simp add: serveThumbnail_def)
qed

lemma wp_authenticated_blocked:
  assumes "\<And>v. blocked s v o' i allow \<Longrightarrow> wp m (\<lambda>_. barred v) v" "blocked s w o' i allow"
  shows "wp (do { ok \<leftarrow> authenticateClient r; if \<not> ok then skip else m }) (\<lambda>_. barred w) w"
  unfolding wp_bind
proof (rule wp_authenticateClient, goal_cases)
  case (1 w')
  then show ?case by (simp add: barred_def kept_same_stores)
next
  case (2 w')
  then have k: "kept (\<lambda>_. False) w w'" by (simp add: kept_same_stores)
  with assms blocked_after have "wp m (\<lambda>_. barred w') w'" by blast
  then show ?case by (auto elim!: wp_mono intro: barred_after [OF k 2(2)])
qed

text \<open>C1: a medium that is quarantined, or that is authenticated media asked for on a legacy endpoint, is never
  served: whatever the request and whatever fails, every endpoint refuses it, exactly once, and changes
  no table and no file.\<close>

theorem blocked_media_refused:
  assumes "(h, serverName, allow) \<in> set (media_endpoints s r)"
    and "blocked s w serverName (path_value r ''mediaId'') allow"
  shows "wp h (\<lambda>_. barred w) w"
proof -
  let ?n = "path_value r ''serverName''" and ?i = "path_value r ''mediaId''" and ?me = "cfg_ServerName (sv_cfg s)"
  have mine: "isMine s ?me" by (simp add: isMine_def)
  have "wp (handleClientDownload s r) (\<lambda>_. barred w) w" "wp (handleClientThumbnail s r) (\<lambda>_. barred w) w"
    if "blocked s w ?n ?i True"
    unfolding handleClientDownload_def handleClientThumbnail_def
    by (rule wp_authenticated_blocked [OF _ that], erule serveDownload_blocked)
      (rule wp_authenticated_blocked [OF _ that], erule serveThumbnail_blocked)
  moreover have "wp (handleLegacyDownload s r) (\<lambda>_. barred w) w" "wp (handleLegacyThumbnail s r) (\<lambda>_. barred w) w"
    if "blocked s w ?n ?i False"
    using wp_bar [of w w "\<lambda>_. barred w"] serveDownload_blocked [OF that] serveThumbnail_blocked [OF that]
    by (simp_all add: handleLegacyDownload_def handleLegacyThumbnail_def respondNotFound_def)
  moreover have "wp (handleFederationDownload s r) (\<lambda>_. barred w) w" "wp (handleFederationThumbnail s r) (\<lambda>_. barred w) w"
    if "blocked s w ?me ?i True"
    using wp_barred_notes [OF wp_local_blocked(1) [OF _ mine] that] serveThumbnail_blocked [OF that]
    by (simp_all add: handleFederationDownload_def handleFederationThumbnail_def)
  ultimately show ?thesis
    using assms by (auto simp: media_endpoints_def)
qed

section \<open>What a download answers\<close>

text \<open>The reply that carries a file, in each of its forms.\<close>

definition served_as :: "request \<Rightarrow> bool \<Rightarrow> string \<Rightarrow> string \<Rightarrow> bytes \<Rightarrow> reply \<Rightarrow> bool" where
  "served_as r federation mediaType uploadName f rp \<longleftrightarrow>
     (if federation then rp_status rp = 200 \<and>
        (\<exists>b. hget (rp_headers rp) ''Content-Type'' = ''multipart/mixed; boundary='' @ b \<and>
          rp_body rp = (if rq_method r = ''HEAD'' then Empty
            else Content (multipart_body (newMultipartParts b mediaType uploadName) f)))
      else if notModified r then rp_status rp = 304 \<and> rp_body rp = Empty
      else rp_status rp = 200 \<and> rp_body rp = Served f \<and>
        hget (rp_headers rp) ''Content-Type'' = sanitizeHeaderValue (contentTypeHeader mediaType) \<and>
        hget (rp_headers rp) ''Content-Disposition'' = sanitizeHeaderValue (contentDisposition mediaType uploadName) \<and>
        hget (rp_headers rp) ''Content-Security-Policy'' = mediaCSP)"

definition panicked :: "world \<Rightarrow> world \<Rightarrow> bool" where
  "panicked w w' \<longleftrightarrow> w_replies w' = w_replies w \<and> no_randomness w'"

text \<open>The local media and files a request sees: those it finds, and those of a tick while it waits.\<close>

definition seen :: "world \<Rightarrow> local_row list \<Rightarrow> (string \<rightharpoonup> disk_file) \<Rightarrow> bool" where
  "seen w rows files \<longleftrightarrow> rows = w_local w \<and> files = w_files w \<or> (\<exists>d. Poll d rows files \<in> set (w_awaits w))"

lemma wp_await_loop:
  assumes "\<And>e w'. w_replies w' = w_replies w \<Longrightarrow> Q (Inl e) w'"
    and "\<And>d row w'. w_replies w' = w_replies w \<Longrightarrow> Poll d (w_local w') (w_files w') \<in> set es \<Longrightarrow>
      find (\<lambda>r. lr_media_id r = i) (w_local w') = Some row \<Longrightarrow> lr_length row \<noteq> None \<Longrightarrow> Q (Inr (scan_local i row)) w'"
  shows "wp (await_loop deadline i es) Q w"
  using assms
proof (induction es arbitrary: w)
  case Nil
  then show ?case by (simp add: context_done_def)
next
  case (Cons e es)
  show ?case
  proof (cases e)
    case Gone
    then show ?thesis using Cons.prems by (simp add: context_done_def)
  next
    case (Poll d rows files)
    let ?w = "w\<lparr>w_clock := w_clock w + int d, w_local := rows, w_files := files\<rparr>"
    have "wp (attempt (GetLocalMedia i) failed (\<lambda>media.
       if lm_Length media \<noteq> None then State_Monad.return (Inr media)
       else do { now \<leftarrow> go_now; (if now > deadline then failed ErrContext else await_loop deadline i es) })) Q ?w"
      unfolding wp_attempt
    proof (rule wp_GetLocalMedia, goal_cases)
      case (3 row w1)
      have w1: "w_replies w1 = w_replies w" "w_local w1 = rows" "w_files w1 = files"
        using 3(1) by (simp_all add: env_step_same)
      show ?case
      proof (cases "lr_length row")
        case None
        have "wp (await_loop deadline i es) Q w2" if "w_replies w2 = w_replies w" for w2
          by (rule Cons.IH) (auto simp: Poll that intro: Cons.prems)
        then show ?thesis
          using None Cons.prems(1) w1 by (simp add: scan_local_def wp_go_now)
      next
        case (Some n)
        then have "Q (Inr (scan_local i row)) w1"
          by (intro Cons.prems(2) [of w1 d]) (use w1 3(2) in \<open>simp_all add: Poll\<close>)
        then show ?thesis using Some by (simp add: scan_local_def)
      qed
    qed (simp_all add: Cons.prems env_step_same)
    then show ?thesis by (simp only: Poll await_loop.simps time_passes_def wp_bind wp_State prod.case)
  qed
qed

lemma wp_resolveLocalMedia:
  assumes mine: "isMine s serverName"
    and no: "\<And>w'. answered refusal w w' \<Longrightarrow> Q None w'"
    and yes: "\<And>row w'. \<not> blocked s w serverName i allow \<Longrightarrow> w_replies w' = w_replies w \<Longrightarrow>
      seen w (w_local w') (w_files w') \<Longrightarrow> find (\<lambda>r. lr_media_id r = i) (w_local w') = Some row \<Longrightarrow>
      lr_length row \<noteq> None \<Longrightarrow> Q (Some (scan_local i row)) w'"
  shows "wp (resolveLocalMedia s r i allow) Q w"
proof (cases "blocked s w serverName i allow")
  case True
  then show ?thesis by (rule wp_resolve_blocked [OF _ mine]) (auto simp: barred_def no)
next
  case open_medium: False
  have refuse: "wp (writeMatrixError st c m) (\<lambda>_. Q None) w1" if "w_replies w1 = w_replies w" for st c m w1
    by (rule wp_writeMatrixError) (use that in \<open>auto simp: answered_def intro!: no\<close>)
  show ?thesis
    unfolding resolveLocalMedia_def wp_attempt [of "GetLocalMedia i"]
  proof (rule wp_GetLocalMedia, goal_cases)
    case (1 e w1)
    then show ?case using refuse by (simp add: internalError_def env_step_same)
  next
    case (2 w1)
    then show ?case using refuse by (simp add: respondNotFound_def env_step_same)
  next
    case (3 row w1)
    then have gate: "\<not> local_quarantined (scan_local i row)" "\<not> hiddenFromLegacy s (lm_Authenticated (scan_local i row)) allow"
      using open_medium mine by (auto simp: blocked_iff)
    show ?case
    proof (cases "lr_length row")
      case (Some n)
      have "Q (Some (scan_local i row)) w1"
        by (rule yes [OF open_medium]) (use 3 Some in \<open>simp_all add: env_step_same seen_def\<close>)
      then show ?thesis using gate Some by (simp add: scan_local_def)
    next
      case None
      have await: "wp (await_loop deadline i (w_awaits w)) (\<lambda>x. case x of
           Inl e \<Rightarrow> wp respondNotYetUploaded (\<lambda>_. Q None) | Inr media \<Rightarrow> Q (Some media)) w2" if "w_replies w2 = w_replies w" for deadline w2
        by (rule wp_await_loop)
          (use that in \<open>auto simp: respondNotYetUploaded_def seen_def intro!: refuse yes [OF open_medium]\<close>)
      have "wp (attempt (awaitUpload s r i) (\<lambda>e. do { respondNotYetUploaded; State_Monad.return None })
              (\<lambda>media. State_Monad.return (Some media))) Q w1"
        unfolding wp_attempt awaitUpload_def wp_bind
        by (rule wp_go_now) (use await [of "w1\<lparr>w_clock := t, w_ticks := ts, w_awaits := []\<rparr>" for t ts] 3(1) in \<open>simp add: env_step_same\<close>)
      then show ?thesis using gate None by (simp add: scan_local_def)
    qed
  qed
qed

lemma boundary_of_parts [simp]: "mp_boundary (newMultipartParts b t n) = b"
  by (simp add: newMultipartParts_def)

lemma wp_respondMultipart:
  assumes "\<And>w'. answered (served_as r True t n f) w w' \<Longrightarrow> Q () w'" "\<And>w'. panicked w w' \<Longrightarrow> Q () w'"
  shows "wp (respondMultipart r f t n len) Q w"
proof (cases "length (take 16 (w_draws w)) < 16 \<or> None \<in> set (take 16 (w_draws w))")
  case True
  then show ?thesis
    using assms(2) [of w] by (auto simp: respondMultipart_def newBoundary_def Let_def panicked_def no_randomness_def)
next
  case False
  then show ?thesis
    by (auto simp: respondMultipart_def newBoundary_def Let_def intro!: assms(1))
      (auto simp: answered_def served_as_def multipart_headers_def setCacheHeaders_def Let_def)
qed

text \<open>A mark of the last access is no part of the stores or the replies.\<close>

definition marked :: "world \<Rightarrow> world \<Rightarrow> bool" where
  "marked w w' \<longleftrightarrow> (\<exists>a b. w' = w\<lparr>w_recent_local := a, w_recent_remote := b\<rparr>)"

lemma marked_same:
  assumes "marked w w'"
  shows "w_replies w' = w_replies w" "w_files w' = w_files w" "w_remote w' = w_remote w" "w_local w' = w_local w"
    "w_lthumbs w' = w_lthumbs w" "w_rthumbs w' = w_rthumbs w" "w_draws w' = w_draws w" "w_hdrs w' = w_hdrs w"
    "w_cancelled w' = w_cancelled w"
  using assms by (auto simp: marked_def)

lemma wp_mark:
  assumes "\<And>w'. marked w w' \<Longrightarrow> Q () w'"
  shows "wp (MarkRecentlyAccessedLocal c i) Q w" "wp (MarkRecentlyAccessedRemote c o' i) Q w"
proof -
  have "marked w w"
    unfolding marked_def by (rule exI [of _ "w_recent_local w"], rule exI [of _ "w_recent_remote w"]) simp
  moreover have "marked w (w\<lparr>w_recent_local := a\<rparr>)" for a
    unfolding marked_def by (rule exI [of _ a], rule exI [of _ "w_recent_remote w"]) simp
  moreover have "marked w (w\<lparr>w_recent_remote := b\<rparr>)" for b
    unfolding marked_def by (rule exI [of _ "w_recent_local w"], rule exI [of _ b]) simp
  ultimately show "wp (MarkRecentlyAccessedLocal c i) Q w" "wp (MarkRecentlyAccessedRemote c o' i) Q w"
    by (simp_all add: MarkRecentlyAccessedLocal_def MarkRecentlyAccessedRemote_def assms)
qed

lemma wp_respondFile:
  assumes "\<And>w'. answered (served_as r False t n f) w w' \<Longrightarrow> w_files w' = w_files w \<Longrightarrow> w_remote w' = w_remote w \<Longrightarrow>
    w_local w' = w_local w \<Longrightarrow> w_lthumbs w' = w_lthumbs w \<Longrightarrow> w_rthumbs w' = w_rthumbs w \<Longrightarrow> Q () w'"
  shows "wp (do { headers_set setCORSHeaders; headers_set setCORPHeaders; headers_set setDownloadSecurityHeaders;
    (if notModified r then do { setOutcome outcomeNotModified; respondNotModified }
     else do { headers_set (addFileHeaders t n); serveFile f }) }) Q w"
  by (auto simp: respondNotModified_def serveFile_def intro!: assms)
    (auto simp: answered_def served_as_def addFileHeaders_def setCacheHeaders_def setDownloadSecurityHeaders_def)

lemma wp_local_bytes:
  assumes good: "\<And>w'. answered (served_as r fed type name f) w2 w' \<Longrightarrow> Q () w'"
    and panic: "\<And>w'. panicked w2 w' \<Longrightarrow> Q () w'"
  shows "wp (if fed then respondMultipart r f type name len
    else do { headers_set setCORSHeaders; headers_set setCORPHeaders; headers_set setDownloadSecurityHeaders;
      (if notModified r then do { setOutcome outcomeNotModified; respondNotModified }
       else do { headers_set (addFileHeaders type name); serveFile f }) }) Q w2"
  using assms
  by (cases fed) (simp, rule wp_respondMultipart, simp_all add: wp_respondFile del: wp_bind wp_headers_set)

text \<open>C6: a download of this server's media ends, whatever fails, in one of three ways: one refusal; one reply
  that carries, in full, the file of a complete row the request has seen, with the type and the name of
  that row; or a panic of the random source with no reply. The medium was neither quarantined nor hidden
  when the request came.\<close>

theorem serveLocalDownload_contract:
  assumes "isMine s serverName"
  shows "wp (serveLocalDownload s r i allow fed) (\<lambda>_ w'. answered refusal w w' \<or> panicked w w' \<or>
    (\<not> blocked s w serverName i allow \<and> (\<exists>rows files row path f. seen w rows files \<and>
       find (\<lambda>x. lr_media_id x = i) rows = Some row \<and> lr_length row \<noteq> None \<and>
       localMediaPath s (scan_local i row) = Inr path \<and> files path = Some f \<and>
       answered (served_as r fed (derefString (lr_media_type row)) (derefString (lr_upload_name row)) (f_bytes f)) w w'))) w"
  (is "wp _ ?Q w")
  unfolding serveLocalDownload_def wp_on_some
proof (rule wp_resolveLocalMedia [OF assms], goal_cases)
  case (1 w')
  then show ?case by simp
next
  case (2 row w1)
  have refuse: "wp (writeMatrixError st c m) ?Q (w2\<lparr>w_notes := ns\<rparr>)" if "w_replies w2 = w_replies w" for st c m w2 ns
    by (rule wp_writeMatrixError) (use that in \<open>auto simp: answered_def\<close>)
  show ?case
  proof (cases "localMediaPath s (scan_local i row)")
    case (Inl e)
    then show ?thesis using refuse 2 by (simp add: respondNotFound_def)
  next
    case (Inr path)
    have good: "?Q () w'" if "w_files w1 path = Some g" "w_replies w2 = w_replies w"
        "answered (served_as r fed (lm_MediaType (scan_local i row)) (lm_UploadName (scan_local i row)) (f_bytes g)) w2 w'" for g w2 w'
      using that Inr 2 by (intro disjI2 conjI exI [of _ "w_local w1"] exI [of _ "w_files w1"] exI [of _ row])
        (auto simp: answered_def scan_local_def)
    show ?thesis
      unfolding option.case wp_attempt [of "State_Monad.return x" for x] wp_return Inr sum.case wp_attempt [of "os_open x" for x]
      unfolding os_open_def
    proof (rule wp_read_call, goal_cases)
      case (2 e w2)
      then show ?case using refuse \<open>w_replies w1 = w_replies w\<close> by (simp add: respondNotFound_def env_step_same)
    next
      case (3 w2)
      then have w2: "w_replies w2 = w_replies w" "w_files w2 = w_files w1" using 2(2) by (simp_all add: env_step_same)
      show ?case
      proof (cases "w_files w1 path")
        case None
        then show ?thesis using refuse w2 by (simp add: respondNotFound_def)
      next
        case (Some g)
        show ?thesis
          unfolding w2(2) Some option.case fst_conv sum.case wp_bind
          by (rule wp_mark, unfold notes_simps, rule wp_local_bytes, rule good [OF Some])
              (auto simp: w2 marked_same panicked_def)
      qed
    qed (simp split: option.split)
  qed
qed

section \<open>Remote downloads\<close>

definition upstream :: "reply \<Rightarrow> bool" where
  "upstream rp \<longleftrightarrow> (\<exists>u. rp_body rp = Upstream u)"

text \<open>One reply that serves the file of a complete row that is neither quarantined nor hidden.\<close>

definition remote_served :: "'i Server \<Rightarrow> request \<Rightarrow> string \<Rightarrow> string \<Rightarrow> bool \<Rightarrow> world \<Rightarrow> world \<Rightarrow> bool" where
  "remote_served s r origin mediaID allow w w' \<longleftrightarrow> (\<exists>row path f.
     find (\<lambda>x. remote_key x = (origin, mediaID)) (w_remote w') = Some row \<and>
     \<not> remote_quarantined (scan_remote origin mediaID row) \<and>
     \<not> hiddenFromLegacy s (rm_Authenticated (scan_remote origin mediaID row)) allow \<and>
     rr_length row \<noteq> None \<and>
     RemoteMedia (sv_paths s) origin (rm_FilesystemID (scan_remote origin mediaID row)) = Inr path \<and>
     w_files w' path = Some f \<and>
     answered (served_as r False (derefString (rr_media_type row)) (derefString (rr_upload_name row)) (f_bytes f)) w w')"

definition remote_answer :: "'i Server \<Rightarrow> request \<Rightarrow> string \<Rightarrow> string \<Rightarrow> bool \<Rightarrow> world \<Rightarrow> world \<Rightarrow> bool" where
  "remote_answer s r origin mediaID allow w w' \<longleftrightarrow>
     answered refusal w w' \<or> answered upstream w w' \<or> remote_served s r origin mediaID allow w w' \<or> panicked w w'"

text \<open>What the request may change: the row and the file of a medium that had no row.\<close>

definition remote_change :: "'i Server \<Rightarrow> string \<Rightarrow> string \<Rightarrow> world \<Rightarrow> world \<Rightarrow> bool" where
  "remote_change s origin mediaID w w' \<longleftrightarrow>
     w_local w' = w_local w \<and> w_lthumbs w' = w_lthumbs w \<and> w_rthumbs w' = w_rthumbs w \<and>
     (w_remote w' = w_remote w \<or> row_added origin mediaID w w') \<and>
     (\<forall>q. \<not> incoming q \<longrightarrow> \<not> fresh_path (sv_paths s) origin w q \<longrightarrow> w_files w' q = w_files w q) \<and>
     ((origin, mediaID) \<in> remote_key ` set (w_remote w) \<or> sv_remote s = None \<longrightarrow> w_remote w' = w_remote w \<and> w_files w' = w_files w)"

lemma remote_change_same:
  assumes "w_local w' = w_local w" "w_remote w' = w_remote w" "w_lthumbs w' = w_lthumbs w" "w_rthumbs w' = w_rthumbs w"
    "w_files w' = w_files w"
  shows "remote_change s origin mediaID w w'"
  using assms by (simp add: remote_change_def)

lemma remote_change_then:
  assumes "remote_change s origin mediaID w w1"
    and "w_local w' = w_local w1" "w_remote w' = w_remote w1" "w_lthumbs w' = w_lthumbs w1" "w_rthumbs w' = w_rthumbs w1"
      "w_files w' = w_files w1"
  shows "remote_change s origin mediaID w w'"
  using assms by (simp add: remote_change_def row_added_def)

lemma wp_proxyDownload:
  assumes "\<And>w'. same_stores w w' \<Longrightarrow> answered (\<lambda>rp. upstream rp \<or> refusal rp) w w' \<Longrightarrow> Q () w'"
  shows "wp (proxyDownload s r x) Q w"
proof -
  have up: "Q () (w\<lparr>w_notes := ns, w_replies := w_replies w @ [\<lparr>rp_status = n, rp_headers = h, rp_body = Upstream u\<rparr>]\<rparr>)"
    for ns n h u by (rule assms) (simp_all add: same_stores_def answered_def upstream_def)
  have "wp (respondNotFound p) Q (w\<lparr>w_notes := ns\<rparr>)" for p ns
    by (rule wp_respondNotFound, rule assms) (auto elim: answered_mono)
  then show ?thesis by (simp add: proxyDownload_def forward_def up)
qed

text \<open>The bytes of a remote medium that may be shown, and whose file is there.\<close>

lemma wp_remote_bytes:
  assumes ch: "remote_change s origin mediaID w w2" "w_replies w2 = w_replies w"
    and row: "find (\<lambda>x. remote_key x = (origin, mediaID)) (w_remote w2) = Some row" "m = scan_remote origin mediaID row"
    and gate: "\<not> remote_quarantined m" "\<not> hiddenFromLegacy s (rm_Authenticated m) allow" "rm_Length m \<noteq> None"
    and path: "RemoteMedia (sv_paths s) origin (rm_FilesystemID m) = Inr path" "w_files w2 path = Some f"
    and w3: "marked w2 w3" "answered (served_as r False (rm_MediaType m) (rm_UploadName m) (f_bytes f)) (w3\<lparr>w_notes := ns\<rparr>) w'"
      "w_files w' = w_files w3" "w_remote w' = w_remote w3" "w_local w' = w_local w3" "w_lthumbs w' = w_lthumbs w3"
      "w_rthumbs w' = w_rthumbs w3"
  shows "remote_answer s r origin mediaID allow w w' \<and> remote_change s origin mediaID w w'"
proof
  show "remote_change s origin mediaID w w'"
    by (rule remote_change_then [OF ch(1)]) (simp_all add: w3(3-7) marked_same [OF w3(1)])
  have "remote_served s r origin mediaID allow w w'"
    unfolding remote_served_def
    by (intro exI [of _ row] exI [of _ path] exI [of _ f])
      (use w3 gate path row ch marked_same [OF w3(1)] in \<open>simp add: answered_def scan_remote_def\<close>)
  then show "remote_answer s r origin mediaID allow w w'" by (simp add: remote_answer_def)
qed

text \<open>The part after the row is known, in a world that has it.\<close>

lemma wp_serve_remote_file:
  assumes ch: "remote_change s origin mediaID w w1" and q: "w_replies w1 = w_replies w"
    and row: "find (\<lambda>x. remote_key x = (origin, mediaID)) (w_remote w1) = Some row" "m = scan_remote origin mediaID row"
  shows "wp (serve_remote_file s r origin mediaID allow m)
    (\<lambda>_ w'. remote_answer s r origin mediaID allow w w' \<and> remote_change s origin mediaID w w') w1" (is "wp _ ?Q w1")
proof -
  have same: "remote_change s origin mediaID w w'" if "same_stores w2 w'" "remote_change s origin mediaID w w2" for w2 w'
    using that by (auto intro: remote_change_then simp: same_stores_def)
  have refuse: "wp (respondNotFound p) ?Q w2" if "remote_change s origin mediaID w w2" "w_replies w2 = w_replies w" for p w2
    by (rule wp_respondNotFound) (use that same in \<open>auto simp: remote_answer_def answered_def\<close>)
  have proxy: "wp (proxyDownload s r x) ?Q w2" if "remote_change s origin mediaID w w2" "w_replies w2 = w_replies w" for x w2
    by (rule wp_proxyDownload) (use that same in \<open>auto simp: remote_answer_def answered_def\<close>)
  have noted: "remote_change s origin mediaID w (w2\<lparr>w_notes := ns\<rparr>)" if "remote_change s origin mediaID w w2" for w2 ns
    by (rule remote_change_then [OF that]) simp_all
  show ?thesis
  proof (cases "remote_quarantined m \<or> hiddenFromLegacy s (rm_Authenticated m) allow \<or> rm_Length m = None")
    case True
    then show ?thesis using refuse [OF ch q] proxy [OF ch q] by (auto simp: serve_remote_file_def)
  next
    case False
    then have gate: "\<not> remote_quarantined m" "\<not> hiddenFromLegacy s (rm_Authenticated m) allow" "rm_Length m \<noteq> None" by auto
    show ?thesis
    proof (cases "RemoteMedia (sv_paths s) origin (rm_FilesystemID m)")
      case (Inl e)
      show ?thesis
        unfolding serve_remote_file_def if_not_P [OF gate(1)] if_not_P [OF gate(2)] if_not_P [OF gate(3)]
        using Inl refuse [OF noted [OF ch]] q by simp
    next
      case (Inr path)
      show ?thesis
        unfolding serve_remote_file_def if_not_P [OF gate(1)] if_not_P [OF gate(2)] if_not_P [OF gate(3)]
          wp_attempt [of "State_Monad.return x" for x] wp_return Inr sum.case wp_attempt [of "os_open x" for x]
        unfolding os_open_def
      proof (rule wp_read_call, goal_cases)
        case (2 e w2)
        have "remote_change s origin mediaID w w2" "w_replies w2 = w_replies w"
          using remote_change_then [OF ch] q env_step_same [OF 2(1)] by simp_all
        then show ?case by (simp add: proxy)
      next
        case (3 w2)
        have w2: "remote_change s origin mediaID w w2" "w_replies w2 = w_replies w" "w_files w2 = w_files w1" "w_remote w2 = w_remote w1"
          using remote_change_then [OF ch] q env_step_same [OF 3] by simp_all
        show ?case
        proof (cases "w_files w2 path")
          case None
          then show ?thesis using proxy [OF w2(1,2)] by simp
        next
          case (Some f)
          show ?thesis
            unfolding Some option.case fst_conv sum.case wp_bind [of "MarkRecentlyAccessedRemote c o' i" for c o' i]
              wp_bind [of "setOutcome x" for x]
            by (rule wp_mark, unfold notes_simps, rule wp_respondFile,
                rule wp_remote_bytes [OF w2(1,2) row(1) [folded w2(4)] row(2) gate Inr Some]) (assumption | simp)+
        qed
      qed (simp split: option.split)
    qed
  qed
qed

lemma env_change: "env_step w w1 \<Longrightarrow> remote_change s origin mediaID w w1"
  by (rule remote_change_same) (simp_all add: env_step_same)

lemma fetch_change:
  assumes "fetch_result rf (sv_paths s) origin mediaID w1 res w2" "env_step w w1" "sv_remote s \<noteq> None"
    and "find (\<lambda>x. remote_key x = (origin, mediaID)) (w_remote w) = None"
  shows "remote_change s origin mediaID w w2" "w_replies w2 = w_replies w"
    "res = Inr m \<Longrightarrow> \<exists>row. find (\<lambda>x. remote_key x = (origin, mediaID)) (w_remote w2) = Some row \<and> m = scan_remote origin mediaID row"
proof -
  have k: "(origin, mediaID) \<notin> remote_key ` set (w_remote w)" using assms(4) by (simp add: find_None_key)
  have e: "w_remote w1 = w_remote w" "w_draws w1 = w_draws w" "w_files w1 = w_files w" "w_replies w1 = w_replies w"
    "w_local w1 = w_local w" "w_lthumbs w1 = w_lthumbs w" "w_rthumbs w1 = w_rthumbs w"
    using assms(2) by (simp_all add: env_step_same)
  have fp: "fresh_path (sv_paths s) origin w1 = fresh_path (sv_paths s) origin w" by (simp add: fresh_path_def fun_eq_iff e)
  have new: "w_remote w2 = w_remote w \<or> row_added origin mediaID w w2"
    using assms(1) e k by (cases res) (auto simp: fetch_result_def row_added_def fetched_def)
  then show "remote_change s origin mediaID w w2"
    using assms(1,3) e fp k by (auto simp: remote_change_def fetch_result_def fetch_frame_def)
  show "w_replies w2 = w_replies w" using assms(1) e by (simp add: fetch_result_def fetch_frame_def)
  assume "res = Inr m"
  then have "fetched rf (sv_paths s) origin mediaID m w1 w2"
    using assms(1,4) e by (auto simp: fetch_result_def)
  then obtain now sha where w2: "w_remote w2 = w_remote w @ [remote_media_row now m sha (rf_authenticated rf)]"
    and m: "rm_Origin m = origin" "rm_MediaID m = mediaID" "rm_QuarantinedBy m = ''''" "rm_Authenticated m = rf_authenticated rf"
      "rm_Length m \<noteq> None"
    using e by (auto simp: fetched_def)
  have "scan_remote origin mediaID (remote_media_row now m sha (rf_authenticated rf)) = m"
    using m by (cases m) (auto simp: scan_remote_def remote_media_row_def derefString_def nullableString_def)
  moreover have "find (\<lambda>x. remote_key x = (origin, mediaID)) (w_remote w2) = Some (remote_media_row now m sha (rf_authenticated rf))"
    unfolding w2 by (rule find_append_new) (simp_all add: k m)
  ultimately show "\<exists>row. find (\<lambda>x. remote_key x = (origin, mediaID)) (w_remote w2) = Some row \<and> m = scan_remote origin mediaID row"
    by auto
qed

lemma wp_fetchRemote:
  assumes env: "env_step w w1" and absent: "find (\<lambda>x. remote_key x = (origin, mediaID)) (w_remote w) = None"
    and no: "\<And>w'. remote_answer s r origin mediaID allow w w' \<Longrightarrow> remote_change s origin mediaID w w' \<Longrightarrow> Q None w'"
    and yes: "\<And>row w'. remote_change s origin mediaID w w' \<Longrightarrow> w_replies w' = w_replies w \<Longrightarrow>
      find (\<lambda>x. remote_key x = (origin, mediaID)) (w_remote w') = Some row \<Longrightarrow> Q (Some (scan_remote origin mediaID row)) w'"
  shows "wp (fetchRemote s r origin mediaID reason (proxyDownload s r)) Q w1"
proof -
  have same: "remote_change s origin mediaID w w'" if "same_stores w2 w'" "remote_change s origin mediaID w w2" for w2 w'
    using that by (auto intro: remote_change_then simp: same_stores_def)
  have refuse: "wp (writeMatrixError st c m) (\<lambda>_. Q None) (w2\<lparr>w_notes := ns\<rparr>)"
    if "remote_change s origin mediaID w w2" "w_replies w2 = w_replies w" for st c m w2 ns
    by (rule wp_writeMatrixError, rule no)
      (use that same in \<open>auto simp: remote_answer_def answered_def\<close>)
  have proxy: "wp (proxyDownload s r x) (\<lambda>_. Q None) (w2\<lparr>w_notes := ns\<rparr>)"
    if "remote_change s origin mediaID w w2" "w_replies w2 = w_replies w" for x w2 ns
    by (rule wp_proxyDownload, rule no)
      (use that same in \<open>auto simp: remote_answer_def answered_def\<close>)
  have noted: "remote_change s origin mediaID w (w2\<lparr>w_notes := ns\<rparr>)" if "remote_change s origin mediaID w w2" for w2 ns
    by (rule remote_change_then [OF that]) simp_all
  show ?thesis
  proof (cases "sv_remote s")
    case None
    have "wp (proxyDownload s r reason) (\<lambda>_. Q None) (w1\<lparr>w_notes := w_notes w1\<rparr>)"
      by (rule proxy) (use env in \<open>simp_all add: env_change env_step_same\<close>)
    then show ?thesis using None by (simp add: fetchRemote_def)
  next
    case (Some rf)
    then have some: "sv_remote s \<noteq> None" by simp
    show ?thesis
      unfolding fetchRemote_def Some option.case FetchAndStore_def wp_bind
    proof (rule wp_mono [OF fetchAndStore_cases], goal_cases)
      case (1 res w2)
      show ?case
      proof (cases res)
        case None
        then have w2: "idle w1 w2" "newFilesystemID (w_draws w2) = None" using 1 by (auto simp: fetch_outcome_def)
        have "remote_change s origin mediaID w w2"
          using w2(1) env Some absent [unfolded find_None_key] by (simp add: remote_change_def idle_def kept_def env_step_same)
        moreover have "remote_answer s r origin mediaID allow w w2"
          using w2 env by (simp add: remote_answer_def panicked_def idle_def env_step_same no_randomness_def)
        ultimately show ?thesis using None no by simp
      next
        case res: (Some x)
        note f = fetch_change [OF _ env some absent, of rf x w2]
        have x: "fetch_result rf (sv_paths s) origin mediaID w1 x w2" using 1 res by (simp add: fetch_outcome_def)
        show ?thesis
        proof (cases x)
          case (Inl e)
          then show ?thesis
            unfolding res using refuse [OF f(1,2) [OF x]] proxy [OF f(1,2) [OF x]]
            by (auto simp: respondNotFound_def)
        next
          case (Inr m)
          then obtain row where row: "find (\<lambda>y. remote_key y = (origin, mediaID)) (w_remote w2) = Some row" "m = scan_remote origin mediaID row"
            using f(3) [OF x] by blast
          have "Q (Some (scan_remote origin mediaID row)) (w2\<lparr>w_notes := ns\<rparr>)" for ns
            by (rule yes) (use noted [OF f(1) [OF x]] f(2) [OF x] row in simp_all)
          then show ?thesis unfolding res using Inr row by simp
        qed
      qed
    qed
  qed
qed

text \<open>C3: a download of another server's media ends, whatever fails and whatever that server sends, in one of
  these ways: one refusal; one hand-over to Synapse; one reply that carries, in full, the file of a complete
  row that is neither quarantined nor hidden, with its type and name; or a panic of the random source.
  Only a medium that had no row can change the store, and then only by its own row and file.\<close>

theorem serveRemoteDownload_contract:
  "wp (serveRemoteDownload s r origin mediaID allow)
    (\<lambda>_ w'. remote_answer s r origin mediaID allow w w' \<and> remote_change s origin mediaID w w') w" (is "wp _ ?Q w")
  unfolding serveRemoteDownload_def wp_attempt
proof (rule wp_GetRemoteMedia, goal_cases)
  case (1 e w1)
  have "wp (writeMatrixError st c m) ?Q (w1\<lparr>w_notes := ns\<rparr>)" for st c m ns
    by (rule wp_writeMatrixError)
      (use 1 in \<open>auto simp: remote_answer_def answered_def env_step_same same_stores_def intro!: remote_change_same\<close>)
  then show ?case using 1(2) by (simp add: internalError_def)
next
  case (2 w1)
  show ?case
    by (simp only: sum.case if_True simp_thms wp_on_some, rule wp_fetchRemote [OF 2])
      (simp_all add: wp_serve_remote_file)
next
  case (3 row w1)
  then show ?case
    by (simp add: env_step_same wp_serve_remote_file [OF env_change])
qed

section \<open>Examples\<close>

definition sample_get :: request where
  "sample_get = \<lparr>rq_method = ''GET'', rq_path = ''/_matrix/media/v3/download/example.org/abcdefghij'', rq_rawquery = '''',
     rq_headers = [], rq_pathvals = [(''version'', ''v3''), (''serverName'', ''example.org''), (''mediaId'', ''abcdefghij'')],
     rq_body = [], rq_remote = '''', rq_host = '''', rq_tls = True\<rparr>"

definition quarantined_row :: local_row where
  "quarantined_row = complete_row ''image/png'' '''' 1 ''00'' quarantinedBySystem
     (pending_row ''abcdefghij'' 0 ''@u:example.org'' True)"

definition quarantined_world :: world where
  "quarantined_world = sample_world\<lparr>w_local := [quarantined_row]\<rparr>"

lemma sample_endpoint: "(handleLegacyDownload sample_server sample_get, ''example.org'', False) \<in> set (media_endpoints sample_server sample_get)"
  by (simp add: media_endpoints_def path_value_def query_get_def sample_get_def)


theorem blocked_media_refused_witness:
  "wp (handleLegacyDownload sample_server sample_get) (\<lambda>_. barred quarantined_world) quarantined_world"
proof (rule blocked_media_refused [OF sample_endpoint])
  have i: "path_value sample_get ''mediaId'' = ''abcdefghij''"
    by (simp add: path_value_def query_get_def sample_get_def)
  show "blocked sample_server quarantined_world ''example.org'' (path_value sample_get ''mediaId'') False"
    unfolding i by (simp add: blocked_iff isMine_def sample_server_def quarantined_world_def quarantined_row_def complete_row_def
      pending_row_def local_quarantined_def scan_local_def derefString_def nullableString_def quarantinedBySystem_def)
qed

theorem serveLocalDownload_contract_witness:
  "wp (serveLocalDownload sample_server sample_get ''abcdefghij'' True False) (\<lambda>_ w'.
    answered refusal sample_world w' \<or> panicked sample_world w' \<or>
    (\<not> blocked sample_server sample_world ''example.org'' ''abcdefghij'' True \<and>
     (\<exists>rows files row path f. seen sample_world rows files \<and>
       find (\<lambda>x. lr_media_id x = ''abcdefghij'') rows = Some row \<and> lr_length row \<noteq> None \<and>
       localMediaPath sample_server (scan_local ''abcdefghij'' row) = Inr path \<and> files path = Some f \<and>
       answered (served_as sample_get False (derefString (lr_media_type row)) (derefString (lr_upload_name row)) (f_bytes f))
         sample_world w'))) sample_world"
  by (rule serveLocalDownload_contract) (simp add: isMine_def sample_server_def)

end
