(* ===== verification/Await.thy ===== *)
theory Await
  imports Handlers_Correct
begin

text \<open>
  Waiting for an upload (\<^verbatim>\<open>awaitUpload\<close> of src/handlers.go): how long a request waits, and what the wait
  passes over.
\<close>

section \<open>The wait ends\<close>

definition tick :: int where
  "tick = 500 * Millisecond"

text \<open>A wait in which the client stays: every event is a tick, and no tick is late by more than \<open>D\<close>.\<close>

definition steady :: "int \<Rightarrow> await_event list \<Rightarrow> bool" where
  "steady D es \<longleftrightarrow> list_all (\<lambda>e. case e of Gone \<Rightarrow> False | Poll d rows files \<Rightarrow> tick \<le> int d \<and> int d \<le> D) es"

lemma await_loop_ends:
  assumes "steady D es" "es \<noteq> []" "deadline < w_clock w + int (length es) * tick"
    and "w_faults w = []" "w_ticks w = []" "\<not> w_cancelled w"
  shows "wp (await_loop deadline i es) (\<lambda>res w'. \<not> w_cancelled w' \<and> w_clock w' \<le> max (w_clock w) deadline + D) w"
  using assms
proof (induction es arbitrary: w)
  case (Cons e es)
  obtain d rows files where e: "e = Poll d rows files" "tick \<le> int d" "int d \<le> D" and es: "steady D es"
    using Cons.prems(1) by (auto simp: steady_def split: await_event.splits)
  let ?w = "w\<lparr>w_clock := w_clock w + int d, w_local := rows, w_files := files\<rparr>"
  let ?v = "w\<lparr>w_clock := w_clock w + int d, w_ticks := [], w_local := rows, w_files := files\<rparr>"
  have loop: "wp (await_loop deadline i es) (\<lambda>res w'. \<not> w_cancelled w' \<and> w_clock w' \<le> max (w_clock w) deadline + D) ?v"
    if "w_clock w + int d \<le> deadline"
  proof (rule wp_mono [OF Cons.IH [OF es]])
    show "es \<noteq> []"
      using Cons.prems(3) that e(2) by (auto simp: tick_def Millisecond_def)
    show "deadline < w_clock ?v + int (length es) * tick"
      using Cons.prems(3) that e(2) by (simp add: algebra_simps)
  qed (use Cons.prems that in \<open>auto simp: max_def\<close>)
  have now: "run_state go_now ?w = (w_clock w + int d, ?v)"
    using Cons.prems(5) by (simp add: go_now_def Let_def)
  show ?case
    using Cons.prems(6) e(3) loop
    by (simp add: e(1) time_passes_def GetLocalMedia_def wp_call_quiet Cons.prems(4) split: option.split)
      (auto simp: wp_def [of go_now] now Cons.prems)
qed simp

text \<open>C11: a request that waits for an upload is answered, even if the upload never comes and its client never
  leaves: the wait is over, by the row or by the deadline, within the allowed time and one tick, and the
  allowed time is at most the configured one.\<close>

theorem awaitUpload_ends:
  assumes "w_faults w = []" "w_ticks w = []" "\<not> w_cancelled w" "steady D (w_awaits w)"
    and "max 0 (uploadTimeout s r) < int (length (w_awaits w)) * tick"
  shows "uploadTimeout s r \<le> mc_MaxTimeout (sv_media s) \<and>
    wp (awaitUpload s r i) (\<lambda>res w'. \<not> w_cancelled w' \<and> w_clock w' \<le> w_clock w + max 0 (uploadTimeout s r) + D) w"
proof
  show "uploadTimeout s r \<le> mc_MaxTimeout (sv_media s)" by (simp add: uploadTimeout_def Let_def)
  let ?w = "w\<lparr>w_clock := w_clock w + 0, w_ticks := tl [], w_awaits := []\<rparr>"
  have "wp (await_loop (w_clock w + uploadTimeout s r) i (w_awaits w))
      (\<lambda>res w'. \<not> w_cancelled w' \<and> w_clock w' \<le> max (w_clock ?w) (w_clock w + uploadTimeout s r) + D) ?w"
    by (rule await_loop_ends [OF assms(4)]) (use assms in auto)
  then have "wp (await_loop (w_clock w + uploadTimeout s r) i (w_awaits w))
      (\<lambda>res w'. \<not> w_cancelled w' \<and> w_clock w' \<le> w_clock w + max 0 (uploadTimeout s r) + D) ?w"
    by (rule wp_mono) (auto simp: max_def)
  then show "wp (awaitUpload s r i) (\<lambda>res w'. \<not> w_cancelled w' \<and> w_clock w' \<le> w_clock w + max 0 (uploadTimeout s r) + D) w"
    unfolding awaitUpload_def go_now_def Let_def wp_bind wp_State prod.case assms(2) list.case by simp
qed

text \<open>A timeout that does not fit 64 bits of nanoseconds can come out negative, and then the wait ends at its
  first tick.\<close>

lemma uploadTimeout_given:
  assumes "query_get (url_query r) ''timeout_ms'' = show_int ms" "0 \<le> ms" "in_int64 ms"
  shows "uploadTimeout s r = min (wrap64 (ms * Millisecond)) (mc_MaxTimeout (sv_media s))"
  using assms by (simp add: uploadTimeout_def Let_def parse_show_int show_int_ne)

lemma uploadTimeout_negative:
  assumes "query_get (url_query r) ''timeout_ms'' = show_int 9223372036855"
  shows "uploadTimeout s r < 0"
proof -
  have "wrap64 (9223372036855 * Millisecond) < 0" by (simp add: wrap64_def Millisecond_def)
  then show ?thesis
    using uploadTimeout_given [OF assms, of s] by (simp add: in_int64_def min_int64_def max_int64_def)
qed

section \<open>What the wait passes over\<close>

text \<open>C9: the quarantine of a medium is tested before the wait for its upload and not after it: when the upload
  completes the row with the quarantined hash's flag, the waiting download serves the bytes, on any
  endpoint, although every later request is refused.\<close>

theorem quarantine_missed_by_wait:
  assumes "isMine s serverName" "w_faults w = []" "\<not> notModified r"
    and "find (\<lambda>x. lr_media_id x = i) (w_local w) = Some row" "\<not> blocked s w serverName i allow" "lr_length row = None"
    and "w_awaits w = Poll d rows files # es" "find (\<lambda>x. lr_media_id x = i) rows = Some row'" "lr_length row' \<noteq> None"
    and "lr_quarantined_by row' = Some quarantinedBySystem"
    and "localMediaPath s (scan_local i row') = Inr path" "files path = Some f"
  shows "wp (serveLocalDownload s r i allow False) (\<lambda>_ w'. answered (\<lambda>rp. rp_status rp = 200 \<and> rp_body rp = Served (f_bytes f)) w w' \<and>
    blocked s w' serverName i True) w"
proof -
  have gate: "\<not> local_quarantined (scan_local i row)" "\<not> hiddenFromLegacy s (lm_Authenticated (scan_local i row)) allow"
    "lm_Length (scan_local i row) = None"
    using assms(1,4-6) by (auto simp: blocked_iff scan_local_def)
  have len: "lm_Length (scan_local i row') \<noteq> None" using assms(9) by (simp add: scan_local_def)
  let ?now = "w_clock w + (case w_ticks w of [] \<Rightarrow> 0 | n # _ \<Rightarrow> int n)"
  have now: "run_state go_now w = (?now, w\<lparr>w_clock := ?now, w_ticks := tl (w_ticks w)\<rparr>)"
    by (simp add: go_now_def Let_def)
  have resolve: "run_state (resolveLocalMedia s r i allow) w = (Some (scan_local i row'),
      w\<lparr>w_clock := ?now + int d, w_ticks := tl (w_ticks w), w_awaits := [], w_local := rows, w_files := files\<rparr>)"
    using gate len
    by (simp add: resolveLocalMedia_def attempt_def run_state_bind GetLocalMedia_def run_call_quiet assms(2,4,7,8)
        awaitUpload_def now time_passes_def State_Monad.return_def)
  have q: "local_quarantined (scan_local i row')"
    using assms(10) by (simp add: local_quarantined_def scan_local_def derefString_def quarantinedBySystem_def)
  have step: "wp (resolveLocalMedia s r i allow) Q w = Q (Some (scan_local i row'))
      (w\<lparr>w_clock := ?now + int d, w_ticks := tl (w_ticks w), w_awaits := [], w_local := rows, w_files := files\<rparr>)" for Q
    by (simp add: wp_def resolve)
  show ?thesis
    using assms(1,3,8) q
    by (simp add: serveLocalDownload_def step assms(2,11,12) os_open_def wp_call_quiet MarkRecentlyAccessedLocal_def
        serveFile_def answered_def blocked_iff)
qed

section \<open>Examples\<close>

definition reserved_row :: local_row where
  "reserved_row = pending_row ''abcdefghij'' 0 ''@u:example.org'' True"

definition flagged_row :: local_row where
  "flagged_row = complete_row ''image/png'' '''' 1 ''00'' quarantinedBySystem reserved_row"

definition waiting_world :: world where
  "waiting_world = sample_world\<lparr>w_local := [reserved_row],
     w_awaits := [Poll 500000000 [flagged_row] [''/data/media_store/local_content/ab/cd/efghij'' \<mapsto>
       \<lparr>f_bytes = [7], f_mode = 420, f_synced = True\<rparr>]]\<rparr>"

lemma waiting_path: "localMediaPath sample_server (scan_local ''abcdefghij'' flagged_row) =
    Inr ''/data/media_store/local_content/ab/cd/efghij''"
  using sample_local_path(1)
  by (simp add: localMediaPath_def IsURLCache_def scan_local_def flagged_row_def complete_row_def reserved_row_def
      pending_row_def derefString_def sample_server_def)

theorem quarantine_missed_by_wait_witness:
  "wp (serveLocalDownload sample_server sample_get ''abcdefghij'' True False)
    (\<lambda>_ w'. answered (\<lambda>rp. rp_status rp = 200 \<and> rp_body rp = Served (f_bytes \<lparr>f_bytes = [7], f_mode = 420, f_synced = True\<rparr>))
        waiting_world w' \<and> blocked sample_server w' ''example.org'' ''abcdefghij'' True) waiting_world"
  by (rule quarantine_missed_by_wait [where row = reserved_row and row' = flagged_row and es = "[]" and d = 500000000
        and rows = "[flagged_row]" and files = "[''/data/media_store/local_content/ab/cd/efghij'' \<mapsto>
          \<lparr>f_bytes = [7], f_mode = 420, f_synced = True\<rparr>]", OF _ _ _ _ _ _ _ _ _ _ waiting_path])
    (simp_all add: waiting_world_def reserved_row_def flagged_row_def pending_row_def complete_row_def blocked_iff
      isMine_def sample_server_def notModified_def rheader_def hget_def sample_get_def immutableETag_def
      local_quarantined_def scan_local_def derefString_def hiddenFromLegacy_def nullableString_def quarantinedBySystem_def)

definition patient_world :: world where
  "patient_world = sample_world\<lparr>w_local := [reserved_row],
     w_awaits := replicate 50 (Poll 500000000 [reserved_row] Map.empty)\<rparr>"

theorem awaitUpload_ends_witness:
  "uploadTimeout sample_server sample_get \<le> mc_MaxTimeout (sv_media sample_server) \<and>
    wp (awaitUpload sample_server sample_get ''abcdefghij'') (\<lambda>res w'. \<not> w_cancelled w' \<and>
      w_clock w' \<le> w_clock patient_world + max 0 (uploadTimeout sample_server sample_get) + tick) patient_world"
proof (rule awaitUpload_ends)
  have v: "query_get (url_query sample_get) ''timeout_ms'' = ''''" by code_simp
  have m: "mc_DefaultTimeout (sv_media sample_server) = 20 * Second" "mc_MaxTimeout (sv_media sample_server) = 60 * Second"
    by (simp_all add: sample_server_def defaultMedia_def)
  have t: "uploadTimeout sample_server sample_get = 20 * Second"
    unfolding uploadTimeout_def Let_def v m by (simp add: duration_units)
  show "max 0 (uploadTimeout sample_server sample_get) < int (length (w_awaits patient_world)) * tick"
    unfolding t by (simp add: patient_world_def tick_def duration_units)
  show "steady tick (w_awaits patient_world)"
    by (simp add: patient_world_def steady_def tick_def Millisecond_def list_all_iff)
qed (simp_all add: patient_world_def sample_world_def)

end
