(* ===== verification/Resolver.thy ===== *)
theory Resolver
  imports Ttl_Cache Reqlog World
begin

text \<open>
  src/resolver.go: where a federation request goes. The state is the transport's maps; around it stand
  the clock, the jitter, the answers of the .well-known servers and of DNS, the outcomes of dialling, and
  what other requests do while one waits for its turn at a host. Requests and dials are recorded in order.
\<close>

section \<open>Constants and data\<close>

definition wellKnownDefaultCachePeriod :: int where "wellKnownDefaultCachePeriod = 24 * Hour"
definition wellKnownInvalidCachePeriod :: int where "wellKnownInvalidCachePeriod = 1 * Hour"
definition wellKnownDownCachePeriod :: int where "wellKnownDownCachePeriod = 2 * Minute"
definition wellKnownRememberHadValid :: int where "wellKnownRememberHadValid = 2 * Hour"
definition wellKnownMaxCachePeriod :: int where "wellKnownMaxCachePeriod = 48 * Hour"
definition wellKnownMinCachePeriod :: int where "wellKnownMinCachePeriod = 5 * Minute"
definition wellKnownMaxSize :: nat where "wellKnownMaxSize = 50 * 1024"
definition wellKnownRetryAttempts :: nat where "wellKnownRetryAttempts = 3"
definition wellKnownRetryDelay :: int where "wellKnownRetryDelay = 500 * Millisecond"

text \<open>The product of \<^verbatim>\<open>wellKnownGracePeriodFactor\<close>, 0.2, and a time to live, truncated: below \<open>2\<^sup>49\<close> the double
  precision product does not reach the next integer, so it is the integer fifth.\<close>

definition grace :: "int \<Rightarrow> int" where
  "grace ttl = go_div ttl 5"

record wellKnownEntry =
  wk_delegated :: string
  wk_expires :: int
  wk_ttl :: int

record srvTarget =
  st_host :: string
  st_port :: nat

record dialTarget =
  dt_host :: string
  dt_port :: nat
  dt_explicit :: bool

text \<open>An answer: \<open>None\<close> where there is no response, and whether the request's context was over by then. A
  response has its status, its fields, the bytes it has, whether they break off, and what \<^verbatim>\<open>json.Unmarshal\<close>
  makes of them: \<open>None\<close> an error, \<open>Some None\<close> no \<^verbatim>\<open>m.server\<close>.\<close>

record wk_reply =
  kr_status :: nat
  kr_headers :: headers
  kr_length :: nat
  kr_breaks :: bool
  kr_server :: "string option option"

record wk_answer =
  ka_reply :: "wk_reply option"
  ka_done :: bool

text \<open>An answer of DNS: the records, and an error, which may be that there are none.\<close>

record srv_answer =
  sa_records :: "(string \<times> nat) list"
  sa_error :: "bool option"

text \<open>While a request waits for another's fetch: the other is done, left these maps, and another waiting
  request may have come first; or the context ends.\<close>

datatype turn = Freed "string \<rightharpoonup> wellKnownEntry" "string \<rightharpoonup> int" bool | CtxDone

record resolver =
  ft_wellKnown :: "string \<rightharpoonup> wellKnownEntry"
  ft_hadValid :: "string \<rightharpoonup> int"
  ft_srv :: "string \<rightharpoonup> srvTarget list"
  ft_inflight :: "string list"
  ft_pinned :: "string \<rightharpoonup> string"
  fw_clock :: int
  fw_ticks :: "nat list"
  fw_jitters :: "(int \<Rightarrow> int) list"
  fw_answers :: "wk_answer list"
  fw_sleeps :: "bool list"
  fw_turns :: "turn list"
  fw_lookups :: "srv_answer list"
  fw_dials :: "(bool \<times> bool) list"
  fw_done :: bool
  fw_requests :: "string list"
  fw_dialled :: "string list"

type_synonym 'a rio = "(resolver, 'a) state"

text \<open>The parts of other packages: \<^verbatim>\<open>federation.ParseServerName\<close>, and whether \<^verbatim>\<open>net.ParseIP\<close> and what
  \<^verbatim>\<open>http.ParseTime\<close> accept.\<close>

record net_library =
  nl_ParseServerName :: "string \<Rightarrow> (string \<times> nat) option"
  nl_ParseIP :: "string \<Rightarrow> bool"
  nl_ParseTime :: "string \<Rightarrow> int option"

section \<open>Primitives\<close>

definition ft_now :: "int rio" where
  "ft_now = State (\<lambda>w.
     (let t = fw_clock w + (case fw_ticks w of [] \<Rightarrow> 0 | n # _ \<Rightarrow> int n)
      in (t, w\<lparr>fw_clock := t, fw_ticks := tl (fw_ticks w)\<rparr>)))"

text \<open>\<^verbatim>\<open>time.Duration(float64(period) * ft.jitter())\<close> for the next jitter.\<close>

definition jittered :: "int \<Rightarrow> int rio" where
  "jittered period = State (\<lambda>w. case fw_jitters w of
     [] \<Rightarrow> (period, w) | j # js \<Rightarrow> (j period, w\<lparr>fw_jitters := js\<rparr>))"

definition ft_get :: "(resolver \<Rightarrow> 'a) \<Rightarrow> 'a rio" where
  "ft_get f = State (\<lambda>w. (f w, w))"

definition ft_put :: "(resolver \<Rightarrow> resolver) \<Rightarrow> unit rio" where
  "ft_put f = State (\<lambda>w. ((), f w))"

text \<open>\<^verbatim>\<open>sleepCtx\<close>: false where the context ends first.\<close>

definition sleepCtx :: "int \<Rightarrow> bool rio" where
  "sleepCtx d = State (\<lambda>w.
     (let ok = (\<not> fw_done w \<and> (fw_sleeps w = [] \<or> hd (fw_sleeps w)))
      in (ok, w\<lparr>fw_sleeps := tl (fw_sleeps w), fw_clock := (if ok then fw_clock w + d else fw_clock w),
                fw_done := (fw_done w \<or> \<not> ok)\<rparr>)))"

section \<open>.well-known\<close>

text \<open>The errors of a request: another one, or \<^verbatim>\<open>errWellKnownFailure\<close> with its flag.\<close>

datatype wk_error = PlainError | WellKnownFailure bool

definition wk_read :: "wk_answer \<Rightarrow> wk_error + wk_reply" where
  "wk_read a =
     (case ka_reply a of
        None \<Rightarrow> Inl PlainError
      | Some resp \<Rightarrow>
          if kr_breaks resp \<and> kr_length resp \<le> wellKnownMaxSize then Inl PlainError
          else if kr_length resp > wellKnownMaxSize then Inl (WellKnownFailure True)
          else if 500 \<le> kr_status resp \<and> kr_status resp < 600 then Inl PlainError
          else Inr resp)"

definition requestWellKnownOnce :: "string \<Rightarrow> (wk_error + wk_reply) rio" where
  "requestWellKnownOnce uri = State (\<lambda>w.
     (let w' = w\<lparr>fw_requests := fw_requests w @ [uri]\<rparr> in
      case fw_answers w of
        [] \<Rightarrow> (Inl PlainError, w')
      | a # as \<Rightarrow> (wk_read a, w'\<lparr>fw_answers := as, fw_done := (fw_done w \<or> ka_done a)\<rparr>)))"

text \<open>The loop over the attempts, counted down; its bound is \<^verbatim>\<open>wellKnownRetryAttempts\<close>.\<close>

fun wk_attempts :: "nat \<Rightarrow> bool \<Rightarrow> string \<Rightarrow> (wk_error + wk_reply) rio" where
  "wk_attempts left retry uri = do {
     r \<leftarrow> requestWellKnownOnce uri;
     (case r of
        Inr resp \<Rightarrow> State_Monad.return (Inr resp)
      | Inl e \<Rightarrow> do {
          over \<leftarrow> ft_get fw_done;
          (if e \<noteq> PlainError \<or> over then State_Monad.return (Inl (WellKnownFailure True))
           else if \<not> retry then State_Monad.return (Inl (WellKnownFailure True))
           else (case left of
             0 \<Rightarrow> State_Monad.return (Inl (WellKnownFailure True))
           | Suc n \<Rightarrow> do {
               ok \<leftarrow> sleepCtx wellKnownRetryDelay;
               (if \<not> ok then State_Monad.return (Inl (WellKnownFailure True)) else wk_attempts n retry uri) })) }) }"

declare wk_attempts.simps [simp del]

definition requestWellKnown :: "string \<Rightarrow> bool \<Rightarrow> (wk_error + wk_reply) rio" where
  "requestWellKnown host retry =
     wk_attempts (wellKnownRetryAttempts - 1) retry (''https://'' @ host @ ''/.well-known/matrix/server'')"

definition directives :: "headers \<Rightarrow> (string \<times> string) list" where
  "directives h = map (\<lambda>d. (to_lower (trim_space (fst (cut CHR ''='' d))), trim_space (fst (snd (cut CHR ''='' d)))))
     (concat (map (split_on CHR '','') (hvalues h ''Cache-Control'')))"

text \<open>\<^verbatim>\<open>Time.Sub\<close> stays within 64 bits.\<close>

definition time_sub :: "int \<Rightarrow> int \<Rightarrow> int" where
  "time_sub t u = max min_int64 (min max_int64 (t - u))"

definition cachePeriodFromHeaders :: "net_library \<Rightarrow> headers \<Rightarrow> int \<Rightarrow> int option" where
  "cachePeriodFromHeaders L h now =
     (let ds = directives h;
          v = hget (rev ds) ''max-age'';
          by_expires = (let expires = hvalues h ''Expires'' in
            if expires = [] then None
            else (case nl_ParseTime L (last expires) of None \<Rightarrow> Some 0 | Some t \<Rightarrow> Some (time_sub t now)))
      in if ''no-store'' \<in> fst ` set ds then Some 0
         else if v \<noteq> '''' then
           (case parse_int64 v of Some n \<Rightarrow> Some (wrap64 (n * Second)) | None \<Rightarrow> by_expires)
         else by_expires)"

definition hadValidWellKnown :: "string \<Rightarrow> bool rio" where
  "hadValidWellKnown host = do {
     until \<leftarrow> ft_get (\<lambda>w. ft_hadValid w host);
     (case until of
        None \<Rightarrow> State_Monad.return False
      | Some u \<Rightarrow> do { now \<leftarrow> ft_now; State_Monad.return (now < u) }) }"

text \<open>The time a result is kept for, and the note of when its host last had one.\<close>

definition wk_period :: "net_library \<Rightarrow> headers \<Rightarrow> int \<Rightarrow> int rio" where
  "wk_period L h now =
     (case cachePeriodFromHeaders L h now of
        None \<Rightarrow> jittered wellKnownDefaultCachePeriod
      | Some p \<Rightarrow> State_Monad.return (max (min p wellKnownMaxCachePeriod) wellKnownMinCachePeriod))"

definition wk_note_valid :: "string \<Rightarrow> string \<Rightarrow> int \<Rightarrow> unit rio" where
  "wk_note_valid host result period =
     (if result \<noteq> '''' then do {
        now \<leftarrow> ft_now;
        ft_put (\<lambda>w. w\<lparr>ft_hadValid := (ft_hadValid w)(host \<mapsto> now + (period + wellKnownRememberHadValid))\<rparr>) }
      else ft_put (\<lambda>w. w\<lparr>ft_hadValid := (ft_hadValid w)(host := None)\<rparr>))"

text \<open>\<open>Inl\<close> holds whether the failure may be temporary.\<close>

definition fetchWellKnown :: "net_library \<Rightarrow> string \<Rightarrow> (bool + string \<times> int) rio" where
  "fetchWellKnown L host = do {
     retry \<leftarrow> hadValidWellKnown host;
     r \<leftarrow> requestWellKnown host retry;
     (case r of
        Inl e \<Rightarrow> State_Monad.return (Inl (e = WellKnownFailure True))
      | Inr resp \<Rightarrow>
          (if kr_status resp \<noteq> 200 then State_Monad.return (Inl False)
           else (case kr_server resp of
             None \<Rightarrow> State_Monad.return (Inl False)
           | Some None \<Rightarrow> State_Monad.return (Inl False)
           | Some (Some result) \<Rightarrow> do {
               now \<leftarrow> ft_now;
               period \<leftarrow> wk_period L (kr_headers resp) now;
               wk_note_valid host result period;
               State_Monad.return (Inr (result, period)) }))) }"

definition cachedWellKnown :: "string \<Rightarrow> (string \<times> bool) rio" where
  "cachedWellKnown host = do {
     entry \<leftarrow> ft_get (\<lambda>w. ft_wellKnown w host);
     (case entry of
        None \<Rightarrow> State_Monad.return ('''', False)
      | Some e \<Rightarrow> do {
          now \<leftarrow> ft_now;
          (if \<not> now < wk_expires e then State_Monad.return ('''', False)
           else State_Monad.return (wk_delegated e, now < wk_expires e - grace (wk_ttl e))) }) }"

text \<open>\<^verbatim>\<open>acquire\<close>: waits while another request fetches for the host; false where the context ends.\<close>

primrec wait_turn :: "turn list \<Rightarrow> string \<Rightarrow> bool rio" where
  "wait_turn [] host = do { ft_put (\<lambda>w. w\<lparr>fw_turns := [], fw_done := True\<rparr>); State_Monad.return False }"
| "wait_turn (t # ts) host = (case t of
     CtxDone \<Rightarrow> do { ft_put (\<lambda>w. w\<lparr>fw_turns := ts, fw_done := True\<rparr>); State_Monad.return False }
   | Freed known had again \<Rightarrow> do {
       ft_put (\<lambda>w. w\<lparr>fw_turns := ts, ft_wellKnown := known, ft_hadValid := had\<rparr>);
       (if again then wait_turn ts host
        else do {
          ft_put (\<lambda>w. w\<lparr>ft_inflight := host # removeAll host (ft_inflight w)\<rparr>);
          State_Monad.return True }) })"

definition wk_acquire :: "string \<Rightarrow> bool rio" where
  "wk_acquire host = do {
     busy \<leftarrow> ft_get (\<lambda>w. host \<in> set (ft_inflight w));
     (if \<not> busy then do {
        ft_put (\<lambda>w. w\<lparr>ft_inflight := host # ft_inflight w\<rparr>);
        State_Monad.return True }
      else do {
        ts \<leftarrow> ft_get fw_turns;
        wait_turn ts host }) }"

definition wk_release :: "string \<Rightarrow> unit rio" where
  "wk_release host = ft_put (\<lambda>w. w\<lparr>ft_inflight := removeAll host (ft_inflight w)\<rparr>)"

text \<open>The part of \<^verbatim>\<open>getWellKnown\<close> under the lock of its host, and its end: what was found is kept.\<close>

definition wk_remember :: "string \<Rightarrow> string \<Rightarrow> int \<Rightarrow> string rio" where
  "wk_remember host result period =
     (if period > 0 then do {
        now \<leftarrow> ft_now;
        ft_put (\<lambda>w. w\<lparr>ft_wellKnown := (ft_wellKnown w)(host \<mapsto>
          \<lparr>wk_delegated = result, wk_expires = now + period, wk_ttl = period\<rparr>)\<rparr>);
        State_Monad.return result }
      else State_Monad.return result)"

definition refreshWellKnown :: "net_library \<Rightarrow> string \<Rightarrow> string rio" where
  "refreshWellKnown L host = do {
     entry \<leftarrow> ft_get (\<lambda>w. ft_wellKnown w host);
     prev \<leftarrow> (case entry of
        None \<Rightarrow> State_Monad.return None
      | Some e \<Rightarrow> do { now \<leftarrow> ft_now; State_Monad.return (if \<not> now < wk_expires e then None else Some e) });
     r \<leftarrow> fetchWellKnown L host;
     (case r of
        Inr (result, period) \<Rightarrow> wk_remember host result period
      | Inl temporary \<Rightarrow>
          (if temporary \<and> (case prev of None \<Rightarrow> False | Some e \<Rightarrow> wk_delegated e \<noteq> '''')
           then State_Monad.return (wk_delegated (the prev))
           else do {
             had \<leftarrow> hadValidWellKnown host;
             period \<leftarrow> jittered (if had then wellKnownDownCachePeriod else wellKnownInvalidCachePeriod);
             wk_remember host '''' period })) }"

definition getWellKnown :: "net_library \<Rightarrow> string \<Rightarrow> string rio" where
  "getWellKnown L host = do {
     c \<leftarrow> cachedWellKnown host;
     (if snd c then State_Monad.return (fst c)
      else do {
        ok \<leftarrow> wk_acquire host;
        (if \<not> ok then do { c \<leftarrow> cachedWellKnown host; State_Monad.return (fst c) }
         else do {
           c \<leftarrow> cachedWellKnown host;
           d \<leftarrow> (if snd c then State_Monad.return (fst c) else refreshWellKnown L host);
           wk_release host;
           State_Monad.return d }) }) }"

section \<open>Where a request goes\<close>

text \<open>The errors of this part, one for each place that makes one.\<close>

datatype ft_error =
    UnsupportedScheme string
  | BadPin string
  | InvalidServerName
  | InvalidDelegation string string
  | NoTarget
  | SrvLookupFailed string
  | ServiceUnavailable string
  | DialFailed string

text \<open>\<^verbatim>\<open>net.SplitHostPort\<close> and \<^verbatim>\<open>strconv.ParseUint(s, 10, 16)\<close> with its error dropped: the largest value where
  it does not fit, 0 where it is no number.\<close>

definition split_host_port :: "string \<Rightarrow> (string \<times> string) option" where
  "split_host_port hostport =
     (case split_host hostport of
        None \<Rightarrow> None
      | Some host \<Rightarrow> Some (host, rev (takeWhile (\<lambda>c. c \<noteq> CHR '':'') (rev hostport))))"

definition parse_port :: "string \<Rightarrow> nat" where
  "parse_port s = (if s = '''' then 0 else case digits_val 0 s of None \<Rightarrow> 0 | Some n \<Rightarrow> min n 65535)"

definition explicitTarget :: "string \<Rightarrow> nat \<Rightarrow> dialTarget" where
  "explicitTarget host port = \<lparr>dt_host = host, dt_port = (if port = 0 then 8448 else port), dt_explicit = True\<rparr>"

definition resolve :: "net_library \<Rightarrow> string \<Rightarrow> (ft_error + string \<times> dialTarget) rio" where
  "resolve L serverName = do {
     pin \<leftarrow> ft_get (\<lambda>w. ft_pinned w serverName);
     (case pin of
        Some addr \<Rightarrow> State_Monad.return (case split_host_port addr of
            None \<Rightarrow> Inl (BadPin addr)
          | Some (host, portStr) \<Rightarrow>
              Inr (serverName, \<lparr>dt_host = host, dt_port = parse_port portStr, dt_explicit = True\<rparr>))
      | None \<Rightarrow>
         (case nl_ParseServerName L serverName of
            None \<Rightarrow> State_Monad.return (Inl InvalidServerName)
          | Some (host, port) \<Rightarrow>
             (if port \<noteq> 0 \<or> nl_ParseIP L host then State_Monad.return (Inr (serverName, explicitTarget host port))
              else do {
                delegated \<leftarrow> getWellKnown L host;
                State_Monad.return
                  (if delegated = '''' then Inr (serverName, \<lparr>dt_host = host, dt_port = 0, dt_explicit = False\<rparr>)
                   else (case nl_ParseServerName L delegated of
                      None \<Rightarrow> Inl (InvalidDelegation delegated host)
                    | Some (dHost, dPort) \<Rightarrow>
                       (if dPort \<noteq> 0 \<or> nl_ParseIP L dHost then Inr (delegated, explicitTarget dHost dPort)
                        else Inr (delegated, \<lparr>dt_host = dHost, dt_port = 0, dt_explicit = False\<rparr>)))) }))) }"

text \<open>A round trip: refused, and whether the body was closed, or handed to the transport below with a scheme,
  a host and the target its connection is dialled for.\<close>

datatype round_trip = Refused ft_error bool | Sent string string dialTarget

definition RoundTrip :: "net_library \<Rightarrow> string \<Rightarrow> string \<Rightarrow> round_trip rio" where
  "RoundTrip L scheme host =
     (if scheme \<noteq> ''matrix-federation'' then State_Monad.return (Refused (UnsupportedScheme scheme) False)
      else do {
        r \<leftarrow> resolve L host;
        State_Monad.return (case r of
          Inl e \<Rightarrow> Refused e True
        | Inr (hostHeader, target) \<Rightarrow> Sent ''https'' hostHeader target) })"

section \<open>SRV\<close>

definition ft_lookup :: "srv_answer rio" where
  "ft_lookup = State (\<lambda>w. case fw_lookups w of
     [] \<Rightarrow> (\<lparr>sa_records = [], sa_error = Some False\<rparr>, w)
   | a # as \<Rightarrow> (a, w\<lparr>fw_lookups := as\<rparr>))"

definition without_dot :: "string \<Rightarrow> string" where
  "without_dot s = (if s \<noteq> [] \<and> last s = CHR ''.'' then butlast s else s)"

definition srv_name :: "string \<Rightarrow> string \<Rightarrow> string" where
  "srv_name service host = ''_'' @ service @ ''._tcp.'' @ host"

definition lookupService :: "string \<Rightarrow> string \<Rightarrow> (ft_error + srvTarget list) rio" where
  "lookupService service host = do {
     a \<leftarrow> ft_lookup;
     (if sa_error a \<noteq> None \<and> sa_records a = [] then
        (if sa_error a = Some True then State_Monad.return (Inr [])
         else do {
           cached \<leftarrow> ft_get (\<lambda>w. ft_srv w (srv_name service host));
           State_Monad.return (case cached of
               Some (s # ss) \<Rightarrow> Inr (s # ss)
             | _ \<Rightarrow> Inl (SrvLookupFailed (srv_name service host))) })
      else if length (sa_records a) = 1 \<and> (fst (hd (sa_records a)) = ''.'' \<or> fst (hd (sa_records a)) = '''') then
        State_Monad.return (Inl (ServiceUnavailable (srv_name service host)))
      else do {
        servers \<leftarrow> State_Monad.return
          (map (\<lambda>(target, port). \<lparr>st_host = without_dot target, st_port = port\<rparr>) (sa_records a));
        ft_put (\<lambda>w. w\<lparr>ft_srv := (ft_srv w)(srv_name service host \<mapsto> servers)\<rparr>);
        State_Monad.return (Inr servers) }) }"

primrec resolve_services :: "string list \<Rightarrow> string \<Rightarrow> (ft_error + srvTarget list) rio" where
  "resolve_services [] host = State_Monad.return (Inr [\<lparr>st_host = host, st_port = 8448\<rparr>])"
| "resolve_services (service # services) host = do {
     r \<leftarrow> lookupService service host;
     (case r of
        Inl e \<Rightarrow> State_Monad.return (Inl e)
      | Inr servers \<Rightarrow>
          (if servers \<noteq> [] then State_Monad.return (Inr servers) else resolve_services services host)) }"

definition resolveSRV :: "string \<Rightarrow> (ft_error + srvTarget list) rio" where
  "resolveSRV host = resolve_services [''matrix-fed'', ''matrix''] host"

section \<open>Dialling\<close>

definition JoinHostPort :: "string \<Rightarrow> string \<Rightarrow> string" where
  "JoinHostPort host port = (if CHR '':'' \<in> set host then ''['' @ host @ '']:'' @ port else host @ '':'' @ port)"

definition server_addr :: "srvTarget \<Rightarrow> string" where
  "server_addr s = JoinHostPort (st_host s) (show_nat (st_port s))"

text \<open>One dial: whether it connects; without a scripted outcome it fails.\<close>

definition ft_dial :: "string \<Rightarrow> bool rio" where
  "ft_dial addr = State (\<lambda>w.
     (let w' = w\<lparr>fw_dialled := fw_dialled w @ [addr]\<rparr> in
      case fw_dials w of
        [] \<Rightarrow> (False, w')
      | (ok, over) # ds \<Rightarrow> (ok, w'\<lparr>fw_dials := ds, fw_done := (fw_done w \<or> over)\<rparr>)))"

text \<open>A connection is the address it goes to; \<open>Inl None\<close> would be neither a connection nor an error.\<close>

primrec dial_each :: "srvTarget list \<Rightarrow> ft_error option \<Rightarrow> (ft_error option + string) rio" where
  "dial_each [] firstErr = State_Monad.return (Inl firstErr)"
| "dial_each (s # ss) firstErr = do {
     ok \<leftarrow> ft_dial (server_addr s);
     (if ok then State_Monad.return (Inr (server_addr s))
      else do {
        over \<leftarrow> ft_get fw_done;
        (let firstErr' = (if firstErr = None then Some (DialFailed (server_addr s)) else firstErr) in
         if over then State_Monad.return (Inl firstErr') else dial_each ss firstErr') }) }"

definition dialContext :: "dialTarget option \<Rightarrow> (ft_error option + string) rio" where
  "dialContext key =
     (case key of
        None \<Rightarrow> State_Monad.return (Inl (Some NoTarget))
      | Some target \<Rightarrow>
          (if dt_explicit target then dial_each [\<lparr>st_host = dt_host target, st_port = dt_port target\<rparr>] None
           else do {
             r \<leftarrow> resolveSRV (dt_host target);
             (case r of
                Inl e \<Rightarrow> State_Monad.return (Inl (Some e))
              | Inr servers \<Rightarrow> dial_each servers None) }))"

section \<open>Setting up\<close>

text \<open>The transport \<^verbatim>\<open>InstallFederationTransport\<close> puts in place, which knows nothing yet, and the pins the tests
  set.\<close>

definition InstallFederationTransport :: "resolver \<Rightarrow> resolver" where
  "InstallFederationTransport w =
     w\<lparr>ft_wellKnown := Map.empty, ft_hadValid := Map.empty, ft_srv := Map.empty, ft_inflight := [],
       ft_pinned := Map.empty\<rparr>"

definition pin :: "string \<Rightarrow> string \<Rightarrow> unit rio" where
  "pin serverName addr = ft_put (\<lambda>w. w\<lparr>ft_pinned := (ft_pinned w)(serverName \<mapsto> addr)\<rparr>)"

end
