(* ===== verification/Resolver_Correct.thy ===== *)
theory Resolver_Correct
  imports Resolver
begin

text \<open>
  What src/resolver.go promises: the well-known cache provides the interface of the theory \<open>Ttl_Cache\<close>, what
  it holds stays within its bounds, a delegation survives an outage, the requests of one fetch are bounded,
  and port 8448 is only dialled where DNS said that there is no record.
\<close>

named_theorems ft_defs "definitions of the resolver's primitives"

lemmas [ft_defs] = ft_get_def ft_put_def

section \<open>The cache as an interface\<close>

text \<open>A look-up of \<^verbatim>\<open>cachedWellKnown\<close>, which does not remove what has expired, and the store of \<^verbatim>\<open>getWellKnown\<close>.\<close>

definition wk_look :: "int \<Rightarrow> string \<Rightarrow> (string \<rightharpoonup> wellKnownEntry) \<Rightarrow> wellKnownEntry option \<times> (string \<rightharpoonup> wellKnownEntry)" where
  "wk_look now host m =
     ((case m host of None \<Rightarrow> None | Some e \<Rightarrow> if \<not> now < wk_expires e then None else Some e), m)"

definition wk_put :: "string \<Rightarrow> wellKnownEntry \<Rightarrow> (string \<rightharpoonup> wellKnownEntry) \<Rightarrow> (string \<rightharpoonup> wellKnownEntry)" where
  "wk_put host e m = m(host \<mapsto> e)"

interpretation well_known: ttl_cache wk_look wk_put "\<lambda>_. True" "\<lambda>m. m" "\<lambda>e. wk_expires e - 1"
  by unfold_locales (auto simp: wk_look_def wk_put_def split: option.splits if_splits)

lemma wp_ft_now:
  "(\<And>t ts. fw_clock w \<le> t \<Longrightarrow> Q t (w\<lparr>fw_clock := t, fw_ticks := ts\<rparr>)) \<Longrightarrow> wp ft_now Q w"
  by (simp add: ft_now_def Let_def split: list.split)

lemma wp_ft_now_budget:
  assumes "\<And>t ts. fw_clock w \<le> t \<Longrightarrow> t + int (sum_list (take n ts)) \<le> fw_clock w + int (sum_list (take (Suc n) (fw_ticks w))) \<Longrightarrow>
      Q t (w\<lparr>fw_clock := t, fw_ticks := ts\<rparr>)"
  shows "wp ft_now Q w"
proof (cases "fw_ticks w")
  case Nil
  with assms [of "fw_clock w" "[]"] show ?thesis by (cases w) (simp add: ft_now_def)
next
  case (Cons a as)
  with assms [of "fw_clock w + int a" as] show ?thesis by (simp add: ft_now_def Let_def)
qed

lemma wp_ft_get [simp]: "wp (ft_get f) Q w = Q (f w) w"
  by (simp add: ft_get_def)

lemma wp_ft_put [simp]: "wp (ft_put f) Q w = Q () (f w)"
  by (simp add: ft_put_def)

lemma wp_bind_eta: "wp (m \<bind> f) Q = wp m (\<lambda>a. wp (f a) Q)" and wp_return_eta: "wp (State_Monad.return x) Q = Q x"
  by (rule ext, simp)+

lemma wp_ft_put_eta: "wp (ft_put f) Q = (\<lambda>w. Q () (f w))"
  by (rule ext) simp

lemmas wp_eta [simp] = wp_bind_eta wp_return_eta wp_ft_put_eta

text \<open>\<^verbatim>\<open>cachedWellKnown\<close> is a look-up, with the freshness beside it.\<close>

lemma wp_cachedWellKnown:
  assumes "\<And>t ts. fw_clock w \<le> t \<Longrightarrow>
      Q (case fst (wk_look t host (ft_wellKnown w)) of None \<Rightarrow> ('''', False)
         | Some e \<Rightarrow> (wk_delegated e, t < wk_expires e - grace (wk_ttl e))) (w\<lparr>fw_clock := t, fw_ticks := ts\<rparr>)"
    and "ft_wellKnown w host = None \<Longrightarrow> Q ('''', False) w"
  shows "wp (cachedWellKnown host) Q w"
proof (cases "ft_wellKnown w host")
  case None
  with assms(2) show ?thesis by (simp add: cachedWellKnown_def)
next
  case (Some e)
  have "wp ft_now (\<lambda>now. wp (if \<not> now < wk_expires e then State_Monad.return ('''', False)
           else State_Monad.return (wk_delegated e, now < wk_expires e - grace (wk_ttl e))) Q) w"
  proof (rule wp_ft_now)
    fix t ts assume t: "fw_clock w \<le> t"
    with assms(1) [of t ts] Some show "wp (if \<not> t < wk_expires e then State_Monad.return ('''', False)
        else State_Monad.return (wk_delegated e, t < wk_expires e - grace (wk_ttl e))) Q
        (w\<lparr>fw_clock := t, fw_ticks := ts\<rparr>)"
      by (cases "t < wk_expires e") (simp_all add: wk_look_def)
  qed
  with Some show ?thesis by (simp add: cachedWellKnown_def)
qed

section \<open>The bounds of the cache\<close>

definition entry_ok :: "int \<Rightarrow> wellKnownEntry \<Rightarrow> bool" where
  "entry_ok now e \<longleftrightarrow> 0 < wk_ttl e \<and> wk_ttl e \<le> wellKnownMaxCachePeriod \<and> wk_expires e \<le> now + wk_ttl e"

definition cache_ok :: "int \<Rightarrow> (string \<rightharpoonup> wellKnownEntry) \<Rightarrow> bool" where
  "cache_ok now m \<longleftrightarrow> (\<forall>host e. m host = Some e \<longrightarrow> entry_ok now e)"

definition jitter_ok :: "(int \<Rightarrow> int) \<Rightarrow> bool" where
  "jitter_ok j \<longleftrightarrow> (\<forall>p \<ge> 0. p * 9 div 10 \<le> j p \<and> j p \<le> p * 11 div 10)"

definition turn_ok :: "int \<Rightarrow> turn \<Rightarrow> bool" where
  "turn_ok now t = (case t of CtxDone \<Rightarrow> True | Freed known had again \<Rightarrow> cache_ok now known)"

definition ft_ok :: "resolver \<Rightarrow> bool" where
  "ft_ok w \<longleftrightarrow> cache_ok (fw_clock w) (ft_wellKnown w) \<and> list_all jitter_ok (fw_jitters w) \<and>
     list_all (turn_ok (fw_clock w)) (fw_turns w)"

lemma ft_ok_installed:
  "list_all jitter_ok (fw_jitters w) \<Longrightarrow> list_all (turn_ok (fw_clock w)) (fw_turns w) \<Longrightarrow> ft_ok (InstallFederationTransport w)"
  by (simp add: ft_ok_def InstallFederationTransport_def cache_ok_def)

lemma ft_ok_pin: "ft_ok w \<Longrightarrow> wp (pin serverName addr) (\<lambda>_ w'. ft_ok w' \<and> ft_pinned w' serverName = Some addr) w"
  by (simp add: pin_def ft_put_def ft_ok_def)

lemma turn_ok_simps [simp]: "turn_ok now CtxDone" "turn_ok now (Freed m had again) \<longleftrightarrow> cache_ok now m"
  by (simp_all add: turn_ok_def)

lemma cache_ok_later: "cache_ok now m \<Longrightarrow> now \<le> now' \<Longrightarrow> cache_ok now' m"
  unfolding cache_ok_def entry_ok_def by (meson add_right_mono order_trans)

lemma turn_ok_later: "turn_ok now t \<Longrightarrow> now \<le> now' \<Longrightarrow> turn_ok now' t"
  by (auto simp: turn_ok_def cache_ok_later split: turn.splits)

lemma turns_ok_later: "list_all (turn_ok now) ts \<Longrightarrow> now \<le> now' \<Longrightarrow> list_all (turn_ok now') ts"
  by (auto simp: list_all_iff intro: turn_ok_later)

lemma cache_ok_store: "cache_ok now m \<Longrightarrow> entry_ok now e \<Longrightarrow> cache_ok now (m(host \<mapsto> e))"
  by (simp add: cache_ok_def)

lemmas later_intros = cache_ok_later turns_ok_later

text \<open>What a fetch changes: the clock goes forward, requests are added, and nothing of the cache.\<close>

definition fetching :: "resolver \<Rightarrow> resolver \<Rightarrow> bool" where
  "fetching w w' \<longleftrightarrow> fw_clock w \<le> fw_clock w' \<and> ft_wellKnown w' = ft_wellKnown w \<and> ft_srv w' = ft_srv w \<and>
     ft_inflight w' = ft_inflight w \<and> ft_pinned w' = ft_pinned w \<and> fw_turns w' = fw_turns w \<and>
     fw_lookups w' = fw_lookups w \<and> fw_dialled w' = fw_dialled w \<and>
     (list_all jitter_ok (fw_jitters w) \<longrightarrow> list_all jitter_ok (fw_jitters w'))"

lemma fetching_refl [simp]: "fetching w w"
  by (simp add: fetching_def)

lemma fetching_trans: "fetching u v \<Longrightarrow> fetching v w \<Longrightarrow> fetching u w"
  by (simp add: fetching_def)

lemma fetching_ok: "fetching w w' \<Longrightarrow> ft_ok w \<Longrightarrow> ft_ok w'"
  unfolding fetching_def ft_ok_def by (metis cache_ok_later turns_ok_later)

lemma fetching_now: "wp ft_now (\<lambda>t w'. fetching w w' \<and> fw_requests w' = fw_requests w \<and> fw_clock w \<le> t \<and> t = fw_clock w') w"
  by (rule wp_ft_now) (simp add: fetching_def)

lemma jittered_bounds:
  assumes "jitter_ok j" "0 < p" "p \<le> 24 * Hour" "Minute \<le> p"
  shows "0 < j p \<and> j p \<le> wellKnownMaxCachePeriod"
proof -
  from assms have "p * 9 div 10 \<le> j p" "j p \<le> p * 11 div 10" by (auto simp: jitter_ok_def)
  moreover have "0 < p * 9 div 10" "p * 11 div 10 \<le> wellKnownMaxCachePeriod"
    using assms by (simp_all add: wellKnownMaxCachePeriod_def Hour_def Minute_def Second_def Millisecond_def)
  ultimately show ?thesis by linarith
qed

lemma jittered_ok:
  assumes "Minute \<le> p" "p \<le> 24 * Hour"
  shows "wp (jittered p) (\<lambda>q w'. fetching w w' \<and> fw_requests w' = fw_requests w \<and>
      (list_all jitter_ok (fw_jitters w) \<longrightarrow> 0 < q \<and> q \<le> wellKnownMaxCachePeriod)) w"
proof -
  have p: "0 < p" "p \<le> wellKnownMaxCachePeriod"
    using assms by (simp_all add: wellKnownMaxCachePeriod_def Hour_def Minute_def Second_def Millisecond_def)
  show ?thesis
  proof (cases "fw_jitters w")
    case Nil
    with p show ?thesis by (simp add: jittered_def)
  next
    case (Cons j js)
    with assms p(1) show ?thesis by (auto simp: jittered_def fetching_def dest: jittered_bounds)
  qed
qed

section \<open>The requests of a fetch\<close>

definition wk_uri :: "string \<Rightarrow> string" where
  "wk_uri host = ''https://'' @ host @ ''/.well-known/matrix/server''"

definition asked :: "nat \<Rightarrow> string \<Rightarrow> resolver \<Rightarrow> resolver \<Rightarrow> bool" where
  "asked most uri w w' \<longleftrightarrow> (\<exists>k \<le> most. fw_requests w' = fw_requests w @ replicate k uri)"

lemma asked_same [intro]: "fw_requests w' = fw_requests w \<Longrightarrow> asked n uri w w'"
  unfolding asked_def by (rule exI [of _ 0]) simp

lemma asked_trans:
  assumes "asked m uri u v" "asked n uri v w"
  shows "asked (m + n) uri u w"
proof -
  from assms obtain a b where "a \<le> m" "b \<le> n" "fw_requests v = fw_requests u @ replicate a uri"
      "fw_requests w = fw_requests v @ replicate b uri"
    by (auto simp: asked_def)
  then show ?thesis unfolding asked_def by (intro exI [of _ "a + b"]) (simp add: replicate_add)
qed

lemma asked_mono: "asked m uri u v \<Longrightarrow> m \<le> n \<Longrightarrow> asked n uri u v"
  unfolding asked_def by (meson order_trans)

lemma once_asks: "wp (requestWellKnownOnce uri) (\<lambda>r w'. fetching w w' \<and> asked 1 uri w w') w"
  by (auto simp: requestWellKnownOnce_def fetching_def asked_def Let_def intro: exI [of _ 1] split: list.split)

lemma sleep_fetches:
  "0 \<le> d \<Longrightarrow> wp (sleepCtx d) (\<lambda>r w'. fetching w w' \<and> fw_requests w' = fw_requests w) w"
  by (simp add: sleepCtx_def fetching_def Let_def)

lemma attempts_ask:
  "wp (wk_attempts n retry uri) (\<lambda>r w'. fetching w w' \<and> asked (if retry then Suc n else 1) uri w w' \<and>
      (\<forall>e. r = Inl e \<longrightarrow> e = WellKnownFailure True)) w"
proof (induction n arbitrary: w)
  case 0
  show ?case
    by (subst wk_attempts.simps, unfold wp_bind, rule wp_mono [OF once_asks]) (auto split: sum.split)
next
  case (Suc n)
  have delay: "0 \<le> wellKnownRetryDelay" by (simp add: wellKnownRetryDelay_def Millisecond_def)
  show ?case
  proof (subst wk_attempts.simps, unfold wp_bind, rule wp_mono [OF once_asks])
    fix r v assume v: "fetching w v \<and> asked 1 uri w v"
    have again: "wp (sleepCtx wellKnownRetryDelay) (\<lambda>ok. wp (if \<not> ok then State_Monad.return (Inl (WellKnownFailure True))
        else wk_attempts n retry uri) (\<lambda>r w'. fetching w w' \<and> asked (if retry then Suc (Suc n) else 1) uri w w' \<and>
        (\<forall>e. r = Inl e \<longrightarrow> e = WellKnownFailure True))) v" if "retry"
    proof (rule wp_mono [OF sleep_fetches [OF delay]])
      fix ok u assume "fetching v u \<and> fw_requests u = fw_requests v"
      with v have u: "fetching w u" "asked 1 uri w u" by (auto intro: fetching_trans simp: asked_def)
      show "wp (if \<not> ok then State_Monad.return (Inl (WellKnownFailure True)) else wk_attempts n retry uri)
          (\<lambda>r w'. fetching w w' \<and> asked (if retry then Suc (Suc n) else 1) uri w w' \<and>
          (\<forall>e. r = Inl e \<longrightarrow> e = WellKnownFailure True)) u"
      proof (cases ok)
        case True
        have "wp (wk_attempts n retry uri) (\<lambda>r w'. fetching w w' \<and> asked (if retry then Suc (Suc n) else 1) uri w w' \<and>
            (\<forall>e. r = Inl e \<longrightarrow> e = WellKnownFailure True)) u"
          by (rule wp_mono [OF Suc.IH]) (use u that in \<open>auto intro: fetching_trans dest: asked_trans\<close>)
        with True show ?thesis by simp
      next
        case False
        with u that show ?thesis by (auto intro: asked_mono)
      qed
    qed
    show "wp (case r of Inl e \<Rightarrow> do {
          over \<leftarrow> ft_get fw_done;
          (if e \<noteq> PlainError \<or> over then State_Monad.return (Inl (WellKnownFailure True))
           else if \<not> retry then State_Monad.return (Inl (WellKnownFailure True))
           else (case Suc n of
             0 \<Rightarrow> State_Monad.return (Inl (WellKnownFailure True))
           | Suc n \<Rightarrow> do {
               ok \<leftarrow> sleepCtx wellKnownRetryDelay;
               (if \<not> ok then State_Monad.return (Inl (WellKnownFailure True)) else wk_attempts n retry uri) })) }
        | Inr resp \<Rightarrow> State_Monad.return (Inr resp))
        (\<lambda>r w'. fetching w w' \<and> asked (if retry then Suc (Suc n) else 1) uri w w' \<and>
        (\<forall>e. r = Inl e \<longrightarrow> e = WellKnownFailure True)) v"
      using v again by (cases r) (auto intro: asked_mono)
  qed
qed

lemma requestWellKnown_asks:
  "wp (requestWellKnown host retry) (\<lambda>r w'. fetching w w' \<and> asked (if retry then 3 else 1) (wk_uri host) w w' \<and>
      (\<forall>e. r = Inl e \<longrightarrow> e = WellKnownFailure True)) w"
proof -
  have n: "wellKnownRetryAttempts - 1 = 2" "Suc 2 = 3" by (simp_all add: wellKnownRetryAttempts_def)
  from attempts_ask [of 2 retry "wk_uri host" w] show ?thesis
    by (simp only: requestWellKnown_def wk_uri_def n)
qed

lemma hadValid_fetches:
  "wp (hadValidWellKnown host) (\<lambda>b w'. fetching w w' \<and> fw_requests w' = fw_requests w \<and>
      (b \<longrightarrow> ft_hadValid w host \<noteq> None)) w"
  unfolding hadValidWellKnown_def
  by (auto intro: wp_mono [OF fetching_now] split: option.split)

lemma clamped:
  "0 < max (min p wellKnownMaxCachePeriod) wellKnownMinCachePeriod \<and>
   max (min p wellKnownMaxCachePeriod) wellKnownMinCachePeriod \<le> wellKnownMaxCachePeriod"
  by (simp add: wellKnownMaxCachePeriod_def wellKnownMinCachePeriod_def Hour_def Minute_def)

definition fetch_post :: "string \<Rightarrow> resolver \<Rightarrow> bool + string \<times> int \<Rightarrow> resolver \<Rightarrow> bool" where
  "fetch_post host w r w' \<longleftrightarrow> fetching w w' \<and>
     asked (if ft_hadValid w host = None then 1 else wellKnownRetryAttempts) (wk_uri host) w w' \<and>
     (list_all jitter_ok (fw_jitters w) \<longrightarrow> (\<forall>d p. r = Inr (d, p) \<longrightarrow> 0 < p \<and> p \<le> wellKnownMaxCachePeriod))"

lemma fetch_post_later:
  "fetch_post host w r v \<Longrightarrow> fetching v u \<Longrightarrow> fw_requests u = fw_requests v \<Longrightarrow> fetch_post host w r u"
  by (auto simp: fetch_post_def asked_def intro: fetching_trans)

lemma period_fetches:
  "wp (wk_period L h now) (\<lambda>q w'. fetching w w' \<and> fw_requests w' = fw_requests w \<and>
        (list_all jitter_ok (fw_jitters w) \<longrightarrow> 0 < q \<and> q \<le> wellKnownMaxCachePeriod)) w"
proof (cases "cachePeriodFromHeaders L h now")
  case None
  have "Minute \<le> wellKnownDefaultCachePeriod" "wellKnownDefaultCachePeriod \<le> 24 * Hour"
    by (simp_all add: wellKnownDefaultCachePeriod_def Hour_def Minute_def)
  with None show ?thesis using jittered_ok by (simp add: wk_period_def)
next
  case (Some p)
  show ?thesis unfolding wk_period_def Some option.case wp_return
    using clamped [of p] fetching_refl [of w] by blast
qed

lemma note_valid_fetches:
  "wp (wk_note_valid host d p) (\<lambda>_ w'. fetching w w' \<and> fw_requests w' = fw_requests w) w"
  by (auto simp: wk_note_valid_def fetching_def intro: wp_ft_now)

lemma fetchWellKnown_post: "wp (fetchWellKnown L host) (fetch_post host w) w"
proof (unfold fetchWellKnown_def wp_bind, rule wp_mono [OF hadValid_fetches], rule wp_mono [OF requestWellKnown_asks])
  fix retry v and r :: "wk_error + wk_reply" and u
  assume v: "fetching w v \<and> fw_requests v = fw_requests w \<and> (retry \<longrightarrow> ft_hadValid w host \<noteq> None)"
    and u: "fetching v u \<and> asked (if retry then 3 else 1) (wk_uri host) v u \<and>
        (\<forall>e. r = Inl e \<longrightarrow> e = WellKnownFailure True)"
  let ?n = "if ft_hadValid w host = None then 1 else wellKnownRetryAttempts"
  from v u have w: "fetching w u" "asked ?n (wk_uri host) w u"
    by (auto simp: asked_def wellKnownRetryAttempts_def intro: fetching_trans split: if_splits)
  then have failed: "fetch_post host w (Inl b) u" for b by (simp add: fetch_post_def)
  have parsed: "wp ft_now (\<lambda>now. wp (wk_period L h now) (\<lambda>period. wp (wk_note_valid host d period)
      (\<lambda>_. fetch_post host w (Inr (d, period))))) u" for h d
  proof (rule wp_mono [OF fetching_now], rule wp_mono [OF period_fetches], rule wp_mono [OF note_valid_fetches])
    fix now u1 period u2 x u3
    assume "fetching u u1 \<and> fw_requests u1 = fw_requests u \<and> fw_clock u \<le> now \<and> now = fw_clock u1"
      and "fetching u1 u2 \<and> fw_requests u2 = fw_requests u1 \<and>
        (list_all jitter_ok (fw_jitters u1) \<longrightarrow> 0 < period \<and> period \<le> wellKnownMaxCachePeriod)"
      and "fetching u2 u3 \<and> fw_requests u3 = fw_requests u2"
    with w show "fetch_post host w (Inr (d, period)) u3"
      by (auto simp: fetch_post_def asked_def fetching_def)
  qed
  show "wp (case r of
        Inl e \<Rightarrow> State_Monad.return (Inl (e = WellKnownFailure True))
      | Inr resp \<Rightarrow>
          (if kr_status resp \<noteq> 200 then State_Monad.return (Inl False)
           else (case kr_server resp of
             None \<Rightarrow> State_Monad.return (Inl False)
           | Some None \<Rightarrow> State_Monad.return (Inl False)
           | Some (Some result) \<Rightarrow> do {
               now \<leftarrow> ft_now;
               period \<leftarrow> wk_period L (kr_headers resp) now;
               wk_note_valid host result period;
               State_Monad.return (Inr (result, period)) }))) (fetch_post host w) u"
    using failed parsed by (auto split: sum.split option.split)
qed

section \<open>An answer of the cache\<close>

definition known :: "string \<Rightarrow> resolver \<Rightarrow> string \<Rightarrow> resolver \<Rightarrow> bool" where
  "known host w d w' \<longleftrightarrow> d = '''' \<or>
     (\<exists>e. ft_wellKnown w' host = Some e \<and> wk_delegated e = d \<and> fw_clock w < wk_expires e)"

definition answer_post :: "nat \<Rightarrow> string \<Rightarrow> resolver \<Rightarrow> string \<Rightarrow> resolver \<Rightarrow> bool" where
  "answer_post n host w d w' \<longleftrightarrow> fw_clock w \<le> fw_clock w' \<and> asked n (wk_uri host) w w' \<and>
     fw_dialled w' = fw_dialled w \<and> (ft_ok w \<longrightarrow> ft_ok w' \<and> known host w d w')"

definition before :: "resolver \<Rightarrow> resolver \<Rightarrow> bool" where
  "before w v \<longleftrightarrow> fw_clock w \<le> fw_clock v \<and> fw_requests v = fw_requests w \<and> fw_dialled v = fw_dialled w \<and>
     (ft_ok w \<longrightarrow> ft_ok v)"

lemma before_refl [simp]: "before w w"
  by (simp add: before_def)

lemma before_trans: "before u v \<Longrightarrow> before v w \<Longrightarrow> before u w"
  by (simp add: before_def)

lemma before_fetching: "fetching w v \<Longrightarrow> fw_requests v = fw_requests w \<Longrightarrow> before w v"
  using fetching_ok [of w v] by (auto simp: before_def fetching_def)

lemma answer_post_before: "before w v \<Longrightarrow> answer_post n host v d u \<Longrightarrow> answer_post n host w d u"
  by (auto simp: before_def answer_post_def asked_def known_def)

lemma remember_post:
  assumes v: "fetching w v" "asked n (wk_uri host) w v"
    and p: "list_all jitter_ok (fw_jitters w) \<Longrightarrow> 0 < period \<and> period \<le> wellKnownMaxCachePeriod"
  shows "wp (wk_remember host d period) (answer_post n host w) v"
proof (cases "0 < period")
  case True
  have "wp ft_now (\<lambda>now. wp (ft_put (\<lambda>w. w\<lparr>ft_wellKnown := (ft_wellKnown w)(host \<mapsto>
          \<lparr>wk_delegated = d, wk_expires = now + period, wk_ttl = period\<rparr>)\<rparr>))
          (\<lambda>_. answer_post n host w d)) v"
  proof (rule wp_ft_now)
    fix t ts assume t: "fw_clock v \<le> t"
    let ?e = "\<lparr>wk_delegated = d, wk_expires = t + period, wk_ttl = period\<rparr>"
    let ?u = "v\<lparr>fw_clock := t, fw_ticks := ts, ft_wellKnown := (ft_wellKnown v)(host \<mapsto> ?e)\<rparr>"
    have "ft_ok ?u" if ok: "ft_ok w"
    proof -
      from ok have "list_all jitter_ok (fw_jitters w)" by (simp add: ft_ok_def)
      with p have e: "entry_ok t ?e" by (simp add: entry_ok_def)
      from fetching_ok [OF v(1) ok] t show ?thesis
        by (auto simp: ft_ok_def intro: cache_ok_store [OF _ e] later_intros)
    qed
    moreover have "known host w d ?u" using t v(1) True by (auto simp: known_def fetching_def)
    ultimately show "wp (ft_put (\<lambda>w. w\<lparr>ft_wellKnown := (ft_wellKnown w)(host \<mapsto> ?e)\<rparr>))
        (\<lambda>_. answer_post n host w d) (v\<lparr>fw_clock := t, fw_ticks := ts\<rparr>)"
      using t v by (auto simp: answer_post_def fetching_def asked_def)
  qed
  with True show ?thesis by (simp add: wk_remember_def)
next
  case False
  with p have "\<not> ft_ok w" by (auto simp: ft_ok_def)
  with False v show ?thesis by (auto simp: wk_remember_def answer_post_def fetching_def)
qed

definition retries :: "string \<Rightarrow> resolver \<Rightarrow> nat" where
  "retries host w = (if ft_hadValid w host = None then 1 else wellKnownRetryAttempts)"

lemma retries_le: "retries host w \<le> wellKnownRetryAttempts"
  by (simp add: retries_def wellKnownRetryAttempts_def)

lemma prev_fetches:
  "wp (case entry of
        None \<Rightarrow> State_Monad.return None
      | Some e \<Rightarrow> do { now \<leftarrow> ft_now; State_Monad.return (if \<not> now < wk_expires e then None else Some e) })
     (\<lambda>prev v. fetching w v \<and> fw_requests v = fw_requests w \<and> ft_hadValid v = ft_hadValid w \<and>
        (\<forall>e. prev = Some e \<longrightarrow> entry = Some e \<and> fw_clock w < wk_expires e)) w"
  by (cases entry) (auto intro!: wp_ft_now simp: fetching_def split: if_splits)

lemma failed_period: "Minute \<le> (if b then wellKnownDownCachePeriod else wellKnownInvalidCachePeriod)"
    "(if b then wellKnownDownCachePeriod else wellKnownInvalidCachePeriod) \<le> 24 * Hour"
  by (simp_all add: wellKnownDownCachePeriod_def wellKnownInvalidCachePeriod_def Hour_def Minute_def)

lemma failed_post:
  assumes v: "fetching w v" "asked n (wk_uri host) w v"
  shows "wp (do {
      had \<leftarrow> hadValidWellKnown host;
      period \<leftarrow> jittered (if had then wellKnownDownCachePeriod else wellKnownInvalidCachePeriod);
      wk_remember host '''' period }) (answer_post n host w) v"
proof (unfold wp_bind, rule wp_mono [OF hadValid_fetches], rule wp_mono [OF jittered_ok [OF failed_period]])
  fix had v1 period v2
  assume "fetching v v1 \<and> fw_requests v1 = fw_requests v \<and> (had \<longrightarrow> ft_hadValid v host \<noteq> None)"
    and "fetching v1 v2 \<and> fw_requests v2 = fw_requests v1 \<and>
      (list_all jitter_ok (fw_jitters v1) \<longrightarrow> 0 < period \<and> period \<le> wellKnownMaxCachePeriod)"
  with v show "wp (wk_remember host '''' period) (answer_post n host w) v2"
    by (intro remember_post) (auto simp: fetching_def asked_def)
qed

lemma refreshWellKnown_post: "wp (refreshWellKnown L host) (answer_post (retries host w) host w) w"
proof (unfold refreshWellKnown_def wp_bind wp_ft_get, rule wp_mono [OF prev_fetches], rule wp_mono [OF fetchWellKnown_post])
  fix prev v and r :: "bool + string \<times> int" and u
  assume v: "fetching w v \<and> fw_requests v = fw_requests w \<and> ft_hadValid v = ft_hadValid w \<and>
        (\<forall>e. prev = Some e \<longrightarrow> ft_wellKnown w host = Some e \<and> fw_clock w < wk_expires e)"
    and r: "fetch_post host v r u"
  let ?n = "retries host w"
  from v r have u: "fetching w u" "asked ?n (wk_uri host) w u"
    and p: "\<And>d p. r = Inr (d, p) \<Longrightarrow> list_all jitter_ok (fw_jitters w) \<Longrightarrow> 0 < p \<and> p \<le> wellKnownMaxCachePeriod"
    by (auto simp: fetch_post_def fetching_def asked_def retries_def)
  have failed: "wp (do {
      had \<leftarrow> hadValidWellKnown host;
      period \<leftarrow> jittered (if had then wellKnownDownCachePeriod else wellKnownInvalidCachePeriod);
      wk_remember host '''' period }) (answer_post ?n host w) u" by (rule failed_post [OF u])
  have kept: "answer_post ?n host w (wk_delegated e) u" if "prev = Some e" for e
    using that u v fetching_ok [OF u(1)] by (auto simp: answer_post_def fetching_def known_def)
  show "wp (case r of
        Inl temporary \<Rightarrow>
          (if temporary \<and> (case prev of None \<Rightarrow> False | Some e \<Rightarrow> wk_delegated e \<noteq> '''')
           then State_Monad.return (wk_delegated (the prev))
           else do {
             had \<leftarrow> hadValidWellKnown host;
             period \<leftarrow> jittered (if had then wellKnownDownCachePeriod else wellKnownInvalidCachePeriod);
             wk_remember host '''' period })
      | Inr (result, period) \<Rightarrow> wk_remember host result period) (answer_post ?n host w) u"
  proof (cases r)
    case (Inl temporary)
    with failed kept show ?thesis by (cases prev) (simp_all del: wp_eta wp_bind)
  next
    case (Inr q)
    obtain d t where q: "q = (d, t)" by (cases q)
    have "wp (wk_remember host d t) (answer_post ?n host w) u"
      by (rule remember_post [OF u p]) (use Inr q in auto)
    with Inr q show ?thesis by simp
  qed
qed

lemma cached_known:
  "wp (cachedWellKnown host) (\<lambda>c v. fetching w v \<and> fw_requests v = fw_requests w \<and>
      ft_hadValid v = ft_hadValid w \<and> known host w (fst c) v) w"
  by (rule wp_cachedWellKnown) (auto simp: fetching_def known_def wk_look_def split: option.split if_splits)

text \<open>Waiting: the clock does not move in the model of it, and the maps are another request's.\<close>

lemma wait_turn_before:
  "wp (wait_turn ts host) (\<lambda>ok v. fw_clock v = fw_clock w \<and> fw_requests v = fw_requests w \<and>
      fw_dialled v = fw_dialled w \<and> (ft_ok w \<and> list_all (turn_ok (fw_clock w)) ts \<longrightarrow> ft_ok v)) w"
proof (induction ts arbitrary: w)
  case (Cons t ts)
  show ?case
  proof (cases t)
    case (Freed m had again)
    let ?v = "w\<lparr>fw_turns := ts, ft_wellKnown := m, ft_hadValid := had\<rparr>"
    from Freed show ?thesis
      by (cases again) (auto simp: ft_ok_def intro!: wp_mono [OF Cons.IH])
  qed (auto simp: ft_ok_def)
qed (auto simp: ft_ok_def)

lemma acquire_before:
  "wp (wk_acquire host) (\<lambda>ok v. before w v \<and>
      (host \<notin> set (ft_inflight w) \<longrightarrow> ok \<and> ft_hadValid v = ft_hadValid w \<and> ft_wellKnown v = ft_wellKnown w)) w"
proof (cases "host \<in> set (ft_inflight w)")
  case True
  have "wp (wait_turn (fw_turns w) host) (\<lambda>ok. before w) w"
    by (rule wp_mono [OF wait_turn_before]) (auto simp: before_def ft_ok_def)
  with True show ?thesis by (simp add: wk_acquire_def)
qed (auto simp: wk_acquire_def before_def ft_ok_def)

lemma release_post: "answer_post n host w d v \<Longrightarrow> wp (wk_release host) (\<lambda>_. answer_post n host w d) v"
  by (auto simp: wk_release_def answer_post_def ft_ok_def known_def asked_def)

definition budget :: "string \<Rightarrow> resolver \<Rightarrow> nat" where
  "budget host w = (if host \<notin> set (ft_inflight w) then retries host w else wellKnownRetryAttempts)"

lemma known_post:
  assumes "before w v" "fetching v u" "fw_requests u = fw_requests v" "known host v d u"
  shows "answer_post n host w d u"
  by (rule answer_post_before [OF assms(1)])
    (use assms fetching_ok [OF assms(2)] in \<open>auto simp: answer_post_def fetching_def\<close>)

lemma locked_post:
  assumes v: "before w v" and n: "retries host v \<le> n"
  shows "wp (do {
           c \<leftarrow> cachedWellKnown host;
           d \<leftarrow> (if snd c then State_Monad.return (fst c) else refreshWellKnown L host);
           wk_release host;
           State_Monad.return d }) (answer_post n host w) v"
proof (unfold wp_bind, rule wp_mono [OF cached_known])
  fix c :: "string \<times> bool" and u
  assume u: "fetching v u \<and> fw_requests u = fw_requests v \<and> ft_hadValid u = ft_hadValid v \<and> known host v (fst c) u"
  have "wp (refreshWellKnown L host) (answer_post n host w) u"
  proof (rule wp_mono [OF refreshWellKnown_post])
    fix d x assume "answer_post (retries host u) host u d x"
    with u n have "answer_post n host u d x" by (auto simp: answer_post_def retries_def intro: asked_mono)
    with v u show "answer_post n host w d x" by (blast intro: answer_post_before before_trans before_fetching)
  qed
  with u v have "wp (if snd c then State_Monad.return (fst c) else refreshWellKnown L host) (answer_post n host w) u"
    by (auto intro: known_post)
  then show "wp (if snd c then State_Monad.return (fst c) else refreshWellKnown L host)
      (\<lambda>d. wp (wk_release host) (\<lambda>_. wp (State_Monad.return d) (answer_post n host w))) u"
    by (rule wp_mono) (auto dest: release_post)
qed

lemma getWellKnown_post: "wp (getWellKnown L host) (answer_post (budget host w) host w) w"
proof (unfold getWellKnown_def wp_bind, rule wp_mono [OF cached_known])
  fix c :: "string \<times> bool" and v
  assume v: "fetching w v \<and> fw_requests v = fw_requests w \<and> ft_hadValid v = ft_hadValid w \<and> known host w (fst c) v"
  then have wv: "before w v" by (blast intro: before_fetching)
  let ?n = "budget host w"
  have stale: "wp (wk_acquire host) (\<lambda>ok. wp
        (if \<not> ok then do { c \<leftarrow> cachedWellKnown host; State_Monad.return (fst c) }
         else do {
           c \<leftarrow> cachedWellKnown host;
           d \<leftarrow> (if snd c then State_Monad.return (fst c) else refreshWellKnown L host);
           wk_release host;
           State_Monad.return d }) (answer_post ?n host w)) v"
  proof (rule wp_mono [OF acquire_before])
    fix ok u
    assume u: "before v u \<and> (host \<notin> set (ft_inflight v) \<longrightarrow> ok \<and> ft_hadValid u = ft_hadValid v \<and> ft_wellKnown u = ft_wellKnown v)"
    with wv have wu: "before w u" by (blast intro: before_trans)
    from u v have n: "retries host u \<le> ?n"
      by (auto simp: budget_def retries_def fetching_def retries_le [unfolded retries_def])
    have "wp (cachedWellKnown host) (\<lambda>c. answer_post ?n host w (fst c)) u"
      by (rule wp_mono [OF cached_known]) (blast intro: known_post [OF wu])
    with locked_post [OF wu n, of L]
    show "wp (if \<not> ok then do { c \<leftarrow> cachedWellKnown host; State_Monad.return (fst c) }
         else do {
           c \<leftarrow> cachedWellKnown host;
           d \<leftarrow> (if snd c then State_Monad.return (fst c) else refreshWellKnown L host);
           wk_release host;
           State_Monad.return d }) (answer_post ?n host w) u" by simp
  qed
  from known_post [of w w v host "fst c" ?n] v have "answer_post ?n host w (fst c) v" by simp
  with stale show "wp (if snd c then State_Monad.return (fst c)
      else do {
        ok \<leftarrow> wk_acquire host;
        (if \<not> ok then do { c \<leftarrow> cachedWellKnown host; State_Monad.return (fst c) }
         else do {
           c \<leftarrow> cachedWellKnown host;
           d \<leftarrow> (if snd c then State_Monad.return (fst c) else refreshWellKnown L host);
           wk_release host;
           State_Monad.return d }) }) (answer_post ?n host w) v" by simp
qed


text \<open>How often a look-up asks. It only ever asks for the well-known of its host, at most three times,
  and once where no valid one was seen and no other request is fetching it.\<close>

theorem well_known_requests_bounded:
  "\<exists>k. k \<le> (if host \<notin> set (ft_inflight w) \<and> ft_hadValid w host = None then 1 else 3) \<and>
     fw_requests (snd (run_state (getWellKnown L host) w)) = fw_requests w @
       replicate k (''https://'' @ host @ ''/.well-known/matrix/server'')"
proof -
  obtain d w' where r: "run_state (getWellKnown L host) w = (d, w')" by (cases "run_state (getWellKnown L host) w")
  from wp_run [OF getWellKnown_post r] have "asked (budget host w) (wk_uri host) w w'" by (simp add: answer_post_def)
  then obtain k where "k \<le> budget host w" "fw_requests w' = fw_requests w @ replicate k (wk_uri host)"
    by (auto simp: asked_def)
  with r show ?thesis
    by (intro exI [of _ k]) (auto simp: budget_def retries_def wellKnownRetryAttempts_def wk_uri_def split: if_splits)
qed

section \<open>An outage\<close>

definition wk_down :: "wk_answer \<Rightarrow> bool" where
  "wk_down a = (case wk_read a of Inl _ \<Rightarrow> True | Inr _ \<Rightarrow> False)"

lemma once_down:
  "list_all wk_down (fw_answers w) \<Longrightarrow>
   wp (requestWellKnownOnce uri) (\<lambda>r v. (\<exists>e. r = Inl e) \<and> list_all wk_down (fw_answers v)) w"
  by (auto simp: requestWellKnownOnce_def Let_def wk_down_def split: list.split sum.splits)

lemma sleep_answers: "wp (sleepCtx d) (\<lambda>ok v. fw_answers v = fw_answers w) w"
  by (simp add: sleepCtx_def Let_def)

lemma attempts_down:
  "list_all wk_down (fw_answers w) \<Longrightarrow>
   wp (wk_attempts n retry uri) (\<lambda>r v. \<exists>e. r = Inl e) w"
proof (induction n arbitrary: w retry)
  case 0
  show ?case
    by (subst wk_attempts.simps, unfold wp_bind, rule wp_mono [OF once_down [OF 0]]) auto
next
  case (Suc n)
  show ?case
    by (subst wk_attempts.simps, unfold wp_bind, rule wp_mono [OF once_down [OF Suc.prems]])
      (auto intro!: wp_mono [OF sleep_answers] Suc.IH)
qed

lemma request_down:
  "list_all wk_down (fw_answers w) \<Longrightarrow> wp (requestWellKnown host retry) (\<lambda>r v. \<exists>e. r = Inl e) w"
  unfolding requestWellKnown_def by (rule attempts_down)

lemma fetch_down:
  assumes "list_all wk_down (fw_answers w)"
  shows "wp (fetchWellKnown L host) (\<lambda>r v. r = Inl True) w"
proof -
  have h: "wp (hadValidWellKnown host) (\<lambda>b v. fw_answers v = fw_answers w) w"
    unfolding hadValidWellKnown_def by (auto intro!: wp_ft_now split: option.split)
  show ?thesis
  proof (unfold fetchWellKnown_def wp_bind, rule wp_mono [OF h])
    fix retry and v :: resolver assume "fw_answers v = fw_answers w"
    with assms have "list_all wk_down (fw_answers v)" by simp
    from wp_conj [OF requestWellKnown_asks request_down [OF this]]
    show "wp (requestWellKnown host retry) (\<lambda>r. wp (case r of
        Inl e \<Rightarrow> State_Monad.return (Inl (e = WellKnownFailure True))
      | Inr resp \<Rightarrow>
          (if kr_status resp \<noteq> 200 then State_Monad.return (Inl False)
           else (case kr_server resp of
             None \<Rightarrow> State_Monad.return (Inl False)
           | Some None \<Rightarrow> State_Monad.return (Inl False)
           | Some (Some result) \<Rightarrow> do {
               now \<leftarrow> ft_now;
               period \<leftarrow> wk_period L (kr_headers resp) now;
               wk_note_valid host result period;
               State_Monad.return (Inr (result, period)) }))) (\<lambda>r v. r = Inl True)) v"
      by (rule wp_mono) auto
  qed
qed

text \<open>The readings of the clock that a refresh is behind.\<close>

definition reading :: "nat \<Rightarrow> resolver \<Rightarrow> int" where
  "reading n w = fw_clock w + int (sum_list (take n (fw_ticks w)))"

lemma wp_ft_now_reading:
  "(\<And>t ts. fw_clock w \<le> t \<Longrightarrow> reading n (w\<lparr>fw_clock := t, fw_ticks := ts\<rparr>) \<le> reading (Suc n) w \<Longrightarrow>
      t \<le> reading (Suc n) w \<Longrightarrow> Q t (w\<lparr>fw_clock := t, fw_ticks := ts\<rparr>)) \<Longrightarrow> wp ft_now Q w"
  by (rule wp_ft_now_budget [where n = n]) (simp add: reading_def)

lemma cached_live:
  assumes "ft_wellKnown w host = Some e" "reading (Suc n) w < wk_expires e"
  shows "wp (cachedWellKnown host) (\<lambda>c v. fst c = wk_delegated e \<and> reading n v < wk_expires e \<and>
     ft_wellKnown v = ft_wellKnown w \<and> ft_inflight v = ft_inflight w \<and> fw_answers v = fw_answers w) w"
  using assms by (auto simp: cachedWellKnown_def intro!: wp_ft_now_reading [where n = n])

lemma refresh_kept:
  assumes e: "ft_wellKnown w host = Some e" "reading (Suc n) w < wk_expires e" "wk_delegated e \<noteq> ''''"
    and down: "list_all wk_down (fw_answers w)"
  shows "wp (refreshWellKnown L host) (\<lambda>d v. d = wk_delegated e \<and> ft_wellKnown v = ft_wellKnown w) w"
proof -
  have "wp ft_now (\<lambda>now v. now < wk_expires e \<and> ft_wellKnown v = ft_wellKnown w \<and> fw_answers v = fw_answers w) w"
    using e by (intro wp_ft_now_reading [where n = n]) auto
  then have "wp ft_now (\<lambda>now. wp (State_Monad.return (if \<not> now < wk_expires e then None else Some e))
      (\<lambda>prev. wp (fetchWellKnown L host) (\<lambda>r. wp (case r of
          Inl temporary \<Rightarrow>
          (if temporary \<and> (case prev of None \<Rightarrow> False | Some e \<Rightarrow> wk_delegated e \<noteq> '''')
           then State_Monad.return (wk_delegated (the prev))
           else do {
             had \<leftarrow> hadValidWellKnown host;
             period \<leftarrow> jittered (if had then wellKnownDownCachePeriod else wellKnownInvalidCachePeriod);
             wk_remember host '''' period })
        | Inr (result, period) \<Rightarrow> wk_remember host result period)
          (\<lambda>d v. d = wk_delegated e \<and> ft_wellKnown v = ft_wellKnown w)))) w"
  proof (rule wp_mono)
    fix now and v :: resolver assume v: "now < wk_expires e \<and> ft_wellKnown v = ft_wellKnown w \<and> fw_answers v = fw_answers w"
    with down have "list_all wk_down (fw_answers v)" by simp
    from wp_conj [OF fetchWellKnown_post fetch_down [OF this], of L host] v e
    show "wp (State_Monad.return (if \<not> now < wk_expires e then None else Some e))
      (\<lambda>prev. wp (fetchWellKnown L host) (\<lambda>r. wp (case r of
          Inl temporary \<Rightarrow>
          (if temporary \<and> (case prev of None \<Rightarrow> False | Some e \<Rightarrow> wk_delegated e \<noteq> '''')
           then State_Monad.return (wk_delegated (the prev))
           else do {
             had \<leftarrow> hadValidWellKnown host;
             period \<leftarrow> jittered (if had then wellKnownDownCachePeriod else wellKnownInvalidCachePeriod);
             wk_remember host '''' period })
        | Inr (result, period) \<Rightarrow> wk_remember host result period)
          (\<lambda>d v. d = wk_delegated e \<and> ft_wellKnown v = ft_wellKnown w))) v"
      by (auto elim!: wp_mono simp: fetch_post_def fetching_def)
  qed
  with e show ?thesis by (simp add: refreshWellKnown_def)
qed

text \<open>C17: an outage of the .well-known server. While every request for it fails, by whatever failure, a cached
  delegation that is still valid when the look-up reads the clock is what the look-up answers, and the
  cache is left as it is.\<close>

theorem delegation_survives_outage:
  assumes "ft_wellKnown w host = Some e" "wk_delegated e \<noteq> ''''"
    and "fw_clock w + int (sum_list (take 3 (fw_ticks w))) < wk_expires e"
    and "host \<notin> set (ft_inflight w)" "list_all wk_down (fw_answers w)"
  shows "fst (run_state (getWellKnown L host) w) = wk_delegated e \<and>
     ft_wellKnown (snd (run_state (getWellKnown L host) w)) = ft_wellKnown w"
proof -
  let ?Q = "\<lambda>d v. d = wk_delegated e \<and> ft_wellKnown v = ft_wellKnown w"
  from assms(3) have r3: "reading 3 w < wk_expires e" by (simp add: reading_def)
  have "wp (getWellKnown L host) ?Q w"
  proof (unfold getWellKnown_def wp_bind, rule wp_mono [OF cached_live [OF assms(1), of 2]])
    show "reading (Suc 2) w < wk_expires e" using r3 by (simp add: numeral_3_eq_3)
  next
    fix c :: "string \<times> bool" and v :: resolver
    assume v: "fst c = wk_delegated e \<and> reading 2 v < wk_expires e \<and> ft_wellKnown v = ft_wellKnown w \<and>
        ft_inflight v = ft_inflight w \<and> fw_answers v = fw_answers w"
    let ?u = "v\<lparr>ft_inflight := host # ft_inflight v\<rparr>"
    have u: "ft_wellKnown ?u host = Some e" "reading (Suc 1) ?u < wk_expires e" "list_all wk_down (fw_answers ?u)"
      using v assms by (simp_all add: reading_def numeral_2_eq_2)
    have locked: "wp (cachedWellKnown host) (\<lambda>c. wp (if snd c then State_Monad.return (fst c) else refreshWellKnown L host)
        (\<lambda>d. wp (wk_release host) (\<lambda>_. ?Q d))) ?u"
    proof (rule wp_mono [OF cached_live [OF u(1,2)]])
      fix c :: "string \<times> bool" and x :: resolver
      assume x: "fst c = wk_delegated e \<and> reading 1 x < wk_expires e \<and> ft_wellKnown x = ft_wellKnown ?u \<and>
        ft_inflight x = ft_inflight ?u \<and> fw_answers x = fw_answers ?u"
      with u have y: "ft_wellKnown x host = Some e" "reading (Suc 0) x < wk_expires e"
        "list_all wk_down (fw_answers x)" by simp_all
      have "wp (refreshWellKnown L host) (\<lambda>d. wp (wk_release host) (\<lambda>_. ?Q d)) x"
        by (rule wp_mono [OF refresh_kept [OF y(1,2) assms(2) y(3)]]) (use x v in \<open>simp add: wk_release_def\<close>)
      with x v show "wp (if snd c then State_Monad.return (fst c) else refreshWellKnown L host)
          (\<lambda>d. wp (wk_release host) (\<lambda>_. ?Q d)) x" by (simp add: wk_release_def)
    qed
    with v assms(4) show "wp (if snd c then State_Monad.return (fst c)
      else do {
        ok \<leftarrow> wk_acquire host;
        (if \<not> ok then do { c \<leftarrow> cachedWellKnown host; State_Monad.return (fst c) }
         else do {
           c \<leftarrow> cachedWellKnown host;
           d \<leftarrow> (if snd c then State_Monad.return (fst c) else refreshWellKnown L host);
           wk_release host;
           State_Monad.return d }) }) ?Q v"
      by (simp add: wk_acquire_def)
  qed
  then show ?thesis by (simp add: wp_def split: prod.splits)
qed

section \<open>SRV and dialling\<close>

text \<open>What an answer of DNS says: a failure, nothing, that the service is not provided, or these servers.\<close>

definition srv_failed :: "srv_answer \<Rightarrow> bool" where
  "srv_failed a \<longleftrightarrow> sa_records a = [] \<and> sa_error a = Some False"

definition srv_nothing :: "srv_answer \<Rightarrow> bool" where
  "srv_nothing a \<longleftrightarrow> sa_records a = [] \<and> \<not> srv_failed a"

definition srv_servers :: "srv_answer \<Rightarrow> srvTarget list" where
  "srv_servers a = map (\<lambda>(target, port). \<lparr>st_host = without_dot target, st_port = port\<rparr>) (sa_records a)"

definition dns_answer :: "nat \<Rightarrow> resolver \<Rightarrow> srv_answer" where
  "dns_answer n w = (if n < length (fw_lookups w) then fw_lookups w ! n else \<lparr>sa_records = [], sa_error = Some False\<rparr>)"

definition last_good :: "string \<Rightarrow> string \<Rightarrow> resolver \<Rightarrow> srvTarget list" where
  "last_good service host w = (case ft_srv w (srv_name service host) of None \<Rightarrow> [] | Some ss \<Rightarrow> ss)"

lemma wp_ft_lookup [simp]: "wp ft_lookup Q w = Q (dns_answer 0 w) (w\<lparr>fw_lookups := tl (fw_lookups w)\<rparr>)"
  by (cases "fw_lookups w"; cases w) (simp_all add: ft_lookup_def dns_answer_def)

text \<open>One look-up, by what it answers.\<close>

lemma lookupService_servers:
  "wp (lookupService service host) (\<lambda>r v. fw_dialled v = fw_dialled w \<and> fw_lookups v = tl (fw_lookups w) \<and>
     (\<forall>k. k \<noteq> srv_name service host \<longrightarrow> ft_srv v k = ft_srv w k) \<and>
     (case r of
        Inl e \<Rightarrow> e = SrvLookupFailed (srv_name service host) \<and> srv_failed (dns_answer 0 w) \<and> last_good service host w = []
          \<or> e = ServiceUnavailable (srv_name service host)
      | Inr servers \<Rightarrow> (servers = [] \<and> srv_nothing (dns_answer 0 w)) \<or>
          (servers \<noteq> [] \<and> servers = last_good service host w \<and> srv_failed (dns_answer 0 w)) \<or>
          (servers \<noteq> [] \<and> servers = srv_servers (dns_answer 0 w)))) w"
  by (auto simp: lookupService_def srv_failed_def srv_nothing_def last_good_def srv_servers_def
      split: option.split list.split sum.split)

text \<open>The addresses a request may be connected to, by what DNS says of its host.\<close>

definition srv_addresses :: "string \<Rightarrow> resolver \<Rightarrow> srvTarget list" where
  "srv_addresses host w = srv_servers (dns_answer 0 w) @ srv_servers (dns_answer 1 w) @
     last_good ''matrix-fed'' host w @ last_good ''matrix'' host w"

definition may_dial :: "dialTarget \<Rightarrow> resolver \<Rightarrow> string set" where
  "may_dial t w =
     (if dt_explicit t then {JoinHostPort (dt_host t) (show_nat (dt_port t))}
      else if srv_nothing (dns_answer 0 w) \<and> srv_nothing (dns_answer 1 w) then {JoinHostPort (dt_host t) (show_nat 8448)}
      else server_addr ` set (srv_addresses (dt_host t) w))"

lemma dns_answer_tl: "fw_lookups v = tl (fw_lookups w) \<Longrightarrow> dns_answer n v = dns_answer (Suc n) w"
  by (cases "fw_lookups w") (auto simp: dns_answer_def)

lemma last_good_other: "last_good ''matrix'' host v = last_good ''matrix'' host w"
  if "\<forall>k. k \<noteq> srv_name ''matrix-fed'' host \<longrightarrow> ft_srv v k = ft_srv w k"
  using that by (simp add: last_good_def srv_name_def)

lemma srv_servers_ne: "srv_servers a \<noteq> [] \<Longrightarrow> \<not> srv_nothing a"
  by (simp add: srv_servers_def srv_nothing_def)

definition found :: "string \<Rightarrow> resolver \<Rightarrow> ft_error + srvTarget list \<Rightarrow> resolver \<Rightarrow> bool" where
  "found host w r v \<longleftrightarrow> fw_dialled v = fw_dialled w \<and>
     (case r of Inl e \<Rightarrow> True
      | Inr ss \<Rightarrow> ss \<noteq> [] \<and>
         (if srv_nothing (dns_answer 0 w) \<and> srv_nothing (dns_answer 1 w)
          then ss = [\<lparr>st_host = host, st_port = 8448\<rparr>] else set ss \<subseteq> set (srv_addresses host w)))"

lemma resolveSRV_servers: "wp (resolveSRV host) (found host w) w"
  (is "wp _ ?Q w")
proof -
  have "wp (lookupService ''matrix-fed'' host) (\<lambda>r. wp (case r of
        Inl e \<Rightarrow> State_Monad.return (Inl e)
      | Inr servers \<Rightarrow> if servers \<noteq> [] then State_Monad.return (Inr servers)
          else resolve_services [''matrix''] host) ?Q) w"
  proof (rule wp_mono [OF lookupService_servers])
    fix r and v :: resolver
    assume v: "fw_dialled v = fw_dialled w \<and> fw_lookups v = tl (fw_lookups w) \<and>
     (\<forall>k. k \<noteq> srv_name ''matrix-fed'' host \<longrightarrow> ft_srv v k = ft_srv w k) \<and>
     (case r of
        Inl e \<Rightarrow> e = SrvLookupFailed (srv_name ''matrix-fed'' host) \<and> srv_failed (dns_answer 0 w) \<and>
            last_good ''matrix-fed'' host w = [] \<or> e = ServiceUnavailable (srv_name ''matrix-fed'' host)
      | Inr servers \<Rightarrow> (servers = [] \<and> srv_nothing (dns_answer 0 w)) \<or>
          (servers \<noteq> [] \<and> servers = last_good ''matrix-fed'' host w \<and> srv_failed (dns_answer 0 w)) \<or>
          (servers \<noteq> [] \<and> servers = srv_servers (dns_answer 0 w)))"
    have second: "wp (resolve_services [''matrix''] host) ?Q v" if "srv_nothing (dns_answer 0 w)"
      using that v dns_answer_tl [of v w 0] last_good_other [of host v w]
      by (auto intro!: wp_mono [OF lookupService_servers] simp: found_def srv_addresses_def srv_failed_def srv_nothing_def
          srv_servers_def split: sum.splits)
    show "wp (case r of
        Inl e \<Rightarrow> State_Monad.return (Inl e)
      | Inr servers \<Rightarrow> if servers \<noteq> [] then State_Monad.return (Inr servers)
          else resolve_services [''matrix''] host) ?Q v"
      using v second by (auto simp: found_def srv_addresses_def srv_nothing_def srv_servers_def split: sum.splits)
  qed
  then show ?thesis by (simp add: resolveSRV_def)
qed

text \<open>A sequence of dials: the addresses in order up to the first that connects; without a connection there is an
  error where something was dialled or an error was there before.\<close>

definition tried :: "string list \<Rightarrow> bool \<Rightarrow> string list \<Rightarrow> ft_error option + string \<Rightarrow> resolver \<Rightarrow> bool" where
  "tried addrs failed old r v \<longleftrightarrow> (\<exists>k \<le> length addrs. fw_dialled v = old @ take k addrs \<and>
     (case r of
        Inr c \<Rightarrow> 0 < k \<and> c = addrs ! (k - 1)
      | Inl e \<Rightarrow> (addrs \<noteq> [] \<or> failed \<longrightarrow> e \<noteq> None) \<and> (k = length addrs \<or> fw_done v)))"

lemma tried_more: "tried as True (old @ [a]) r v \<Longrightarrow> tried (a # as) failed old r v"
  unfolding tried_def
  by (elim exE conjE, rule_tac x = "Suc k" in exI) (auto split: sum.splits simp: nth_Cons')

lemma tried_one: "fw_dialled v = old @ [a] \<Longrightarrow> r = Inr a \<or> fw_done v \<and> (\<exists>e. r = Inl (Some e)) \<Longrightarrow> tried (a # as) failed old r v"
  unfolding tried_def by (rule exI [of _ 1]) auto

lemma dial_each_order:
  "wp (dial_each ss firstErr) (tried (map server_addr ss) (firstErr \<noteq> None) (fw_dialled w)) w"
proof (induction ss arbitrary: firstErr w)
  case (Cons s ss)
  let ?first = "if firstErr = None then Some (DialFailed (server_addr s)) else firstErr"
  have dial: "wp (ft_dial (server_addr s)) (\<lambda>ok u. fw_dialled u = fw_dialled w @ [server_addr s]) w"
    by (simp add: ft_dial_def Let_def split: list.split)
  have "wp (ft_dial (server_addr s)) (\<lambda>ok. wp (if ok then State_Monad.return (Inr (server_addr s))
      else do {
        over \<leftarrow> ft_get fw_done;
        (if over then State_Monad.return (Inl ?first) else dial_each ss ?first) })
      (tried (map server_addr (s # ss)) (firstErr \<noteq> None) (fw_dialled w))) w"
  proof (rule wp_mono [OF dial])
    fix ok and u :: resolver assume u: "fw_dialled u = fw_dialled w @ [server_addr s]"
    have "wp (dial_each ss ?first) (tried (map server_addr (s # ss)) (firstErr \<noteq> None) (fw_dialled w)) u"
      by (rule wp_mono [OF Cons.IH]) (use u in \<open>auto intro!: tried_more simp del: map_eq_conv split: if_splits\<close>)
    with u show "wp (if ok then State_Monad.return (Inr (server_addr s))
      else do {
        over \<leftarrow> ft_get fw_done;
        (if over then State_Monad.return (Inl ?first) else dial_each ss ?first) })
      (tried (map server_addr (s # ss)) (firstErr \<noteq> None) (fw_dialled w)) u"
      by (auto intro!: tried_one)
  qed
  then show ?case by (simp only: dial_each.simps wp_bind Let_def)
qed (simp add: tried_def)

lemma tried_within:
  assumes "tried as failed old r v"
  obtains new where "fw_dialled v = old @ new" "set new \<subseteq> set as" "as \<noteq> [] \<Longrightarrow> r \<noteq> Inl None"
    "\<And>c. r = Inr c \<Longrightarrow> new \<noteq> [] \<and> last new = c"
proof -
  from assms obtain k where k: "k \<le> length as" "fw_dialled v = old @ take k as"
    "case r of Inr c \<Rightarrow> 0 < k \<and> c = as ! (k - 1) | Inl e \<Rightarrow> (as \<noteq> [] \<or> failed \<longrightarrow> e \<noteq> None) \<and> (k = length as \<or> fw_done v)"
    by (auto simp: tried_def)
  show ?thesis
  proof (rule that [OF k(2)])
    show "set (take k as) \<subseteq> set as" by (rule set_take_subset)
    show "r \<noteq> Inl None" if "as \<noteq> []" using that k(3) by auto
    show "take k as \<noteq> [] \<and> last (take k as) = c" if "r = Inr c" for c
      using that k(1,3) by (cases "as = []") (auto simp: last_conv_nth min_def)
  qed
qed

text \<open>C15: what a connection attempt does. It ends in a connection or an error, never in neither; a connection is to
  the last address dialled; and every address dialled is the explicit one, or one DNS gave for the host,
  or the host's port 8448 in the one case that both SRV look-ups said that there is no record: a failure
  of DNS never leads there.\<close>

theorem dialContext_contract:
  assumes "run_state (dialContext (Some t)) w = (r, w')"
  shows "r \<noteq> Inl None \<and> (\<exists>new. fw_dialled w' = fw_dialled w @ new \<and> set new \<subseteq> may_dial t w \<and>
     (\<forall>c. r = Inr c \<longrightarrow> new \<noteq> [] \<and> last new = c))" (is "?Q r w'")
proof -
  have dials: "wp (dial_each ss None) ?Q v" if h: "ss \<noteq> []" "server_addr ` set ss \<subseteq> may_dial t w" "fw_dialled v = fw_dialled w"
    for ss v
  proof (rule wp_mono [OF dial_each_order])
    fix r u assume "tried (map server_addr ss) (None \<noteq> None) (fw_dialled v) r u"
    then show "?Q r u" by (rule tried_within) (use h in auto)
  qed
  have "wp (dialContext (Some t)) ?Q w"
  proof (cases "dt_explicit t")
    case True
    have "wp (dial_each [\<lparr>st_host = dt_host t, st_port = dt_port t\<rparr>] None) ?Q w"
      by (rule dials) (use True in \<open>simp_all add: may_dial_def server_addr_def\<close>)
    with True show ?thesis by (simp add: dialContext_def)
  next
    case False
    have "wp (resolveSRV (dt_host t)) (\<lambda>r. wp (case r of Inl e \<Rightarrow> State_Monad.return (Inl (Some e))
        | Inr servers \<Rightarrow> dial_each servers None) ?Q) w"
    proof (rule wp_mono [OF resolveSRV_servers])
      fix q :: "ft_error + srvTarget list" and v
      assume v: "found (dt_host t) w q v"
      show "wp (case q of Inl e \<Rightarrow> State_Monad.return (Inl (Some e)) | Inr servers \<Rightarrow> dial_each servers None) ?Q v"
      proof (cases q)
        case (Inl e)
        with v show ?thesis by (simp add: found_def)
      next
        case (Inr ss)
        have "wp (dial_each ss None) ?Q v"
          by (rule dials) (use v Inr False in \<open>auto simp: found_def may_dial_def server_addr_def split: if_splits\<close>)
        with Inr show ?thesis by (simp only: sum.case)
      qed
    qed
    with False show ?thesis by (simp add: dialContext_def)
  qed
  from wp_run [OF this assms] show ?thesis .
qed

section \<open>A round trip\<close>

definition target_of :: "net_library \<Rightarrow> string \<Rightarrow> dialTarget \<Rightarrow> bool" where
  "target_of L name t \<longleftrightarrow> (\<exists>h p. nl_ParseServerName L name = Some (h, p) \<and> dt_host t = h \<and>
     (if p \<noteq> 0 \<or> nl_ParseIP L h then dt_explicit t \<and> dt_port t = (if p = 0 then 8448 else p) else \<not> dt_explicit t))"

definition resolved :: "net_library \<Rightarrow> string \<Rightarrow> resolver \<Rightarrow> ft_error + string \<times> dialTarget \<Rightarrow> resolver \<Rightarrow> bool" where
  "resolved L name w r w' \<longleftrightarrow>
     (case r of Inl e \<Rightarrow> True
      | Inr (hdr, t) \<Rightarrow> target_of L hdr t \<and>
          (hdr = name \<or> (\<exists>h p e. nl_ParseServerName L name = Some (h, p) \<and> p = 0 \<and> \<not> nl_ParseIP L h \<and>
             ft_wellKnown w' h = Some e \<and> wk_delegated e = hdr \<and> fw_clock w < wk_expires e)))"

lemma resolve_resolved:
  assumes "ft_pinned w name = None" "ft_ok w"
  shows "wp (resolve L name) (\<lambda>r v. resolved L name w r v \<and> fw_dialled v = fw_dialled w) w"
proof (cases "nl_ParseServerName L name")
  case None
  with assms show ?thesis by (simp add: resolve_def resolved_def)
next
  case (Some q)
  obtain h p where q: "q = (h, p)" by (cases q)
  show ?thesis
  proof (cases "p \<noteq> 0 \<or> nl_ParseIP L h")
    case True
    with Some q assms show ?thesis
      by (auto simp: resolve_def resolved_def target_of_def explicitTarget_def)
  next
    case False
    have "wp (getWellKnown L h) (\<lambda>d v. resolved L name w
        (if d = '''' then Inr (name, \<lparr>dt_host = h, dt_port = 0, dt_explicit = False\<rparr>)
         else (case nl_ParseServerName L d of
            None \<Rightarrow> Inl (InvalidDelegation d h)
          | Some (dHost, dPort) \<Rightarrow>
             (if dPort \<noteq> 0 \<or> nl_ParseIP L dHost then Inr (d, explicitTarget dHost dPort)
              else Inr (d, \<lparr>dt_host = dHost, dt_port = 0, dt_explicit = False\<rparr>)))) v \<and> fw_dialled v = fw_dialled w) w"
      by (rule wp_mono [OF getWellKnown_post])
        (use assms(2) Some q False in \<open>auto simp: answer_post_def known_def resolved_def target_of_def explicitTarget_def
          split: option.split\<close>)
    with Some q False assms show ?thesis by (simp add: resolve_def)
  qed
qed

text \<open>C16: where a federation request is sent. Only a request of the scheme \<^verbatim>\<open>matrix-federation\<close> is, over https, with
  the host header its target was parsed from; the header is the server's own name or the delegation the
  cache holds for its host, which had not expired; a name with a port, or of an IP address, is not
  delegated; and resolving dials nothing.\<close>

theorem RoundTrip_target:
  assumes "ft_ok w" "ft_pinned w host = None" "run_state (RoundTrip L scheme host) w = (Sent s hdr t, w')"
  shows "scheme = ''matrix-federation'' \<and> s = ''https'' \<and> target_of L hdr t \<and> fw_dialled w' = fw_dialled w \<and>
     (hdr = host \<or> (\<exists>h p e. nl_ParseServerName L host = Some (h, p) \<and> p = 0 \<and> \<not> nl_ParseIP L h \<and>
        ft_wellKnown w' h = Some e \<and> wk_delegated e = hdr \<and> fw_clock w < wk_expires e))"
proof -
  have "wp (RoundTrip L scheme host) (\<lambda>r v. case r of
      Refused e b \<Rightarrow> True
    | Sent s hdr t \<Rightarrow> scheme = ''matrix-federation'' \<and> s = ''https'' \<and> resolved L host w (Inr (hdr, t)) v \<and>
        fw_dialled v = fw_dialled w) w"
    by (auto simp: RoundTrip_def split: sum.split intro!: wp_mono [OF resolve_resolved [OF assms(2,1)]])
  from wp_run [OF this assms(3)] show ?thesis by (simp add: resolved_def)
qed

section \<open>Witnesses\<close>

definition sample_library :: net_library where
  "sample_library = \<lparr>nl_ParseServerName = (\<lambda>s. Some (s, 0)), nl_ParseIP = (\<lambda>s. False), nl_ParseTime = (\<lambda>s. None)\<rparr>"

text \<open>A host with a delegation past its refresh point, whose .well-known server does not answer, and DNS that fails
  for the first service.\<close>

definition outage_world :: resolver where
  "outage_world = \<lparr>ft_wellKnown = [''a.b'' \<mapsto> \<lparr>wk_delegated = ''m.b'', wk_expires = 1000, wk_ttl = 1000\<rparr>],
     ft_hadValid = [''a.b'' \<mapsto> 2000], ft_srv = Map.empty, ft_inflight = [], ft_pinned = Map.empty,
     fw_clock = 900, fw_ticks = [1, 1, 1], fw_jitters = [id], fw_answers = [\<lparr>ka_reply = None, ka_done = False\<rparr>],
     fw_sleeps = [], fw_turns = [],
     fw_lookups = [\<lparr>sa_records = [], sa_error = Some True\<rparr>, \<lparr>sa_records = [(''x.b.'', 443)], sa_error = None\<rparr>],
     fw_dials = [(True, False)], fw_done = False, fw_requests = [], fw_dialled = []\<rparr>"

lemma id_jitter: "jitter_ok id"
proof -
  have "p * 9 div 10 \<le> p \<and> p \<le> p * 11 div 10" if "0 \<le> p" for p :: int
    using zdiv_mono1 [of "p * 9" "p * 10" 10] zdiv_mono1 [of "p * 10" "p * 11" 10] that by simp
  then show ?thesis by (simp add: jitter_ok_def)
qed

lemma outage_world_ok: "ft_ok outage_world"
  by (simp add: ft_ok_def outage_world_def cache_ok_def entry_ok_def id_jitter wellKnownMaxCachePeriod_def Hour_def)

lemma outage_world_down: "list_all wk_down (fw_answers outage_world)"
  by (simp add: outage_world_def wk_down_def wk_read_def)

theorem delegation_survives_outage_witness:
  "fst (run_state (getWellKnown sample_library ''a.b'') outage_world) = ''m.b''"
  using delegation_survives_outage [of outage_world "''a.b''" "\<lparr>wk_delegated = ''m.b'', wk_expires = 1000, wk_ttl = 1000\<rparr>" sample_library]
    outage_world_down
  by (simp add: outage_world_def)


definition srv_target :: dialTarget where
  "srv_target = \<lparr>dt_host = ''a.b'', dt_port = 0, dt_explicit = False\<rparr>"

lemma srv_dial:
  "fst (run_state (dialContext (Some srv_target)) outage_world) = Inr ''x.b:443''"
  "fw_dialled (snd (run_state (dialContext (Some srv_target)) outage_world)) = [''x.b:443'']"
  by code_simp+

theorem dialContext_contract_witness: "''x.b:443'' \<in> may_dial srv_target outage_world"
proof -
  let ?r = "run_state (dialContext (Some srv_target)) outage_world"
  have "?r = (Inr ''x.b:443'', snd ?r)" using srv_dial(1) by (metis prod.collapse)
  from dialContext_contract [OF this] srv_dial(2) show ?thesis
    by (auto simp: outage_world_def)
qed

text \<open>The same host before its delegation is due to be refreshed.\<close>

definition fresh_world :: resolver where
  "fresh_world = outage_world\<lparr>fw_clock := 100\<rparr>"

lemma fresh_world_ok: "ft_ok fresh_world"
  by (simp add: fresh_world_def ft_ok_def outage_world_def cache_ok_def entry_ok_def id_jitter wellKnownMaxCachePeriod_def Hour_def)

lemma delegated_trip:
  "fst (run_state (RoundTrip sample_library ''matrix-federation'' ''a.b'') fresh_world) =
   Sent ''https'' ''m.b'' \<lparr>dt_host = ''m.b'', dt_port = 0, dt_explicit = False\<rparr>"
  by (simp add: fresh_world_def outage_world_def RoundTrip_def resolve_def getWellKnown_def cachedWellKnown_def
     ft_now_def ft_get_def run_state_bind grace_def go_div_def sample_library_def)

theorem RoundTrip_target_witness:
  "target_of sample_library ''m.b'' \<lparr>dt_host = ''m.b'', dt_port = 0, dt_explicit = False\<rparr>"
proof -
  let ?r = "run_state (RoundTrip sample_library ''matrix-federation'' ''a.b'') fresh_world"
  have "?r = (Sent ''https'' ''m.b'' \<lparr>dt_host = ''m.b'', dt_port = 0, dt_explicit = False\<rparr>, snd ?r)"
    using delegated_trip by (metis prod.collapse)
  moreover have "ft_ok fresh_world" "ft_pinned fresh_world ''a.b'' = None"
    using fresh_world_ok by (simp_all add: fresh_world_def outage_world_def)
  ultimately show ?thesis using RoundTrip_target by blast
qed

end
