(* ===== verification/Proxy.thy ===== *)
theory Proxy
  imports Config Reqlog Serve
begin

text \<open>
  src/proxy.go: handing a request to one of several Synapse workers. The state of a proxy is its endpoints
  with their counts of requests in flight and the counter of the rotation. \<open>RoundTrip\<close> is the code's loop;
  \<open>proxy_step\<close> lets any number of requests take its steps in any order. \<^verbatim>\<open>httputil.ReverseProxy\<close> is a
  library: what it is given is modelled, the choice of the endpoint, the forwarded headers and the reply to
  a failure.
\<close>

section \<open>Endpoints\<close>

record upstreamEndpoint =
  ep_name :: string
  ep_scheme :: string
  ep_host :: string
  ep_socket :: string

text \<open>The errors of a transport: one of the operating system's, with its operation, or another.\<close>

datatype net_error = OpError string | OtherError

datatype px_error = NoUpstream | UpstreamError net_error

text \<open>The record holds what the proxy counts and, in \<open>px_sent\<close>, the requests its transports were given:
  the endpoint and the scheme and host of the URL.\<close>

record proxy =
  px_endpoints :: "upstreamEndpoint list"
  px_inflight :: "int list"
  px_rr :: "64 word"
  px_counts :: "(string \<times> string) list"
  px_sent :: "(nat \<times> string \<times> string) list"

definition trim_slashes :: "string \<Rightarrow> string" where
  "trim_slashes s = rev (dropWhile (\<lambda>c. c = CHR ''/'') (rev s))"

text \<open>\<open>parse\<close> is \<^verbatim>\<open>url.Parse\<close>, as scheme and host.\<close>

definition newUpstreamEndpoint :: "(string \<Rightarrow> (string \<times> string) option) \<Rightarrow> UpstreamEndpoint \<Rightarrow> upstreamEndpoint res" where
  "newUpstreamEndpoint parse e =
     (let base = (if ue_Socket e \<noteq> '''' then ''http://synapse'' else ue_URL e) in
      case parse (trim_slashes base) of
        None \<Rightarrow> Inl (ErrConfig ''parsing upstream url'')
      | Some (scheme, host) \<Rightarrow>
          Inr \<lparr>ep_name = endpoint_name e, ep_scheme = scheme, ep_host = host, ep_socket = ue_Socket e\<rparr>)"

primrec new_endpoints :: "(string \<Rightarrow> (string \<times> string) option) \<Rightarrow> UpstreamEndpoint list \<Rightarrow> upstreamEndpoint list res" where
  "new_endpoints parse [] = Inr []"
| "new_endpoints parse (e # es) =
     (case newUpstreamEndpoint parse e of
        Inl err \<Rightarrow> Inl err
      | Inr ep \<Rightarrow> (case new_endpoints parse es of Inl err \<Rightarrow> Inl err | Inr eps \<Rightarrow> Inr (ep # eps)))"

definition NewProxy :: "(string \<Rightarrow> (string \<times> string) option) \<Rightarrow> UpstreamTarget \<Rightarrow> proxy res" where
  "NewProxy parse t =
     (let endpoints = Endpoints t in
      if endpoints = [] then Inl (ErrConfig ''upstream has neither socket nor url'')
      else (case new_endpoints parse endpoints of
        Inl err \<Rightarrow> Inl err
      | Inr eps \<Rightarrow> Inr \<lparr>px_endpoints = eps, px_inflight = replicate (length eps) 0, px_rr = 0, px_counts = [], px_sent = []\<rparr>))"

definition Target :: "proxy \<Rightarrow> string" where
  "Target p = join_with '', '' (map ep_name (px_endpoints p))"

section \<open>The choice of an endpoint\<close>

text \<open>The endpoints in the order of one pass: 64-bit arithmetic, so the sum wraps.\<close>

definition pick_order :: "64 word \<Rightarrow> nat \<Rightarrow> nat list" where
  "pick_order offset n = map (\<lambda>i. unat ((offset + of_nat i) mod of_nat n)) [0..<n]"

fun pick_scan :: "int list \<Rightarrow> nat list \<Rightarrow> nat list \<Rightarrow> nat option \<Rightarrow> nat option" where
  "pick_scan loads excluded [] best = best"
| "pick_scan loads excluded (i # is) best =
     pick_scan loads excluded is
       (if i \<in> set excluded then best
        else case best of
          None \<Rightarrow> Some i
        | Some b \<Rightarrow> if loads ! i < loads ! b then Some i else best)"

definition pick :: "nat list \<Rightarrow> proxy \<Rightarrow> nat option \<times> proxy" where
  "pick excluded p =
     (let offset = px_rr p + 1
      in (pick_scan (px_inflight p) excluded (pick_order offset (length (px_endpoints p))) None, p\<lparr>px_rr := offset\<rparr>))"

definition isConnectError :: "net_error \<Rightarrow> bool" where
  "isConnectError e = (case e of OpError op \<Rightarrow> op = ''dial'' | OtherError \<Rightarrow> False)"

definition add_inflight :: "nat \<Rightarrow> int \<Rightarrow> proxy \<Rightarrow> proxy" where
  "add_inflight i d p = p\<lparr>px_inflight := (px_inflight p)[i := px_inflight p ! i + d]\<rparr>"

definition count_request :: "nat \<Rightarrow> string \<Rightarrow> proxy \<Rightarrow> proxy" where
  "count_request i outcome p = p\<lparr>px_counts := px_counts p @ [(ep_name (px_endpoints p ! i), outcome)]\<rparr>"

text \<open>One round of the loop up to the transport, and from its answer on.\<close>

definition start_attempt :: "nat list \<Rightarrow> proxy \<Rightarrow> nat option \<times> proxy" where
  "start_attempt tried p =
     (case pick tried p of
        (None, p') \<Rightarrow> (None, p')
      | (Some i, p') \<Rightarrow>
          (let ep = px_endpoints p' ! i; p'' = add_inflight i 1 p'
           in (Some i, p''\<lparr>px_sent := px_sent p'' @ [(i, ep_scheme ep, ep_host ep)]\<rparr>)))"

definition failed_attempt :: "nat \<Rightarrow> proxy \<Rightarrow> proxy" where
  "failed_attempt i p = count_request i ''error'' (add_inflight i (-1) p)"

definition answered_attempt :: "nat \<Rightarrow> proxy \<Rightarrow> proxy" where
  "answered_attempt i p = count_request i ''ok'' p"

definition last_error :: "net_error option \<Rightarrow> px_error" where
  "last_error e = (case e of None \<Rightarrow> NoUpstream | Some e \<Rightarrow> UpstreamError e)"

text \<open>The loop, with the answers of the transports in order (\<open>None\<close> is a response); a response is the
  endpoint its body will be released at.\<close>

primrec dispatch_rounds :: "nat \<Rightarrow> nat list \<Rightarrow> net_error option \<Rightarrow> net_error option list \<Rightarrow> proxy \<Rightarrow> (px_error + nat) \<times> proxy" where
  "dispatch_rounds 0 tried lastErr answers p = (Inl (last_error lastErr), p)"
| "dispatch_rounds (Suc n) tried lastErr answers p =
     (case start_attempt tried p of
        (None, p') \<Rightarrow> (Inl (last_error lastErr), p')
      | (Some i, p') \<Rightarrow>
          (case (case answers of [] \<Rightarrow> Some OtherError | a # as \<Rightarrow> a) of
             None \<Rightarrow> (Inr i, answered_attempt i p')
           | Some e \<Rightarrow>
               (if \<not> isConnectError e then (Inl (UpstreamError e), failed_attempt i p')
                else dispatch_rounds n (i # tried) (Some e) (tl answers) (failed_attempt i p'))))"

definition px_RoundTrip :: "net_error option list \<Rightarrow> proxy \<Rightarrow> (px_error + nat) \<times> proxy" where
  "px_RoundTrip answers p = dispatch_rounds (length (px_endpoints p)) [] None answers p"

section \<open>The body of a response\<close>

record releasingBody =
  rb_endpoint :: nat
  rb_released :: bool

definition close_body :: "releasingBody \<Rightarrow> proxy \<Rightarrow> releasingBody \<times> proxy" where
  "close_body b p =
     (if rb_released b then (b, p) else (b\<lparr>rb_released := True\<rparr>, add_inflight (rb_endpoint b) (-1) p))"

section \<open>The reply to a failure, and the forwarded headers\<close>

definition proxy_error :: "unit io" where
  "proxy_error = writeMatrixError 502 ''M_UNKNOWN'' ''Media worker could not reach the homeserver''"

text \<open>The headers of the outgoing request, from which \<^verbatim>\<open>ReverseProxy\<close> has removed the forwarded ones.\<close>

definition forwardXForwardedFor :: "request \<Rightarrow> headers \<Rightarrow> headers" where
  "forwardXForwardedFor r out =
     (let prior = rheader r ''X-Forwarded-For'';
          out1 = (case split_host (rq_remote r) of
             Some ip \<Rightarrow>
               (if prior \<noteq> '''' then hset ''X-Forwarded-For'' (prior @ '', '' @ ip) out
                else hset ''X-Forwarded-For'' ip out)
           | None \<Rightarrow> (if prior \<noteq> '''' then hset ''X-Forwarded-For'' prior out else out));
          out2 = hset ''X-Forwarded-Host''
            (if rheader r ''X-Forwarded-Host'' \<noteq> '''' then rheader r ''X-Forwarded-Host'' else rq_host r) out1
      in hset ''X-Forwarded-Proto''
           (if rheader r ''X-Forwarded-Proto'' \<noteq> '''' then rheader r ''X-Forwarded-Proto''
            else if rq_tls r then ''https'' else ''http'') out2)"

definition forwarded_headers :: "headers \<Rightarrow> headers" where
  "forwarded_headers h = hdel ''Forwarded'' (hdel ''X-Forwarded-For'' (hdel ''X-Forwarded-Host'' (hdel ''X-Forwarded-Proto'' h)))"

text \<open>The request as it leaves: the host is the one that was asked for.\<close>

definition rewritten :: "request \<Rightarrow> request" where
  "rewritten r = r\<lparr>rq_headers := forwardXForwardedFor r (forwarded_headers (rq_headers r))\<rparr>"

section \<open>Many requests\<close>

text \<open>Where a request stands: between two rounds, with the endpoints it tried, its last error and the rounds
  that are left; with a transport; with a response whose body is open; done; or failed.\<close>

datatype px_phase =
    Trying "nat list" "net_error option" nat
  | InFlight nat "nat list" nat
  | Reading nat
  | Finished nat
  | Failed px_error

inductive proxy_step :: "proxy \<times> px_phase list \<Rightarrow> proxy \<times> px_phase list \<Rightarrow> bool" where
  arrive: "proxy_step (p, qs) (p, qs @ [Trying [] None (length (px_endpoints p))])"
| attempt: "k < length qs \<Longrightarrow> qs ! k = Trying tried e (Suc n) \<Longrightarrow> start_attempt tried p = (Some i, p') \<Longrightarrow>
    proxy_step (p, qs) (p', qs[k := InFlight i (i # tried) n])"
| none_left: "k < length qs \<Longrightarrow> qs ! k = Trying tried e (Suc n) \<Longrightarrow> start_attempt tried p = (None, p') \<Longrightarrow>
    proxy_step (p, qs) (p', qs[k := Failed (last_error e)])"
| rounds_over: "k < length qs \<Longrightarrow> qs ! k = Trying tried e 0 \<Longrightarrow>
    proxy_step (p, qs) (p, qs[k := Failed (last_error e)])"
| answered: "k < length qs \<Longrightarrow> qs ! k = InFlight i tried n \<Longrightarrow>
    proxy_step (p, qs) (answered_attempt i p, qs[k := Reading i])"
| unreachable: "k < length qs \<Longrightarrow> qs ! k = InFlight i tried n \<Longrightarrow> isConnectError e \<Longrightarrow>
    proxy_step (p, qs) (failed_attempt i p, qs[k := Trying tried (Some e) n])"
| broken: "k < length qs \<Longrightarrow> qs ! k = InFlight i tried n \<Longrightarrow> \<not> isConnectError e \<Longrightarrow>
    proxy_step (p, qs) (failed_attempt i p, qs[k := Failed (UpstreamError e)])"
| closed: "k < length qs \<Longrightarrow> qs ! k = Reading i \<Longrightarrow>
    proxy_step (p, qs) (snd (close_body \<lparr>rb_endpoint = i, rb_released = False\<rparr> p), qs[k := Finished i])"
| closed_again: "k < length qs \<Longrightarrow> qs ! k = Finished i \<Longrightarrow>
    proxy_step (p, qs) (snd (close_body \<lparr>rb_endpoint = i, rb_released = True\<rparr> p), qs)"

inductive_cases proxy_stepE: "proxy_step (p, qs) s'"

end
