(* ===== verification/Useragent.thy ===== *)
theory Useragent
  imports Config Http
begin

text \<open>
  src/useragent.go: the User-Agent of outbound requests, which follows the version of the homeserver. A
  transport is the list of the wrappers around it, the outermost first; each sets the header, so the
  innermost is the one the peer sees. What the homeserver reports is a parameter, in the order it is asked;
  where the list ends, so does the process. The lemmas say which agent a request carries and that a failed
  refresh never loses what is known.
\<close>

section \<open>Model\<close>

definition synapseUserAgentFallback :: string where
  "synapseUserAgentFallback = ''Synapse''"

record UserAgent =
  ua_base :: string
  ua_suffix :: string
  ua_fixed :: bool

definition NewUserAgent :: "string \<Rightarrow> string \<Rightarrow> UserAgent" where
  "NewUserAgent given suffix =
     \<lparr>ua_base = (if given \<noteq> '''' then given else synapseUserAgentFallback),
      ua_suffix = suffix, ua_fixed = (given \<noteq> '''')\<rparr>"

definition Federation :: "UserAgent \<Rightarrow> string" where
  "Federation u = ua_base u"

definition External :: "UserAgent \<Rightarrow> string" where
  "External u = (if ua_suffix u = '''' then Federation u else Federation u @ '' '' @ ua_suffix u)"

definition ua_set :: "string \<Rightarrow> UserAgent \<Rightarrow> bool \<times> UserAgent" where
  "ua_set b u = (ua_base u \<noteq> b, u\<lparr>ua_base := b\<rparr>)"

subsection \<open>Transports\<close>

datatype wrapper = FederationAgent | ExternalAgent

definition agent_of :: "wrapper \<Rightarrow> UserAgent \<Rightarrow> string" where
  "agent_of k u = (case k of FederationAgent \<Rightarrow> Federation u | ExternalAgent \<Rightarrow> External u)"

definition userAgent_RoundTrip :: "UserAgent \<Rightarrow> wrapper \<Rightarrow> headers \<Rightarrow> headers" where
  "userAgent_RoundTrip u k h = hset ''User-Agent'' (agent_of k u) h"

definition sent_headers :: "UserAgent \<Rightarrow> wrapper list \<Rightarrow> headers \<Rightarrow> headers" where
  "sent_headers u ks h = fold (userAgent_RoundTrip u) ks h"

text \<open>The federation client: its signed and its plain requests, the look-ups of its transport (where that is
  ours), and its own idea of the agent.\<close>

record fed_client =
  fc_HTTP :: "wrapper list"
  fc_ExtHTTP :: "wrapper list"
  fc_WellKnown :: "wrapper list option"
  fc_UserAgent :: string

definition InstallUserAgent :: "fed_client \<Rightarrow> fed_client" where
  "InstallUserAgent c =
     c\<lparr>fc_WellKnown := (if fc_HTTP c = [] then map_option (\<lambda>_. ExternalAgent # fc_ExtHTTP c) (fc_WellKnown c) else fc_WellKnown c),
       fc_HTTP := FederationAgent # fc_HTTP c,
       fc_ExtHTTP := ExternalAgent # fc_ExtHTTP c,
       fc_UserAgent := synapseUserAgentFallback\<rparr>"

subsection \<open>The version of the homeserver\<close>

text \<open>What \<^verbatim>\<open>client.Version\<close> returns: an error, nothing, or the name and the version.\<close>

type_synonym version_reply = "err + (string \<times> string) option"

definition discoverSynapseUserAgent :: "version_reply \<Rightarrow> string res" where
  "discoverSynapseUserAgent r =
     (case r of
        Inl e \<Rightarrow> Inl e
      | Inr None \<Rightarrow> Inl ErrNotFound
      | Inr (Some (name, version)) \<Rightarrow>
          (if name = '''' \<or> version = '''' then Inl ErrNotFound else Inr (name @ ''/'' @ version)))"

definition refresh_attempt :: "version_reply \<Rightarrow> UserAgent \<Rightarrow> bool \<times> UserAgent" where
  "refresh_attempt r u =
     (case discoverSynapseUserAgent r of
        Inl e \<Rightarrow> (False, u)
      | Inr b \<Rightarrow> (True, snd (ua_set b u)))"

text \<open>The goroutine, with the waits it makes.\<close>

definition refresh_wait :: "bool \<Rightarrow> int" where
  "refresh_wait ok = (if \<not> ok then Minute else Hour)"

fun refresh_loop :: "bool \<Rightarrow> version_reply list \<Rightarrow> UserAgent \<Rightarrow> int list \<times> UserAgent" where
  "refresh_loop ok [] u = ([refresh_wait ok], u)"
| "refresh_loop ok (r # rs) u =
     (case refresh_attempt r u of (found, u') \<Rightarrow>
        (case refresh_loop (found \<or> ok) rs u' of (waits, u'') \<Rightarrow> (refresh_wait ok # waits, u'')))"

definition RefreshUserAgent :: "version_reply \<Rightarrow> version_reply list \<Rightarrow> UserAgent \<Rightarrow> int list \<times> UserAgent" where
  "RefreshUserAgent first rs u =
     (if ua_fixed u then ([], u)
      else (case refresh_attempt first u of (ok, u') \<Rightarrow> refresh_loop ok rs u'))"

section \<open>Which agent a request carries\<close>

lemma sent_innermost: "ks \<noteq> [] \<Longrightarrow> hget (sent_headers u ks h) ''User-Agent'' = agent_of (last ks) u"
  by (induction ks rule: rev_induct) (simp_all add: sent_headers_def userAgent_RoundTrip_def)

definition fresh_client :: fed_client where
  "fresh_client = \<lparr>fc_HTTP = [], fc_ExtHTTP = [], fc_WellKnown = Some [], fc_UserAgent = ''mautrix''\<rparr>"

text \<open>What is known after the replies: the last good one, else what was known before.\<close>

fun latest :: "string \<Rightarrow> version_reply list \<Rightarrow> string" where
  "latest known [] = known"
| "latest known (r # rs) = latest (case discoverSynapseUserAgent r of Inl e \<Rightarrow> known | Inr b \<Rightarrow> b) rs"

lemma refresh_attempt_base:
  "refresh_attempt r u = (is_ok (discoverSynapseUserAgent r), u\<lparr>ua_base := latest (ua_base u) [r]\<rparr>)"
  by (auto simp: refresh_attempt_def ua_set_def split: sum.split)

definition good :: "version_reply \<Rightarrow> bool" where
  "good r \<longleftrightarrow> is_ok (discoverSynapseUserAgent r)"

lemma refresh_loop_state:
  "refresh_loop ok rs u =
     (map (\<lambda>i. if ok \<or> list_ex good (take i rs) then Hour else Minute) [0..<Suc (length rs)],
      u\<lparr>ua_base := latest (ua_base u) rs\<rparr>)"
proof (induction ok rs u rule: refresh_loop.induct)
  case (2 ok r rs u)
  have "[0..<Suc (length (r # rs))] = 0 # map Suc [0..<Suc (length rs)]"
    using map_Suc_upt [of 0 "Suc (length rs)"] by (simp add: upt_rec del: upt_Suc)
  then show ?case
    using 2 by (simp add: refresh_attempt_base good_def refresh_wait_def comp_def disj_ac del: upt_Suc)
qed (simp add: refresh_wait_def)

text \<open>The worker's agent follows the homeserver's version. A configured agent is never replaced; otherwise it is
  the last one the homeserver reported, a failed refresh leaves it as it was, and the worker asks again after a
  minute until it first knows the version and every hour from then on. Signed requests carry it bare, look-ups
  and plain requests with the suffix.\<close>

theorem user_agent_follows:
  "(given \<noteq> '''' \<longrightarrow> RefreshUserAgent first rs (NewUserAgent given suffix) = ([], NewUserAgent given suffix)) \<and>
   (given = '''' \<longrightarrow> RefreshUserAgent first rs (NewUserAgent given suffix) =
      (map (\<lambda>i. if list_ex good (first # take i rs) then Hour else Minute) [0..<Suc (length rs)],
       \<lparr>ua_base = latest synapseUserAgentFallback (first # rs), ua_suffix = suffix, ua_fixed = False\<rparr>)) \<and>
   (let c = InstallUserAgent fresh_client in
      hget (sent_headers u (fc_HTTP c) h) ''User-Agent'' = Federation u \<and>
      hget (sent_headers u (fc_ExtHTTP c) h) ''User-Agent'' = External u \<and>
      (\<forall>ks. fc_WellKnown c = Some ks \<longrightarrow> hget (sent_headers u ks h) ''User-Agent'' = External u))"
  by (simp add: RefreshUserAgent_def NewUserAgent_def refresh_attempt_base refresh_loop_state InstallUserAgent_def
      fresh_client_def sent_innermost agent_of_def good_def Let_def del: upt_Suc)

theorem user_agent_follows_witness:
  "RefreshUserAgent (Inl ErrIO) [Inr (Some (''Synapse'', ''1.2''))] (NewUserAgent '''' '''') =
     ([Minute, Hour], \<lparr>ua_base = ''Synapse/1.2'', ua_suffix = '''', ua_fixed = False\<rparr>) \<and>
   RefreshUserAgent (Inl ErrIO) [] (NewUserAgent ''x'' '''') = ([], NewUserAgent ''x'' '''')"
  using user_agent_follows [of "''''" "Inl ErrIO" "[Inr (Some (''Synapse'', ''1.2''))]" "''''"]
    user_agent_follows [of "''x''" "Inl ErrIO" "[]" "''''"]
  by (simp add: good_def discoverSynapseUserAgent_def)

end
