(* ===== verification/Startup.thy ===== *)
theory Startup
  imports Proxy Useragent Server
begin

text \<open>
  src/main.go up to the ready worker, but for its routes (theory Routes): the checks before it serves, the
  assembly of its server from the configuration, its listener, its signing key and the sweep of abandoned
  temporary files. What the process finds outside (directories, sockets, the database, the key file and the
  libraries that parse) is in \<open>surroundings\<close>; the media store is the world's. How a run ends is in theory
  Shutdown.
\<close>

section \<open>The media store\<close>

record socket_state =
  so_entry :: "bool option res"  \<comment> \<open>\<^verbatim>\<open>os.Stat\<close>: nothing there, a socket or something else, or another error\<close>
  so_answers :: bool
  so_removed :: "unit res"
  so_bound :: "unit res"
  so_chmod :: "unit res"

text \<open>An entry of a directory: its name, whether it is a directory, and its time of modification where
  \<^verbatim>\<open>Info\<close> still finds it.\<close>

record dir_entry =
  de_name :: string
  de_isdir :: bool
  de_mtime :: "int option"

record ('k, 'i) surroundings =
  su_cwd :: "string option"
  su_stat :: "string \<Rightarrow> bool res"
  su_openable :: "string \<Rightarrow> bool"
  su_database :: "unit res"
  su_url :: "string \<Rightarrow> (string \<times> string) option"
  su_keyfile :: "string \<Rightarrow> string res"
  su_key :: "string \<Rightarrow> 'k option"
  su_imaging :: "'i imaging"
  su_version :: version_reply
  su_socket :: socket_state
  su_listing :: "string \<Rightarrow> dir_entry list res"

definition checkMediaStore :: "('k, 'i) surroundings \<Rightarrow> string \<Rightarrow> unit res" where
  "checkMediaStore E path =
     (case su_stat E path of
        Inl e \<Rightarrow> Inl e
      | Inr isDir \<Rightarrow>
          (if \<not> isDir then Inl (ErrConfig ''not a directory'')
           else if \<not> su_openable E path then Inl ErrIO else Inr ()))"

abbreviation fails :: "err \<Rightarrow> 'a res io" where
  "fails e \<equiv> State_Monad.return (Inl e)"

definition checkMediaStoreWritable :: "string \<Rightarrow> unit res io" where
  "checkMediaStoreWritable b =
     (let dir = path_join [b, ''remote_content''] in
      attempt (os_mkdir_all dir) fails (\<lambda>_.
      attempt (os_create_temp dir ''.writable-probe-'') fails (\<lambda>name. do {
        _ \<leftarrow> os_close name;
        attempt (os_remove name) fails (\<lambda>_. State_Monad.return (Inr ())) })))"

section \<open>The upstreams\<close>

fun check_endpoints :: "string option \<Rightarrow> UpstreamEndpoint list \<Rightarrow> ListenConfig \<Rightarrow> unit res" where
  "check_endpoints cwd [] listen = Inr ()"
| "check_endpoints cwd (e # es) listen =
     (if ue_Socket e \<noteq> '''' \<and> lc_Socket listen \<noteq> '''' \<and> cleanAbs cwd (ue_Socket e) = cleanAbs cwd (lc_Socket listen)
        then Inl (ErrConfig ''upstream is this worker's own listen socket'')
      else if ue_URL e \<noteq> '''' \<and> lc_Addr listen \<noteq> '''' \<and> has_suffix (lc_Addr listen) (ue_URL e)
        then Inl (ErrConfig ''upstream appears to be this worker's own address'')
      else check_endpoints cwd es listen)"

definition checkNotSelf :: "string option \<Rightarrow> UpstreamTarget \<Rightarrow> ListenConfig \<Rightarrow> unit res" where
  "checkNotSelf cwd t listen = check_endpoints cwd (Endpoints t) listen"

definition upstream_proxy :: "('k, 'i) surroundings \<Rightarrow> UpstreamTarget \<Rightarrow> proxy option res" where
  "upstream_proxy E t = (if configured t then map_sum id Some (NewProxy (su_url E) t) else Inr None)"

text \<open>Passthrough falls back on the download upstream.\<close>

definition passthrough_target :: "UpstreamConfig \<Rightarrow> UpstreamTarget" where
  "passthrough_target u = (if \<not> configured (uc_Passthrough u) then uc_Download u else uc_Passthrough u)"

definition passthrough_proxy :: "('k, 'i) surroundings \<Rightarrow> Config \<Rightarrow> proxy option res" where
  "passthrough_proxy E cfg =
     (let t = passthrough_target (cfg_Upstream cfg) in
      if configured t then
        (case checkNotSelf (su_cwd E) t (cfg_Listen cfg) of
           Inl e \<Rightarrow> Inl e
         | Inr _ \<Rightarrow> map_sum id Some (NewProxy (su_url E) t))
      else Inr None)"

section \<open>The signing key\<close>

fun key_loop :: "(string \<Rightarrow> 'k option) \<Rightarrow> string list \<Rightarrow> 'k option \<Rightarrow> nat \<Rightarrow> ('k option \<times> nat) res" where
  "key_loop parse [] first n = Inr (first, n)"
| "key_loop parse (l # ls) first n =
     (let line = trim_space l in
      if line = '''' \<or> has_prefix ''#'' line then key_loop parse ls first n
      else (case parse line of
        None \<Rightarrow> Inl (ErrConfig ''parsing signing key'')
      | Some key \<Rightarrow> key_loop parse ls (if first = None then Some key else first) (Suc n)))"

definition loadSigningKey :: "('k, 'i) surroundings \<Rightarrow> string \<Rightarrow> ('k \<times> nat) res" where
  "loadSigningKey E path =
     (case su_keyfile E path of
        Inl e \<Rightarrow> Inl e
      | Inr raw \<Rightarrow>
          (case key_loop (su_key E) (split_on lf raw) None 0 of
             Inl e \<Rightarrow> Inl e
           | Inr (None, n) \<Rightarrow> Inl (ErrConfig ''signing key file contains no keys'')
           | Inr (Some key, n) \<Rightarrow> Inr (key, n)))"

text \<open>\<^verbatim>\<open>newFederationAuth\<close>: the client and the verifier are mautrix's; what they are given is the key.\<close>

definition newFederationAuth :: "('k, 'i) surroundings \<Rightarrow> Config \<Rightarrow> 'k res" where
  "newFederationAuth E cfg =
     (if mc_SigningKeyPath (cfg_Media cfg) = '''' then Inl (ErrConfig ''media.signing_key_path'')
      else map_sum id fst (loadSigningKey E (mc_SigningKeyPath (cfg_Media cfg))))"

section \<open>The listener\<close>

datatype listen_action = RemovedSocket string | Bound string string | Chmodded string nat | Closed

definition removeStaleSocket :: "socket_state \<Rightarrow> string \<Rightarrow> unit res \<times> listen_action list" where
  "removeStaleSocket so path =
     (case so_entry so of
        Inr None \<Rightarrow> (Inr (), [])
      | Inl e \<Rightarrow> (Inl e, [])
      | Inr (Some isSocket) \<Rightarrow>
          (if \<not> isSocket then (Inl (ErrConfig ''exists and is not a socket''), [])
           else if so_answers so then (Inl (ErrConfig ''already in use by a running process''), [])
           else (case so_removed so of Inl e \<Rightarrow> (Inl e, []) | Inr _ \<Rightarrow> (Inr (), [RemovedSocket path]))))"

definition makeListener :: "socket_state \<Rightarrow> ListenConfig \<Rightarrow> unit res \<times> listen_action list" where
  "makeListener so cfg =
     (if lc_Socket cfg = '''' then
        (case so_bound so of Inl e \<Rightarrow> (Inl e, []) | Inr _ \<Rightarrow> (Inr (), [Bound ''tcp'' (lc_Addr cfg)]))
      else if length (lc_Socket cfg) > 107 then (Inl (ErrConfig ''socket path too long''), [])
      else (case removeStaleSocket so (lc_Socket cfg) of
        (Inl e, acts) \<Rightarrow> (Inl e, acts)
      | (Inr _, acts) \<Rightarrow>
          (case so_bound so of
             Inl e \<Rightarrow> (Inl e, acts)
           | Inr _ \<Rightarrow>
               (let mode = (if lc_SocketMode cfg = 0 then 438 else lc_SocketMode cfg);
                    acts = acts @ [Bound ''unix'' (lc_Socket cfg)] in
                case so_chmod so of
                  Inl e \<Rightarrow> (Inl e, acts @ [Closed])
                | Inr _ \<Rightarrow> (Inr (), acts @ [Chmodded (lc_Socket cfg) mode])))))"

definition describeListener :: "ListenConfig \<Rightarrow> string" where
  "describeListener cfg = (if lc_Socket cfg \<noteq> '''' then ''unix:'' @ lc_Socket cfg else lc_Addr cfg)"

section \<open>Abandoned temporary files\<close>

text \<open>The files removed and looked at.\<close>

fun sweep_dir :: "string \<Rightarrow> dir_entry list \<Rightarrow> (nat \<times> nat) io" where
  "sweep_dir dir [] = State_Monad.return (0, 0)"
| "sweep_dir dir (e # es) =
     (if de_isdir e then sweep_dir dir es
      else do {
        now \<leftarrow> (case de_mtime e of None \<Rightarrow> State_Monad.return 0 | Some _ \<Rightarrow> go_now);
        gone \<leftarrow> (case de_mtime e of
            None \<Rightarrow> State_Monad.return False
          | Some t \<Rightarrow>
              (if now - t < Hour then State_Monad.return False
               else do { r \<leftarrow> os_remove (path_join [dir, de_name e]); State_Monad.return (is_ok r) }));
        (removed, scanned) \<leftarrow> sweep_dir dir es;
        State_Monad.return (removed + (if gone then 1 else 0), Suc scanned) })"

fun sweep_dirs :: "(string \<Rightarrow> dir_entry list res) \<Rightarrow> string list \<Rightarrow> (nat \<times> nat) io" where
  "sweep_dirs listing [] = State_Monad.return (0, 0)"
| "sweep_dirs listing (dir # dirs) =
     (case listing dir of
        Inl e \<Rightarrow> do {
          (if e \<noteq> ErrNotExist then log_note [''log'', ''Could not list temporary files'', dir] else skip);
          sweep_dirs listing dirs }
      | Inr entries \<Rightarrow> do {
          (r1, s1) \<leftarrow> sweep_dir dir entries;
          (r2, s2) \<leftarrow> sweep_dirs listing dirs;
          State_Monad.return (r1 + r2, s1 + s2) })"

definition sweepStaleTempFiles :: "(string \<Rightarrow> dir_entry list res) \<Rightarrow> MediaPaths \<Rightarrow> (nat \<times> nat) io" where
  "sweepStaleTempFiles listing p = sweep_dirs listing (TempDirs p)"

section \<open>The server\<close>

text \<open>The part of \<^verbatim>\<open>run\<close> before it serves: the server it assembles, the key it signs with, and the proxies
  behind the server's four flags.\<close>

record ('k, 'i) assembled =
  as_server :: "'i Server"
  as_key :: 'k
  as_download :: "proxy option"
  as_upload :: "proxy option"
  as_thumbnail :: "proxy option"
  as_passthrough :: "proxy option"
  as_agent :: UserAgent

definition check_if :: "bool \<Rightarrow> unit res io \<Rightarrow> unit res io" where
  "check_if c m = (if c then m else State_Monad.return (Inr ()))"

definition set_auth :: "TokenAuthenticator \<Rightarrow> unit io" where
  "set_auth a = State (\<lambda>w. ((), w\<lparr>w_auth := a\<rparr>))"

definition assemble :: "('k, 'i) surroundings \<Rightarrow> Config \<Rightarrow> ('k, 'i) assembled res io" where
  "assemble E cfg =
     (let media = cfg_Media cfg; u = cfg_Upstream cfg in
      attempt (State_Monad.return (checkMediaStore E (mc_StorePath media))) fails (\<lambda>_.
      attempt (State_Monad.return (su_database E)) fails (\<lambda>_.
      attempt (NewThumbnailCache (su_cwd E) (cfg_Cache cfg)) fails (\<lambda>cache.
      attempt (State_Monad.return (NewTokenAuthenticator (cfg_Auth cfg))) fails (\<lambda>auth. do {
      set_auth auth;
      attempt (State_Monad.return (upstream_proxy E (uc_Download u))) fails (\<lambda>download.
      attempt (State_Monad.return (upstream_proxy E (uc_Upload u))) fails (\<lambda>upload.
      attempt (State_Monad.return (upstream_proxy E (uc_Thumbnail u))) fails (\<lambda>thumbnail.
      attempt (State_Monad.return (passthrough_proxy E cfg)) fails (\<lambda>passthrough.
      attempt (State_Monad.return (newFederationAuth E cfg)) fails (\<lambda>key.
      attempt (check_if (mc_FetchRemote media) (checkMediaStoreWritable (mc_StorePath media))) fails (\<lambda>_.
      attempt (check_if (UploadsAccepted media) (checkMediaStoreWritable (mc_StorePath media))) fails (\<lambda>_.
      (let paths = NewMediaPaths (su_cwd E) (mc_StorePath media) in
       State_Monad.return (Inr \<lparr>as_server =
           \<lparr>sv_cfg = cfg, sv_paths = (if UploadsAccepted media then AllowUploadWrites paths else paths), sv_cache = cache,
            sv_maxImagePixels = MaxImagePixelsOrDefault media, sv_imaging = su_imaging E,
            sv_remote = (if mc_FetchRemote media
              then Some \<lparr>rf_fetcher = NewFetcher (MaxUploadSizeOrDefault media) (mc_FetchTimeout media),
                rf_authenticated = AuthenticatedMedia media\<rparr> else None),
            sv_uploader = UploadsAccepted media, sv_downloadUp = (download \<noteq> None), sv_thumbnailUp = (thumbnail \<noteq> None),
            sv_uploadUp = (upload \<noteq> None), sv_passthroughUp = (passthrough \<noteq> None)\<rparr>,
         as_key = key, as_download = download, as_upload = upload, as_thumbnail = thumbnail, as_passthrough = passthrough,
         as_agent = NewUserAgent (mc_UserAgent media) (mc_UserAgentSuffix media)\<rparr>))))))))) })))))"

text \<open>From there until the worker is ready, with the first look-up of the homeserver's version; the goroutines
  it starts (the janitor, the later look-ups) are noted.\<close>

definition serve_from :: "('k, 'i) surroundings \<Rightarrow> Config \<Rightarrow> ('k, 'i) assembled \<Rightarrow> ('k, 'i) assembled res io" where
  "serve_from E cfg a =
     (let a = a\<lparr>as_agent := snd (RefreshUserAgent (su_version E) [] (as_agent a))\<rparr> in do {
        log_note [''go'', ''RunJanitor''];
        attempt (State_Monad.return (fst (makeListener (su_socket E) (cfg_Listen cfg)))) fails (\<lambda>_. do {
          log_note [''log'', ''Media worker ready'', describeListener (cfg_Listen cfg), cfg_ServerName cfg];
          (if mc_FetchRemote (cfg_Media cfg) \<or> UploadsAccepted (cfg_Media cfg) then do {
             _ \<leftarrow> sweepStaleTempFiles (su_listing E) (sv_paths (as_server a)); skip }
           else skip);
          State_Monad.return (Inr a) }) })"

end
