(* ===== verification/Proxy_Correct.thy ===== *)
theory Proxy_Correct
  imports Proxy Transitions
begin

text \<open>
  What src/proxy.go promises: an endpoint is chosen that carries the least, the counts of requests in flight
  are exact at every moment of any interleaving, a request is sent again only where no endpoint saw it, and
  the client's address reaches Synapse.
\<close>

section \<open>The choice\<close>

text \<open>The rotation reaches every endpoint as long as its sum does not wrap.\<close>

lemma pick_order_rotation:
  assumes "0 < n" "unat offset + n < 2 ^ 64"
  shows "pick_order offset n = map (\<lambda>i. (unat offset + i) mod n) [0..<n]"
proof -
  have "unat ((offset + of_nat i) mod of_nat n) = (unat offset + i) mod n" if "i < n" for i
  proof -
    from that assms have i: "unat (of_nat i :: 64 word) = i" "unat (of_nat n :: 64 word) = n"
      by (simp_all add: unat_of_nat)
    have "unat (offset + of_nat i) = unat offset + i"
      using i assms that by (subst unat_add_lem [THEN iffD1]) simp_all
    then show ?thesis using i by (simp add: unat_mod_distrib)
  qed
  then show ?thesis by (simp add: pick_order_def)
qed

lemma rotation_set: "0 < n \<Longrightarrow> set (map (\<lambda>i. (o' + i) mod n) [0..<n]) = {..<n}" for o' n :: nat
proof -
  assume n: "0 < n"
  have "j \<in> (\<lambda>i. (o' + i) mod n) ` {..<n}" if "j < n" for j
  proof (rule image_eqI [of _ _ "(j + n - o' mod n) mod n"])
    have "(o' + (j + n - o' mod n) mod n) mod n = (o' mod n + (j + n - o' mod n)) mod n"
      by (simp add: mod_simps)
    also have "\<dots> = (j + n) mod n" using n by (simp add: less_imp_le trans_le_add2)
    finally show "j = (o' + (j + n - o' mod n) mod n) mod n" using that by simp
  qed (use n in simp)
  then show ?thesis using n by (auto simp: atLeast0LessThan)
qed

text \<open>A scan keeps the first of the least loaded.\<close>

lemma pick_scan_best:
  "pick_scan loads ex is best = r \<Longrightarrow>
   (case r of
      None \<Rightarrow> best = None \<and> set is \<subseteq> set ex
    | Some b \<Rightarrow> (best = Some b \<or> b \<in> set is - set ex) \<and>
        (\<forall>j \<in> set is - set ex. loads ! b \<le> loads ! j) \<and> (\<forall>b'. best = Some b' \<longrightarrow> loads ! b \<le> loads ! b'))"
proof (induction "is" arbitrary: best)
  case (Cons i "is")
  from Cons.prems have "pick_scan loads ex is (if i \<in> set ex then best
        else case best of None \<Rightarrow> Some i | Some b \<Rightarrow> if loads ! i < loads ! b then Some i else best) = r" by simp
  from Cons.IH [OF this] show ?case
    by (cases best) (force split: option.splits if_splits)+
qed (auto split: option.split)

lemma pick_cases:
  assumes "px_endpoints p \<noteq> []" "unat (px_rr p + 1) + length (px_endpoints p) < 2 ^ 64" "pick ex p = (r, p')"
  shows "p' = p\<lparr>px_rr := px_rr p + 1\<rparr> \<and>
    (case r of
       None \<Rightarrow> {..<length (px_endpoints p)} \<subseteq> set ex
     | Some i \<Rightarrow> i < length (px_endpoints p) \<and> i \<notin> set ex \<and>
         (\<forall>j < length (px_endpoints p). j \<notin> set ex \<longrightarrow> px_inflight p ! i \<le> px_inflight p ! j))"
proof -
  let ?n = "length (px_endpoints p)"
  have n: "0 < ?n" using assms(1) by simp
  have s: "set (pick_order (px_rr p + 1) ?n) = {..<?n}"
    unfolding pick_order_rotation [OF n assms(2)] by (rule rotation_set [OF n])
  have r: "pick_scan (px_inflight p) ex (pick_order (px_rr p + 1) ?n) None = r" "p' = p\<lparr>px_rr := px_rr p + 1\<rparr>"
    using assms(3) by (simp_all add: pick_def Let_def)
  from pick_scan_best [OF r(1)] r(2) show ?thesis unfolding s
    by (auto split: option.splits)
qed

text \<open>The endpoint for a request: one that was not tried yet and that carries no more requests than any other
  such; there is none only where all were tried.\<close>

theorem pick_least_loaded:
  assumes "px_endpoints p \<noteq> []" "unat (px_rr p + 1) + length (px_endpoints p) < 2 ^ 64"
  shows "case fst (pick tried p) of
       None \<Rightarrow> {..<length (px_endpoints p)} \<subseteq> set tried
     | Some i \<Rightarrow> i < length (px_endpoints p) \<and> i \<notin> set tried \<and>
         (\<forall>j < length (px_endpoints p). j \<notin> set tried \<longrightarrow> px_inflight p ! i \<le> px_inflight p ! j)"
  using pick_cases [OF assms, of tried "fst (pick tried p)" "snd (pick tried p)"] by simp

section \<open>The counts of requests in flight\<close>

definition holds :: "nat \<Rightarrow> px_phase \<Rightarrow> bool" where
  "holds i q = (case q of InFlight j tried n \<Rightarrow> j = i | Reading j \<Rightarrow> j = i | _ \<Rightarrow> False)"

lemma holds_simps [simp]:
  "holds i (InFlight j tried n) \<longleftrightarrow> j = i" "holds i (Reading j) \<longleftrightarrow> j = i" "\<not> holds i (Trying tried e n)"
  "\<not> holds i (Finished j)" "\<not> holds i (Failed err)"
  by (simp_all add: holds_def)

definition load :: "px_phase list \<Rightarrow> nat \<Rightarrow> int" where
  "load qs i = int (length (filter (holds i) qs))"

lemma load_simps [simp]: "load [] i = 0" "load (q # qs) i = of_bool (holds i q) + load qs i"
    "load (qs @ rs) i = load qs i + load rs i"
  by (simp_all add: load_def)

lemma load_update:
  "k < length qs \<Longrightarrow> load (qs[k := q]) i = load qs i + of_bool (holds i q) - of_bool (holds i (qs ! k))"
  by (induction qs arbitrary: k) (auto split: nat.splits simp: less_Suc_eq_0_disj)

definition phase_ok :: "nat \<Rightarrow> px_phase \<Rightarrow> bool" where
  "phase_ok n q =
     (case q of
        Trying tried e k \<Rightarrow> distinct tried \<and> set tried \<subseteq> {..<n} \<and> length tried + k = n
      | InFlight i tried k \<Rightarrow> i \<in> set tried \<and> distinct tried \<and> set tried \<subseteq> {..<n} \<and> length tried + k = n
      | Reading i \<Rightarrow> i < n
      | Finished i \<Rightarrow> i < n
      | Failed e \<Rightarrow> True)"

definition proxy_inv :: "upstreamEndpoint list \<Rightarrow> proxy \<times> px_phase list \<Rightarrow> bool" where
  "proxy_inv eps s \<longleftrightarrow> px_endpoints (fst s) = eps \<and> length (px_inflight (fst s)) = length eps \<and>
     (\<forall>i < length eps. px_inflight (fst s) ! i = load (snd s) i) \<and> list_all (phase_ok (length eps)) (snd s)"

lemma pick_order_range: "i \<in> set (pick_order offset n) \<Longrightarrow> i < n"
proof -
  assume "i \<in> set (pick_order offset n)"
  then obtain x :: "64 word" where x: "i = unat (x mod of_nat n)" "0 < n" by (auto simp: pick_order_def)
  show "i < n"
  proof (cases "(of_nat n :: 64 word) = 0")
    case True
    then have "2 ^ 64 dvd n" by (simp add: word_of_nat_eq_0_iff)
    then have "2 ^ 64 \<le> n" using x(2) by (rule dvd_imp_le)
    moreover have "i < 2 ^ 64" using x(1) unsigned_less [of "x mod of_nat n"] by simp
    ultimately show ?thesis by linarith
  next
    case False
    then have "i < unat (of_nat n :: 64 word)" using x(1) by (simp add: unat_mod_distrib unat_gt_0)
    also have "\<dots> \<le> n" by (simp add: unat_of_nat)
    finally show ?thesis .
  qed
qed

lemma start_attempt_cases:
  assumes "start_attempt tried p = (r, p')"
  shows "px_endpoints p' = px_endpoints p \<and> px_rr p' = px_rr p + 1 \<and> px_counts p' = px_counts p \<and>
    (case r of
       None \<Rightarrow> px_inflight p' = px_inflight p \<and> px_sent p' = px_sent p
     | Some i \<Rightarrow> i < length (px_endpoints p) \<and> i \<notin> set tried \<and>
         px_inflight p' = (px_inflight p)[i := px_inflight p ! i + 1] \<and>
         px_sent p' = px_sent p @ [(i, ep_scheme (px_endpoints p ! i), ep_host (px_endpoints p ! i))])"
proof -
  obtain q p1 where q: "pick tried p = (q, p1)" by (cases "pick tried p")
  then have p1: "p1 = p\<lparr>px_rr := px_rr p + 1\<rparr>"
    and s: "pick_scan (px_inflight p) tried (pick_order (px_rr p + 1) (length (px_endpoints p))) None = q"
    by (simp_all add: pick_def Let_def)
  have "i < length (px_endpoints p) \<and> i \<notin> set tried" if "q = Some i" for i
    using pick_scan_best [OF s] that pick_order_range by auto
  with assms q p1 show ?thesis
    by (auto simp: start_attempt_def add_inflight_def Let_def split: option.splits)
qed

lemma load_nonneg: "0 \<le> load qs i"
  by (simp add: load_def)

lemma phase_at: "list_all (phase_ok n) qs \<Longrightarrow> k < length qs \<Longrightarrow> qs ! k = q \<Longrightarrow> phase_ok n q"
  by (auto simp: list_all_length)

lemma phases_update: "list_all (phase_ok n) qs \<Longrightarrow> phase_ok n q \<Longrightarrow> list_all (phase_ok n) (qs[k := q])"
  by (auto simp: list_all_iff dest!: set_update_subset_insert [THEN subsetD])

text \<open>A step that moves one request and shifts one count.\<close>

lemma inv_moved:
  assumes inv: "proxy_inv eps (p, qs)" and k: "k < length qs" and i: "i < length eps"
    and p': "px_endpoints p' = px_endpoints p" "px_inflight p' = (px_inflight p)[i := px_inflight p ! i + d]"
    and d: "\<And>j. of_bool (holds j q) - of_bool (holds j (qs ! k)) = (if j = i then d else 0)"
    and q: "phase_ok (length eps) q"
  shows "proxy_inv eps (p', qs[k := q])"
  using inv i p' q d load_update [OF k, of q]
  by (auto simp: proxy_inv_def nth_list_update phases_update)

lemma inv_still:
  assumes inv: "proxy_inv eps (p, qs)" and k: "k < length qs"
    and p': "px_endpoints p' = px_endpoints p" "px_inflight p' = px_inflight p"
    and d: "\<And>j. holds j q = holds j (qs ! k)" and q: "phase_ok (length eps) q"
  shows "proxy_inv eps (p', qs[k := q])"
  using inv p' q d load_update [OF k, of q] by (simp add: proxy_inv_def phases_update)

lemma proxy_inv_step:
  assumes "proxy_inv eps s" "proxy_step s s'"
  shows "proxy_inv eps s'"
  using assms(2,1)
proof (induction rule: proxy_step.induct)
  case (arrive p qs)
  then show ?case by (auto simp: proxy_inv_def phase_ok_def)
next
  case (attempt k qs tried e n p i p')
  note ph = phase_at [OF _ attempt(1,2), of "length eps"]
  from attempt ph start_attempt_cases [OF attempt(3)] show ?case
    by (intro inv_moved [OF attempt(4,1), of i p' 1]) (auto simp: proxy_inv_def phase_ok_def)
next
  case (none_left k qs tried e n p p')
  with start_attempt_cases [OF none_left(3)] show ?case
    by (intro inv_still [OF none_left(4,1)]) (auto simp: phase_ok_def)
next
  case (rounds_over k qs tried e p)
  then show ?case by (intro inv_still [OF rounds_over(3,1)]) (auto simp: phase_ok_def)
next
  case (answered k qs i tried n p)
  note ph = phase_at [OF _ answered(1,2), of "length eps"]
  from answered ph show ?case
    by (intro inv_still [OF answered(3,1)]) (auto simp: phase_ok_def proxy_inv_def answered_attempt_def count_request_def)
next
  case (unreachable k qs i tried n e p)
  note ph = phase_at [OF _ unreachable(1,2), of "length eps"]
  from unreachable ph show ?case
    by (intro inv_moved [OF unreachable(4,1), of i _ "-1"])
      (auto simp: phase_ok_def proxy_inv_def failed_attempt_def count_request_def add_inflight_def)
next
  case (broken k qs i tried n e p)
  note ph = phase_at [OF _ broken(1,2), of "length eps"]
  from broken ph show ?case
    by (intro inv_moved [OF broken(4,1), of i _ "-1"])
      (auto simp: phase_ok_def proxy_inv_def failed_attempt_def count_request_def add_inflight_def)
next
  case (closed k qs i p)
  note ph = phase_at [OF _ closed(1,2), of "length eps"]
  from closed ph show ?case
    by (intro inv_moved [OF closed(3,1), of i _ "-1"])
      (auto simp: phase_ok_def proxy_inv_def close_body_def add_inflight_def)
next
  case (closed_again k qs i p)
  then show ?case by (simp add: close_body_def)
qed

lemma new_proxy_inv: "NewProxy parse t = Inr p \<Longrightarrow> proxy_inv (px_endpoints p) (p, [])"
  by (auto simp: NewProxy_def proxy_inv_def Let_def split: if_splits sum.splits)

interpretation proxy_steps: kept_by_steps proxy_step
  "\<lambda>s. \<exists>parse t p. NewProxy parse t = Inr p \<and> px_endpoints p = eps \<and> s = (p, [])" "proxy_inv eps"
  by unfold_locales (auto intro: proxy_inv_step dest: new_proxy_inv)

text \<open>C20: the counts of requests in flight. Whatever requests arrive, fail over, end and close their bodies in
  whatever order, each endpoint's count is the number of requests that are with it or whose response body
  from it is still open; it is never negative and it is 0 again when every request is over.\<close>

theorem inflight_exact:
  assumes "NewProxy parse t = Inr p0" "proxy_step\<^sup>*\<^sup>* (p0, []) (p, qs)" "i < length (px_endpoints p0)"
  shows "px_endpoints p = px_endpoints p0 \<and> px_inflight p ! i = int (length (filter (holds i) qs)) \<and>
    (list_all (\<lambda>q. case q of Finished j \<Rightarrow> True | Failed e \<Rightarrow> True | _ \<Rightarrow> False) qs \<longrightarrow> px_inflight p ! i = 0)"
proof -
  from proxy_steps.inv_steps [OF assms(2) new_proxy_inv [OF assms(1)]] assms(3)
  have inv: "px_endpoints p = px_endpoints p0" "px_inflight p ! i = int (length (filter (holds i) qs))"
    by (simp_all add: proxy_inv_def load_def)
  have "filter (holds i) qs = []" if "list_all (\<lambda>q. case q of Finished j \<Rightarrow> True | Failed e \<Rightarrow> True | _ \<Rightarrow> False) qs"
    using that by (auto simp: filter_empty_conv list_all_iff holds_def split: px_phase.splits)
  with inv show ?thesis by auto
qed

section \<open>Failing over\<close>

text \<open>The answer to the k-th attempt, and what a dispatch that has the endpoints \<open>is\<close> behind it has made of them.\<close>

definition answer_at :: "net_error option list \<Rightarrow> nat \<Rightarrow> net_error option" where
  "answer_at answers k = (if k < length answers then answers ! k else Some OtherError)"

definition dispatched ::
  "upstreamEndpoint list \<Rightarrow> nat list \<Rightarrow> net_error option \<Rightarrow> net_error option list \<Rightarrow> nat list \<Rightarrow> px_error + nat \<Rightarrow> bool"
where
  "dispatched eps tried lastErr answers is r \<longleftrightarrow> distinct is \<and> set is \<inter> set tried = {} \<and> set is \<subseteq> {..<length eps} \<and>
     (\<forall>k. Suc k < length is \<longrightarrow> (\<exists>e. answer_at answers k = Some e \<and> isConnectError e)) \<and>
     (case r of
        Inr i \<Rightarrow> is \<noteq> [] \<and> last is = i \<and> answer_at answers (length is - 1) = None
      | Inl err \<Rightarrow>
          (if is = [] then err = last_error lastErr \<and> {..<length eps} \<subseteq> set tried
           else (\<exists>e. answer_at answers (length is - 1) = Some e \<and> err = UpstreamError e \<and>
             (isConnectError e \<longrightarrow> {..<length eps} \<subseteq> set is \<union> set tried))))"

definition sent_to :: "upstreamEndpoint list \<Rightarrow> nat \<Rightarrow> nat \<times> string \<times> string" where
  "sent_to eps i = (i, ep_scheme (eps ! i), ep_host (eps ! i))"

lemma answer_at_0: "(case answers of [] \<Rightarrow> Some OtherError | a # as \<Rightarrow> a) = answer_at answers 0"
  by (cases answers) (simp_all add: answer_at_def)

lemma answer_at_tl [simp]: "answer_at (tl answers) k = answer_at answers (Suc k)"
  by (cases answers) (auto simp: answer_at_def)

lemma dispatched_more:
  assumes "dispatched eps (i # tried) (Some e) (tl answers) is r" "answer_at answers 0 = Some e" "isConnectError e"
    "i < length eps" "i \<notin> set tried"
  shows "dispatched eps tried lastErr answers (i # is) r"
proof -
  have first: "\<exists>e. answer_at answers k = Some e \<and> isConnectError e" if "Suc k < length (i # is)" for k
    using that assms by (cases k) (auto simp: dispatched_def)
  show ?thesis
  proof (cases "is")
    case Nil
    with assms first show ?thesis
      by (cases r) (auto simp: dispatched_def last_error_def)
  next
    case (Cons j js)
    with assms first show ?thesis
      by (cases r) (auto simp: dispatched_def)
  qed
qed

text \<open>One round: no endpoint is left, or one is tried and counted.\<close>

lemma round_exhausted:
  assumes "start_attempt tried p = (None, p1)" "px_endpoints p = eps" "eps \<noteq> []"
    "unat (px_rr p) + Suc n + length eps < 2 ^ 64"
  shows "{..<length eps} \<subseteq> set tried"
proof -
  have rr: "unat (px_rr p + 1) = unat (px_rr p) + 1"
    using assms(4) by (subst unat_add_lem [THEN iffD1]) simp_all
  have "pick tried p = (None, p1)" using assms(1) by (auto simp: start_attempt_def Let_def split: prod.splits option.splits)
  from pick_cases [OF _ _ this] assms(2-4) rr show ?thesis by simp
qed

lemma attempt_undone:
  assumes "i < length eps" "length (px_inflight p) = length eps" "px_endpoints p1 = eps"
    "px_inflight p1 = (px_inflight p)[i := px_inflight p ! i + 1]"
  shows "px_inflight (failed_attempt i p1) = px_inflight p" "px_sent (failed_attempt i p1) = px_sent p1"
    "px_endpoints (failed_attempt i p1) = eps" "px_rr (failed_attempt i p1) = px_rr p1"
  using assms by (simp_all add: failed_attempt_def count_request_def add_inflight_def)

lemma dispatch_rounds_dispatched:
  assumes "dispatch_rounds n tried lastErr answers p = (r, p')"
    and "px_endpoints p = eps" "eps \<noteq> []" "length (px_inflight p) = length eps"
    and "unat (px_rr p) + n + length eps < 2 ^ 64"
    and "distinct tried" "set tried \<subseteq> {..<length eps}" "length tried + n = length eps"
  shows "\<exists>is. px_sent p' = px_sent p @ map (sent_to eps) is \<and> dispatched eps tried lastErr answers is r \<and>
     px_inflight p' = (case r of Inl err \<Rightarrow> px_inflight p | Inr i \<Rightarrow> (px_inflight p)[i := px_inflight p ! i + 1])"
  using assms
proof (induction n arbitrary: tried lastErr answers p)
  case 0
  have all: "set tried = {..<length eps}"
    by (rule card_subset_eq) (use 0 in \<open>simp_all add: distinct_card\<close>)
  from 0 have "r = Inl (last_error lastErr)" "p' = p" by simp_all
  with all show ?case by (intro exI [of _ "[]"]) (simp add: dispatched_def)
next
  case (Suc n)
  obtain q p1 where q: "start_attempt tried p = (q, p1)" by (cases "start_attempt tried p")
  note st = start_attempt_cases [OF q]
  have rr: "unat (px_rr p + 1) = unat (px_rr p) + 1"
    using Suc.prems(5) by (subst unat_add_lem [THEN iffD1]) simp_all
  show ?case
  proof (cases q)
    case None
    from round_exhausted [OF q [unfolded None] Suc.prems(2,3)] Suc.prems(5) have "{..<length eps} \<subseteq> set tried" by simp
    with Suc.prems(1) q None st show ?thesis
      by (intro exI [of _ "[]"]) (auto simp: dispatched_def)
  next
    case (Some i)
    with st Suc.prems have i: "i < length eps" "i \<notin> set tried" "px_endpoints p1 = eps"
      "px_inflight p1 = (px_inflight p)[i := px_inflight p ! i + 1]" "px_sent p1 = px_sent p @ [sent_to eps i]"
      "px_rr p1 = px_rr p + 1" by (simp_all add: sent_to_def)
    show ?thesis
    proof (cases "answer_at answers 0")
      case None
      with Suc.prems(1) q Some i have "r = Inr i" "p' = answered_attempt i p1" by (simp_all add: answer_at_0)
      with i None show ?thesis
        by (intro exI [of _ "[i]"]) (simp add: dispatched_def answered_attempt_def count_request_def)
    next
      case (Some e)
      note undone = attempt_undone [OF i(1) Suc.prems(4) i(3,4), unfolded i(5,6)]
      show ?thesis
      proof (cases "isConnectError e")
        case False
        with Suc.prems(1) q \<open>q = Some i\<close> Some have "r = Inl (UpstreamError e)" "p' = failed_attempt i p1"
          by (simp_all add: answer_at_0)
        with i undone Some False show ?thesis by (intro exI [of _ "[i]"]) (simp add: dispatched_def)
      next
        case True
        with Suc.prems(1) q \<open>q = Some i\<close> Some
        have "dispatch_rounds n (i # tried) (Some e) (tl answers) (failed_attempt i p1) = (r, p')"
          by (simp add: answer_at_0)
        then have "\<exists>is. px_sent p' = px_sent (failed_attempt i p1) @ map (sent_to eps) is \<and>
            dispatched eps (i # tried) (Some e) (tl answers) is r \<and>
            px_inflight p' = (case r of Inl err \<Rightarrow> px_inflight (failed_attempt i p1)
              | Inr j \<Rightarrow> (px_inflight (failed_attempt i p1))[j := px_inflight (failed_attempt i p1) ! j + 1])"
          by (rule Suc.IH [OF _ undone(3) Suc.prems(3)]) (use undone(1,4) i(1,2) Suc.prems rr in simp_all)
        then obtain "is" where is': "px_sent p' = px_sent p @ map (sent_to eps) (i # is)"
          "dispatched eps (i # tried) (Some e) (tl answers) is r"
          "px_inflight p' = (case r of Inl err \<Rightarrow> px_inflight p | Inr i \<Rightarrow> (px_inflight p)[i := px_inflight p ! i + 1])"
          unfolding undone(1,2) by auto
        with dispatched_more [OF is'(2) Some True i(1,2)] show ?thesis by blast
      qed
    qed
  qed
qed

text \<open>C21: how a request is dispatched. The endpoints it is sent to are different ones and every one but the last
  could not be connected to, so at most one upstream saw the request; it is answered by the last of them, or
  it fails with the error of the last, after all were tried if that was a failure to connect. A failed request
  leaves the counts in flight as they were, an answered one adds itself to its endpoint's.\<close>

theorem RoundTrip_dispatch:
  assumes "px_RoundTrip answers p = (r, p')" "px_endpoints p \<noteq> []" "length (px_inflight p) = length (px_endpoints p)"
    and "unat (px_rr p) + 2 * length (px_endpoints p) < 2 ^ 64"
  shows "\<exists>is. px_sent p' = px_sent p @ map (sent_to (px_endpoints p)) is \<and> is \<noteq> [] \<and>
     dispatched (px_endpoints p) [] None answers is r \<and>
     px_inflight p' = (case r of Inl err \<Rightarrow> px_inflight p | Inr i \<Rightarrow> (px_inflight p)[i := px_inflight p ! i + 1])"
proof -
  from dispatch_rounds_dispatched [OF assms(1) [unfolded px_RoundTrip_def] refl assms(2,3)] assms(4)
  obtain "is" where is': "px_sent p' = px_sent p @ map (sent_to (px_endpoints p)) is"
    "dispatched (px_endpoints p) [] None answers is r"
    "px_inflight p' = (case r of Inl err \<Rightarrow> px_inflight p | Inr i \<Rightarrow> (px_inflight p)[i := px_inflight p ! i + 1])"
    by auto
  moreover from is'(2) assms(2) have "is \<noteq> []"
    by (cases r) (auto simp: dispatched_def split: if_splits)
  ultimately show ?thesis by blast
qed

section \<open>The client's address\<close>

lemma split_host_of_cut: "CHR '','' \<notin> set ip \<Longrightarrow> cut CHR '','' ip = (ip, '''', False)"
  by simp

lemma cut_append_found: "cut c a = (x, y, True) \<Longrightarrow> cut c (a @ b) = (x, y @ b, True)"
  using cut_found [of c a x y] by simp

lemma rewritten_forwarded:
  "rheader (rewritten r) ''X-Forwarded-For'' =
     (case split_host (rq_remote r) of
        Some ip \<Rightarrow> (if rheader r ''X-Forwarded-For'' \<noteq> '''' then rheader r ''X-Forwarded-For'' @ '', '' @ ip else ip)
      | None \<Rightarrow> rheader r ''X-Forwarded-For'')"
  by (auto simp: rewritten_def rheader_def forwardXForwardedFor_def forwarded_headers_def Let_def split: option.split)

text \<open>The client's address survives the hop. Where the request names a client, in an \<^verbatim>\<open>X-Forwarded-For\<close> from the
  proxy in front or by a TCP address of its own, the worker's reading of the request it sends on is the one
  of the request it got: Synapse limits the same client. The host asked for and the scheme go along.\<close>

theorem client_address_survives:
  assumes "rheader r ''X-Forwarded-For'' \<noteq> '''' \<or>
     (\<exists>ip. split_host (rq_remote r) = Some ip \<and> ip \<noteq> '''' \<and> CHR '','' \<notin> set ip \<and> trim_space ip = ip)"
  shows "clientIP (rewritten r) = clientIP r \<and> rheader (rewritten r) ''X-Forwarded-For'' \<noteq> '''' \<and>
    rheader (rewritten r) ''X-Forwarded-Host'' =
      (if rheader r ''X-Forwarded-Host'' \<noteq> '''' then rheader r ''X-Forwarded-Host'' else rq_host r) \<and>
    rheader (rewritten r) ''X-Forwarded-Proto'' =
      (if rheader r ''X-Forwarded-Proto'' \<noteq> '''' then rheader r ''X-Forwarded-Proto''
       else if rq_tls r then ''https'' else ''http'')"
proof -
  let ?prior = "rheader r ''X-Forwarded-For''"
  have "clientIP (rewritten r) = clientIP r \<and> rheader (rewritten r) ''X-Forwarded-For'' \<noteq> ''''"
  proof (cases "?prior = ''''")
    case True
    with assms obtain ip where ip: "split_host (rq_remote r) = Some ip" "ip \<noteq> ''''" "CHR '','' \<notin> set ip" "trim_space ip = ip"
      by auto
    with True have "rheader (rewritten r) ''X-Forwarded-For'' = ip" by (simp add: rewritten_forwarded)
    with True ip show ?thesis by (simp add: clientIP_def)
  next
    case False
    obtain x y f where c: "cut CHR '','' ?prior = (x, y, f)" by (cases "cut CHR '','' ?prior")
    show ?thesis
    proof (cases "split_host (rq_remote r)")
      case None
      with False show ?thesis by (simp add: clientIP_def rewritten_forwarded)
    next
      case (Some ip)
      have "cut CHR '','' (?prior @ '', '' @ ip) = (x, if f then y @ '', '' @ ip else '' '' @ ip, True)"
      proof (cases f)
        case True
        with c cut_append_found [of "CHR '',''" ?prior x y "'', '' @ ip"] show ?thesis by simp
      next
        case False
        with c have n: "CHR '','' \<notin> set ?prior"
          by (metis cut_append in_set_conv_decomp_first prod.inject)
        with c have "x = ?prior" by simp
        with n False show ?thesis by simp
      qed
      moreover have "x = ?prior" if "\<not> f"
        using that c by (metis cut_absent cut_append in_set_conv_decomp_first prod.inject)
      ultimately show ?thesis using Some False c by (simp add: clientIP_def rewritten_forwarded)
    qed
  qed
  then show ?thesis
    by (auto simp: rewritten_def rheader_def forwardXForwardedFor_def forwarded_headers_def Let_def split: option.split)
qed

section \<open>Witnesses\<close>

text \<open>Two workers behind sockets; one request has its response open, another meets a worker that is down.\<close>

definition two_sockets :: UpstreamTarget where
  "two_sockets = \<lparr>ut_Socket = '''', ut_Sockets = [''/run/a'', ''/run/b''], ut_URL = '''', ut_URLs = []\<rparr>"

definition parse_sample :: "string \<Rightarrow> (string \<times> string) option" where
  "parse_sample s = Some (''http'', ''synapse'')"

definition two_workers :: proxy where
  "two_workers = projr (NewProxy parse_sample two_sockets)"

lemma two_workers: "NewProxy parse_sample two_sockets = Inr two_workers"
  by (simp add: two_workers_def NewProxy_def two_sockets_def Endpoints_def parse_sample_def newUpstreamEndpoint_def)

lemma two_workers_fields:
  "length (px_endpoints two_workers) = 2" "px_inflight two_workers = [0, 0]" "px_rr two_workers = 0"
  by (simp_all add: two_workers_def NewProxy_def two_sockets_def Endpoints_def parse_sample_def newUpstreamEndpoint_def
      numeral_2_eq_2)

lemma two_workers_ne: "px_endpoints two_workers \<noteq> []"
  using two_workers_fields(1) by auto

theorem pick_least_loaded_witness: "fst (pick [1] two_workers) = Some 0"
proof -
  have "case fst (pick [1] two_workers) of
       None \<Rightarrow> {..<length (px_endpoints two_workers)} \<subseteq> set [1]
     | Some i \<Rightarrow> i < length (px_endpoints two_workers) \<and> i \<notin> set [1] \<and>
         (\<forall>j < length (px_endpoints two_workers). j \<notin> set [1] \<longrightarrow> px_inflight two_workers ! i \<le> px_inflight two_workers ! j)"
    by (rule pick_least_loaded) (simp_all add: two_workers_ne two_workers_fields)
  then show ?thesis by (auto simp: two_workers_fields less_2_cases_iff split: option.splits)
qed

definition busy_workers :: "proxy \<times> px_phase list" where
  "busy_workers = (answered_attempt 1 (snd (start_attempt [] two_workers)), [Reading 1])"

lemma first_attempt: "fst (start_attempt [] two_workers) = Some 1"
  by code_simp

lemma busy_reached: "proxy_step\<^sup>*\<^sup>* (two_workers, []) busy_workers"
proof -
  let ?p = "snd (start_attempt [] two_workers)"
  have s: "start_attempt [] two_workers = (Some 1, ?p)" using first_attempt by (metis prod.collapse)
  have "proxy_step (two_workers, []) (two_workers, [] @ [Trying [] None (length (px_endpoints two_workers))])"
    by (rule proxy_step.arrive)
  moreover have "proxy_step (two_workers, [Trying [] None 2]) (?p, [Trying [] None 2][0 := InFlight 1 [1] 1])"
    by (rule proxy_step.attempt [OF _ _ s]) simp_all
  moreover have "proxy_step (?p, [InFlight 1 [1] 1]) (answered_attempt 1 ?p, [InFlight 1 [1] 1][0 := Reading 1])"
    by (rule proxy_step.answered) simp_all
  ultimately show ?thesis
    by (auto simp: two_workers_fields busy_workers_def intro: converse_rtranclp_into_rtranclp)
qed

theorem inflight_exact_witness: "px_inflight (fst busy_workers) ! 1 = 1"
  using inflight_exact [OF two_workers, of "fst busy_workers" "snd busy_workers" 1] busy_reached
  by (simp add: two_workers_fields) (simp add: busy_workers_def)

theorem RoundTrip_dispatch_witness:
  "\<exists>is. is \<noteq> [] \<and> dispatched (px_endpoints two_workers) [] None [Some (OpError ''dial''), None] is
     (fst (px_RoundTrip [Some (OpError ''dial''), None] two_workers))"
proof -
  let ?r = "px_RoundTrip [Some (OpError ''dial''), None] two_workers"
  have "?r = (fst ?r, snd ?r)" by simp
  from RoundTrip_dispatch [OF this two_workers_ne] show ?thesis by (auto simp: two_workers_fields)
qed

definition forwarded_request :: request where
  "forwarded_request = \<lparr>rq_method = ''GET'', rq_path = ''/'', rq_rawquery = '''',
     rq_headers = [(''X-Forwarded-For'', ''10.0.0.1''), (''Forwarded'', ''x'')], rq_pathvals = [], rq_body = [],
     rq_remote = ''127.0.0.1:80'', rq_host = ''example.org'', rq_tls = False\<rparr>"

theorem client_address_survives_witness: "clientIP (rewritten forwarded_request) = clientIP forwarded_request"
  using client_address_survives [of forwarded_request] by (simp add: forwarded_request_def rheader_def hget_def)

end
