(* ===== verification/Synapse_Config.thy ===== *)
theory Synapse_Config
  imports Config
begin

text \<open>
  src/synapseconfig.go and the parts of src/config.go that use it: Synapse's own configuration, its sizes,
  durations, upload limits and database address, what the worker takes from it, and \<open>LoadConfig\<close>. Reading
  and decoding the two files are arguments; so is whether a path exists.
\<close>

section \<open>Values\<close>

text \<open>A YAML value as \<^verbatim>\<open>any\<close>: nothing, a whole number, a float by the 64-bit integer Go converts it to, a
  string, or anything else.\<close>

datatype yaml = YNone | YInt int | YFloat int | YString string | YOther

definition size_multiplier :: "char \<Rightarrow> int" where
  "size_multiplier c =
     (if c \<in> set ''Kk'' then 1024
      else if c \<in> set ''Mm'' then 1024 * 1024
      else if c \<in> set ''Gg'' then 1024 * 1024 * 1024
      else if c \<in> set ''Tt'' then 1024 * 1024 * 1024 * 1024
      else 1)"

definition parseSynapseSize :: "yaml \<Rightarrow> int res" where
  "parseSynapseSize value =
     (case value of
        YNone \<Rightarrow> Inl (ErrConfig ''no value'')
      | YInt v \<Rightarrow> Inr v
      | YFloat v \<Rightarrow> Inr v
      | YString v \<Rightarrow>
          (let s = trim_space v in
           if s = '''' then Inl (ErrConfig ''empty value'')
           else
             (let multiplier = size_multiplier (last s);
                  s' = (if multiplier > 1 then butlast s else s)
              in case parse_int64 (trim_space s') of
                   None \<Rightarrow> Inl (ErrConfig ''not a size'')
                 | Some n \<Rightarrow> Inr (wrap64 (n * multiplier))))
      | YOther \<Rightarrow> Inl (ErrConfig ''not a size''))"

definition duration_unit :: "char \<Rightarrow> int" where
  "duration_unit c =
     (if c = CHR ''s'' then Second
      else if c = CHR ''m'' then Minute
      else if c = CHR ''h'' then Hour
      else if c = CHR ''d'' then 24 * Hour
      else if c = CHR ''w'' then 7 * 24 * Hour
      else if c = CHR ''y'' then 365 * 24 * Hour
      else Millisecond)"

definition parseSynapseDuration :: "yaml \<Rightarrow> int res" where
  "parseSynapseDuration value =
     (case value of
        YNone \<Rightarrow> Inl (ErrConfig ''no value'')
      | YInt v \<Rightarrow> Inr (wrap64 (v * Millisecond))
      | YFloat v \<Rightarrow> Inr (wrap64 (v * Millisecond))
      | YString v \<Rightarrow>
          (let s = trim_space v in
           if s = '''' then Inl (ErrConfig ''empty value'')
           else
             (let unit = duration_unit (last s);
                  s' = (if unit \<noteq> Millisecond then butlast s else s)
              in case parse_int64 (trim_space s') of
                   None \<Rightarrow> Inl (ErrConfig ''not a duration'')
                 | Some n \<Rightarrow> Inr (wrap64 (n * unit))))
      | YOther \<Rightarrow> Inl (ErrConfig ''not a duration''))"

text \<open>\<^verbatim>\<open>time.Duration.String\<close>: the fraction of a unit without its trailing zeros, and the whole.\<close>

definition duration_frac :: "nat \<Rightarrow> nat \<Rightarrow> string" where
  "duration_frac v prec =
     (let digits = show_nat (v mod 10 ^ prec);
          padded = replicate (prec - length digits) CHR ''0'' @ digits;
          kept = rev (dropWhile (\<lambda>c. c = CHR ''0'') (rev padded))
      in if kept = '''' then '''' else CHR ''.'' # kept)"

definition duration_string :: "int \<Rightarrow> string" where
  "duration_string d =
     (let u = nat \<bar>d\<bar>;
          body =
            (if u = 0 then ''0s''
             else if u < 1000 then show_nat u @ ''ns''
             else if u < 1000000 then show_nat (u div 1000) @ duration_frac u 3 @ [char_of (194::nat), char_of (181::nat), CHR ''s'']
             else if u < 1000000000 then show_nat (u div 1000000) @ duration_frac u 6 @ ''ms''
             else
               (let secs = u div 1000000000; mins = secs div 60; hours = mins div 60
                in (if hours > 0 then show_nat hours @ ''h'' else '''') @
                   (if mins > 0 then show_nat (mins mod 60) @ ''m'' else '''') @
                   show_nat (secs mod 60) @ duration_frac u 9 @ ''s''))
      in if d < 0 then CHR ''-'' # body else body)"

section \<open>Synapse's configuration\<close>

record SynapseMediaUploadLimit =
  sl_MaxSize :: yaml
  sl_TimePeriod :: yaml
  sl_InfoURI :: string
  sl_CanUpgrade :: bool

record SynapseDatabase =
  sd_Name :: string
  sd_User :: string
  sd_Password :: string
  sd_Database :: string
  sd_Host :: string
  sd_Port :: yaml

record SynapseConfig =
  hs_ServerName :: string
  hs_MediaStorePath :: string
  hs_SigningKeyPath :: string
  hs_MaxUploadSize :: yaml
  hs_MaxImagePixels :: yaml
  hs_MaxPendingMediaUploads :: "int option"
  hs_UnusedExpirationTime :: yaml
  hs_MediaUploadLimits :: "SynapseMediaUploadLimit list"
  hs_PublicBaseurl :: string
  hs_UserAgentSuffix :: string
  hs_DynamicThumbnails :: "bool option"
  hs_EnableAuthenticatedMedia :: "bool option"
  hs_Database :: SynapseDatabase
  hs_URLPreviewEnabled :: "bool option"
  hs_StorageProviders :: "yaml list"
  hs_PreventMediaDownloadsFrom :: "string list"
  hs_Modules :: "yaml list"

definition PublicBaseurlOrDefault :: "SynapseConfig \<Rightarrow> string" where
  "PublicBaseurlOrDefault c =
     (if hs_PublicBaseurl c = '''' then ''https://'' @ hs_ServerName c @ ''/''
      else if has_suffix ''/'' (hs_PublicBaseurl c) then hs_PublicBaseurl c
      else hs_PublicBaseurl c @ ''/'')"

text \<open>\<^verbatim>\<open>DatabaseURI\<close>; the host of the URL is empty in every case, so it has no part between the user and the path.\<close>

definition database_port :: "yaml \<Rightarrow> query" where
  "database_port p =
     (case p of
        YInt n \<Rightarrow> [(''port'', show_int n)]
      | YString s \<Rightarrow> (if s \<noteq> '''' then [(''port'', s)] else [])
      | _ \<Rightarrow> [])"

definition DatabaseURI :: "SynapseConfig \<Rightarrow> string option" where
  "DatabaseURI s =
     (let a = hs_Database s in
      if sd_User a = '''' \<or> sd_Database a = '''' then None
      else
        (let q = (if sd_Host a \<noteq> '''' then [(''host'', sd_Host a)] else []) @ database_port (sd_Port a) @ [(''sslmode'', ''disable'')]
         in Some (''postgres://'' @ url_escape EncodeUser (sd_User a) @ '':'' @ url_escape EncodeUser (sd_Password a) @ ''@'' @
                  url_escape EncodePath (''/'' @ sd_Database a) @ ''?'' @ query_encode q)))"

section \<open>Upload limits\<close>

definition limit_of :: "string \<Rightarrow> SynapseMediaUploadLimit \<Rightarrow> MediaUploadLimit res" where
  "limit_of fallbackURI raw =
     (case parseSynapseSize (sl_MaxSize raw) of
        Inl e \<Rightarrow> Inl e
      | Inr maxBytes \<Rightarrow>
          (case parseSynapseDuration (sl_TimePeriod raw) of
             Inl e \<Rightarrow> Inl e
           | Inr window \<Rightarrow>
               Inr \<lparr>mul_MaxBytes = maxBytes, mul_Window = window,
                    mul_InfoURI = (if sl_InfoURI raw = '''' then fallbackURI else sl_InfoURI raw),
                    mul_CanUpgrade = sl_CanUpgrade raw\<rparr>))"

primrec limits_of :: "string \<Rightarrow> SynapseMediaUploadLimit list \<Rightarrow> MediaUploadLimit list res" where
  "limits_of fallbackURI [] = Inr []"
| "limits_of fallbackURI (raw # raws) =
     (case limit_of fallbackURI raw of
        Inl e \<Rightarrow> Inl e
      | Inr l \<Rightarrow> (case limits_of fallbackURI raws of Inl e \<Rightarrow> Inl e | Inr ls \<Rightarrow> Inr (l # ls)))"

text \<open>\<^verbatim>\<open>sort.SliceStable\<close> by descending window.\<close>

definition parseMediaUploadLimits :: "SynapseConfig \<Rightarrow> MediaUploadLimit list res" where
  "parseMediaUploadLimits hs =
     (if hs_MediaUploadLimits hs = [] then Inr []
      else
        (let fallbackURI = PublicBaseurlOrDefault hs @ ''_synapse/client/media_upload_limit_exceeded''
         in (case limits_of fallbackURI (hs_MediaUploadLimits hs) of
               Inl e \<Rightarrow> Inl e
             | Inr limits \<Rightarrow> Inr (sort_key (\<lambda>l. - mul_Window l) limits))))"

definition describeUploadLimits :: "MediaUploadLimit list \<Rightarrow> string" where
  "describeUploadLimits limits =
     join_with '', '' (map (\<lambda>l. show_int (mul_MaxBytes l) @ '' bytes/'' @ duration_string (mul_Window l)) limits)"

section \<open>Notes\<close>

definition newNotes :: derivedNotes where
  "newNotes = \<lparr>Applied = [], Skipped = [], Warnings = []\<rparr>"

definition on_notes :: "(derivedNotes \<Rightarrow> derivedNotes) \<Rightarrow> Config \<Rightarrow> Config" where
  "on_notes f c = c\<lparr>cfg_derived := map_option f (cfg_derived c)\<rparr>"

definition note_applied :: "string \<Rightarrow> string \<Rightarrow> Config \<Rightarrow> Config" where
  "note_applied key value = on_notes (\<lambda>d. d\<lparr>Applied := Applied d @ [key @ ''='' @ value]\<rparr>)"

definition note_skipped :: "string \<Rightarrow> string \<Rightarrow> string \<Rightarrow> Config \<Rightarrow> Config" where
  "note_skipped key value why = on_notes (\<lambda>d. d\<lparr>Skipped := Skipped d @ [key @ ''='' @ value @ '' ('' @ why @ '')'']\<rparr>)"

definition note_warning :: "string \<Rightarrow> Config \<Rightarrow> Config" where
  "note_warning msg = on_notes (\<lambda>d. d\<lparr>Warnings := Warnings d @ [msg]\<rparr>)"

definition show_bool :: "bool \<Rightarrow> string" where
  "show_bool b = (if b then ''true'' else ''false'')"

definition on_media :: "(MediaConfig \<Rightarrow> MediaConfig) \<Rightarrow> Config \<Rightarrow> Config" where
  "on_media f c = c\<lparr>cfg_Media := f (cfg_Media c)\<rparr>"

section \<open>What is taken from Synapse\<close>

text \<open>\<^verbatim>\<open>deriveFromSynapse\<close> is a sequence of blocks, one for each setting; a block is a step here and the first
  error ends the sequence. \<open>there\<close> says which paths exist.\<close>

type_synonym derivation = "Config \<Rightarrow> Config res"

definition derive_server_name :: "SynapseConfig \<Rightarrow> derivation" where
  "derive_server_name hs c =
     Inr (if cfg_ServerName c = '''' \<and> hs_ServerName hs \<noteq> ''''
          then note_applied ''server_name'' (hs_ServerName hs) (c\<lparr>cfg_ServerName := hs_ServerName hs\<rparr>) else c)"

definition derive_max_upload_size :: "SynapseConfig \<Rightarrow> derivation" where
  "derive_max_upload_size hs c =
     (if mc_MaxUploadSize (cfg_Media c) = None \<and> hs_MaxUploadSize hs \<noteq> YNone
      then (case parseSynapseSize (hs_MaxUploadSize hs) of
              Inl e \<Rightarrow> Inl e
            | Inr n \<Rightarrow> Inr (note_applied ''media.max_upload_size'' (show_int n) (on_media (\<lambda>m. m\<lparr>mc_MaxUploadSize := Some n\<rparr>) c)))
      else Inr c)"

definition derive_max_image_pixels :: "SynapseConfig \<Rightarrow> derivation" where
  "derive_max_image_pixels hs c =
     (if mc_MaxImagePixels (cfg_Media c) = None \<and> hs_MaxImagePixels hs \<noteq> YNone
      then (case parseSynapseSize (hs_MaxImagePixels hs) of
              Inl e \<Rightarrow> Inl e
            | Inr n \<Rightarrow> Inr (note_applied ''media.max_image_pixels'' (show_int n) (on_media (\<lambda>m. m\<lparr>mc_MaxImagePixels := Some n\<rparr>) c)))
      else Inr c)"

definition derive_max_pending :: "SynapseConfig \<Rightarrow> derivation" where
  "derive_max_pending hs c =
     Inr (case hs_MaxPendingMediaUploads hs of
        None \<Rightarrow> c
      | Some n \<Rightarrow>
          (if mc_MaxPendingMediaUploads (cfg_Media c) = 5
           then note_applied ''media.max_pending_media_uploads'' (show_int n) (on_media (\<lambda>m. m\<lparr>mc_MaxPendingMediaUploads := n\<rparr>) c)
           else c))"

definition derive_expiration :: "SynapseConfig \<Rightarrow> derivation" where
  "derive_expiration hs c =
     (if hs_UnusedExpirationTime hs \<noteq> YNone
      then (case parseSynapseDuration (hs_UnusedExpirationTime hs) of
              Inl e \<Rightarrow> Inl e
            | Inr d \<Rightarrow> Inr (note_applied ''media.unused_expiration_time'' (duration_string d) (on_media (\<lambda>m. m\<lparr>mc_UnusedExpirationTime := d\<rparr>) c)))
      else Inr c)"

definition derive_limits :: "SynapseConfig \<Rightarrow> derivation" where
  "derive_limits hs c =
     (case parseMediaUploadLimits hs of
        Inl e \<Rightarrow> Inl e
      | Inr limits \<Rightarrow>
          (let c' = on_media (\<lambda>m. m\<lparr>mc_uploadLimits := limits\<rparr>) c
           in Inr (if limits \<noteq> [] then note_applied ''media.upload_limits'' (describeUploadLimits limits) c' else c')))"

definition derive_authenticated :: "SynapseConfig \<Rightarrow> derivation" where
  "derive_authenticated hs c =
     Inr (case (mc_EnableAuthenticatedMedia (cfg_Media c), hs_EnableAuthenticatedMedia hs) of
        (None, Some b) \<Rightarrow> note_applied ''media.enable_authenticated_media'' (show_bool b) (on_media (\<lambda>m. m\<lparr>mc_EnableAuthenticatedMedia := Some b\<rparr>) c)
      | _ \<Rightarrow> c)"

definition derive_dynamic :: "SynapseConfig \<Rightarrow> derivation" where
  "derive_dynamic hs c =
     Inr (case (mc_DynamicThumbnails (cfg_Media c), hs_DynamicThumbnails hs) of
        (None, Some b) \<Rightarrow> note_applied ''media.dynamic_thumbnails'' (show_bool b) (on_media (\<lambda>m. m\<lparr>mc_DynamicThumbnails := Some b\<rparr>) c)
      | _ \<Rightarrow> c)"

definition derive_user_agent :: "SynapseConfig \<Rightarrow> derivation" where
  "derive_user_agent hs c =
     Inr (if mc_UserAgentSuffix (cfg_Media c) = '''' \<and> hs_UserAgentSuffix hs \<noteq> ''''
          then note_applied ''media.user_agent_suffix'' (hs_UserAgentSuffix hs) (on_media (\<lambda>m. m\<lparr>mc_UserAgentSuffix := hs_UserAgentSuffix hs\<rparr>) c)
          else c)"

definition not_here :: string where
  "not_here = ''path does not exist in this container''"

definition derive_store_path :: "(string \<Rightarrow> bool) \<Rightarrow> SynapseConfig \<Rightarrow> derivation" where
  "derive_store_path there hs c =
     Inr (if mc_StorePath (cfg_Media c) = '''' \<and> hs_MediaStorePath hs \<noteq> ''''
          then (if there (hs_MediaStorePath hs)
                then note_applied ''media.store_path'' (hs_MediaStorePath hs) (on_media (\<lambda>m. m\<lparr>mc_StorePath := hs_MediaStorePath hs\<rparr>) c)
                else note_skipped ''media.store_path'' (hs_MediaStorePath hs) not_here c)
          else c)"

definition derive_signing_key :: "(string \<Rightarrow> bool) \<Rightarrow> SynapseConfig \<Rightarrow> derivation" where
  "derive_signing_key there hs c =
     Inr (if mc_SigningKeyPath (cfg_Media c) = '''' \<and> hs_SigningKeyPath hs \<noteq> ''''
          then (if there (hs_SigningKeyPath hs)
                then note_applied ''media.signing_key_path'' (hs_SigningKeyPath hs) (on_media (\<lambda>m. m\<lparr>mc_SigningKeyPath := hs_SigningKeyPath hs\<rparr>) c)
                else note_skipped ''media.signing_key_path'' (hs_SigningKeyPath hs) not_here c)
          else c)"

definition derive_database :: "SynapseConfig \<Rightarrow> derivation" where
  "derive_database hs c =
     Inr (if dc_URI (cfg_Database c) = ''''
          then (case DatabaseURI hs of
                  Some uri \<Rightarrow> note_applied ''database.uri'' ''(from Synapse's database.args)''
                    (c\<lparr>cfg_Database := dc_URI_update (\<lambda>_. uri) (cfg_Database c)\<rparr>)
                | None \<Rightarrow> c)
          else c)"

text \<open>The warnings.\<close>

definition warn_url_preview :: string where
  \<open>warn_url_preview = ''url_preview_enabled is off in homeserver.yaml, so Synapse refuses preview_url and URL previews will be 403 through the passthrough unless that worker's own config enables them''\<close>

definition warn_modules :: string where
  \<open>warn_modules = ''modules are configured in Synapse and one may override /media/config per user; that endpoint will be passed through rather than answered here''\<close>

definition warn_uploads_proxied :: string where
  \<open>warn_uploads_proxied = ''modules are configured in Synapse and one may replace the media upload limits per user; uploads will be proxied to Synapse rather than accepted here (media.module_upload_limits: ignore accepts them and applies only the limits from config)''\<close>

definition warn_uploads_unlimited :: string where
  \<open>warn_uploads_unlimited = ''media.module_upload_limits is "ignore" and Synapse loads modules; uploads are accepted here with only the media_upload_limits from config, so any per-user limit a module imposes is bypassed''\<close>

definition warn_storage_providers :: string where
  \<open>warn_storage_providers = ''media_storage_providers is configured in Synapse; this worker only reads the local media store and will not find media held only in a provider''\<close>

definition warn_prevent_downloads :: string where
  \<open>warn_prevent_downloads = ''prevent_media_downloads_from is configured in Synapse but this worker does not implement it; fetch_remote would bypass that blocklist''\<close>

definition warn_dynamic_thumbnails :: string where
  \<open>warn_dynamic_thumbnails = ''Synapse has dynamic_thumbnails off, so it selects a nearest-matching thumbnail; this worker only does exact matching and the two will disagree''\<close>

definition warn_if :: "bool \<Rightarrow> string \<Rightarrow> Config \<Rightarrow> Config" where
  "warn_if b msg c = (if b then note_warning msg c else c)"

definition derive_modules :: "SynapseConfig \<Rightarrow> derivation" where
  "derive_modules hs c =
     Inr (if hs_Modules hs \<noteq> []
          then
            (let c' = note_warning warn_modules (on_media (\<lambda>m. m\<lparr>mc_synapseModules := True\<rparr>) c)
             in if mc_AcceptUploads (cfg_Media c')
                then (if ModuleUploadLimitsPolicy (cfg_Media c') = moduleUploadLimitsProxy
                      then note_warning warn_uploads_proxied c'
                      else note_warning warn_uploads_unlimited c')
                else c')
          else c)"

definition derive_warnings :: "SynapseConfig \<Rightarrow> derivation" where
  "derive_warnings hs c =
     Inr (warn_if (\<not> DynamicThumbnailsEnabled (cfg_Media c)) warn_dynamic_thumbnails
          (warn_if (hs_PreventMediaDownloadsFrom hs \<noteq> [] \<and> mc_FetchRemote (cfg_Media c)) warn_prevent_downloads
            (warn_if (hs_StorageProviders hs \<noteq> []) warn_storage_providers c)))"

definition derive_steps :: "(string \<Rightarrow> bool) \<Rightarrow> SynapseConfig \<Rightarrow> derivation list" where
  "derive_steps there hs =
     [derive_server_name hs, derive_max_upload_size hs, derive_max_image_pixels hs, derive_max_pending hs,
      derive_expiration hs, derive_limits hs, derive_authenticated hs, derive_dynamic hs, derive_user_agent hs,
      derive_store_path there hs, derive_signing_key there hs, derive_database hs,
      \<lambda>c. Inr (warn_if (hs_URLPreviewEnabled hs \<noteq> Some True) warn_url_preview c),
      derive_modules hs, derive_warnings hs]"

primrec run_steps :: "derivation list \<Rightarrow> derivation" where
  "run_steps [] c = Inr c"
| "run_steps (f # fs) c = (case f c of Inl e \<Rightarrow> Inl e | Inr c' \<Rightarrow> run_steps fs c')"

text \<open>\<open>load\<close> is \<^verbatim>\<open>LoadSynapseConfig\<close>.\<close>

definition deriveFromSynapse :: "(string \<Rightarrow> SynapseConfig res) \<Rightarrow> (string \<Rightarrow> bool) \<Rightarrow> derivation" where
  "deriveFromSynapse load there c =
     (case load (cfg_SynapseConfig c) of
        Inl e \<Rightarrow> Inl e
      | Inr hs \<Rightarrow> run_steps (derive_steps there hs) (c\<lparr>cfg_derived := Some newNotes\<rparr>))"

text \<open>\<open>decode\<close> reads the worker's own file into a configuration.\<close>

definition LoadConfig ::
  "string option \<Rightarrow> (Config \<Rightarrow> Config res) \<Rightarrow> (string \<Rightarrow> SynapseConfig res) \<Rightarrow> (string \<Rightarrow> bool) \<Rightarrow> Config res"
where
  "LoadConfig cwd decode load there =
     (case decode defaultConfig of
        Inl e \<Rightarrow> Inl e
      | Inr cfg \<Rightarrow>
          (case (if cfg_SynapseConfig cfg \<noteq> '''' then deriveFromSynapse load there cfg else Inr cfg) of
             Inl e \<Rightarrow> Inl e
           | Inr cfg' \<Rightarrow> (case validate cwd cfg' of Inl e \<Rightarrow> Inl e | Inr _ \<Rightarrow> Inr cfg')))"

section \<open>Sizes and durations\<close>

text \<open>Printed numbers have no white space at their ends, and a suffix is no digit.\<close>

end
