(* ===== verification/Synapse_Config_Correct.thy ===== *)
theory Synapse_Config_Correct
  imports Synapse_Config Mime Upload_Correct
begin

text \<open>
  What the start of the worker makes of its two configuration files: sizes and durations are read as they
  are written, the upload limits come out in the order the upload path relies on, what is taken from
  Synapse leaves explicit settings alone (with two exceptions), and a configuration that \<open>LoadConfig\<close>
  accepts is well typed and sane.
\<close>

section \<open>Sizes and durations\<close>

definition printable :: "string \<Rightarrow> bool" where
  "printable s \<longleftrightarrow> list_all (\<lambda>c. 32 < (of_char c :: nat) \<and> (of_char c :: nat) < 127) s"

lemma trim_printable: "printable s \<Longrightarrow> trim_space s = s"
proof (cases s rule: rev_cases)
  case Nil
  have "trim_front q [] = []" for q using trim_front_drop [of q "[]"] by simp
  with Nil show ?thesis by (simp add: trim_space_def)
next
  case (snoc t d)
  assume p: "printable s"
  obtain c u where c: "t @ [d] = c # u" by (cases "t @ [d]") auto
  have "trim_space (t @ [d]) = t @ [d]"
    by (rule trim_space_ascii [OF _ c])
      (use p [unfolded printable_def snoc c] p [unfolded printable_def snoc] in \<open>simp_all add: solid_def\<close>)
  with snoc show ?thesis by simp
qed

lemma printable_show_int: "printable (show_int i)"
proof -
  have "32 < (of_char c :: nat) \<and> (of_char c :: nat) < 127" if "is_digit c" for c
    using that by (simp add: is_digit_def)
  then show ?thesis using show_nat_digits by (auto simp: printable_def show_int_def list_all_iff)
qed

lemma last_show_int: "is_digit (last (show_int i))"
  using show_nat_digits [OF last_in_set [OF show_nat_ne]] by (auto simp: show_int_def)

lemma suffix_not_digit: "1 < size_multiplier c \<Longrightarrow> \<not> is_digit c \<and> printable [c]"
  "duration_unit c \<noteq> Millisecond \<Longrightarrow> \<not> is_digit c \<and> printable [c]"
proof -
  have letters: "list_all (\<lambda>c. \<not> is_digit c \<and> printable [c]) ''KkMmGgTtsmhdwy''" by code_simp
  show "\<not> is_digit c \<and> printable [c]" if "1 < size_multiplier c"
  proof -
    from that have "c \<in> set ''KkMmGgTtsmhdwy''"
      by (auto simp: size_multiplier_def split: if_splits)
    with letters show ?thesis unfolding list_all_iff by blast
  qed
  show "\<not> is_digit c \<and> printable [c]" if "duration_unit c \<noteq> Millisecond"
  proof -
    from that have "c \<in> set ''KkMmGgTtsmhdwy''"
      by (auto simp: duration_unit_def split: if_splits)
    with letters show ?thesis unfolding list_all_iff by blast
  qed
qed

lemma digit_no_suffix: "is_digit c \<Longrightarrow> size_multiplier c = 1 \<and> duration_unit c = Millisecond"
proof -
  have "size_multiplier c = 1 \<or> 1 < size_multiplier c" by (simp add: size_multiplier_def)
  then show "is_digit c \<Longrightarrow> ?thesis" using suffix_not_digit [of c] by blast
qed

lemma in_int64_factor: "in_int64 (i * m) \<Longrightarrow> 0 < m \<Longrightarrow> in_int64 i"
proof -
  assume h: "in_int64 (i * m)" "0 < m"
  have between: "min 0 (i * m) \<le> i \<and> i \<le> max 0 (i * m)"
  proof (cases "0 \<le> i")
    case True
    with h(2) have "i \<le> i * m" by (simp add: mult_le_cancel_left1)
    with True show ?thesis by simp
  next
    case False
    then have "i * m \<le> i * 1" using h(2) by (intro mult_left_mono_neg) simp_all
    with False show ?thesis by linarith
  qed
  have "in_int64 (min 0 (i * m))" "in_int64 (max 0 (i * m))" using h(1) by (simp_all add: min_def max_def)
  with between show ?thesis by (blast intro: in_int64_between)
qed

text \<open>The sizes and durations of Synapse's configuration. A number with one of the suffixes is read as its
  product with the binary multiple or the unit, and without one as itself and as milliseconds, provided
  the product fits 64 bits.\<close>

theorem synapse_values_read:
  assumes "1 < size_multiplier c" "duration_unit d \<noteq> Millisecond"
    and "in_int64 (i * size_multiplier c)" "in_int64 (j * duration_unit d)" "in_int64 (k * Millisecond)"
  shows "parseSynapseSize (YString (show_int i @ [c])) = Inr (i * size_multiplier c) \<and>
    parseSynapseSize (YString (show_int i)) = Inr i \<and>
    parseSynapseDuration (YString (show_int j @ [d])) = Inr (j * duration_unit d) \<and>
    parseSynapseDuration (YString (show_int k)) = Inr (k * Millisecond)"
proof -
  have u: "0 < duration_unit d" "0 < Millisecond"
    by (simp_all add: duration_unit_def Second_def Minute_def Hour_def Millisecond_def)
  have ii: "in_int64 i" "in_int64 j" "in_int64 k"
    using in_int64_factor [OF assms(3)] in_int64_factor [OF assms(4) u(1)] in_int64_factor [OF assms(5) u(2)] assms(1) by simp_all
  have t: "trim_space (show_int n) = show_int n" for n by (rule trim_printable [OF printable_show_int])
  have ts: "trim_space (show_int n @ [x]) = show_int n @ [x]" if "printable [x]" for n x
    by (rule trim_printable) (use that printable_show_int [of n] in \<open>simp add: printable_def\<close>)
  show ?thesis
    using assms ii suffix_not_digit(1) [OF assms(1)] suffix_not_digit(2) [OF assms(2)] digit_no_suffix [OF last_show_int]
    by (simp add: parseSynapseSize_def parseSynapseDuration_def t ts parse_show_int Let_def)
qed

section \<open>Upload limits\<close>

definition limit_typed :: "MediaUploadLimit \<Rightarrow> bool" where
  "limit_typed l \<longleftrightarrow> in_int64 (mul_MaxBytes l) \<and> in_int64 (mul_Window l) \<and> mul_InfoURI l \<noteq> ''''"

definition limits_typed :: "MediaUploadLimit list \<Rightarrow> bool" where
  "limits_typed ls \<longleftrightarrow> sorted_wrt (\<lambda>a b. mul_Window b \<le> mul_Window a) ls \<and> list_all limit_typed ls"

definition yaml_typed :: "yaml \<Rightarrow> bool" where
  "yaml_typed v = (case v of YInt n \<Rightarrow> in_int64 n | YFloat n \<Rightarrow> in_int64 n | _ \<Rightarrow> True)"

definition synapse_typed :: "SynapseConfig \<Rightarrow> bool" where
  "synapse_typed hs \<longleftrightarrow> yaml_typed (hs_MaxUploadSize hs) \<and> yaml_typed (hs_MaxImagePixels hs) \<and>
     pred_option in_int64 (hs_MaxPendingMediaUploads hs) \<and>
     list_all (\<lambda>l. yaml_typed (sl_MaxSize l)) (hs_MediaUploadLimits hs)"

lemma size_typed: "yaml_typed v \<Longrightarrow> parseSynapseSize v = Inr n \<Longrightarrow> in_int64 n"
  by (auto simp: parseSynapseSize_def yaml_typed_def Let_def wrap64_in_range split: yaml.splits if_splits option.splits)

lemma duration_typed: "parseSynapseDuration v = Inr n \<Longrightarrow> in_int64 n"
  by (auto simp: parseSynapseDuration_def Let_def wrap64_in_range split: yaml.splits if_splits option.splits)

lemma limit_of_typed: "yaml_typed (sl_MaxSize raw) \<Longrightarrow> uri \<noteq> '''' \<Longrightarrow> limit_of uri raw = Inr l \<Longrightarrow> limit_typed l"
  by (auto simp: limit_of_def limit_typed_def intro: size_typed duration_typed split: sum.splits if_splits)

lemma limits_of_typed:
  "list_all (\<lambda>l. yaml_typed (sl_MaxSize l)) raws \<Longrightarrow> uri \<noteq> '''' \<Longrightarrow> limits_of uri raws = Inr ls \<Longrightarrow> list_all limit_typed ls"
  by (induction raws arbitrary: ls) (auto intro: limit_of_typed split: sum.splits)

lemma sorted_descending: "sorted_wrt (\<lambda>a b. mul_Window b \<le> mul_Window a) (sort_key (\<lambda>l. - mul_Window l) ls)"
proof -
  have "sorted_wrt (\<lambda>a b. - mul_Window a \<le> - mul_Window b) (sort_key (\<lambda>l. - mul_Window l) ls)"
    using sorted_sort_key [of "\<lambda>l. - mul_Window l" ls] by (simp only: sorted_map)
  then show ?thesis by simp
qed

lemma limits_come_typed:
  assumes "synapse_typed hs" "parseMediaUploadLimits hs = Inr ls"
  shows "limits_typed ls"
proof (cases "hs_MediaUploadLimits hs = []")
  case True
  with assms show ?thesis by (simp add: parseMediaUploadLimits_def limits_typed_def)
next
  case False
  define uri where "uri = PublicBaseurlOrDefault hs @ ''_synapse/client/media_upload_limit_exceeded''"
  from assms(2) False obtain raw where raw: "limits_of uri (hs_MediaUploadLimits hs) = Inr raw"
    "ls = sort_key (\<lambda>l. - mul_Window l) raw"
    unfolding uri_def by (auto simp: parseMediaUploadLimits_def Let_def split: sum.splits)
  from assms(1) have "list_all (\<lambda>l. yaml_typed (sl_MaxSize l)) (hs_MediaUploadLimits hs)" by (simp add: synapse_typed_def)
  from limits_of_typed [OF this _ raw(1)] have "list_all limit_typed raw" by (simp add: uri_def)
  with raw(2) sorted_descending [of raw] show ?thesis by (simp add: limits_typed_def list_all_iff)
qed

text \<open>Limits in this form are what the check of an upload relies on.\<close>

lemma typed_limits_ok: "limits_typed ls \<Longrightarrow> \<forall>l \<in> set ls. mul_Window l \<noteq> min_int64 \<Longrightarrow> limits_ok ls"
proof -
  assume h: "limits_typed ls" "\<forall>l \<in> set ls. mul_Window l \<noteq> min_int64"
  have "in_int64 (- mul_Window l)" if "l \<in> set ls" for l
  proof -
    from h that have "mul_Window l \<noteq> min_int64" "min_int64 \<le> mul_Window l" "mul_Window l \<le> max_int64"
      by (auto simp: limits_typed_def limit_typed_def list_all_iff in_int64_def)
    then show ?thesis by (simp add: in_int64_def min_int64_def max_int64_def)
  qed
  with h show ?thesis by (simp add: limits_typed_def limits_ok_def list_all_iff)
qed

section \<open>The sequence of steps\<close>

lemma run_steps_append: "run_steps (fs @ gs) c = (case run_steps fs c of Inl e \<Rightarrow> Inl e | Inr c' \<Rightarrow> run_steps gs c')"
  by (induction fs arbitrary: c) (auto split: sum.split)

lemma run_steps_inv:
  assumes "\<And>f c c'. f \<in> set fs \<Longrightarrow> P c \<Longrightarrow> f c = Inr c' \<Longrightarrow> P c'"
  shows "P c \<Longrightarrow> run_steps fs c = Inr c' \<Longrightarrow> P c'"
  using assms
proof (induction fs arbitrary: c)
  case (Cons f fs)
  then obtain d where d: "f c = Inr d" "run_steps fs d = Inr c'" by (auto split: sum.splits)
  with Cons.prems(1,3) have "P d" by (meson list.set_intros(1))
  with Cons.IH [OF _ d(2)] Cons.prems(3) show ?case by (meson list.set_intros(2))
qed simp

lemma media_of_notes [simp]:
  "cfg_Media (on_notes f c) = cfg_Media c" "cfg_Media (note_applied k v c) = cfg_Media c"
  "cfg_Media (note_skipped k v y c) = cfg_Media c" "cfg_Media (note_warning m c) = cfg_Media c"
  "cfg_Media (warn_if b m c) = cfg_Media c" "cfg_Media (on_media g c) = g (cfg_Media c)"
  by (simp_all add: on_notes_def note_applied_def note_skipped_def note_warning_def warn_if_def on_media_def)

lemmas derive_defs =
  derive_server_name_def derive_max_upload_size_def derive_max_image_pixels_def derive_max_pending_def
  derive_expiration_def derive_limits_def derive_authenticated_def derive_dynamic_def derive_user_agent_def
  derive_store_path_def derive_signing_key_def derive_database_def derive_modules_def derive_warnings_def

lemmas note_defs = on_notes_def note_applied_def note_skipped_def note_warning_def warn_if_def on_media_def

section \<open>Explicit settings\<close>

text \<open>The settings that may be taken from Synapse, blanked; and what \<open>c'\<close> keeps of \<open>c\<close>: every explicit setting
  among those (but for the two that are not looked at), and all others.\<close>

definition blanked :: "Config \<Rightarrow> Config" where
  "blanked c = c\<lparr>cfg_ServerName := '''', cfg_derived := None, cfg_Database := (cfg_Database c)\<lparr>dc_URI := ''''\<rparr>,
     cfg_Media := (cfg_Media c)\<lparr>mc_MaxUploadSize := None, mc_MaxImagePixels := None, mc_MaxPendingMediaUploads := 0,
       mc_UnusedExpirationTime := 0, mc_uploadLimits := [], mc_EnableAuthenticatedMedia := None,
       mc_DynamicThumbnails := None, mc_UserAgentSuffix := '''', mc_StorePath := '''', mc_SigningKeyPath := '''',
       mc_synapseModules := False\<rparr>\<rparr>"

definition held :: "('a \<Rightarrow> 'b) \<Rightarrow> 'b \<Rightarrow> 'a \<Rightarrow> 'a \<Rightarrow> bool" where
  "held f unset c c' \<longleftrightarrow> f c = unset \<or> f c' = f c"

definition explicit_kept :: "Config \<Rightarrow> Config \<Rightarrow> bool" where
  "explicit_kept c c' \<longleftrightarrow> blanked c' = blanked c \<and>
     held cfg_ServerName '''' c c' \<and> held (\<lambda>c. dc_URI (cfg_Database c)) '''' c c' \<and>
     held (\<lambda>c. mc_MaxUploadSize (cfg_Media c)) None c c' \<and> held (\<lambda>c. mc_MaxImagePixels (cfg_Media c)) None c c' \<and>
     held (\<lambda>c. mc_EnableAuthenticatedMedia (cfg_Media c)) None c c' \<and>
     held (\<lambda>c. mc_DynamicThumbnails (cfg_Media c)) None c c' \<and>
     held (\<lambda>c. mc_UserAgentSuffix (cfg_Media c)) '''' c c' \<and> held (\<lambda>c. mc_StorePath (cfg_Media c)) '''' c c' \<and>
     held (\<lambda>c. mc_SigningKeyPath (cfg_Media c)) '''' c c'"

lemma held_refl [simp]: "held f u c c"
  by (simp add: held_def)

lemma held_trans: "held f u a b \<Longrightarrow> held f u b c \<Longrightarrow> held f u a c"
  by (auto simp: held_def)

lemma explicit_kept_refl [simp]: "explicit_kept c c"
  by (simp add: explicit_kept_def)

lemma explicit_kept_trans: "explicit_kept a b \<Longrightarrow> explicit_kept b c \<Longrightarrow> explicit_kept a c"
  unfolding explicit_kept_def by (elim conjE, intro conjI) (simp_all, (erule (1) held_trans)+)

lemma note_kept [simp]: "explicit_kept c (on_notes f c')= explicit_kept c c'"
  by (simp add: explicit_kept_def held_def on_notes_def blanked_def)

lemma step_kept:
  assumes "f \<in> set (derive_steps there hs)" "f c = Inr c'"
  shows "explicit_kept c c'"
  using assms unfolding derive_steps_def
  by (auto simp: derive_defs note_applied_def note_skipped_def note_warning_def warn_if_def Let_def
      split: if_splits sum.splits option.splits)
    (simp_all add: explicit_kept_def held_def blanked_def on_media_def on_notes_def)

lemma derive_kept:
  assumes "deriveFromSynapse load there c = Inr c'"
  shows "explicit_kept c c'"
proof -
  from assms obtain hs where hs: "run_steps (derive_steps there hs) (c\<lparr>cfg_derived := Some newNotes\<rparr>) = Inr c'"
    by (auto simp: deriveFromSynapse_def split: sum.splits)
  have "explicit_kept c (c\<lparr>cfg_derived := Some newNotes\<rparr>)"
    by (simp add: explicit_kept_def held_def blanked_def)
  from run_steps_inv [where P = "explicit_kept c", OF _ this hs] show ?thesis
    by (blast intro: explicit_kept_trans step_kept)
qed

text \<open>What the worker's own configuration sets explicitly is not overridden by Synapse's: its server name,
  database, media paths, sizes, authenticated media, dynamic thumbnails and user agent suffix, and every
  setting outside the media section's derived ones stay as they are.\<close>

theorem deriveFromSynapse_keeps_explicit:
  assumes "deriveFromSynapse load there c = Inr c'"
  shows "explicit_kept c c'"
  using assms by (rule derive_kept)

text \<open>The two exceptions: the time a reserved upload may take is replaced whenever Synapse's file has one, and so is
  a limit of pending uploads that was set to 5, which is also the default. The comment on the function
  says that explicit values always win.\<close>

lemma expiration_after:
  assumes "f \<in> set (drop 5 (derive_steps there hs))" "f c = Inr c'"
  shows "mc_UnusedExpirationTime (cfg_Media c') = mc_UnusedExpirationTime (cfg_Media c) \<and>
     mc_MaxPendingMediaUploads (cfg_Media c') = mc_MaxPendingMediaUploads (cfg_Media c)"
  using assms unfolding derive_steps_def
  by (auto simp: derive_defs Let_def split: if_splits sum.splits option.splits)

lemma pending_after:
  assumes "f \<in> set (take 3 (derive_steps there hs))" "f c = Inr c'"
  shows "mc_MaxPendingMediaUploads (cfg_Media c') = mc_MaxPendingMediaUploads (cfg_Media c)"
  using assms unfolding derive_steps_def
  by (auto simp: derive_defs Let_def split: if_splits sum.splits option.splits)

text \<open>An explicit expiration time of reserved uploads is lost: after a start with Synapse's configuration it
  is the one of Synapse's file, whatever the worker's own says; and an explicit limit of 5 pending uploads
  gives way to Synapse's.\<close>

theorem explicit_expiration_lost:
  assumes "deriveFromSynapse load there c = Inr c'" "load (cfg_SynapseConfig c) = Inr hs"
    and "hs_UnusedExpirationTime hs \<noteq> YNone" "parseSynapseDuration (hs_UnusedExpirationTime hs) = Inr d"
    and "hs_MaxPendingMediaUploads hs = Some n" "mc_MaxPendingMediaUploads (cfg_Media c) = 5"
  shows "mc_UnusedExpirationTime (cfg_Media c') = d \<and> mc_MaxPendingMediaUploads (cfg_Media c') = n"
proof -
  let ?steps = "derive_steps there hs"
  let ?c = "c\<lparr>cfg_derived := Some newNotes\<rparr>"
  have split: "?steps = take 3 ?steps @ [derive_max_pending hs, derive_expiration hs] @ drop 5 ?steps"
    by (simp add: derive_steps_def)
  from assms(1,2) have "run_steps ?steps ?c = Inr c'" by (simp add: deriveFromSynapse_def)
  then have "run_steps (take 3 ?steps @ [derive_max_pending hs, derive_expiration hs] @ drop 5 ?steps) ?c = Inr c'"
    using split by argo
  then obtain c1 c2 where
    c1: "run_steps (take 3 ?steps) ?c = Inr c1" and
    c2: "run_steps [derive_max_pending hs, derive_expiration hs] c1 = Inr c2" and
    c': "run_steps (drop 5 ?steps) c2 = Inr c'"
    unfolding run_steps_append by (auto simp del: run_steps.simps split: sum.splits)
  have "mc_MaxPendingMediaUploads (cfg_Media c1) = 5"
    by (rule run_steps_inv [OF _ _ c1]) (use pending_after assms(6) in auto)
  with c2 assms(3-5) have "mc_UnusedExpirationTime (cfg_Media c2) = d \<and> mc_MaxPendingMediaUploads (cfg_Media c2) = n"
    by (auto simp: derive_max_pending_def derive_expiration_def)
  from run_steps_inv [where P = "\<lambda>c. mc_UnusedExpirationTime (cfg_Media c) = d \<and> mc_MaxPendingMediaUploads (cfg_Media c) = n",
      OF _ this c']
  show ?thesis using expiration_after by metis
qed

section \<open>Loading\<close>

text \<open>The types of a configuration: its numbers fit 64 bits and its upload limits have the form the upload path
  relies on.\<close>

definition config_typed :: "Config \<Rightarrow> bool" where
  "config_typed c \<longleftrightarrow>
     (let m = cfg_Media c in
      pred_option in_int64 (mc_MaxUploadSize m) \<and> pred_option in_int64 (mc_MaxImagePixels m) \<and>
      in_int64 (mc_MaxPendingMediaUploads m) \<and> in_int64 (mc_UnusedExpirationTime m) \<and> limits_typed (mc_uploadLimits m))"

lemma step_typed:
  assumes "synapse_typed hs" "f \<in> set (derive_steps there hs)" "config_typed c" "f c = Inr c'"
  shows "config_typed c'"
  using assms unfolding derive_steps_def
  by (auto simp: derive_defs config_typed_def synapse_typed_def Let_def split: if_splits sum.splits option.splits)
    (use size_typed duration_typed limits_come_typed [OF assms(1)] in blast)+

lemma LoadConfig_cases:
  assumes "LoadConfig cwd decode load there = Inr c"
  obtains d where "decode defaultConfig = Inr d" "validate cwd c = Inr ()"
    "if cfg_SynapseConfig d \<noteq> '''' then deriveFromSynapse load there d = Inr c else c = d"
  using assms by (auto simp: LoadConfig_def split: sum.splits if_splits)

text \<open>C19: a configuration the worker starts with. Where the decoders deliver values of their types, it is well
  typed, its upload limits are sorted by descending window and each carries an address for its error, and
  it passes the checks: it names a server, a database and a way to check tokens, its limits are positive
  and its store, signing key and upload settings fit together.\<close>

theorem LoadConfig_sound:
  assumes "LoadConfig cwd decode load there = Inr c"
    and "\<And>d. decode defaultConfig = Inr d \<Longrightarrow> config_typed d"
    and "\<And>p hs. load p = Inr hs \<Longrightarrow> synapse_typed hs"
  shows "config_typed c \<and> sane_config cwd c"
proof -
  from assms(1) obtain d where d: "decode defaultConfig = Inr d" "validate cwd c = Inr ()"
    "if cfg_SynapseConfig d \<noteq> '''' then deriveFromSynapse load there d = Inr c else c = d" by (rule LoadConfig_cases)
  have "config_typed c"
  proof (cases "cfg_SynapseConfig d = ''''")
    case True
    with d assms(2) show ?thesis by simp
  next
    case False
    with d(3) obtain hs where hs: "load (cfg_SynapseConfig d) = Inr hs"
      "run_steps (derive_steps there hs) (d\<lparr>cfg_derived := Some newNotes\<rparr>) = Inr c"
      by (auto simp: deriveFromSynapse_def split: sum.splits)
    have "config_typed (d\<lparr>cfg_derived := Some newNotes\<rparr>)" using assms(2) [OF d(1)] by (simp add: config_typed_def)
    from run_steps_inv [where P = config_typed, OF _ this hs(2)] show ?thesis
      using step_typed [OF assms(3) [OF hs(1)]] by blast
  qed
  with validate_cases [OF d(2)] show ?thesis by blast
qed

section \<open>Witnesses\<close>

definition sample_synapse :: SynapseConfig where
  "sample_synapse = \<lparr>hs_ServerName = ''example.org'', hs_MediaStorePath = ''/data/media_store'', hs_SigningKeyPath = '''',
     hs_MaxUploadSize = YInt 5000, hs_MaxImagePixels = YNone, hs_MaxPendingMediaUploads = Some 7,
     hs_UnusedExpirationTime = YInt 7200000,
     hs_MediaUploadLimits =
       [\<lparr>sl_MaxSize = YInt 1000, sl_TimePeriod = YInt 60000, sl_InfoURI = '''', sl_CanUpgrade = False\<rparr>,
        \<lparr>sl_MaxSize = YInt 5000, sl_TimePeriod = YInt 86400000, sl_InfoURI = ''https://x'', sl_CanUpgrade = True\<rparr>],
     hs_PublicBaseurl = '''', hs_UserAgentSuffix = '''', hs_DynamicThumbnails = Some True,
     hs_EnableAuthenticatedMedia = None,
     hs_Database = \<lparr>sd_Name = ''psycopg2'', sd_User = ''synapse'', sd_Password = ''p@ss'', sd_Database = ''synapse'',
       sd_Host = ''/run'', sd_Port = YInt 5432\<rparr>,
     hs_URLPreviewEnabled = Some True, hs_StorageProviders = [], hs_PreventMediaDownloadsFrom = [], hs_Modules = []\<rparr>"

text \<open>A worker's file that sets the required settings, and an expiration time of its own.\<close>

definition own_file :: "Config \<Rightarrow> Config res" where
  "own_file c = Inr (c\<lparr>cfg_SynapseConfig := ''/homeserver.yaml'',
     cfg_ServerName := ''example.org'', cfg_Database := dc_URI_update (\<lambda>_. ''postgres://'') (cfg_Database c),
     cfg_Media := (cfg_Media c)\<lparr>mc_UnusedExpirationTime := Hour, mc_StorePath := ''/data/media_store'',
       mc_MaxImagePixels := Some 4000\<rparr>,
     cfg_Cache := cc_Dir_update (\<lambda>_. ''/cache'') (cfg_Cache c),
     cfg_Auth := ac_WhoamiURL_update (\<lambda>_. ''http://synapse'') (cfg_Auth c)\<rparr>)"

definition own_config :: Config where
  "own_config = projr (own_file defaultConfig)"

definition synapse_file :: "string \<Rightarrow> SynapseConfig res" where
  "synapse_file p = Inr sample_synapse"

definition derived_config :: Config where
  "derived_config = projr (deriveFromSynapse synapse_file (\<lambda>p. True) own_config)"

lemma own_decoded: "own_file defaultConfig = Inr own_config"
  by (simp add: own_file_def own_config_def)

lemmas load_defs = own_config_def own_file_def defaultConfig_def defaultMedia_def synapse_file_def sample_synapse_def

lemma derived_ok: "is_ok (deriveFromSynapse synapse_file (\<lambda>p. True) own_config)"
  by (simp add: load_defs deriveFromSynapse_def derive_steps_def derive_defs note_defs DatabaseURI_def Let_def
      parseSynapseSize_def parseSynapseDuration_def parseMediaUploadLimits_def limit_of_def)

lemma derived: "deriveFromSynapse synapse_file (\<lambda>p. True) own_config = Inr derived_config"
  using derived_ok by (auto simp: is_ok_iff derived_config_def)

lemma derived_explicit:
  "cfg_ServerName derived_config = ''example.org''" "dc_URI (cfg_Database derived_config) = ''postgres://''"
  "mc_StorePath (cfg_Media derived_config) = ''/data/media_store''" "mc_MaxImagePixels (cfg_Media derived_config) = Some 4000"
  using derive_kept [OF derived] unfolding explicit_kept_def held_def by (simp_all add: load_defs)

lemma derived_rest:
  "cfg_Cache derived_config = cfg_Cache own_config" "cfg_Auth derived_config = cfg_Auth own_config"
  "mc_WriteThroughThumbnails (cfg_Media derived_config) = mc_WriteThroughThumbnails (cfg_Media own_config)"
  "mc_AcceptUploads (cfg_Media derived_config) = mc_AcceptUploads (cfg_Media own_config)"
  "mc_FetchRemote (cfg_Media derived_config) = mc_FetchRemote (cfg_Media own_config)"
  "mc_ModuleUploadLimits (cfg_Media derived_config) = mc_ModuleUploadLimits (cfg_Media own_config)"
  "mc_UploadThumbnails (cfg_Media derived_config) = mc_UploadThumbnails (cfg_Media own_config)"
proof -
  have b: "blanked derived_config = blanked own_config" using derive_kept [OF derived] by (simp add: explicit_kept_def)
  show "cfg_Cache derived_config = cfg_Cache own_config" "cfg_Auth derived_config = cfg_Auth own_config"
    using arg_cong [OF b, of cfg_Cache] arg_cong [OF b, of cfg_Auth] by (simp_all add: blanked_def)
  have m: "f (cfg_Media (blanked derived_config)) = f (cfg_Media (blanked own_config))" for f :: "MediaConfig \<Rightarrow> 'a"
    using b by simp
  show "mc_WriteThroughThumbnails (cfg_Media derived_config) = mc_WriteThroughThumbnails (cfg_Media own_config)"
    "mc_AcceptUploads (cfg_Media derived_config) = mc_AcceptUploads (cfg_Media own_config)"
    "mc_FetchRemote (cfg_Media derived_config) = mc_FetchRemote (cfg_Media own_config)"
    "mc_ModuleUploadLimits (cfg_Media derived_config) = mc_ModuleUploadLimits (cfg_Media own_config)"
    "mc_UploadThumbnails (cfg_Media derived_config) = mc_UploadThumbnails (cfg_Media own_config)"
    using m [of mc_WriteThroughThumbnails] m [of mc_AcceptUploads] m [of mc_FetchRemote] m [of mc_ModuleUploadLimits]
      m [of mc_UploadThumbnails] by (simp_all add: blanked_def)
qed

lemma loaded_ok: "validate None derived_config = Inr ()"
  unfolding validate_def derived_explicit derived_rest Let_def MaxImagePixelsOrDefault_def
  by (simp add: load_defs cleanAbs_def path_abs_def is_abs_def has_prefix_def clean_def uploadThumbnailsNone_def)

lemma own_synapse: "cfg_SynapseConfig own_config = ''/homeserver.yaml''"
  by (simp add: load_defs)

lemma loaded: "LoadConfig None own_file synapse_file (\<lambda>p. True) = Inr derived_config"
  by (simp add: LoadConfig_def own_decoded own_synapse derived loaded_ok)

lemma own_typed: "config_typed own_config" "synapse_typed sample_synapse"
  by (simp_all add: load_defs config_typed_def synapse_typed_def yaml_typed_def limits_typed_def in_int64_def
      min_int64_def max_int64_def Hour_def)

theorem LoadConfig_sound_witness: "config_typed derived_config \<and> sane_config None derived_config"
  by (rule LoadConfig_sound [OF loaded]) (use own_decoded own_typed in \<open>auto simp: synapse_file_def\<close>)

theorem deriveFromSynapse_keeps_explicit_witness: "explicit_kept own_config derived_config"
  by (rule deriveFromSynapse_keeps_explicit [OF derived])

theorem explicit_expiration_lost_witness:
  "mc_UnusedExpirationTime (cfg_Media own_config) = Hour \<and> mc_UnusedExpirationTime (cfg_Media derived_config) = 2 * Hour"
proof -
  have "mc_UnusedExpirationTime (cfg_Media derived_config) = 2 * Hour \<and> mc_MaxPendingMediaUploads (cfg_Media derived_config) = 7"
    by (rule explicit_expiration_lost [OF derived, of sample_synapse])
      (simp_all add: synapse_file_def sample_synapse_def own_config_def own_file_def defaultConfig_def defaultMedia_def
        parseSynapseDuration_def wrap64_def Millisecond_def Hour_def)
  then show ?thesis by (simp add: load_defs)
qed

theorem synapse_values_read_witness:
  "parseSynapseSize (YString (show_int 100 @ ''M'')) = Inr 104857600 \<and>
   parseSynapseDuration (YString (show_int 2 @ ''h'')) = Inr (2 * Hour)"
  using synapse_values_read [of "CHR ''M''" "CHR ''h''" 100 2 0]
  by (simp add: size_multiplier_def duration_unit_def Hour_def Second_def Minute_def Millisecond_def
      in_int64_def min_int64_def max_int64_def)

end
