(* ===== verification/Startup_Correct.thy ===== *)
theory Startup_Correct
  imports Startup Proxy_Correct Synapse_Config_Correct Thumb_Cache
begin

text \<open>
  What holds once the worker is up: which files its sweep may have removed, what its server looks like, whose
  socket it has taken, with which key it signs and which upstreams it has refused.
\<close>

section \<open>The sweep\<close>

text \<open>The file of an entry that is no directory and has not been touched for an hour.\<close>

definition stale :: "string \<Rightarrow> dir_entry list \<Rightarrow> int \<Rightarrow> string \<Rightarrow> bool" where
  "stale dir es now q \<longleftrightarrow>
     (\<exists>e \<in> set es. \<exists>t. \<not> de_isdir e \<and> de_mtime e = Some t \<and> t + Hour \<le> now \<and> q = path_join [dir, de_name e])"

definition only_removed :: "(int \<Rightarrow> string \<Rightarrow> bool) \<Rightarrow> world \<Rightarrow> world \<Rightarrow> bool" where
  "only_removed R w w' \<longleftrightarrow> w_clock w \<le> w_clock w' \<and>
     (\<forall>q. w_files w' q = w_files w q \<or> w_files w' q = None \<and> R (w_clock w') q)"

lemma only_removed_refl: "w_clock w \<le> w_clock w' \<Longrightarrow> w_files w' = w_files w \<Longrightarrow> only_removed R w w'"
  by (simp add: only_removed_def)

lemma only_removed_trans:
  assumes "only_removed R w v" "only_removed S v u" "\<And>t t' q. R t q \<Longrightarrow> t \<le> t' \<Longrightarrow> T t' q" "\<And>t q. S t q \<Longrightarrow> T t q"
  shows "only_removed T w u"
  using assms unfolding only_removed_def by (metis order_trans)

lemma stale_later: "stale dir es t q \<Longrightarrow> t \<le> t' \<Longrightarrow> stale dir es t' q"
  by (force simp: stale_def)

lemma stale_more: "stale dir es t q \<Longrightarrow> stale dir (e # es) t q"
  by (auto simp: stale_def)

lemma wp_os_remove:
  assumes "\<And>e w1. files_only w w1 \<Longrightarrow> w_files w1 = w_files w \<Longrightarrow> Q (Inl e) w1"
    and "\<And>w1. files_only w w1 \<Longrightarrow> w_files w p \<noteq> None \<Longrightarrow> w_files w1 = (w_files w)(p := None) \<Longrightarrow> Q (Inr ()) w1"
  shows "wp (os_remove p) Q w"
  unfolding os_remove_def
  by (rule wp_call) (auto intro!: assms files_only_upd split: option.split)

lemma wp_sweep_now:
  assumes "\<And>d. Q (w_clock w + int d) (w\<lparr>w_clock := w_clock w + int d, w_ticks := tl (w_ticks w)\<rparr>)"
  shows "wp go_now Q w"
  using assms [of 0] assms [of "hd (w_ticks w)"] by (cases "w_ticks w") (simp_all add: go_now_def Let_def)

text \<open>What is decided of one file.\<close>

lemma wp_sweep_entry:
  assumes "\<not> de_isdir e" "de_mtime e = Some t" and v: "w_clock v = now" "w_files v = w_files w" "w_clock w \<le> now"
  shows "wp (if now - t < Hour then State_Monad.return False
      else do { r \<leftarrow> os_remove (path_join [dir, de_name e]); State_Monad.return (is_ok r) })
    (\<lambda>_. only_removed (stale dir (e # es)) w) v"
proof (cases "now - t < Hour")
  case True
  with v show ?thesis by (simp add: only_removed_refl)
next
  case False
  have "wp (os_remove (path_join [dir, de_name e])) (\<lambda>_. only_removed (stale dir (e # es)) w) v"
  proof (rule wp_os_remove)
    fix x u assume "files_only v u" "w_files u = w_files v"
    then show "only_removed (stale dir (e # es)) w u"
      using files_only_same(6) [of v u] v by (intro only_removed_refl) auto
  next
    fix u assume "files_only v u" "w_files u = (w_files v)(path_join [dir, de_name e] := None)"
    then show "only_removed (stale dir (e # es)) w u"
      using files_only_same(6) [of v u] v False assms(1,2) by (auto simp: only_removed_def stale_def)
  qed
  with False show ?thesis by simp
qed

lemma wp_sweep_dir: "wp (sweep_dir dir es) (\<lambda>_. only_removed (stale dir es) w) w"
proof (induction es arbitrary: w)
  case (Cons e es)
  let ?Q = "only_removed (stale dir (e # es))"
  have rest: "wp (sweep_dir dir es) (\<lambda>_. ?Q w) v" if "only_removed (stale dir (e # es)) w v" for v
    by (rule wp_mono [OF Cons.IH]) (auto intro: only_removed_trans [OF that] stale_later stale_more)
  have rest': "wp (sweep_dir dir es) (\<lambda>x w'. wp (case x of (removed, scanned) \<Rightarrow>
      State_Monad.return (removed + (if gone then 1 else 0), Suc scanned)) (\<lambda>_. ?Q w) w') v"
    if "only_removed (stale dir (e # es)) w v" for v gone
    by (rule wp_mono [OF rest [OF that]]) auto
  show ?case
  proof (cases "de_isdir e")
    case True
    then show ?thesis using rest by (simp add: only_removed_refl)
  next
    case False
    show ?thesis
    proof (cases "de_mtime e")
      case None
      with False show ?thesis using rest' [where gone = False] by (simp add: only_removed_refl)
    next
      case (Some t)
      have "wp go_now (\<lambda>now. wp (if now - t < Hour then State_Monad.return False
          else do { r \<leftarrow> os_remove (path_join [dir, de_name e]); State_Monad.return (is_ok r) })
          (\<lambda>gone. wp (sweep_dir dir es) (\<lambda>x. wp (case x of (removed, scanned) \<Rightarrow>
             State_Monad.return (removed + (if gone then 1 else 0), Suc scanned)) (\<lambda>_. ?Q w)))) w"
        by (rule wp_sweep_now, rule wp_mono [OF wp_sweep_entry [OF False Some]]) (simp, simp, simp, rule rest')
      moreover have "sweep_dir dir (e # es) = do {
          now \<leftarrow> go_now;
          gone \<leftarrow> (if now - t < Hour then State_Monad.return False
             else do { r \<leftarrow> os_remove (path_join [dir, de_name e]); State_Monad.return (is_ok r) });
          x \<leftarrow> sweep_dir dir es;
          case x of (removed, scanned) \<Rightarrow> State_Monad.return (removed + (if gone then 1 else 0), Suc scanned) }"
        using False Some by simp
      ultimately show ?thesis by (simp only:) (unfold wp_bind, assumption)
    qed
  qed
qed (simp add: only_removed_refl)

text \<open>Where the sweep looks: an entry, by its name, of one of the temporary directories.\<close>

definition sweepable :: "(string \<Rightarrow> dir_entry list res) \<Rightarrow> string list \<Rightarrow> int \<Rightarrow> string \<Rightarrow> bool" where
  "sweepable listing dirs now q \<longleftrightarrow> (\<exists>dir \<in> set dirs. \<exists>es. listing dir = Inr es \<and> stale dir es now q)"

lemma wp_sweep_dirs: "wp (sweep_dirs listing dirs) (\<lambda>_. only_removed (sweepable listing dirs) w) w"
proof (induction dirs arbitrary: w)
  case (Cons dir dirs)
  let ?Q = "only_removed (sweepable listing (dir # dirs)) w"
  have rest: "wp (sweep_dirs listing dirs) (\<lambda>_. ?Q) v" if "?Q v" for v
    by (rule wp_mono [OF Cons.IH], erule only_removed_trans [OF that])
      (unfold sweepable_def, (use stale_later in fastforce)+)
  show ?case
  proof (cases "listing dir")
    case (Inl e)
    then show ?thesis using rest by (simp add: only_removed_refl)
  next
    case (Inr es)
    have "?Q v" if "only_removed (stale dir es) w v" for v
      using that Inr by (auto simp: only_removed_def sweepable_def)
    with Inr rest show ?thesis
      by (auto intro!: wp_mono [OF wp_sweep_dir] simp: split_beta)
  qed
qed (simp add: only_removed_refl)

text \<open>C23: what the sweep at startup may remove: files of the temporary directories of the writable part of the store
  that have not been touched for an hour, so never a write in flight, and never a medium; whatever the
  directories hold and whatever calls fail.\<close>

theorem sweep_only_stale:
  assumes "\<And>dir es e. listing dir = Inr es \<Longrightarrow> e \<in> set es \<Longrightarrow> plain (de_name e)" "rooted_store p"
  shows "wp (sweepStaleTempFiles listing p) (\<lambda>_ w'.
     (\<forall>q. w_files w' q \<noteq> w_files w q \<longrightarrow> w_files w' q = None \<and> sweepable listing (TempDirs p) (w_clock w') q) \<and>
     (\<forall>x q. ordinary x \<and> medium_path p x = Inr q \<longrightarrow> w_files w' q = w_files w q)) w"
  unfolding sweepStaleTempFiles_def
proof (rule wp_mono [OF wp_sweep_dirs], intro conjI allI impI)
  fix r :: "nat \<times> nat" and w' q
  assume removed: "only_removed (sweepable listing (TempDirs p)) w w'"
  then show "w_files w' q \<noteq> w_files w q \<Longrightarrow> w_files w' q = None"
    "w_files w' q \<noteq> w_files w q \<Longrightarrow> sweepable listing (TempDirs p) (w_clock w') q"
    by (auto simp: only_removed_def)
  fix x assume x: "ordinary x \<and> medium_path p x = Inr q"
  from assms(2) obtain bs where bs: "list_all plain bs" "bs \<noteq> []" "base p = abs_path bs" by (rule rooted_storeE)
  have "\<not> sweepable listing (TempDirs p) now q" for now
  proof
    assume "sweepable listing (TempDirs p) now q"
    then obtain d n where d: "d \<in> set (writablePrefixes p)" "plain n" "q = path_join [path_join [base p, d, tempDirName], n]"
      using assms(1) unfolding sweepable_def stale_def TempDirs_def by (fastforce intro: that)
    from d(1) have "plain d" by (auto simp: writablePrefixes_def remoteWritablePrefixes_def uploadWritablePrefixes_def plain_def split: if_splits)
    then have comps: "list_all plain [d, ''.tmp'']" "list_all plain (bs @ [d, ''.tmp''])" using bs(1) by (simp_all add: plain_def)
    have "path_join [base p, d, tempDirName] = abs_path (bs @ [d, ''.tmp''])"
      using path_join_plain [OF bs(1,3) comps(1)] by (simp add: tempDirName_def)
    with d(2,3) path_join_plain [OF comps(2) _ , of _ "[n]"] have q: "q = abs_path ((bs @ [d, ''.tmp'']) @ [n])" by simp
    moreover have "q = abs_path (bs @ medium_dir x # medium_comps x)"
      using medium_path_comps [OF conjunct1 [OF x] bs] x by (metis sum.inject(2))
    ultimately have "(bs @ [d, ''.tmp'']) @ [n] = bs @ medium_dir x # medium_comps x"
      using abs_path_inj [of "(bs @ [d, ''.tmp'']) @ [n]" "bs @ medium_dir x # medium_comps x"] comps(2) d(2) bs(1)
        medium_comps_plain [of x] x by auto
    then have "medium_dir x = d" by simp
    then have "q = base p @ ''/'' @ medium_dir x @ ''/.tmp/'' @ n"
      using q bs(2,3) by (simp add: abs_path_append)
    with store.place_not_temp [OF assms(2) _ d(2), of x] x show False by simp
  qed
  with removed show "w_files w' q = w_files w q" by (auto simp: only_removed_def)
qed

section \<open>The server\<close>

lemma wp_check:
  assumes "\<And>e. r = Inl e \<Longrightarrow> Q (Inl e) w" "\<And>x. r = Inr x \<Longrightarrow> wp (k x) Q w"
  shows "wp (attempt (State_Monad.return r) fails k) Q w"
  using assms by (cases r) (simp_all add: wp_attempt)

lemma wp_then:
  assumes "wp m P w" "\<And>e w1. P (Inl e) w1 \<Longrightarrow> Q (Inl e) w1" "\<And>x w1. P (Inr x) w1 \<Longrightarrow> wp (k x) Q w1"
  shows "wp (attempt m fails k) Q w"
  unfolding wp_attempt by (rule wp_mono [OF assms(1)]) (use assms(2,3) in \<open>auto split: sum.split\<close>)

text \<open>A probe leaves no trace where it succeeds, and at most its own file where it fails.\<close>

definition probed :: "string \<Rightarrow> world \<Rightarrow> unit res \<Rightarrow> world \<Rightarrow> bool" where
  "probed b w r w' \<longleftrightarrow> files_only w w' \<and>
     (if r = Inr () then w_files w' = w_files w
      else \<forall>q. w_files w' q = w_files w q \<or> (\<exists>n. q = temp_name (path_join [b, ''remote_content'']) ''.writable-probe-'' n))"

lemma wp_probe: "wp (checkMediaStoreWritable b) (probed b w) w"
proof -
  let ?dir = "path_join [b, ''remote_content'']"
  have close: "wp (os_close name) (\<lambda>_ u. files_only v u \<and> w_files u = w_files v) v" for name v
    unfolding os_close_def by (rule wp_call) (auto intro: files_only_upd)
  have mkdir: "wp (os_mkdir_all ?dir) (\<lambda>_ u. files_only w u \<and> w_files u = w_files w) w"
    unfolding os_mkdir_all_def by (rule wp_call) (auto intro: files_only_upd)
  show ?thesis
    unfolding checkMediaStoreWritable_def Let_def
  proof (rule wp_then [OF mkdir])
    fix x :: unit and v assume v: "files_only w v \<and> w_files v = w_files w"
    show "wp (attempt (os_create_temp ?dir ''.writable-probe-'') fails (\<lambda>name. do {
        _ \<leftarrow> os_close name; attempt (os_remove name) fails (\<lambda>_. State_Monad.return (Inr ())) })) (probed b w) v"
      unfolding wp_attempt
    proof (rule os_create_temp_step, goal_cases)
      case (1 e u)
      with v show ?case by (auto simp: probed_def intro: files_only_trans)
    next
      case (2 n u)
      let ?name = "temp_name ?dir ''.writable-probe-'' n"
      have u: "files_only w u" "\<forall>q. q \<noteq> ?name \<longrightarrow> w_files u q = w_files w q" "w_files w ?name = None"
        using v 2 by (auto simp: temp_phase_def intro: files_only_trans)
      have "wp (os_remove ?name) (case_sum (\<lambda>e. probed b w (Inl e)) (\<lambda>_. probed b w (Inr ()))) t"
        if "files_only u t" "w_files t = w_files u" for t
        by (rule wp_os_remove) (use u that in \<open>auto simp: probed_def fun_eq_iff intro: files_only_trans\<close>)
      then show ?case by (auto simp: wp_attempt intro!: wp_mono [OF close] split: sum.splits)
    qed
  qed (auto simp: probed_def)
qed

text \<open>What is assembled of an accepted configuration.\<close>

definition opt_proxy :: "UpstreamTarget \<Rightarrow> proxy option \<Rightarrow> bool" where
  "opt_proxy t p \<longleftrightarrow> (p \<noteq> None \<longleftrightarrow> configured t) \<and> (\<forall>q. p = Some q \<longrightarrow> px_endpoints q \<noteq> [] \<and> proxy_inv (px_endpoints q) (q, []))"

definition well_assembled :: "('k, 'i) surroundings \<Rightarrow> Config \<Rightarrow> ('k, 'i) assembled \<Rightarrow> bool" where
  "well_assembled E cfg a \<longleftrightarrow>
     (let s = as_server a; m = cfg_Media cfg; u = cfg_Upstream cfg in
      sv_cfg s = cfg \<and> rooted_store (sv_paths s) \<and>
      \<not> inside (sv_paths s) (cleanAbs (su_cwd E) (cc_Dir (cfg_Cache cfg))) \<and>
      set (writablePrefixes (sv_paths s)) =
        set remoteWritablePrefixes \<union> (if sv_uploader s then set uploadWritablePrefixes else {}) \<and>
      (sv_uploader s \<longleftrightarrow> UploadsAccepted m) \<and> (sv_uploader s \<longrightarrow> 0 < MaxUploadSizeOrDefault m) \<and>
      (sv_remote s \<noteq> None \<longleftrightarrow> mc_FetchRemote m) \<and>
      (\<forall>rf. sv_remote s = Some rf \<longrightarrow> 0 < ft_maxUploadSize (rf_fetcher rf) \<and> 0 < ft_timeout (rf_fetcher rf) \<and>
         rf_authenticated rf = AuthenticatedMedia m) \<and>
      0 < sv_maxImagePixels s \<and>
      opt_proxy (uc_Download u) (as_download a) \<and> opt_proxy (uc_Upload u) (as_upload a) \<and>
      opt_proxy (uc_Thumbnail u) (as_thumbnail a) \<and> opt_proxy (passthrough_target u) (as_passthrough a) \<and>
      (sv_downloadUp s \<longleftrightarrow> as_download a \<noteq> None) \<and> (sv_uploadUp s \<longleftrightarrow> as_upload a \<noteq> None) \<and>
      (sv_thumbnailUp s \<longleftrightarrow> as_thumbnail a \<noteq> None) \<and> (sv_passthroughUp s \<longleftrightarrow> as_passthrough a \<noteq> None) \<and>
      (configured (passthrough_target u) \<longrightarrow> checkNotSelf (su_cwd E) (passthrough_target u) (cfg_Listen cfg) = Inr ()) \<and>
      (\<exists>n. loadSigningKey E (mc_SigningKeyPath m) = Inr (as_key a, n)))"

lemma new_endpoints_length: "new_endpoints parse es = Inr eps \<Longrightarrow> length eps = length es"
  by (induction es arbitrary: eps) (auto split: sum.splits)

lemma new_proxy:
  assumes "NewProxy parse t = Inr q"
  shows "px_endpoints q \<noteq> [] \<and> proxy_inv (px_endpoints q) (q, [])"
proof -
  have "px_endpoints q \<noteq> []"
    using assms new_endpoints_length [of parse "Endpoints t"] by (auto simp: NewProxy_def Let_def split: if_splits sum.splits)
  with new_proxy_inv [OF assms] show ?thesis by simp
qed

lemma opt_proxy_new: "upstream_proxy E t = Inr p \<Longrightarrow> opt_proxy t p"
  by (cases "NewProxy (su_url E) t") (auto simp: upstream_proxy_def opt_proxy_def split: if_splits dest: new_proxy)

lemma opt_proxy_passthrough:
  assumes "passthrough_proxy E cfg = Inr p"
  shows "opt_proxy (passthrough_target (cfg_Upstream cfg)) p"
    "configured (passthrough_target (cfg_Upstream cfg)) \<Longrightarrow>
       checkNotSelf (su_cwd E) (passthrough_target (cfg_Upstream cfg)) (cfg_Listen cfg) = Inr ()"
  using assms
  by (cases "NewProxy (su_url E) (passthrough_target (cfg_Upstream cfg))";
      auto simp: passthrough_proxy_def opt_proxy_def Let_def split: if_splits sum.splits dest: new_proxy)+

lemma well_assembled_result:
  assumes "sane_config (su_cwd E) cfg" "is_abs (mc_StorePath (cfg_Media cfg))" "clean (mc_StorePath (cfg_Media cfg)) \<noteq> ''/''"
    and "upstream_proxy E (uc_Download (cfg_Upstream cfg)) = Inr download" "upstream_proxy E (uc_Upload (cfg_Upstream cfg)) = Inr upload"
    "upstream_proxy E (uc_Thumbnail (cfg_Upstream cfg)) = Inr thumbnail" "passthrough_proxy E cfg = Inr passthrough"
    "newFederationAuth E cfg = Inr key"
  shows "well_assembled E cfg \<lparr>as_server = \<lparr>sv_cfg = cfg,
      sv_paths = (if UploadsAccepted (cfg_Media cfg) then AllowUploadWrites (NewMediaPaths (su_cwd E) (mc_StorePath (cfg_Media cfg)))
        else NewMediaPaths (su_cwd E) (mc_StorePath (cfg_Media cfg))), sv_cache = cache,
      sv_maxImagePixels = MaxImagePixelsOrDefault (cfg_Media cfg), sv_imaging = su_imaging E,
      sv_remote = (if mc_FetchRemote (cfg_Media cfg)
        then Some \<lparr>rf_fetcher = NewFetcher (MaxUploadSizeOrDefault (cfg_Media cfg)) (mc_FetchTimeout (cfg_Media cfg)),
          rf_authenticated = AuthenticatedMedia (cfg_Media cfg)\<rparr> else None),
      sv_uploader = UploadsAccepted (cfg_Media cfg), sv_downloadUp = (download \<noteq> None), sv_thumbnailUp = (thumbnail \<noteq> None),
      sv_uploadUp = (upload \<noteq> None), sv_passthroughUp = (passthrough \<noteq> None)\<rparr>,
    as_key = key, as_download = download, as_upload = upload, as_thumbnail = thumbnail, as_passthrough = passthrough,
    as_agent = ua\<rparr>"
proof -
  let ?p = "NewMediaPaths (su_cwd E) (mc_StorePath (cfg_Media cfg))"
  have rooted: "rooted_store ?p" by (rule NewMediaPaths_rooted [OF assms(2,3)])
  have key: "\<exists>n. loadSigningKey E (mc_SigningKeyPath (cfg_Media cfg)) = Inr (key, n)"
    using assms(8) by (cases "loadSigningKey E (mc_SigningKeyPath (cfg_Media cfg))") (auto simp: newFederationAuth_def split: if_splits)
  have accepts: "UploadsAccepted (cfg_Media cfg) \<Longrightarrow> mc_AcceptUploads (cfg_Media cfg)" by (simp add: UploadsAccepted_def split: if_splits)
  have "NewMediaPaths (su_cwd E) b = NewMediaPaths (su_cwd E) b\<lparr>uploadsAllowed := False\<rparr>" for b by (simp add: NewMediaPaths_def)
  then have fresh: "uploadsAllowed ?p = False" by (simp add: NewMediaPaths_def)
  show ?thesis
    using assms(1) rooted key accepts opt_proxy_new [OF assms(4)] opt_proxy_new [OF assms(5)] opt_proxy_new [OF assms(6)]
      opt_proxy_passthrough [OF assms(7)]
    by (auto simp: well_assembled_def Let_def sane_config_def AllowUploadWrites_def rooted_store_def inside_def
        writablePrefixes_def fresh NewFetcher_def Second_def)
qed

text \<open>What the checks may leave behind: a probe that could not be removed.\<close>

definition but_probes :: "string \<Rightarrow> world \<Rightarrow> world \<Rightarrow> bool" where
  "but_probes b w w' \<longleftrightarrow> w_local w' = w_local w \<and> w_remote w' = w_remote w \<and> w_lthumbs w' = w_lthumbs w \<and>
     w_rthumbs w' = w_rthumbs w \<and>
     (\<forall>q. w_files w' q = w_files w q \<or> (\<exists>n. q = temp_name (path_join [b, ''remote_content'']) ''.writable-probe-'' n))"

definition unchanged :: "world \<Rightarrow> world \<Rightarrow> bool" where
  "unchanged w w' \<longleftrightarrow> w_local w' = w_local w \<and> w_remote w' = w_remote w \<and> w_lthumbs w' = w_lthumbs w \<and>
     w_rthumbs w' = w_rthumbs w \<and> w_files w' = w_files w"

lemma unchanged_probes: "unchanged w w' \<Longrightarrow> but_probes b w w'"
  by (simp add: unchanged_def but_probes_def)

lemma unchanged_files_only: "unchanged w v \<Longrightarrow> files_only v u \<Longrightarrow> w_files u = w_files v \<Longrightarrow> unchanged w u"
  by (simp add: unchanged_def files_only_same)

lemma unchanged_probed: "unchanged w v \<Longrightarrow> probed b v r u \<Longrightarrow> but_probes b w u \<and> (r = Inr () \<longrightarrow> unchanged w u \<and> w_auth u = w_auth v)"
  by (auto simp: unchanged_def probed_def but_probes_def files_only_same split: if_splits)

lemma wp_new_cache: "wp (NewThumbnailCache cwd c) (\<lambda>_ u. files_only w u \<and> w_files u = w_files w) w"
proof -
  have "wp (os_mkdir_all d) (\<lambda>_ u. files_only w u \<and> w_files u = w_files w) w" for d
    unfolding os_mkdir_all_def by (rule wp_call) (auto intro: files_only_upd)
  then show ?thesis unfolding NewThumbnailCache_def Let_def wp_attempt by (rule wp_mono) (auto split: sum.split)
qed

lemma wp_check_if:
  assumes "unchanged w v"
  shows "wp (check_if c (checkMediaStoreWritable b)) (\<lambda>r u. but_probes b w u \<and> (r = Inr () \<longrightarrow> unchanged w u \<and> w_auth u = w_auth v)) v"
  using unchanged_probes [OF assms] assms
  by (auto simp: check_if_def intro!: wp_mono [OF wp_probe] dest: unchanged_probed [OF assms])


section \<open>The listener\<close>

text \<open>Whose socket the worker takes. It removes a file only at its own socket's path, only a socket, and only one
  at which nothing answers; it serves on what the configuration says, a socket with the configured mode; and
  where opening fails, nothing stays bound.\<close>

theorem listener_contract:
  "case makeListener so cfg of (r, acts) \<Rightarrow>
     (\<forall>p. RemovedSocket p \<in> set acts \<longrightarrow> p = lc_Socket cfg \<and> so_entry so = Inr (Some True) \<and> \<not> so_answers so) \<and>
     (r = Inr () \<longrightarrow> lc_Socket cfg = '''' \<and> acts = [Bound ''tcp'' (lc_Addr cfg)] \<or>
        lc_Socket cfg \<noteq> '''' \<and> length (lc_Socket cfg) \<le> 107 \<and> so_entry so \<in> {Inr None, Inr (Some True)} \<and>
        (\<exists>before. acts = before @ [Bound ''unix'' (lc_Socket cfg),
           Chmodded (lc_Socket cfg) (if lc_SocketMode cfg = 0 then 438 else lc_SocketMode cfg)])) \<and>
     (r \<noteq> Inr () \<longrightarrow> (\<forall>net addr. Bound net addr \<in> set acts \<longrightarrow> last acts = Closed))"
  by (auto simp: makeListener_def removeStaleSocket_def Let_def split: sum.splits option.splits if_splits)

section \<open>The signing key\<close>

definition key_line :: "string \<Rightarrow> bool" where
  "key_line l \<longleftrightarrow> trim_space l \<noteq> '''' \<and> \<not> has_prefix ''#'' (trim_space l)"

definition keys_of :: "(string \<Rightarrow> 'k option) \<Rightarrow> string list \<Rightarrow> 'k option list" where
  "keys_of parse ls = map (parse \<circ> trim_space) (filter key_line ls)"

lemma key_loop_keys:
  "key_loop parse ls first n =
     (if None \<in> set (keys_of parse ls) then Inl (ErrConfig ''parsing signing key'')
      else Inr (case first of Some k \<Rightarrow> Some k | None \<Rightarrow> (case keys_of parse ls of [] \<Rightarrow> None | k # _ \<Rightarrow> k),
        n + length (keys_of parse ls)))"
  by (induction parse ls first n rule: key_loop.induct)
    (auto simp: keys_of_def key_line_def Let_def split: option.splits list.splits)

text \<open>The key the worker signs with is the first of the file, as Synapse's is. Every line that is neither blank nor
  a comment must parse, and the count is theirs.\<close>

theorem signing_key_first:
  assumes "su_keyfile E path = Inr raw"
  shows "loadSigningKey E path =
     (let keys = keys_of (su_key E) (split_on lf raw) in
      if None \<in> set keys then Inl (ErrConfig ''parsing signing key'')
      else case keys of
        Some key # _ \<Rightarrow> Inr (key, length keys)
      | _ \<Rightarrow> Inl (ErrConfig ''signing key file contains no keys''))"
  using assms by (auto simp: loadSigningKey_def key_loop_keys Let_def split: list.split option.split)

section \<open>The worker's own address\<close>

lemma check_endpoints_ok:
  "check_endpoints cwd es listen = Inr () \<longleftrightarrow>
     (\<forall>e \<in> set es. \<not> (ue_Socket e \<noteq> '''' \<and> lc_Socket listen \<noteq> '''' \<and> cleanAbs cwd (ue_Socket e) = cleanAbs cwd (lc_Socket listen)) \<and>
        \<not> (ue_URL e \<noteq> '''' \<and> lc_Addr listen \<noteq> '''' \<and> has_suffix (lc_Addr listen) (ue_URL e)))"
  by (induction es) auto

definition at_url :: "string \<Rightarrow> UpstreamTarget" where
  "at_url u = no_target\<lparr>ut_URL := u\<rparr>"

text \<open>What the check against forwarding to itself decides. It compares sockets as paths and URLs by their last bytes,
  so a worker on a socket, whose address keeps its default, refuses Synapse on the same port of another host,
  and one on that port accepts its own address when it is written with a final slash.\<close>

theorem self_check_by_suffix:
  "(checkNotSelf cwd t listen = Inr () \<longleftrightarrow>
      (\<forall>e \<in> set (Endpoints t).
         \<not> (ue_Socket e \<noteq> '''' \<and> lc_Socket listen \<noteq> '''' \<and> cleanAbs cwd (ue_Socket e) = cleanAbs cwd (lc_Socket listen)) \<and>
         \<not> (ue_URL e \<noteq> '''' \<and> lc_Addr listen \<noteq> '''' \<and> has_suffix (lc_Addr listen) (ue_URL e)))) \<and>
   \<not> is_ok (checkNotSelf cwd (at_url ''http://10.1.2.3:8090'') (lc_Socket_update (\<lambda>_. ''/run/w.sock'') (cfg_Listen defaultConfig))) \<and>
   is_ok (checkNotSelf cwd (at_url ''http://127.0.0.1:8090/'') (cfg_Listen defaultConfig))"
proof (intro conjI)
  show "\<not> is_ok (checkNotSelf cwd (at_url ''http://10.1.2.3:8090'') (lc_Socket_update (\<lambda>_. ''/run/w.sock'') (cfg_Listen defaultConfig)))"
    "is_ok (checkNotSelf cwd (at_url ''http://127.0.0.1:8090/'') (cfg_Listen defaultConfig))"
    by (simp_all add: checkNotSelf_def Endpoints_def at_url_def no_target_def defaultConfig_def is_ok_def has_suffix_def)
qed (simp add: checkNotSelf_def check_endpoints_ok)

section \<open>Witnesses\<close>

definition sample_surroundings :: "(string, int \<times> int) surroundings" where
  "sample_surroundings = \<lparr>su_cwd = None, su_stat = (\<lambda>p. Inr True), su_openable = (\<lambda>p. True), su_database = Inr (),
     su_url = (\<lambda>u. Some (''http'', u)), su_keyfile = (\<lambda>p. Inr (''#'' @ [lf] @ ''k1'' @ [lf] @ ''k2'')),
     su_key = Some, su_imaging = size_library, su_version = Inl ErrIO,
     su_socket = \<lparr>so_entry = Inr None, so_answers = False, so_removed = Inr (), so_bound = Inr (), so_chmod = Inr ()\<rparr>,
     su_listing = (\<lambda>d. if d = ''/data/media_store/remote_content/.tmp''
       then Inr [\<lparr>de_name = ''.incoming-1'', de_isdir = False, de_mtime = Some 0\<rparr>,
                 \<lparr>de_name = ''.incoming-2'', de_isdir = False, de_mtime = Some (3 * Hour)\<rparr>]
       else Inl ErrNotExist)\<rparr>"

theorem signing_key_first_witness:
  "loadSigningKey sample_surroundings ''/signing.key'' = Inr (''k1'', 2)"
proof -
  have "su_keyfile sample_surroundings ''/signing.key'' = Inr (''#'' @ [lf] @ ''k1'' @ [lf] @ ''k2'')"
    by (simp add: sample_surroundings_def)
  moreover have "keys_of Some (split_on lf (''#'' @ [lf] @ ''k1'' @ [lf] @ ''k2'')) =
      [Some ''k1'', Some ''k2'']"
    by (simp add: keys_of_def key_line_def lf_def trim_printable printable_def has_prefix_def)
  ultimately show ?thesis
    by (subst signing_key_first) (auto simp: sample_surroundings_def Let_def)
qed

theorem listener_contract_witness:
  "makeListener \<lparr>so_entry = Inr (Some True), so_answers = False, so_removed = Inr (), so_bound = Inr (), so_chmod = Inl ErrIO\<rparr>
       \<lparr>lc_Socket = ''/run/w.sock'', lc_SocketMode = 0, lc_Addr = '''', lc_MetricsAddr = ''''\<rparr> =
     (Inl ErrIO, [RemovedSocket ''/run/w.sock'', Bound ''unix'' ''/run/w.sock'', Closed]) \<and>
   last [RemovedSocket ''/run/w.sock'', Bound ''unix'' ''/run/w.sock'', Closed] = Closed"
proof -
  let ?so = "\<lparr>so_entry = Inr (Some True), so_answers = False, so_removed = Inr (), so_bound = Inr (), so_chmod = Inl ErrIO\<rparr>"
  let ?cfg = "\<lparr>lc_Socket = ''/run/w.sock'', lc_SocketMode = 0, lc_Addr = '''', lc_MetricsAddr = ''''\<rparr>"
  have run: "makeListener ?so ?cfg = (Inl ErrIO, [RemovedSocket ''/run/w.sock'', Bound ''unix'' ''/run/w.sock'', Closed])"
    by (simp add: makeListener_def removeStaleSocket_def)
  from listener_contract [where so = ?so and cfg = ?cfg] show ?thesis unfolding run by simp
qed

theorem self_check_by_suffix_witness:
  "is_ok (checkNotSelf None (at_url ''http://synapse:8008'') (cfg_Listen defaultConfig))"
proof -
  have "\<forall>e \<in> set (Endpoints (at_url ''http://synapse:8008'')).
     \<not> (ue_Socket e \<noteq> '''' \<and> lc_Socket (cfg_Listen defaultConfig) \<noteq> '''' \<and>
        cleanAbs None (ue_Socket e) = cleanAbs None (lc_Socket (cfg_Listen defaultConfig))) \<and>
     \<not> (ue_URL e \<noteq> '''' \<and> lc_Addr (cfg_Listen defaultConfig) \<noteq> '''' \<and> has_suffix (lc_Addr (cfg_Listen defaultConfig)) (ue_URL e))"
    by (simp add: Endpoints_def at_url_def no_target_def defaultConfig_def has_suffix_def)
  with self_check_by_suffix [of None "at_url ''http://synapse:8008''" "cfg_Listen defaultConfig"] show ?thesis by (simp add: is_ok_def)
qed

theorem sweep_only_stale_witness:
  "wp (sweepStaleTempFiles (su_listing sample_surroundings) sample_store) (\<lambda>_ w'.
     \<forall>q. w_files w' q \<noteq> w_files sample_world q \<longrightarrow>
       w_files w' q = None \<and> sweepable (su_listing sample_surroundings) (TempDirs sample_store) (w_clock w') q) sample_world"
proof (rule wp_mono [OF sweep_only_stale [OF _ sample_rooted(1)]])
  fix dir es e assume "su_listing sample_surroundings dir = Inr es" "e \<in> set es"
  then show "plain (de_name e)" by (auto simp: sample_surroundings_def plain_def split: if_splits)
qed blast

definition signing_config :: Config where
  "signing_config = sample_config\<lparr>cfg_Media := (cfg_Media sample_config)\<lparr>mc_SigningKeyPath := ''/signing.key'', mc_AcceptUploads := True\<rparr>\<rparr>"

lemma signing_store: "mc_StorePath (cfg_Media signing_config) = ''/data/media_store''"
  by (simp add: signing_config_def sample_config_def)

lemma signing_valid: "validate (su_cwd sample_surroundings) signing_config = Inr ()"
  by (simp add: sample_surroundings_def signing_config_def validate_def sample_config_def defaultConfig_def defaultMedia_def Let_def
      cleanAbs_def path_abs_def is_abs_def has_prefix_def clean_def MaxImagePixelsOrDefault_def synapseDefaultMaxImagePixels_def
      uploadThumbnailsNone_def MaxUploadSizeOrDefault_def synapseDefaultMaxUploadSize_def)

lemma signing_key: "newFederationAuth sample_surroundings signing_config = Inr ''k1''"
proof -
  have "loadSigningKey sample_surroundings ''/signing.key'' = Inr (''k1'', 2)"
    by (simp add: loadSigningKey_def key_loop_keys sample_surroundings_def keys_of_def key_line_def lf_def trim_printable
        printable_def has_prefix_def)
  then show ?thesis by (simp add: newFederationAuth_def signing_config_def)
qed

lemma probe_succeeds:
  "w_faults w = [] \<Longrightarrow> w_temps w = n # ns \<Longrightarrow> w_files w = Map.empty \<Longrightarrow>
   run_state (checkMediaStoreWritable b) w = (Inr (), w\<lparr>w_files := Map.empty, w_temps := ns\<rparr>)"
  by (simp add: checkMediaStoreWritable_def Let_def os_mkdir_all_def os_create_temp_def os_close_def os_remove_def attempt_def
      run_state_bind run_call_quiet State_Monad.return_def fun_upd_idem)


end
