(* ===== verification/Shutdown.thy ===== *)
theory Shutdown
  imports Startup_Correct
begin

text \<open>
  How the worker runs and ends: the rest of src/main.go. \<^verbatim>\<open>run\<close> serves until its listener fails or a signal
  arrives, shuts its servers down, and calls what it deferred on every way out; \<^verbatim>\<open>main\<close> makes an exit status of
  it. Also what is reported of Synapse's configuration and the level of the logger, whose levels are the logging
  library's.
\<close>

section \<open>Logging\<close>

definition newLogger_level :: "(string \<Rightarrow> 'l option) \<Rightarrow> 'l \<Rightarrow> LogConfig \<Rightarrow> 'l" where
  "newLogger_level parse info cfg =
     (case parse (gc_Level cfg) of None \<Rightarrow> info | Some l \<Rightarrow> if gc_Level cfg = '''' then info else l)"

text \<open>The lines, each with its level, where its values come from, and its text.\<close>

definition logDerivedConfig :: "Config \<Rightarrow> (string \<times> string \<times> string list) list" where
  "logDerivedConfig cfg =
     (case cfg_derived cfg of
        None \<Rightarrow> []
      | Some d \<Rightarrow>
          (if Applied d \<noteq> [] then [(''info'', cfg_SynapseConfig cfg, Applied d)] else []) @
          map (\<lambda>s. (''warn'', cfg_SynapseConfig cfg, [''Ignored Synapse setting: '' @ s])) (Skipped d) @
          map (\<lambda>s. (''warn'', '''', [s])) (Warnings d))"

section \<open>Waiting for the end\<close>

text \<open>What the goroutines of a serving worker report; a server that was shut down and a failed metrics listener
  end nothing.\<close>

datatype serve_event = ServeFailed err | ServerClosed | MetricsFailed err | Caught string

fun wait_end :: "serve_event list \<Rightarrow> (err + string) option" where
  "wait_end [] = None"
| "wait_end (ServeFailed e # es) = Some (Inl e)"
| "wait_end (ServerClosed # es) = wait_end es"
| "wait_end (MetricsFailed e # es) = wait_end es"
| "wait_end (Caught s # es) = Some (Inr s)"

datatype end_step = ShutMetrics | ShutServer | StopJanitor | CloseDB | CancelContext

text \<open>The deferred calls, last first: those of a run that has started its janitor, and of one that has only opened
  the database.\<close>

definition deferred_db :: "end_step list" where
  "deferred_db = [CloseDB, CancelContext]"

definition deferred_serving :: "end_step list" where
  "deferred_serving = StopJanitor # deferred_db"

definition opens_db :: "('k, 'i) surroundings \<Rightarrow> Config \<Rightarrow> bool" where
  "opens_db E cfg \<longleftrightarrow> is_ok (checkMediaStore E (mc_StorePath (cfg_Media cfg))) \<and> is_ok (su_database E)"

text \<open>The result, with the steps of the way out; \<open>None\<close> while the worker serves. \<open>shut\<close> is what
  \<^verbatim>\<open>httpServer.Shutdown\<close> returns within its thirty seconds.\<close>

definition run_end :: "Config \<Rightarrow> unit res \<Rightarrow> err + string \<Rightarrow> unit res \<times> end_step list" where
  "run_end cfg shut r =
     (case r of
        Inl e \<Rightarrow> (Inl e, deferred_serving)
      | Inr _ \<Rightarrow> (shut, (if lc_MetricsAddr (cfg_Listen cfg) \<noteq> '''' then [ShutMetrics] else []) @ ShutServer # deferred_serving))"

definition run ::
  "('k, 'i) surroundings \<Rightarrow> bool \<Rightarrow> Config \<Rightarrow> serve_event list \<Rightarrow> unit res \<Rightarrow> (unit res \<times> end_step list) option io" where
  "run E checkOnly cfg events shut = do {
     r \<leftarrow> assemble E cfg;
     case r of
       Inl e \<Rightarrow> State_Monad.return (Some (Inl e, if opens_db E cfg then deferred_db else [CancelContext]))
     | Inr a \<Rightarrow>
         if checkOnly then State_Monad.return (Some (Inr (), deferred_db))
         else do {
           s \<leftarrow> serve_from E cfg a;
           case s of
             Inl e \<Rightarrow> State_Monad.return (Some (Inl e, deferred_serving))
           | Inr _ \<Rightarrow> State_Monad.return (map_option (run_end cfg shut) (wait_end events)) } }"

text \<open>The exit status: \<^verbatim>\<open>-version\<close> only prints, and a configuration that does not load is fatal.\<close>

definition main ::
  "('k, 'i) surroundings \<Rightarrow> bool \<Rightarrow> bool \<Rightarrow> Config res \<Rightarrow> serve_event list \<Rightarrow> unit res \<Rightarrow> nat option io" where
  "main E showVersion checkOnly loaded events shut =
     (if showVersion then State_Monad.return (Some 0)
      else case loaded of
        Inl e \<Rightarrow> State_Monad.return (Some 1)
      | Inr cfg \<Rightarrow> do {
          r \<leftarrow> run E checkOnly cfg events shut;
          State_Monad.return (map_option (\<lambda>(res, steps). if is_ok res then 0 else 1) r) })"

section \<open>Every way out\<close>

lemma deferred_simps [simp]:
  "deferred_db = [CloseDB, CancelContext]" "deferred_serving = [StopJanitor, CloseDB, CancelContext]"
  by (simp_all add: deferred_serving_def deferred_db_def)

lemma wp_assemble_opens: "wp (assemble E cfg) (\<lambda>r _. is_ok r \<longrightarrow> opens_db E cfg) w"
proof (cases "opens_db E cfg")
  case True
  then show ?thesis by (simp add: wp_def split: prod.split)
next
  case False
  then show ?thesis
    by (auto simp: opens_db_def assemble_def Let_def attempt_def wp_bind is_ok_def split: sum.splits)
qed

lemma run_end_cases:
  "run_end cfg shut z = (res, steps) \<longleftrightarrow>
     (\<exists>e. z = Inl e \<and> res = Inl e \<and> steps = deferred_serving) \<or>
     (\<exists>s. z = Inr s \<and> res = shut \<and>
        steps = (if lc_MetricsAddr (cfg_Listen cfg) \<noteq> '''' then [ShutMetrics] else []) @ ShutServer # deferred_serving)"
  by (cases z) (auto simp: run_end_def)

definition precedes :: "'a \<Rightarrow> 'a \<Rightarrow> 'a list \<Rightarrow> bool" where
  "precedes x y xs \<longleftrightarrow> y \<in> set (tl (dropWhile (\<lambda>z. z \<noteq> x) xs))"

text \<open>Whichever way a run ends, it cancels its context last and closes the database exactly if it opened it; a
  run that ends well was a check or was told to by a signal, and has shut its server down before the database is
  closed; and a worker that serves goes on until the first failure of its listener or the first signal.\<close>

lemma run_winds_down:
  "wp (run E checkOnly cfg events shut) (\<lambda>r w'.
     (r = None \<longrightarrow> \<not> checkOnly \<and> wait_end events = None) \<and>
     (\<forall>res steps. r = Some (res, steps) \<longrightarrow>
        last steps = CancelContext \<and> distinct steps \<and> (CloseDB \<in> set steps \<longleftrightarrow> opens_db E cfg) \<and>
        (ShutServer \<in> set steps \<longrightarrow> precedes ShutServer CloseDB steps \<and> (\<exists>s. wait_end events = Some (Inr s))) \<and>
        (is_ok res \<longrightarrow> opens_db E cfg \<and> (checkOnly \<or> ShutServer \<in> set steps \<and> is_ok shut)))) w"
proof -
  have served: "wp (serve_from E cfg a) (\<lambda>r v. True) w" for a w
    by (simp add: wp_def split: prod.split)
  show ?thesis
    unfolding run_def wp_bind
    by (rule wp_mono [OF wp_assemble_opens])
      (auto simp: wp_bind is_ok_def run_end_cases precedes_def split: sum.splits
        intro!: wp_mono [OF served])
qed

text \<open>The process exits with status 0 only for a version, for a check of a configuration whose database opens, or
  where a signal ended a worker that then shut down in time; it goes on while the listener has neither failed nor
  a signal arrived, and in every other case its status is 1.\<close>

theorem main_exit_status:
  "wp (main E showVersion checkOnly loaded events shut) (\<lambda>r w'.
     r \<in> {None, Some 0, Some 1} \<and>
     (r = None \<longrightarrow> \<not> showVersion \<and> \<not> checkOnly \<and> wait_end events = None) \<and>
     (r = Some 0 \<longrightarrow> showVersion \<or> (\<exists>cfg. loaded = Inr cfg \<and> opens_db E cfg \<and>
        (checkOnly \<or> is_ok shut \<and> (\<exists>s. wait_end events = Some (Inr s)))))) w"
proof (cases "showVersion \<or> (\<exists>e. loaded = Inl e)")
  case True
  then show ?thesis by (auto simp: main_def)
next
  case False
  then obtain cfg where cfg: "loaded = Inr cfg" by (cases loaded) auto
  have "wp (run E checkOnly cfg events shut) (\<lambda>r w'.
      (r = None \<longrightarrow> \<not> checkOnly \<and> wait_end events = None) \<and>
      (\<forall>res steps. r = Some (res, steps) \<and> is_ok res \<longrightarrow>
         opens_db E cfg \<and> (checkOnly \<or> is_ok shut \<and> (\<exists>s. wait_end events = Some (Inr s))))) w"
    by (rule wp_mono [OF run_winds_down]) blast
  with False cfg show ?thesis
    by (auto simp: main_def wp_bind elim!: wp_mono)
qed

theorem main_exit_status_witness:
  "wp (main sample_surroundings False False (Inr signing_config) [MetricsFailed ErrIO, Caught ''SIGTERM''] (Inl ErrContext))
     (\<lambda>r w'. r = Some 1) sample_world"
  by (rule wp_mono [OF main_exit_status]) (auto simp: is_ok_def)

end
