(* ===== verification/Servemux.thy ===== *)
theory Servemux
  imports Http Filepath "HOL-Library.List_Lexorder" "HOL-Library.Char_ord"
begin

text \<open>
  The router of \<^verbatim>\<open>net/http\<close> (\<^verbatim>\<open>ServeMux\<close>, Go 1.22 and later) as far as the worker's patterns use
  it: a method, literal segments, wildcards \<^verbatim>\<open>{name}\<close> and a final slash, without hosts, \<^verbatim>\<open>{$}\<close> and
  \<^verbatim>\<open>{name...}\<close>. A node of its tree is the list of the patterns below it, each with the segments that
  are left. The lemmas relate the walk through the tree to the documentation of the package: it finds a
  pattern exactly if one matches, and the one it finds is never more general than another that matches.
\<close>

section \<open>Patterns\<close>

datatype seg = Lit string | Wild string | Multi

record pattern =
  pt_method :: string
  pt_segs :: "seg list"

text \<open>\<^verbatim>\<open>url.PathUnescape\<close>, and the mux's \<^verbatim>\<open>pathUnescape\<close>, which keeps what it cannot read.\<close>

fun path_unescape :: "string \<Rightarrow> string option" where
  "path_unescape [] = Some []"
| "path_unescape (c # cs) =
     (if c = CHR ''%'' then
        (case cs of
           h # l # rest \<Rightarrow>
             (case (hex_val h, hex_val l) of
                (Some a, Some b) \<Rightarrow> map_option (Cons (char_of (16 * a + b))) (path_unescape rest)
              | _ \<Rightarrow> None)
         | _ \<Rightarrow> None)
      else map_option (Cons c) (path_unescape cs))"

definition pathUnescape :: "string \<Rightarrow> string" where
  "pathUnescape s = (case path_unescape s of None \<Rightarrow> s | Some t \<Rightarrow> t)"

fun pattern_segs :: "string list \<Rightarrow> seg list" where
  "pattern_segs [] = []"
| "pattern_segs [s] =
     [if s = '''' then Multi else if take 1 s = ''{'' then Wild (butlast (tl s)) else Lit (pathUnescape s)]"
| "pattern_segs (s # ss) =
     (if take 1 s = ''{'' then Wild (butlast (tl s)) else Lit (pathUnescape s)) # pattern_segs ss"

definition parsePattern :: "string \<Rightarrow> pattern" where
  "parsePattern s =
     (case cut (CHR '' '') s of (first, rest, found) \<Rightarrow>
        (let path = (if found then rest else s) in
         \<lparr>pt_method = (if found then first else ''''), pt_segs = pattern_segs (split_on (CHR ''/'') (tl path))\<rparr>))"

definition wildcards :: "pattern \<Rightarrow> string list" where
  "wildcards p = concat (map (\<lambda>s. case s of Wild n \<Rightarrow> [n] | _ \<Rightarrow> []) (pt_segs p))"

section \<open>The tree\<close>

type_synonym 'r node = "(seg list \<times> 'r) list"

definition wild_child :: "'r node \<Rightarrow> 'r node" where
  "wild_child n = concat (map (\<lambda>(ps, r). case ps of Wild _ # qs \<Rightarrow> [(qs, r)] | _ \<Rightarrow> []) n)"

definition findChild :: "string \<Rightarrow> 'r node \<Rightarrow> 'r node" where
  "findChild key n =
     (if key = '''' then wild_child n
      else concat (map (\<lambda>(ps, r). case ps of Lit l # qs \<Rightarrow> (if l = key then [(qs, r)] else []) | _ \<Rightarrow> []) n))"

definition leaf :: "seg list \<Rightarrow> 'r node \<Rightarrow> 'r option" where
  "leaf ps n = map_option snd (find (\<lambda>p. fst p = ps) n)"

text \<open>The segments of a path as \<^verbatim>\<open>firstSegment\<close> takes them off: a final slash is a segment of its own.\<close>

function path_segments :: "string \<Rightarrow> string list" where
  "path_segments path =
     (if path = '''' then []
      else if path = ''/'' then [''/'']
      else pathUnescape (takeWhile (\<lambda>c. c \<noteq> CHR ''/'') (tl path)) #
           path_segments (dropWhile (\<lambda>c. c \<noteq> CHR ''/'') (tl path)))"
  by auto

termination
  by (relation "measure length") (auto simp: neq_Nil_conv intro: le_less_trans [OF length_dropWhile_le])

declare path_segments.simps [simp del]

fun matchPath :: "'r node \<Rightarrow> string list \<Rightarrow> string list \<Rightarrow> ('r \<times> string list) option" where
  "matchPath n [] ms = map_option (\<lambda>r. (r, ms)) (leaf [] n)"
| "matchPath n (seg # rest) ms =
     (case matchPath (findChild seg n) rest ms of
        Some m \<Rightarrow> Some m
      | None \<Rightarrow>
          (case if seg = ''/'' then None else matchPath (wild_child n) rest (ms @ [seg]) of
             Some m \<Rightarrow> Some m
           | None \<Rightarrow> map_option (\<lambda>r. (r, ms)) (leaf [Multi] n)))"

definition by_method :: "string \<Rightarrow> (pattern \<times> 'h) list \<Rightarrow> (pattern \<times> 'h) node" where
  "by_method m routes = map (\<lambda>(p, h). (pt_segs p, p, h)) (filter (\<lambda>(p, h). pt_method p = m) routes)"

definition matchMethodAndPath ::
  "(pattern \<times> 'h) list \<Rightarrow> string \<Rightarrow> string \<Rightarrow> ((pattern \<times> 'h) \<times> string list) option" where
  "matchMethodAndPath routes method path =
     (case matchPath (by_method method routes) (path_segments path) [] of
        Some m \<Rightarrow> Some m
      | None \<Rightarrow>
          (case if method = ''HEAD'' then matchPath (by_method ''GET'' routes) (path_segments path) [] else None of
             Some m \<Rightarrow> Some m
           | None \<Rightarrow> matchPath (by_method '''' routes) (path_segments path) []))"

definition methods_of :: "(pattern \<times> 'h) list \<Rightarrow> string \<Rightarrow> string list" where
  "methods_of routes path =
     filter (\<lambda>m. m \<noteq> '''' \<and> matchPath (by_method m routes) (path_segments path) [] \<noteq> None)
       (remdups (map (\<lambda>(p, h). pt_method p) routes))"

definition matchingMethods :: "(pattern \<times> 'h) list \<Rightarrow> string \<Rightarrow> string list" where
  "matchingMethods routes path =
     (let ms = methods_of routes path @ (if has_suffix ''/'' path then [] else methods_of routes (path @ ''/''))
      in sort (remdups (ms @ (if ''GET'' \<in> set ms then [''HEAD''] else []))))"

section \<open>The handler of a request\<close>

definition cleanPath :: "string \<Rightarrow> string" where
  "cleanPath p =
     (if p = '''' then ''/''
      else (let q = (if take 1 p = ''/'' then p else ''/'' @ p); np = clean q in
            if has_suffix ''/'' q \<and> np \<noteq> ''/'' then np @ ''/'' else np))"

definition exactMatch :: "((pattern \<times> 'h) \<times> string list) option \<Rightarrow> string \<Rightarrow> bool" where
  "exactMatch m path =
     (case m of
        None \<Rightarrow> False
      | Some ((p, h), ms) \<Rightarrow>
          last (pt_segs p) \<noteq> Multi \<or>
          \<not> (path \<noteq> '''' \<and> \<not> has_suffix ''/'' path) \<and>
          length (pt_segs p) = length (filter (\<lambda>c. c = CHR ''/'') path))"

text \<open>\<open>Redirect\<close> carries the \<^verbatim>\<open>Path\<close> of the URL that is answered; its query is the request's.\<close>

datatype 'h found = Found pattern 'h "string list" | Redirect string | NotAllowed "string list" | NoRoute

definition found_of :: "(pattern \<times> 'h) list \<Rightarrow> string \<Rightarrow> ((pattern \<times> 'h) \<times> string list) option \<Rightarrow> 'h found" where
  "found_of routes path m =
     (case m of
        Some ((p, h), ms) \<Rightarrow> Found p h ms
      | None \<Rightarrow> (case matchingMethods routes path of [] \<Rightarrow> NoRoute | ms \<Rightarrow> NotAllowed ms))"

text \<open>\<^verbatim>\<open>matchOrRedirect\<close>, and the URL it redirects to; the patterns name no host, so the two look-ups of
  a \<^verbatim>\<open>CONNECT\<close> are one.\<close>

definition slash_redirect :: "(pattern \<times> 'h) list \<Rightarrow> string \<Rightarrow> string \<Rightarrow> bool" where
  "slash_redirect routes method path \<longleftrightarrow>
     \<not> exactMatch (matchMethodAndPath routes method path) path \<and> \<not> has_suffix ''/'' path \<and>
     exactMatch (matchMethodAndPath routes method (path @ ''/'')) (path @ ''/'')"

text \<open>\<open>escapedPath\<close> is the path as the request line has it, \<open>urlPath\<close> its unescaped form.\<close>

definition findHandler :: "(pattern \<times> 'h) list \<Rightarrow> string \<Rightarrow> string \<Rightarrow> string \<Rightarrow> 'h found" where
  "findHandler routes method escapedPath urlPath =
     (let path = (if method = ''CONNECT'' then escapedPath else cleanPath escapedPath) in
      if slash_redirect routes method path then Redirect (cleanPath urlPath @ ''/'')
      else if path \<noteq> escapedPath then Redirect path
      else found_of routes path (matchMethodAndPath routes method path))"

section \<open>Conflicts\<close>

datatype relationship = Equivalent | MoreGeneral | MoreSpecific | Disjoint | Overlaps

definition combineRelationships :: "relationship \<Rightarrow> relationship \<Rightarrow> relationship" where
  "combineRelationships r1 r2 =
     (case r1 of
        Equivalent \<Rightarrow> r2
      | Disjoint \<Rightarrow> Disjoint
      | Overlaps \<Rightarrow> (if r2 = Disjoint then Disjoint else Overlaps)
      | MoreGeneral \<Rightarrow> (if r2 = Equivalent then r1 else if r2 = MoreSpecific then Overlaps else r2)
      | MoreSpecific \<Rightarrow> (if r2 = Equivalent then r1 else if r2 = MoreGeneral then Overlaps else r2))"

fun compareSegments :: "seg \<Rightarrow> seg \<Rightarrow> relationship" where
  "compareSegments Multi Multi = Equivalent"
| "compareSegments Multi s = MoreGeneral"
| "compareSegments s Multi = MoreSpecific"
| "compareSegments (Wild m) (Wild n) = Equivalent"
| "compareSegments (Wild m) (Lit l) = (if l = ''/'' then Disjoint else MoreGeneral)"
| "compareSegments (Lit l) (Wild n) = (if l = ''/'' then Disjoint else MoreSpecific)"
| "compareSegments (Lit k) (Lit l) = (if k = l then Equivalent else Disjoint)"

fun comparePaths :: "seg list \<Rightarrow> seg list \<Rightarrow> relationship \<Rightarrow> relationship" where
  "comparePaths [] [] rel = rel"
| "comparePaths [] (q # qs) rel = Disjoint"
| "comparePaths (p # ps) [] rel = Disjoint"
| "comparePaths (p # ps) (q # qs) rel =
     (let rel' = combineRelationships rel (compareSegments p q) in
      if rel' = Disjoint then Disjoint
      else if ps = [] \<and> p = Multi \<and> qs \<noteq> [] then combineRelationships rel' MoreGeneral
      else if qs = [] \<and> q = Multi \<and> ps \<noteq> [] then combineRelationships rel' MoreSpecific
      else comparePaths ps qs rel')"

definition compareMethods :: "string \<Rightarrow> string \<Rightarrow> relationship" where
  "compareMethods m n =
     (if m = n then Equivalent
      else if m = '''' then MoreGeneral
      else if n = '''' then MoreSpecific
      else if m = ''GET'' \<and> n = ''HEAD'' then MoreGeneral
      else if n = ''GET'' \<and> m = ''HEAD'' then MoreSpecific
      else Disjoint)"

text \<open>The patterns for which \<^verbatim>\<open>ServeMux.Handle\<close> panics when both are registered.\<close>

definition conflictsWith :: "pattern \<Rightarrow> pattern \<Rightarrow> bool" where
  "conflictsWith p q \<longleftrightarrow>
     combineRelationships (compareMethods (pt_method p) (pt_method q)) (comparePaths (pt_segs p) (pt_segs q) Equivalent)
       \<in> {Equivalent, Overlaps}"

text \<open>A series of calls of \<^verbatim>\<open>Handle\<close>; the mux checks a new pattern against those it has.\<close>

fun registers :: "(pattern \<times> 'h) list \<Rightarrow> (pattern \<times> 'h) list \<Rightarrow> bool" where
  "registers earlier [] \<longleftrightarrow> True"
| "registers earlier ((p, h) # rs) \<longleftrightarrow>
     list_all (\<lambda>(q, _). \<not> conflictsWith p q) earlier \<and> registers ((p, h) # earlier) rs"

section \<open>The walk through the tree\<close>

text \<open>The meaning of a pattern's segments: the values of its wildcards.\<close>

fun seg_match :: "seg list \<Rightarrow> string list \<Rightarrow> string list option" where
  "seg_match [] [] = Some []"
| "seg_match (Lit l # ps) (s # ss) = (if l = s then seg_match ps ss else None)"
| "seg_match (Wild n # ps) (s # ss) = (if s = ''/'' then None else map_option (Cons s) (seg_match ps ss))"
| "seg_match [Multi] (s # ss) = Some []"
| "seg_match _ _ = None"

lemma in_wild_child: "(qs, r) \<in> set (wild_child n) \<longleftrightarrow> (\<exists>x. (Wild x # qs, r) \<in> set n)"
  by (force simp: wild_child_def split: list.splits seg.splits)

lemma in_findChild: "key \<noteq> '''' \<Longrightarrow> (qs, r) \<in> set (findChild key n) \<longleftrightarrow> (Lit key # qs, r) \<in> set n"
  by (force simp: findChild_def split: list.splits seg.splits if_splits)

lemma leaf_Some: "leaf ps n = Some r \<Longrightarrow> (ps, r) \<in> set n"
  by (induction n) (auto simp: leaf_def split: if_splits)

lemma leaf_None: "leaf ps n = None \<longleftrightarrow> (\<forall>r. (ps, r) \<notin> set n)"
  by (auto simp: leaf_def find_None_iff)

lemma seg_match_first:
  "seg_match ps (s # ss) = Some vs \<longleftrightarrow>
     (\<exists>qs. ps = Lit s # qs \<and> seg_match qs ss = Some vs) \<or>
     (\<exists>n qs us. ps = Wild n # qs \<and> s \<noteq> ''/'' \<and> seg_match qs ss = Some us \<and> vs = s # us) \<or>
     ps = [Multi] \<and> vs = []"
  by (cases "(ps, s # ss)" rule: seg_match.cases) auto

lemma seg_match_end: "seg_match ps [] = Some vs \<longleftrightarrow> ps = [] \<and> vs = []"
  by (cases "(ps, [] :: string list)" rule: seg_match.cases) auto

lemma matchPath_complete:
  "'''' \<notin> set ss \<Longrightarrow> (ps, r) \<in> set n \<Longrightarrow> seg_match ps ss = Some us \<Longrightarrow> matchPath n ss ms \<noteq> None"
proof (induction n ss ms arbitrary: ps r us rule: matchPath.induct)
  case (1 n ms)
  then show ?case by (auto simp: seg_match_end leaf_None)
next
  case (2 n seg rest ms)
  from "2.prems"(3) consider (lit) qs where "ps = Lit seg # qs" "seg_match qs rest = Some us"
    | (wild) x qs vs where "ps = Wild x # qs" "seg \<noteq> ''/''" "seg_match qs rest = Some vs"
    | (multi) "ps = [Multi]"
    by (auto simp: seg_match_first)
  then show ?case
  proof cases
    case lit
    with 2 have "matchPath (findChild seg n) rest ms \<noteq> None" by (auto simp: in_findChild)
    then show ?thesis by auto
  next
    case wild
    with "2.prems"(2) have mem: "(qs, r) \<in> set (wild_child n)" by (auto simp: in_wild_child)
    show ?thesis
    proof (cases "matchPath (findChild seg n) rest ms")
      case None
      from "2.IH"(2) [OF None wild(2) _ mem wild(3)] "2.prems"(1) wild(2) show ?thesis
        by (auto simp: None split: option.split)
    qed simp
  next
    case multi
    with "2.prems"(2) have "leaf [Multi] n \<noteq> None" unfolding leaf_None by blast
    then show ?thesis by (auto split: option.split)
  qed
qed

text \<open>The order of the walk: of two patterns, the first one in which they differ.\<close>

fun prefers :: "seg list \<Rightarrow> seg list \<Rightarrow> bool" where
  "prefers [] [] \<longleftrightarrow> True"
| "prefers (p # ps) (q # qs) \<longleftrightarrow>
     compareSegments p q = MoreSpecific \<or> compareSegments p q = Equivalent \<and> prefers ps qs"
| "prefers _ _ \<longleftrightarrow> False"

lemma matchPath_sound:
  "'''' \<notin> set ss \<Longrightarrow> matchPath n ss ms = Some (r, vs) \<Longrightarrow>
   \<exists>ps us. (ps, r) \<in> set n \<and> seg_match ps ss = Some us \<and> vs = ms @ us \<and>
     (\<forall>qs r' us'. (qs, r') \<in> set n \<longrightarrow> seg_match qs ss = Some us' \<longrightarrow> prefers ps qs)"
proof (induction n ss ms arbitrary: r vs rule: matchPath.induct)
  case (1 n ms)
  then show ?case by (auto dest: leaf_Some simp: seg_match_end)
next
  case (2 n seg rest ms)
  have no_lit: "seg_match qs rest = None" if "(Lit seg # qs, r') \<in> set n" "matchPath (findChild seg n) rest ms = None" for qs r'
    using matchPath_complete [of rest qs r' "findChild seg n" _ ms] that "2.prems"(1)
    by (cases "seg_match qs rest") (auto simp: in_findChild)
  have no_wild: "seg_match qs rest = None" if "(Wild x # qs, r') \<in> set n" "matchPath (wild_child n) rest (ms @ [seg]) = None" for x qs r'
    using matchPath_complete [of rest qs r' "wild_child n" _ "ms @ [seg]"] that "2.prems"(1)
    by (cases "seg_match qs rest") (auto simp: in_wild_child)
  from "2.prems" consider
      (lit) "matchPath (findChild seg n) rest ms = Some (r, vs)"
    | (wild) "seg \<noteq> ''/''" "matchPath (findChild seg n) rest ms = None" "matchPath (wild_child n) rest (ms @ [seg]) = Some (r, vs)"
    | (multi) "leaf [Multi] n = Some r" "vs = ms" "matchPath (findChild seg n) rest ms = None"
        "seg = ''/'' \<or> matchPath (wild_child n) rest (ms @ [seg]) = None"
    by (auto split: option.splits if_splits)
  then show ?case
  proof cases
    case lit
    from "2.prems"(1) have ne: "'''' \<notin> set rest" "seg \<noteq> ''''" by auto
    from "2.IH"(1) [OF ne(1) lit] obtain ps us where "(Lit seg # ps, r) \<in> set n" "seg_match ps rest = Some us" "vs = ms @ us"
      "\<forall>qs r' us'. (Lit seg # qs, r') \<in> set n \<longrightarrow> seg_match qs rest = Some us' \<longrightarrow> prefers ps qs"
      by (auto simp only: in_findChild [OF ne(2)])
    then show ?thesis
      by (intro exI [of _ "Lit seg # ps"] exI [of _ us]) (auto simp: seg_match_first)
  next
    case wild
    from "2.prems"(1) have ne: "'''' \<notin> set rest" by simp
    from "2.IH"(2) [OF wild(2,1) ne wild(3)] obtain ps us where r: "(ps, r) \<in> set (wild_child n)" "seg_match ps rest = Some us"
      "vs = (ms @ [seg]) @ us" "\<forall>qs r' us'. (qs, r') \<in> set (wild_child n) \<longrightarrow> seg_match qs rest = Some us' \<longrightarrow> prefers ps qs"
      by blast
    from r(1) obtain x where "(Wild x # ps, r) \<in> set n" by (auto simp: in_wild_child)
    with r(2-4) wild no_lit show ?thesis
      by (intro exI [of _ "Wild x # ps"] exI [of _ "seg # us"]) (fastforce simp: seg_match_first in_wild_child)
  next
    case multi
    then show ?thesis
      using no_lit no_wild by (intro exI [of _ "[Multi]"] exI [of _ "[]"]) (fastforce dest!: leaf_Some simp: seg_match_first)
  qed
qed

section \<open>Precedence\<close>

lemma combine_Disjoint [simp]: "combineRelationships rel Disjoint = Disjoint" "combineRelationships Disjoint rel = Disjoint"
  by (cases rel; simp add: combineRelationships_def)+

lemma combine_narrower:
  "a \<in> {MoreSpecific, Overlaps} \<Longrightarrow> b \<noteq> Disjoint \<Longrightarrow> combineRelationships a b \<in> {MoreSpecific, Overlaps}"
  by (cases a; cases b; simp add: combineRelationships_def)

lemma compareSegments_meet:
  "seg_match (p # ps) (s # ss) = Some us \<Longrightarrow> seg_match (q # qs) (s # ss) = Some vs \<Longrightarrow> compareSegments p q \<noteq> Disjoint"
  by (cases p; cases q) (auto split: if_splits)

lemma seg_match_Cons:
  "seg_match (p # ps) (s # ss) = Some us \<Longrightarrow> p \<noteq> Multi \<Longrightarrow> seg_match ps ss \<noteq> None"
  by (cases p) (auto split: if_splits)

lemma seg_match_Multi: "seg_match (Multi # ps) ss = Some us \<Longrightarrow> ps = []"
  by (cases ss; cases ps) auto

lemma comparePaths_narrower:
  "seg_match ps ss = Some us \<Longrightarrow> seg_match qs ss = Some vs \<Longrightarrow> rel \<in> {MoreSpecific, Overlaps} \<Longrightarrow>
   comparePaths ps qs rel \<in> {MoreSpecific, Overlaps}"
proof (induction ps qs rel arbitrary: ss us vs rule: comparePaths.induct)
  case (4 p ps q qs rel)
  from "4.prems"(1) obtain s rest where ss: "ss = s # rest" by (cases ss) auto
  let ?rel = "combineRelationships rel (compareSegments p q)"
  have meet: "compareSegments p q \<noteq> Disjoint" using "4.prems"(1,2) ss by (auto dest: compareSegments_meet)
  have narrow: "?rel \<in> {MoreSpecific, Overlaps}" by (rule combine_narrower [OF "4.prems"(3) meet])
  then have rel: "?rel \<noteq> Disjoint" by auto
  show ?case
  proof (cases "p = Multi \<or> q = Multi")
    case True
    then show ?thesis
      using narrow rel "4.prems"(1,2) combine_narrower [OF narrow, of MoreGeneral] combine_narrower [OF narrow, of MoreSpecific]
      by (cases ps; cases qs) (auto simp: Let_def dest: seg_match_Multi)
  next
    case False
    then obtain us' vs' where "seg_match ps rest = Some us'" "seg_match qs rest = Some vs'"
      using "4.prems"(1,2) ss by (auto dest!: seg_match_Cons)
    from "4.IH" [OF refl rel _ _ this narrow] False rel show ?thesis by (simp add: Let_def)
  qed
qed (auto elim: seg_match.elims)

lemma comparePaths_prefers:
  "prefers ps qs \<Longrightarrow> seg_match ps ss = Some us \<Longrightarrow> seg_match qs ss = Some vs \<Longrightarrow>
   comparePaths ps qs Equivalent \<in> {Equivalent, MoreSpecific, Overlaps}"
proof (induction ps qs arbitrary: ss us vs rule: prefers.induct)
  case (2 p ps q qs)
  from "2.prems"(2) obtain s rest where ss: "ss = s # rest" by (cases ss) auto
  have eq: "combineRelationships Equivalent x = x" for x by (simp add: combineRelationships_def)
  show ?case
  proof (cases "compareSegments p q = Equivalent")
    case True
    show ?thesis
    proof (cases "p = Multi")
      case True
      with \<open>compareSegments p q = Equivalent\<close> have "q = Multi" by (cases q) auto
      with True "2.prems" show ?thesis by (auto simp: eq dest!: seg_match_Multi)
    next
      case False
      with True have "q \<noteq> Multi" by (cases p) auto
      with False obtain us' vs' where "seg_match ps rest = Some us'" "seg_match qs rest = Some vs'"
        using "2.prems"(2,3) ss by (auto dest!: seg_match_Cons)
      with "2.IH" "2.prems"(1) False True \<open>q \<noteq> Multi\<close> show ?thesis by (auto simp: eq)
    qed
  next
    case False
    with "2.prems"(1) have specific: "compareSegments p q = MoreSpecific" by simp
    then have "p \<noteq> Multi" by (cases q) auto
    have "comparePaths (p # ps) (q # qs) MoreSpecific \<in> {MoreSpecific, Overlaps}"
      using comparePaths_narrower [OF "2.prems"(2,3)] by simp
    with specific show ?thesis by (simp add: eq combineRelationships_def)
  qed
qed auto

lemma comparePaths_meet:
  "seg_match ps ss = Some us \<Longrightarrow> seg_match qs ss = Some vs \<Longrightarrow> rel \<noteq> Disjoint \<Longrightarrow> comparePaths ps qs rel \<noteq> Disjoint"
proof (induction ps qs rel arbitrary: ss us vs rule: comparePaths.induct)
  case (4 p ps q qs rel)
  from "4.prems"(1) obtain s rest where ss: "ss = s # rest" by (cases ss) auto
  let ?rel = "combineRelationships rel (compareSegments p q)"
  have "compareSegments p q \<noteq> Disjoint" using "4.prems"(1,2) ss by (auto dest: compareSegments_meet)
  with "4.prems"(3) have rel: "?rel \<noteq> Disjoint"
    by (cases rel; cases "compareSegments p q") (auto simp: combineRelationships_def)
  then have more: "combineRelationships ?rel MoreGeneral \<noteq> Disjoint" "combineRelationships ?rel MoreSpecific \<noteq> Disjoint"
    by (cases ?rel; simp add: combineRelationships_def)+
  show ?case
  proof (cases "p = Multi \<or> q = Multi")
    case True
    then show ?thesis
      using rel more "4.prems"(1,2) by (cases ps; cases qs) (auto simp: Let_def dest: seg_match_Multi)
  next
    case False
    then obtain us' vs' where "seg_match ps rest = Some us'" "seg_match qs rest = Some vs'"
      using "4.prems"(1,2) ss by (auto dest!: seg_match_Cons)
    from "4.IH" [OF refl rel _ _ this rel] False rel show ?thesis by (simp add: Let_def)
  qed
qed (auto elim: seg_match.elims)

definition inverse_relationship :: "relationship \<Rightarrow> relationship" where
  "inverse_relationship r = (case r of MoreGeneral \<Rightarrow> MoreSpecific | MoreSpecific \<Rightarrow> MoreGeneral | _ \<Rightarrow> r)"

lemma inverse_eq [simp]:
  "inverse_relationship r = Equivalent \<longleftrightarrow> r = Equivalent" "inverse_relationship r = Overlaps \<longleftrightarrow> r = Overlaps"
  "inverse_relationship r = Disjoint \<longleftrightarrow> r = Disjoint" "inverse_relationship Disjoint = Disjoint"
  by (cases r; simp add: inverse_relationship_def)+

lemma combine_inverse:
  "combineRelationships (inverse_relationship a) (inverse_relationship b) = inverse_relationship (combineRelationships a b)"
  by (cases a; cases b; simp add: combineRelationships_def inverse_relationship_def)

lemma compareSegments_inverse: "compareSegments q p = inverse_relationship (compareSegments p q)"
  by (cases p; cases q; simp add: inverse_relationship_def)

lemma compareMethods_inverse: "compareMethods n m = inverse_relationship (compareMethods m n)"
  by (auto simp: compareMethods_def inverse_relationship_def)

lemma comparePaths_inverse:
  "comparePaths qs ps (inverse_relationship rel) = inverse_relationship (comparePaths ps qs rel)"
proof (induction ps qs rel rule: comparePaths.induct)
  case (4 p ps q qs rel)
  let ?rel = "combineRelationships rel (compareSegments p q)"
  have rel: "combineRelationships (inverse_relationship rel) (compareSegments q p) = inverse_relationship ?rel"
    by (simp only: compareSegments_inverse [of q p] combine_inverse)
  have more: "combineRelationships (inverse_relationship r) MoreGeneral = inverse_relationship (combineRelationships r MoreSpecific)"
    "combineRelationships (inverse_relationship r) MoreSpecific = inverse_relationship (combineRelationships r MoreGeneral)" for r
    using combine_inverse [of r MoreSpecific] combine_inverse [of r MoreGeneral] by (simp_all add: inverse_relationship_def)
  show ?case
    using "4.IH" [OF refl] by (simp add: rel more Let_def)
qed simp_all

lemma conflictsWith_sym: "conflictsWith p q \<Longrightarrow> conflictsWith q p"
proof -
  have "comparePaths (pt_segs q) (pt_segs p) Equivalent = inverse_relationship (comparePaths (pt_segs p) (pt_segs q) Equivalent)"
    using comparePaths_inverse [of "pt_segs q" "pt_segs p" Equivalent] by (simp add: inverse_relationship_def)
  then show "conflictsWith p q \<Longrightarrow> conflictsWith q p"
    by (simp add: conflictsWith_def compareMethods_inverse [of "pt_method q" "pt_method p"] combine_inverse)
qed

lemma registers_apart:
  "registers earlier rs \<Longrightarrow> (p, h) \<in> set rs \<Longrightarrow> (q, k) \<in> set rs \<union> set earlier \<Longrightarrow> (p, h) \<noteq> (q, k) \<Longrightarrow> \<not> conflictsWith p q"
proof (induction earlier rs arbitrary: p h q k rule: registers.induct)
  case (2 earlier p' h' rs)
  then have apart: "\<And>q k. (q, k) \<in> set earlier \<Longrightarrow> \<not> conflictsWith p' q"
    and rest: "registers ((p', h') # earlier) rs" by (auto simp: list_all_iff)
  from 2 rest consider "(p, h) \<in> set rs" | "(p, h) = (p', h')" "(q, k) \<in> set earlier" | "(p, h) = (p', h')" "(q, k) \<in> set rs"
    by auto
  then show ?case
  proof cases
    case 1
    show ?thesis by (rule "2.IH" [OF rest 1]) (use "2.prems" in auto)
  next
    case 2
    with apart show ?thesis by auto
  next
    case 3
    with "2.IH" [OF rest 3(2), of p' h'] "2.prems"(4) show ?thesis by (auto dest: conflictsWith_sym)
  qed
qed simp

text \<open>The methods a pattern answers.\<close>

definition accepts :: "pattern \<Rightarrow> string \<Rightarrow> bool" where
  "accepts p m \<longleftrightarrow> pt_method p \<in> {m, ''''} \<or> m = ''HEAD'' \<and> pt_method p = ''GET''"

lemma in_by_method: "(ps, p, h) \<in> set (by_method m rs) \<longleftrightarrow> (p, h) \<in> set rs \<and> pt_method p = m \<and> ps = pt_segs p"
  by (auto simp: by_method_def)

lemma match_found:
  assumes "'''' \<notin> set (path_segments path)" "matchMethodAndPath rs m path = Some ((p, h), vs)"
  shows "(p, h) \<in> set rs" "accepts p m" "seg_match (pt_segs p) (path_segments path) = Some vs"
  using assms(2) matchPath_sound [OF assms(1), of "by_method _ rs" "[]" "(p, h)" vs]
  by (fastforce simp: matchMethodAndPath_def accepts_def in_by_method split: option.splits if_splits)+

lemma not_found:
  assumes "'''' \<notin> set (path_segments path)" "matchPath (by_method m rs) (path_segments path) [] = None"
    and "(q, k) \<in> set rs" "pt_method q = m"
  shows "seg_match (pt_segs q) (path_segments path) = None"
  using matchPath_complete [OF assms(1), of "pt_segs q" "(q, k)" "by_method m rs" _ "[]"] assms(2-4)
  by (cases "seg_match (pt_segs q) (path_segments path)") (auto simp: in_by_method)

lemma match_complete:
  assumes "'''' \<notin> set (path_segments path)" "(q, k) \<in> set rs" "accepts q m"
    and "seg_match (pt_segs q) (path_segments path) = Some us"
  shows "matchMethodAndPath rs m path \<noteq> None"
proof -
  have found: "matchPath (by_method (pt_method q) rs) (path_segments path) [] \<noteq> None"
    using not_found [OF assms(1) _ assms(2) refl] assms(4) by (metis option.distinct(1))
  from assms(3) consider "pt_method q = m" | "pt_method q = ''''" | "m = ''HEAD''" "pt_method q = ''GET''"
    by (auto simp: accepts_def)
  then show ?thesis
    using found by cases (auto simp: matchMethodAndPath_def split: option.splits)
qed

definition compare_patterns :: "pattern \<Rightarrow> pattern \<Rightarrow> relationship" where
  "compare_patterns p q =
     combineRelationships (compareMethods (pt_method p) (pt_method q)) (comparePaths (pt_segs p) (pt_segs q) Equivalent)"

lemma compare_found:
  assumes "prefers (pt_segs p) (pt_segs q) \<and> pt_method p = pt_method q \<or> compareMethods (pt_method p) (pt_method q) = MoreSpecific"
    and "seg_match (pt_segs p) ss = Some us" "seg_match (pt_segs q) ss = Some vs"
  shows "compare_patterns p q \<in> {Equivalent, MoreSpecific, Overlaps}"
  using assms(1)
proof
  assume h: "prefers (pt_segs p) (pt_segs q) \<and> pt_method p = pt_method q"
  then show ?thesis
    using comparePaths_prefers [OF _ assms(2,3)] by (simp add: compare_patterns_def compareMethods_def combineRelationships_def)
next
  assume h: "compareMethods (pt_method p) (pt_method q) = MoreSpecific"
  have "comparePaths (pt_segs p) (pt_segs q) Equivalent \<noteq> Disjoint" by (rule comparePaths_meet [OF assms(2,3)]) simp
  then show ?thesis using combine_narrower [of MoreSpecific] by (auto simp: compare_patterns_def h)
qed

lemma found_narrowest:
  assumes ne: "'''' \<notin> set (path_segments path)" and found: "matchMethodAndPath rs m path = Some ((p, h), vs)"
    and other: "(q, k) \<in> set rs" "accepts q m" "seg_match (pt_segs q) (path_segments path) = Some us"
  shows "compare_patterns p q \<in> {Equivalent, MoreSpecific, Overlaps}"
proof (rule compare_found [OF _ match_found(3) [OF ne found] other(3)])
  have first: "pt_method p = m' \<and> (pt_method q = m' \<longrightarrow> prefers (pt_segs p) (pt_segs q))"
    if "matchPath (by_method m' rs) (path_segments path) [] = Some ((p, h), vs)" for m'
    using matchPath_sound [OF ne that] other by (auto simp: in_by_method)
  have later: "pt_method q \<noteq> m'" if "matchPath (by_method m' rs) (path_segments path) [] = None" for m'
    using not_found [OF ne that other(1)] other(3) by auto
  from found first later other(2)
  show "prefers (pt_segs p) (pt_segs q) \<and> pt_method p = pt_method q \<or> compareMethods (pt_method p) (pt_method q) = MoreSpecific"
    unfolding matchMethodAndPath_def accepts_def compareMethods_def
    by (auto split: option.splits if_splits)
qed

section \<open>The segments of a clean path\<close>

lemma path_unescape_nonempty: "path_unescape s = Some [] \<Longrightarrow> s = []"
  by (cases s) (auto split: if_splits list.splits option.splits)

lemma pathUnescape_nonempty: "s \<noteq> '''' \<Longrightarrow> pathUnescape s \<noteq> ''''"
  by (auto simp: pathUnescape_def dest: path_unescape_nonempty split: option.split)

lemma path_unescape_plain: "CHR ''%'' \<notin> set s \<Longrightarrow> path_unescape s = Some s"
  by (induction s) auto

lemma pathUnescape_plain [simp]: "CHR ''%'' \<notin> set s \<Longrightarrow> pathUnescape s = s"
  by (simp add: pathUnescape_def path_unescape_plain)

lemma path_segments_end: "path_segments '''' = []" "path_segments ''/'' = [''/'']"
  by (simp_all add: path_segments.simps)

lemma path_segments_step:
  assumes "plain c" "t = '''' \<or> take 1 t = ''/''"
  shows "path_segments (CHR ''/'' # c @ t) = pathUnescape c # path_segments t"
proof -
  have c: "\<forall>x \<in> set c. x \<noteq> CHR ''/''" "c \<noteq> ''''" using assms(1) by (auto simp: plain_def)
  from assms(2) have "takeWhile (\<lambda>x. x \<noteq> CHR ''/'') (c @ t) = c" "dropWhile (\<lambda>x. x \<noteq> CHR ''/'') (c @ t) = t"
    using c(1) by (cases t; simp)+
  then show ?thesis using c(2) by (subst path_segments.simps) simp
qed

lemma path_segments_abs:
  assumes "list_all plain cs" "t = '''' \<or> take 1 t = ''/''" "cs \<noteq> []"
  shows "path_segments (abs_path cs @ t) = map pathUnescape cs @ path_segments t"
  using assms(1,3)
proof (induction cs)
  case (Cons c cs)
  show ?case
  proof (cases cs)
    case Nil
    with Cons.prems path_segments_step [OF _ assms(2), of c] show ?thesis by (simp add: abs_path_def)
  next
    case (Cons d ds)
    then have "path_segments (abs_path (c # cs) @ t) = path_segments (CHR ''/'' # c @ (abs_path cs @ t))"
      by (simp add: abs_path_def)
    also have "\<dots> = pathUnescape c # path_segments (abs_path cs @ t)"
      by (rule path_segments_step) (use Cons.prems in \<open>simp_all add: abs_path_def\<close>)
    finally show ?thesis using Cons.IH Cons.prems Cons by simp
  qed
qed simp

lemma path_segments_clean:
  assumes "cleanPath p = p"
  shows "'''' \<notin> set (path_segments p)"
proof -
  have p: "p \<noteq> ''''" using assms by (auto simp: cleanPath_def)
  have "take 1 (cleanPath p) = ''/''"
    by (cases p) (auto simp: cleanPath_def Let_def clean_def)
  with assms have q: "take 1 p = ''/''" by simp
  then obtain cs where cs: "list_all plain cs" "clean p = abs_path cs"
    using clean_rooted [of p] by (cases p) auto
  consider "p = clean p" | "p = clean p @ ''/''" "clean p \<noteq> ''/''" using assms p q by (auto simp: cleanPath_def Let_def split: if_splits)
  then have "p = abs_path cs \<or> p = abs_path cs @ ''/'' \<and> cs \<noteq> []" using cs by cases auto
  moreover have "'''' \<notin> pathUnescape ` set cs"
    using cs(1) pathUnescape_nonempty by (fastforce simp: list_all_iff plain_def)
  ultimately show ?thesis
    using path_segments_abs [OF cs(1), of "''''"] path_segments_abs [OF cs(1), of "''/''"]
    by (cases "cs = []") (auto simp: path_segments_end)
qed

section \<open>What a handler may count on\<close>

definition no_wild :: "'r node \<Rightarrow> bool" where
  "no_wild n \<longleftrightarrow> (\<forall>(ps, r) \<in> set n. \<forall>x. Wild x \<notin> set ps)"

lemma no_wild_children:
  assumes "no_wild n"
  shows "wild_child n = []" "no_wild (findChild key n)" "(qs, r) \<in> set (findChild key n) \<Longrightarrow> (Lit key # qs, r) \<in> set n"
proof -
  have none: "(qs, r) \<notin> set (wild_child n)" for qs r using assms by (fastforce simp: no_wild_def in_wild_child)
  then show "wild_child n = []" by (cases "wild_child n") auto
  then have findChild: "(qs, r) \<in> set (findChild key n) \<Longrightarrow> (Lit key # qs, r) \<in> set n" for qs r
    by (cases "key = ''''") (simp_all add: in_findChild, simp add: findChild_def)
  then show "(qs, r) \<in> set (findChild key n) \<Longrightarrow> (Lit key # qs, r) \<in> set n" .
  show "no_wild (findChild key n)"
    using assms findChild by (fastforce simp: no_wild_def)
qed

lemma matchPath_Nil: "matchPath [] ss ms = None"
  by (induction ss arbitrary: ms) (simp_all add: leaf_def findChild_def wild_child_def)

lemma matchPath_no_wild:
  "no_wild n \<Longrightarrow> matchPath n ss ms = Some (r, vs) \<Longrightarrow> \<exists>ps us. (ps, r) \<in> set n \<and> seg_match ps ss = Some us \<and> vs = ms @ us"
proof (induction n ss ms arbitrary: r vs rule: matchPath.induct)
  case (1 n ms)
  then show ?case by (auto dest: leaf_Some simp: seg_match_end)
next
  case (2 n seg rest ms)
  consider (lit) "matchPath (findChild seg n) rest ms = Some (r, vs)" | (multi) "leaf [Multi] n = Some r" "vs = ms"
    using "2.prems" no_wild_children(1) [OF "2.prems"(1)] by (auto simp: matchPath_Nil split: option.splits if_splits)
  then show ?case
  proof cases
    case lit
    from "2.IH"(1) [OF no_wild_children(2) [OF "2.prems"(1)] lit] show ?thesis
      using no_wild_children(3) [OF "2.prems"(1)] by (fastforce simp: seg_match_first)
  next
    case multi
    then show ?thesis by (auto dest!: leaf_Some simp: seg_match_first)
  qed
qed

lemma findHandler_Found:
  assumes "findHandler rs m escaped url = Found p h vs"
    and "\<And>q k. (q, k) \<in> set rs \<Longrightarrow> pt_method q \<in> {''CONNECT'', ''''} \<Longrightarrow> \<forall>x. Wild x \<notin> set (pt_segs q)"
  shows "(p, h) \<in> set rs \<and> accepts p m \<and> seg_match (pt_segs p) (path_segments escaped) = Some vs"
proof (cases "m = ''CONNECT''")
  case True
  from assms(2) have plain: "no_wild (by_method ''CONNECT'' rs)" "no_wild (by_method '''' rs)"
    by (auto simp: no_wild_def in_by_method)
  from assms(1) True have "matchMethodAndPath rs m escaped = Some ((p, h), vs)"
    by (auto simp: findHandler_def found_of_def Let_def split: if_splits option.splits list.splits)
  with True show ?thesis
    using matchPath_no_wild [OF plain(1), of "path_segments escaped" "[]" "(p, h)" vs]
      matchPath_no_wild [OF plain(2), of "path_segments escaped" "[]" "(p, h)" vs]
    by (auto simp: matchMethodAndPath_def accepts_def in_by_method split: option.splits)
next
  case False
  with assms(1) have "cleanPath escaped = escaped" and found: "matchMethodAndPath rs m escaped = Some ((p, h), vs)"
    by (auto simp: findHandler_def found_of_def Let_def split: if_splits option.splits list.splits)
  then have ne: "'''' \<notin> set (path_segments escaped)" by (simp add: path_segments_clean)
  from match_found [OF ne found] show ?thesis by blast
qed

end
