(* ===== verification/Routes.thy ===== *)
theory Routes
  imports Servemux Handlers Upload
begin

text \<open>
  \<^verbatim>\<open>routes\<close> and \<^verbatim>\<open>withCORSPreflight\<close> of src/main.go, with \<^verbatim>\<open>instrument\<close> of src/metrics.go: which
  handler answers a request. The table holds the patterns as the code writes them; the mux parses them.
  Parameters are what the worker does not decide: the reply with which the toolchain's mux redirects
  (its status has changed between versions of Go), the page of the Prometheus handler, and the verdict
  of mautrix's signature check, which is \<open>None\<close> where the request passes. The access log around it all
  is Reqlog's.
\<close>

section \<open>The table\<close>

datatype endpoint =
    At_client_download | At_client_thumbnail
  | At_media_config | At_legacy_media_config
  | At_upload | At_create_media | At_async_upload
  | At_legacy_download | At_legacy_thumbnail
  | At_federation
  | At_passthrough | At_admin_passthrough
  | At_health | At_metrics

datatype fed_endpoint = At_federation_download | At_federation_thumbnail | At_federation_passthrough

definition adminPrefixes :: "string list" where
  "adminPrefixes =
     [''/_synapse/admin/v1/purge_media_cache'',
      ''/_synapse/admin/v1/media/'',
      ''/_synapse/admin/v1/quarantine_media/'',
      ''/_synapse/admin/v1/room/'',
      ''/_synapse/admin/v1/user/'',
      ''/_synapse/admin/v1/users/'']"

definition route_patterns :: "(string \<times> endpoint) list" where
  "route_patterns =
     [(''GET /_matrix/client/v1/media/download/{serverName}/{mediaId}'', At_client_download),
      (''GET /_matrix/client/v1/media/download/{serverName}/{mediaId}/{fileName}'', At_client_download),
      (''GET /_matrix/client/v1/media/thumbnail/{serverName}/{mediaId}'', At_client_thumbnail),
      (''GET /_matrix/client/v1/media/config'', At_media_config),
      (''GET /_matrix/media/{version}/config'', At_legacy_media_config),
      (''POST /_matrix/media/{version}/upload'', At_upload),
      (''POST /_matrix/media/v1/create'', At_create_media),
      (''PUT /_matrix/media/{version}/upload/{serverName}/{mediaId}'', At_async_upload),
      (''GET /_matrix/media/{version}/download/{serverName}/{mediaId}'', At_legacy_download),
      (''GET /_matrix/media/{version}/download/{serverName}/{mediaId}/{fileName}'', At_legacy_download),
      (''GET /_matrix/media/{version}/thumbnail/{serverName}/{mediaId}'', At_legacy_thumbnail),
      (''/_matrix/federation/v1/media/'', At_federation)] @
     map (\<lambda>p. (p, At_passthrough)) mediaPrefixes @
     map (\<lambda>p. (p, At_admin_passthrough)) adminPrefixes @
     [(''GET /health'', At_health), (''GET /metrics'', At_metrics)]"

definition federation_patterns :: "(string \<times> fed_endpoint) list" where
  "federation_patterns =
     [(''GET /_matrix/federation/v1/media/download/{mediaId}'', At_federation_download),
      (''GET /_matrix/federation/v1/media/thumbnail/{mediaId}'', At_federation_thumbnail),
      (''/'', At_federation_passthrough)]"

definition mux_of :: "(string \<times> 'h) list \<Rightarrow> (pattern \<times> 'h) list" where
  "mux_of = map (\<lambda>(p, h). (parsePattern p, h))"

text \<open>The label of \<^verbatim>\<open>instrument\<close>; none for the handlers that are registered bare.\<close>

definition endpoint_label :: "endpoint \<Rightarrow> string" where
  "endpoint_label e =
     (case e of
        At_client_download \<Rightarrow> ''client_download''
      | At_client_thumbnail \<Rightarrow> ''client_thumbnail''
      | At_media_config \<Rightarrow> ''media_config''
      | At_legacy_media_config \<Rightarrow> ''media_config''
      | At_upload \<Rightarrow> ''upload''
      | At_create_media \<Rightarrow> ''create_media''
      | At_async_upload \<Rightarrow> ''async_upload''
      | At_legacy_download \<Rightarrow> ''legacy_download''
      | At_legacy_thumbnail \<Rightarrow> ''legacy_thumbnail''
      | At_passthrough \<Rightarrow> ''passthrough''
      | At_admin_passthrough \<Rightarrow> ''admin_passthrough''
      | _ \<Rightarrow> '''')"

definition fed_endpoint_label :: "fed_endpoint \<Rightarrow> string" where
  "fed_endpoint_label e =
     (case e of
        At_federation_download \<Rightarrow> ''federation_download''
      | At_federation_thumbnail \<Rightarrow> ''federation_thumbnail''
      | At_federation_passthrough \<Rightarrow> ''passthrough'')"

section \<open>The handlers\<close>

record web_library =
  wl_redirect :: "request \<Rightarrow> string \<Rightarrow> reply"
  wl_metrics :: "request \<Rightarrow> reply"
  wl_authenticate :: "request \<Rightarrow> reply option"

definition give :: "reply \<Rightarrow> unit io" where
  "give rp = State (\<lambda>w. ((), w\<lparr>w_replies := w_replies w @ [rp]\<rparr>))"

text \<open>\<^verbatim>\<open>instrument\<close>: the endpoint of the log line, and the three metrics under its label (the values
  observed are those of \<open>recorded\<close>).\<close>

definition instrument :: "string \<Rightarrow> unit io \<Rightarrow> unit io" where
  "instrument endpoint handler = do {
     annotate_endpoint endpoint;
     handler;
     inc_metric ''requests_total'' [endpoint];
     inc_metric ''request_duration_seconds'' [endpoint];
     inc_metric ''response_bytes_total'' [endpoint] }"

text \<open>\<^verbatim>\<open>http.Error\<close>.\<close>

definition http_error :: "nat \<Rightarrow> string \<Rightarrow> unit io" where
  "http_error st text = do {
     headers_set (hdel ''Content-Length'');
     headers_set (hset ''Content-Type'' ''text/plain; charset=utf-8'');
     headers_set (hset ''X-Content-Type-Options'' ''nosniff'');
     send_reply st (Content (str_bytes (text @ [lf]))) }"

definition handleHealth :: "unit io" where
  "handleHealth = do {
     headers_set (hset ''Content-Type'' ''application/json'');
     send_reply 200 (Content (str_bytes
       (''{'' @ [quote_char] @ ''status'' @ [quote_char] @ '':'' @ [quote_char] @ ''ok'' @ [quote_char] @ ''}''))) }"

text \<open>The answer of a mux that has no handler to run, and the running of the one it has found; \<open>escaped\<close> is
  the path of the request line.\<close>

definition url_string :: "string \<Rightarrow> string \<Rightarrow> string" where
  "url_string path rawquery =
     url_escape EncodePath path @ (if rawquery \<noteq> '''' then ''?'' @ rawquery else '''')"

definition mux_serve ::
  "web_library \<Rightarrow> (pattern \<times> 'h) list \<Rightarrow> ('h \<Rightarrow> request \<Rightarrow> unit io) \<Rightarrow> string \<Rightarrow> request \<Rightarrow> unit io" where
  "mux_serve L mux run escaped r =
     (if escaped = ''*'' then do {
        headers_set (hset ''Connection'' ''close'');
        send_reply 400 Empty }
      else (case findHandler mux (rq_method r) escaped (rq_path r) of
        Found p h ms \<Rightarrow> run h (r\<lparr>rq_pathvals := zip (wildcards p) ms\<rparr>)
      | Redirect path \<Rightarrow> give (wl_redirect L r (url_string path (rq_rawquery r)))
      | NotAllowed ms \<Rightarrow> do {
          headers_set (hset ''Allow'' (join_with '', '' ms));
          http_error 405 ''Method Not Allowed'' }
      | NoRoute \<Rightarrow> http_error 404 ''404 page not found''))"

definition run_federation :: "'i Server \<Rightarrow> fed_endpoint \<Rightarrow> request \<Rightarrow> unit io" where
  "run_federation s e r =
     instrument (fed_endpoint_label e)
       (case e of
          At_federation_download \<Rightarrow> handleFederationDownload s r
        | At_federation_thumbnail \<Rightarrow> handleFederationThumbnail s r
        | At_federation_passthrough \<Rightarrow> handlePassthrough s r)"

text \<open>\<^verbatim>\<open>serverAuth.AuthenticateMiddleware(fedMux)\<close>.\<close>

definition serve_federation :: "web_library \<Rightarrow> 'i Server \<Rightarrow> string \<Rightarrow> request \<Rightarrow> unit io" where
  "serve_federation L s escaped r =
     (case wl_authenticate L r of
        Some rp \<Rightarrow> give rp
      | None \<Rightarrow> mux_serve L (mux_of federation_patterns) (run_federation s) escaped r)"

definition run_endpoint :: "web_library \<Rightarrow> 'i Server \<Rightarrow> string \<Rightarrow> endpoint \<Rightarrow> request \<Rightarrow> unit io" where
  "run_endpoint L s escaped e r =
     (case e of
        At_federation \<Rightarrow> serve_federation L s escaped r
      | At_health \<Rightarrow> handleHealth
      | At_metrics \<Rightarrow> give (wl_metrics L r)
      | _ \<Rightarrow> instrument (endpoint_label e)
          (case e of
             At_client_download \<Rightarrow> handleClientDownload s r
           | At_client_thumbnail \<Rightarrow> handleClientThumbnail s r
           | At_media_config \<Rightarrow> handleMediaConfig s r
           | At_legacy_media_config \<Rightarrow> handleLegacyMediaConfig s r
           | At_upload \<Rightarrow> handleUpload s r
           | At_create_media \<Rightarrow> handleCreateMedia s r
           | At_async_upload \<Rightarrow> handleAsyncUpload s r
           | At_legacy_download \<Rightarrow> handleLegacyDownload s r
           | At_legacy_thumbnail \<Rightarrow> handleLegacyThumbnail s r
           | At_admin_passthrough \<Rightarrow> handleAdminPassthrough s r
           | _ \<Rightarrow> handlePassthrough s r))"

definition withCORSPreflight :: "(request \<Rightarrow> unit io) \<Rightarrow> request \<Rightarrow> unit io" where
  "withCORSPreflight inner r =
     (if rq_method r = ''OPTIONS'' then do {
        headers_set setCORSHeaders;
        send_reply 204 Empty }
      else inner r)"

definition serve_routes :: "web_library \<Rightarrow> 'i Server \<Rightarrow> string \<Rightarrow> request \<Rightarrow> unit io" where
  "serve_routes L s escaped =
     withCORSPreflight (mux_serve L (mux_of route_patterns) (run_endpoint L s escaped) escaped)"

end
