(* ===== verification/Routes_Correct.thy ===== *)
theory Routes_Correct
  imports Routes Handlers_Correct Upload_Correct
begin

text \<open>
  What the router lets through: its patterns register without a conflict, the walk through its tree
  agrees with the documented meaning of patterns, federation media waits for the signature check, and
  nothing but the media surface is ever forwarded.
\<close>

section \<open>The tables\<close>

text \<open>The patterns as the mux holds them.\<close>

definition route_table :: "(pattern \<times> endpoint) list" where
  "route_table =
     (let m = Lit ''_matrix''; client = [m, Lit ''client'', Lit ''v1'', Lit ''media''];
          legacy = [m, Lit ''media'', Wild ''version'']; admin = [Lit ''_synapse'', Lit ''admin'', Lit ''v1''];
          id = [Wild ''serverName'', Wild ''mediaId''] in
      map (\<lambda>(method, segs, e). (\<lparr>pt_method = method, pt_segs = segs\<rparr>, e))
       [(''GET'', client @ Lit ''download'' # id, At_client_download),
        (''GET'', client @ Lit ''download'' # id @ [Wild ''fileName''], At_client_download),
        (''GET'', client @ Lit ''thumbnail'' # id, At_client_thumbnail),
        (''GET'', client @ [Lit ''config''], At_media_config),
        (''GET'', legacy @ [Lit ''config''], At_legacy_media_config),
        (''POST'', legacy @ [Lit ''upload''], At_upload),
        (''POST'', [m, Lit ''media'', Lit ''v1'', Lit ''create''], At_create_media),
        (''PUT'', legacy @ Lit ''upload'' # id, At_async_upload),
        (''GET'', legacy @ Lit ''download'' # id, At_legacy_download),
        (''GET'', legacy @ Lit ''download'' # id @ [Wild ''fileName''], At_legacy_download),
        (''GET'', legacy @ Lit ''thumbnail'' # id, At_legacy_thumbnail),
        ('''', [m, Lit ''federation'', Lit ''v1'', Lit ''media'', Multi], At_federation),
        ('''', [m, Lit ''media'', Multi], At_passthrough),
        ('''', client @ [Multi], At_passthrough),
        ('''', admin @ [Lit ''purge_media_cache''], At_admin_passthrough),
        ('''', admin @ [Lit ''media'', Multi], At_admin_passthrough),
        ('''', admin @ [Lit ''quarantine_media'', Multi], At_admin_passthrough),
        ('''', admin @ [Lit ''room'', Multi], At_admin_passthrough),
        ('''', admin @ [Lit ''user'', Multi], At_admin_passthrough),
        ('''', admin @ [Lit ''users'', Multi], At_admin_passthrough),
        (''GET'', [Lit ''health''], At_health),
        (''GET'', [Lit ''metrics''], At_metrics)])"

lemma mux_routes: "mux_of route_patterns = route_table"
  by code_simp

lemma mux_federation:
  "mux_of federation_patterns =
     (let media = [Lit ''_matrix'', Lit ''federation'', Lit ''v1'', Lit ''media''] in
      [(\<lparr>pt_method = ''GET'', pt_segs = media @ [Lit ''download'', Wild ''mediaId'']\<rparr>, At_federation_download),
       (\<lparr>pt_method = ''GET'', pt_segs = media @ [Lit ''thumbnail'', Wild ''mediaId'']\<rparr>, At_federation_thumbnail),
       (\<lparr>pt_method = '''', pt_segs = [Multi]\<rparr>, At_federation_passthrough)])"
  by code_simp

lemma routes_register_cases:
  "registers [] (mux_of route_patterns)" "registers [] (mux_of federation_patterns)"
  by code_simp+

text \<open>Every registration of main succeeds: no two patterns of a mux conflict, so \<^verbatim>\<open>Handle\<close> never panics
  at startup. A pattern for \<^verbatim>\<open>OPTIONS\<close> on the federation handler's own prefix would register as well,
  being more specific; on a shorter prefix it would not.\<close>

theorem routes_register:
  "registers [] (mux_of route_patterns) \<and> registers [] (mux_of federation_patterns) \<and>
   registers [] (mux_of (route_patterns @ [(''OPTIONS /_matrix/federation/v1/media/'', e)])) \<and>
   \<not> registers [] (mux_of (route_patterns @ [(''OPTIONS /_matrix/'', e)]))"
proof -
  have append: "mux_of (route_patterns @ [(p, e)]) = route_table @ [(parsePattern p, e)]" for p
    using mux_routes by (simp add: mux_of_def)
  have last: "registers earlier (rs @ [(p, e)]) \<longleftrightarrow>
      registers earlier rs \<and> list_all (\<lambda>(q, _). \<not> conflictsWith p q) (earlier @ rs)" for earlier rs and p :: pattern
    by (induction earlier rs rule: registers.induct) auto
  have "list_all (\<lambda>(q, _). \<not> conflictsWith (parsePattern ''OPTIONS /_matrix/federation/v1/media/'') q) route_table"
    "\<not> list_all (\<lambda>(q, _). \<not> conflictsWith (parsePattern ''OPTIONS /_matrix/'') q) route_table"
    by code_simp+
  with routes_register_cases show ?thesis by (simp add: append last mux_routes)
qed


section \<open>What the router lets through\<close>

text \<open>The replies of the worker's router itself.\<close>

definition router_reply :: "web_library \<Rightarrow> request \<Rightarrow> reply \<Rightarrow> bool" where
  "router_reply L r rp \<longleftrightarrow> rp_status rp \<in> {204, 400, 404, 405} \<and> (\<forall>u. rp_body rp \<noteq> Upstream u) \<or>
     (\<exists>location. rp = wl_redirect L r location)"

definition only_replies :: "(reply \<Rightarrow> bool) \<Rightarrow> world \<Rightarrow> world \<Rightarrow> bool" where
  "only_replies P w w' \<longleftrightarrow> same_stores w w' \<and> answered P w w'"

lemma wp_give: "wp (give rp) Q w = Q () (w\<lparr>w_replies := w_replies w @ [rp]\<rparr>)"
  by (simp add: give_def)

lemma only_replies_send:
  "P rp \<Longrightarrow> only_replies P w (w\<lparr>w_replies := w_replies w @ [rp]\<rparr>)"
  "P rp \<Longrightarrow> only_replies P w (w\<lparr>w_hdrs := h, w_replies := w_replies w @ [rp]\<rparr>)"
  by (simp_all add: only_replies_def same_stores_def answered_def)

text \<open>A request ends with a reply of the router unless a handler takes it.\<close>

lemma wp_mux_serve:
  assumes "\<And>p h vs. findHandler mux (rq_method r) escaped (rq_path r) = Found p h vs \<Longrightarrow>
      wp (run h (r\<lparr>rq_pathvals := zip (wildcards p) vs\<rparr>)) (\<lambda>_. only_replies P w) w"
    and "\<And>rp. router_reply L r rp \<Longrightarrow> P rp"
  shows "wp (mux_serve L mux run escaped r) (\<lambda>_. only_replies P w) w"
  unfolding mux_serve_def
  using assms by (cases "findHandler mux (rq_method r) escaped (rq_path r)")
    (auto simp: wp_give http_error_def router_reply_def intro!: only_replies_send)

lemma wp_serve_routes:
  assumes "\<And>p e vs. (p, e) \<in> set route_table \<Longrightarrow> accepts p (rq_method r) \<Longrightarrow>
      seg_match (pt_segs p) (path_segments escaped) = Some vs \<Longrightarrow>
      wp (run_endpoint L s escaped e (r\<lparr>rq_pathvals := zip (wildcards p) vs\<rparr>)) (\<lambda>_. only_replies P w) w"
    and "\<And>rp. router_reply L r rp \<Longrightarrow> P rp"
  shows "wp (serve_routes L s escaped r) (\<lambda>_. only_replies P w) w"
proof -
  have no_wild: "\<forall>x. Wild x \<notin> set (pt_segs q)" if "(q, k) \<in> set route_table" "pt_method q \<in> {''CONNECT'', ''''}" for q k
    using that by (auto simp: route_table_def Let_def)
  have "wp (mux_serve L (mux_of route_patterns) (run_endpoint L s escaped) escaped r) (\<lambda>_. only_replies P w) w"
  proof (rule wp_mux_serve [OF _ assms(2)])
    fix p e vs assume "findHandler (mux_of route_patterns) (rq_method r) escaped (rq_path r) = Found p e vs"
    from findHandler_Found [OF this [unfolded mux_routes] no_wild]
    show "wp (run_endpoint L s escaped e (r\<lparr>rq_pathvals := zip (wildcards p) vs\<rparr>)) (\<lambda>_. only_replies P w) w"
      by (intro assms(1)) auto
  qed
  then show ?thesis
    using assms(2) by (auto simp: serve_routes_def withCORSPreflight_def router_reply_def intro!: only_replies_send)
qed

text \<open>The paths main hands to Synapse unexamined, or behind the signature check.\<close>

definition media_surface :: "string list \<Rightarrow> bool" where
  "media_surface segs \<longleftrightarrow>
     (\<exists>rest. rest \<noteq> [] \<and> segs \<in> {[''_matrix'', ''media''] @ rest, [''_matrix'', ''client'', ''v1'', ''media''] @ rest,
        [''_matrix'', ''federation'', ''v1'', ''media''] @ rest})"

text \<open>The literal segments a pattern begins with, and what they say of the paths it matches.\<close>

fun lits :: "seg list \<Rightarrow> string list" where
  "lits (Lit l # ps) = l # lits ps"
| "lits _ = []"

lemma seg_match_lits:
  "seg_match ps ss = Some vs \<Longrightarrow> \<exists>rest. ss = lits ps @ rest \<and> (rest = [] \<longleftrightarrow> length (lits ps) = length ps)"
proof (induction ps arbitrary: ss vs rule: lits.induct)
  case (1 l ps)
  then obtain rest where "ss = l # rest" "seg_match ps rest = Some vs" by (cases ss) (auto split: if_splits)
  with "1.IH" show ?case by auto
qed (use seg_match.elims in \<open>(case_tac ss; auto)+\<close>)

text \<open>Which of the table's endpoints a path can reach.\<close>

definition reach :: "string list \<Rightarrow> bool \<Rightarrow> pattern \<Rightarrow> endpoint \<Rightarrow> bool" where
  "reach ls open p e \<longleftrightarrow>
     (case e of
        At_health \<Rightarrow> ls = [''health''] \<and> \<not> open
      | At_metrics \<Rightarrow> ls = [''metrics''] \<and> \<not> open
      | At_admin_passthrough \<Rightarrow> take 3 ls = [''_synapse'', ''admin'', ''v1'']
      | At_federation \<Rightarrow> ls = [''_matrix'', ''federation'', ''v1'', ''media''] \<and> open \<and> wildcards p = []
      | _ \<Rightarrow> (open \<or> 4 < length ls) \<and> take 4 ls = [''_matrix'', ''client'', ''v1'', ''media''] \<or>
            (open \<or> 2 < length ls) \<and> take 2 ls = [''_matrix'', ''media''])"

lemma table_reach:
  "list_all (\<lambda>(p, e). reach (lits (pt_segs p)) (length (lits (pt_segs p)) < length (pt_segs p)) p e) route_table"
  by code_simp

lemma take_eq_append: "take n ls = xs \<Longrightarrow> length xs = n \<Longrightarrow> \<exists>ys. ls = xs @ ys \<and> length ls = n + length ys"
  by (metis append_take_drop_id length_append)

lemma length_lits: "length (lits ps) \<le> length ps"
  by (induction ps rule: lits.induct) auto

lemma route_reach:
  assumes "(p, e) \<in> set route_table" "seg_match (pt_segs p) segs = Some vs"
  shows "e = At_health \<and> segs = [''health''] \<or> e = At_metrics \<and> segs = [''metrics''] \<or>
     e = At_admin_passthrough \<and> take 1 segs = [''_synapse''] \<or> e = At_federation \<and> wildcards p = [] \<and> media_surface segs \<or>
     e \<notin> {At_health, At_metrics, At_admin_passthrough, At_federation} \<and> take 2 segs \<noteq> [''_matrix'', ''federation''] \<and>
       media_surface segs"
proof -
  let ?ls = "lits (pt_segs p)"
  from seg_match_lits [OF assms(2)] obtain rest where segs: "segs = ?ls @ rest" "rest = [] \<longleftrightarrow> length ?ls = length (pt_segs p)"
    by blast
  from segs(2) length_lits [of "pt_segs p"] have more: "length ?ls < length (pt_segs p) \<longleftrightarrow> rest \<noteq> []" by auto
  have reach: "reach ?ls (rest \<noteq> []) p e"
    using table_reach assms(1) unfolding list_all_iff by (fastforce simp: more)
  have media: "media_surface segs \<and> take 2 segs \<noteq> [''_matrix'', ''federation'']"
    if "(rest \<noteq> [] \<or> 4 < length ?ls) \<and> take 4 ?ls = [''_matrix'', ''client'', ''v1'', ''media''] \<or>
      (rest \<noteq> [] \<or> 2 < length ?ls) \<and> take 2 ?ls = [''_matrix'', ''media'']"
    using that by (auto simp: segs(1) media_surface_def dest!: take_eq_append)
  show ?thesis
  proof (cases e)
    case At_admin_passthrough
    with reach show ?thesis by (auto simp: reach_def segs(1) dest!: take_eq_append)
  qed (use reach media segs(1) in \<open>auto simp: reach_def media_surface_def\<close>)
qed

text \<open>C13: the worker is no general proxy. A request whose path is neither on the media surface nor one of the media
  admin APIs is answered by the router itself, whatever its method: 404, 405, a redirect, a preflight; nothing
  is forwarded and no store changes.\<close>

theorem only_media_forwarded:
  assumes "\<not> media_surface (path_segments escaped)" "\<not> isMediaAdminPath (rq_path r)"
    and "path_segments escaped \<notin> {[''health''], [''metrics'']}"
  shows "wp (serve_routes L s escaped r) (\<lambda>_. only_replies (router_reply L r) w) w"
proof (rule wp_serve_routes)
  fix p e vs assume route: "(p, e) \<in> set route_table" "accepts p (rq_method r)" "seg_match (pt_segs p) (path_segments escaped) = Some vs"
  let ?r = "r\<lparr>rq_pathvals := zip (wildcards p) vs\<rparr>"
  from route_reach [OF route(1,3)] assms have "e = At_admin_passthrough" by auto
  moreover have "\<not> isMediaAdminPath (rq_path ?r)" using assms(2) by simp
  ultimately show "wp (run_endpoint L s escaped e ?r) (\<lambda>_. only_replies (router_reply L r) w) w"
    by (simp add: run_endpoint_def instrument_def handleAdminPassthrough_def respondNotFound_def writeMatrixError_def
        only_replies_def same_stores_def answered_def router_reply_def)
qed

text \<open>C12: federation media is served to no one whose signature was refused. Where the check refuses, every request
  below \<^verbatim>\<open>/_matrix/federation\<close> ends with the reply of the check or one of the router, and no store changes.\<close>

theorem federation_needs_signature:
  assumes "take 2 (path_segments escaped) = [''_matrix'', ''federation'']" "wl_authenticate L (r\<lparr>rq_pathvals := []\<rparr>) = Some rp"
  shows "wp (serve_routes L s escaped r) (\<lambda>_. only_replies (\<lambda>rp'. rp' = rp \<or> router_reply L r rp') w) w"
proof (rule wp_serve_routes)
  fix p e vs assume route: "(p, e) \<in> set route_table" "accepts p (rq_method r)" "seg_match (pt_segs p) (path_segments escaped) = Some vs"
  from route_reach [OF route(1,3)] assms(1) have "e = At_federation" "wildcards p = []"
    by (auto dest!: take_eq_append)
  then show "wp (run_endpoint L s escaped e (r\<lparr>rq_pathvals := zip (wildcards p) vs\<rparr>))
      (\<lambda>_. only_replies (\<lambda>rp'. rp' = rp \<or> router_reply L r rp') w) w"
    using assms(2) by (simp add: run_endpoint_def serve_federation_def wp_give only_replies_send)
qed simp

section \<open>Where requests for media go\<close>

lemma cleanPath_abs:
  assumes "list_all plain cs" "cs \<noteq> []"
  shows "cleanPath (abs_path cs) = abs_path cs" "\<not> has_suffix ''/'' (abs_path cs)"
proof -
  obtain as b where cs: "cs = as @ [b]" using assms(2) by (cases cs rule: rev_cases) auto
  have "\<exists>front. abs_path cs = front @ b"
  proof (cases "as = []")
    case False
    then show ?thesis using abs_path_append [of as "[b]"] by (auto simp: cs)
  qed (auto simp: cs abs_path_def)
  moreover have "b \<noteq> ''''" "last b \<noteq> CHR ''/''" using assms(1) by (auto simp: cs plain_def dest: last_in_set)
  ultimately show no: "\<not> has_suffix ''/'' (abs_path cs)" by (auto simp: has_suffix_iff append_eq_append_conv2 dest: arg_cong [of _ _ last])
  show "cleanPath (abs_path cs) = abs_path cs"
    using assms no by (simp add: cleanPath_def Let_def) (simp add: abs_path_def)
qed

text \<open>A path of plain segments whose route ends in a segment is served by it.\<close>

lemma serve_plain:
  assumes "list_all plain cs" "CHR ''%'' \<notin> set (concat cs)" "cs \<noteq> []" "rq_method r \<notin> {''OPTIONS'', ''CONNECT''}"
    and "matchMethodAndPath route_table (rq_method r) (abs_path cs) = Some ((p, e), vs)" "last (pt_segs p) \<noteq> Multi"
  shows "serve_routes L s (abs_path cs) r = run_endpoint L s (abs_path cs) e (r\<lparr>rq_pathvals := zip (wildcards p) vs\<rparr>)"
proof -
  have "abs_path cs \<noteq> ''*''" by (simp add: abs_path_def)
  then show ?thesis
    using assms(4-6) cleanPath_abs [OF assms(1,3)]
    by (simp add: serve_routes_def withCORSPreflight_def mux_serve_def findHandler_def slash_redirect_def exactMatch_def
        found_of_def mux_routes Let_def)
qed

lemma plain_segments:
  "list_all plain cs \<Longrightarrow> CHR ''%'' \<notin> set (concat cs) \<Longrightarrow> cs \<noteq> [] \<Longrightarrow> path_segments (abs_path cs) = cs"
  using path_segments_abs [of cs "''''"] by (auto simp: path_segments_end intro!: map_idI)

lemma matchPath_lit: "matchPath (findChild seg n) rest ms = Some m \<Longrightarrow> matchPath n (seg # rest) ms = Some m"
  by simp

lemma matchPath_wild:
  "findChild seg n = [] \<Longrightarrow> seg \<noteq> ''/'' \<Longrightarrow> matchPath (wild_child n) rest (ms @ [seg]) = Some m \<Longrightarrow>
   matchPath n (seg # rest) ms = Some m"
  by (simp add: matchPath_Nil)

text \<open>The nodes below the two download paths.\<close>

abbreviation download_entry :: "seg list \<Rightarrow> seg list \<Rightarrow> endpoint \<Rightarrow> seg list \<times> pattern \<times> endpoint" where
  "download_entry ps qs e \<equiv> (qs, \<lparr>pt_method = ''GET'', pt_segs = ps @ qs\<rparr>, e)"

abbreviation client_download :: "seg list" where
  "client_download \<equiv> [Lit ''_matrix'', Lit ''client'', Lit ''v1'', Lit ''media'', Lit ''download'']"

abbreviation legacy_media :: "seg list" where
  "legacy_media \<equiv> [Lit ''_matrix'', Lit ''media'']"

lemma client_node:
  "findChild ''download'' (findChild ''media'' (findChild ''v1'' (findChild ''client'' (findChild ''_matrix''
     (by_method ''GET'' route_table))))) =
   [download_entry client_download [Wild ''serverName'', Wild ''mediaId''] At_client_download,
    download_entry client_download [Wild ''serverName'', Wild ''mediaId'', Wild ''fileName''] At_client_download]"
  by code_simp

lemma legacy_node:
  "findChild ''media'' (findChild ''_matrix'' (by_method ''GET'' route_table)) =
   [download_entry legacy_media [Wild ''version'', Lit ''config''] At_legacy_media_config,
    download_entry legacy_media [Wild ''version'', Lit ''download'', Wild ''serverName'', Wild ''mediaId''] At_legacy_download,
    download_entry legacy_media [Wild ''version'', Lit ''download'', Wild ''serverName'', Wild ''mediaId'', Wild ''fileName''] At_legacy_download,
    download_entry legacy_media [Wild ''version'', Lit ''thumbnail'', Wild ''serverName'', Wild ''mediaId''] At_legacy_thumbnail]"
  by code_simp

lemma legacy_download_node:
  "findChild ''download'' (wild_child (findChild ''media'' (findChild ''_matrix'' (by_method ''GET'' route_table)))) =
   [([Wild ''serverName'', Wild ''mediaId''],
      \<lparr>pt_method = ''GET'', pt_segs = legacy_media @ [Wild ''version'', Lit ''download'', Wild ''serverName'', Wild ''mediaId'']\<rparr>, At_legacy_download),
    ([Wild ''serverName'', Wild ''mediaId'', Wild ''fileName''],
      \<lparr>pt_method = ''GET'', pt_segs = legacy_media @
         [Wild ''version'', Lit ''download'', Wild ''serverName'', Wild ''mediaId'', Wild ''fileName'']\<rparr>, At_legacy_download)]"
  by code_simp

lemma head_node: "by_method ''HEAD'' route_table = []"
  by code_simp

lemma match_get:
  "m \<in> {''GET'', ''HEAD''} \<Longrightarrow> matchPath (by_method ''GET'' route_table) (path_segments path) [] = Some x \<Longrightarrow>
   matchMethodAndPath route_table m path = Some x"
  by (auto simp: matchMethodAndPath_def head_node matchPath_Nil)

lemma match_client_download:
  assumes "s \<noteq> ''''" "s \<noteq> ''/''" "i \<noteq> ''''" "i \<noteq> ''/''"
  shows "matchPath (by_method ''GET'' route_table) [''_matrix'', ''client'', ''v1'', ''media'', ''download'', s, i] [] =
    Some ((\<lparr>pt_method = ''GET'', pt_segs = client_download @ [Wild ''serverName'', Wild ''mediaId'']\<rparr>, At_client_download), [s, i])"
  by (rule matchPath_lit, rule matchPath_lit, rule matchPath_lit, rule matchPath_lit, rule matchPath_lit)
    (use assms in \<open>simp only: client_node, simp add: findChild_def wild_child_def leaf_def\<close>)

lemma match_legacy_download:
  assumes "v \<noteq> ''''" "v \<noteq> ''/''" "s \<noteq> ''''" "s \<noteq> ''/''" "i \<noteq> ''''" "i \<noteq> ''/''"
  shows "matchPath (by_method ''GET'' route_table) [''_matrix'', ''media'', v, ''download'', s, i] [] =
    Some ((\<lparr>pt_method = ''GET'', pt_segs = legacy_media @ [Wild ''version'', Lit ''download'', Wild ''serverName'', Wild ''mediaId'']\<rparr>,
      At_legacy_download), [v, s, i])"
proof (rule matchPath_lit, rule matchPath_lit, rule matchPath_wild, goal_cases)
  case 1
  show ?case using assms(1) by (simp only: legacy_node) (simp add: findChild_def)
next
  case 3
  show ?case
    by (rule matchPath_lit) (use assms in \<open>simp only: legacy_download_node, simp add: findChild_def wild_child_def leaf_def\<close>)
qed (rule assms(2))

text \<open>Where a request for media goes: GET and HEAD of the client's and of the legacy download path run their handlers
  with the server's name and the media ID as the path gives them.\<close>

theorem download_routed:
  assumes "list_all plain [v, o', i]" "CHR ''%'' \<notin> set (v @ o' @ i)" "rq_method r \<in> {''GET'', ''HEAD''}"
  shows "serve_routes L s (abs_path [''_matrix'', ''client'', ''v1'', ''media'', ''download'', o', i]) r =
      instrument ''client_download'' (handleClientDownload s (r\<lparr>rq_pathvals := [(''serverName'', o'), (''mediaId'', i)]\<rparr>)) \<and>
    serve_routes L s (abs_path [''_matrix'', ''media'', v, ''download'', o', i]) r =
      instrument ''legacy_download''
        (handleLegacyDownload s (r\<lparr>rq_pathvals := [(''version'', v), (''serverName'', o'), (''mediaId'', i)]\<rparr>))"
proof
  have ne: "v \<noteq> ''''" "v \<noteq> ''/''" "o' \<noteq> ''''" "o' \<noteq> ''/''" "i \<noteq> ''''" "i \<noteq> ''/''" using assms(1) by (auto simp: plain_def)
  have m: "rq_method r \<notin> {''OPTIONS'', ''CONNECT''}" using assms(3) by auto
  let ?client = "[''_matrix'', ''client'', ''v1'', ''media'', ''download'', o', i]"
  have c: "list_all plain ?client" "CHR ''%'' \<notin> set (concat ?client)" using assms(1,2) by (simp_all add: plain_def)
  note client = serve_plain [OF c list.distinct(2) m match_get [OF assms(3)]]
  show "serve_routes L s (abs_path ?client) r =
      instrument ''client_download'' (handleClientDownload s (r\<lparr>rq_pathvals := [(''serverName'', o'), (''mediaId'', i)]\<rparr>))"
    by (subst client) (simp only: plain_segments [OF c list.distinct(2)], rule match_client_download [OF ne(3-6)],
        simp_all add: run_endpoint_def endpoint_label_def wildcards_def)
  let ?legacy = "[''_matrix'', ''media'', v, ''download'', o', i]"
  have l: "list_all plain ?legacy" "CHR ''%'' \<notin> set (concat ?legacy)" using assms(1,2) by (simp_all add: plain_def)
  note legacy = serve_plain [OF l list.distinct(2) m match_get [OF assms(3)]]
  show "serve_routes L s (abs_path ?legacy) r = instrument ''legacy_download''
        (handleLegacyDownload s (r\<lparr>rq_pathvals := [(''version'', v), (''serverName'', o'), (''mediaId'', i)]\<rparr>))"
    by (subst legacy) (simp only: plain_segments [OF l list.distinct(2)], rule match_legacy_download [OF ne],
        simp_all add: run_endpoint_def endpoint_label_def wildcards_def)
qed

section \<open>Witnesses\<close>

definition sample_web :: web_library where
  "sample_web =
     \<lparr>wl_redirect = (\<lambda>r location. \<lparr>rp_status = 307, rp_headers = [(''Location'', location)], rp_body = Empty\<rparr>),
      wl_metrics = (\<lambda>r. \<lparr>rp_status = 200, rp_headers = [], rp_body = Empty\<rparr>),
      wl_authenticate = (\<lambda>r. Some \<lparr>rp_status = 401, rp_headers = [], rp_body = Empty\<rparr>)\<rparr>"


theorem only_media_forwarded_witness:
  "wp (serve_routes sample_web sample_server ''/_synapse/admin/v1/rooms'' (sample_get\<lparr>rq_path := ''/_synapse/admin/v1/rooms''\<rparr>))
     (\<lambda>_. only_replies (router_reply sample_web (sample_get\<lparr>rq_path := ''/_synapse/admin/v1/rooms''\<rparr>)) sample_world) sample_world"
proof (rule only_media_forwarded)
  have segs: "path_segments ''/_synapse/admin/v1/rooms'' = [''_synapse'', ''admin'', ''v1'', ''rooms'']" by code_simp
  show "\<not> media_surface (path_segments ''/_synapse/admin/v1/rooms'')"
    "path_segments ''/_synapse/admin/v1/rooms'' \<notin> {[''health''], [''metrics'']}"
    by (simp_all add: segs media_surface_def)
  have "\<not> isMediaAdminPath ''/_synapse/admin/v1/rooms''" by code_simp
  then show "\<not> isMediaAdminPath (rq_path (sample_get\<lparr>rq_path := ''/_synapse/admin/v1/rooms''\<rparr>))" by simp
qed

theorem federation_needs_signature_witness:
  "wp (serve_routes sample_web sample_server ''/_matrix/federation/v1/media/download/abc'' sample_get)
     (\<lambda>_. only_replies (\<lambda>rp. rp = \<lparr>rp_status = 401, rp_headers = [], rp_body = Empty\<rparr> \<or> router_reply sample_web sample_get rp)
       sample_world) sample_world"
proof (rule federation_needs_signature)
  show "take 2 (path_segments ''/_matrix/federation/v1/media/download/abc'') = [''_matrix'', ''federation'']" by code_simp
qed (simp add: sample_web_def)

theorem download_routed_witness:
  "serve_routes sample_web sample_server (abs_path [''_matrix'', ''media'', ''v3'', ''download'', ''example.org'', ''abcdefghij'']) sample_get =
     instrument ''legacy_download'' (handleLegacyDownload sample_server sample_get)"
proof -
  have "list_all plain [''v3'', ''example.org'', ''abcdefghij'']" "CHR ''%'' \<notin> set (''v3'' @ ''example.org'' @ ''abcdefghij'')"
    by code_simp+
  from download_routed [OF this, of sample_get sample_web sample_server] show ?thesis by (simp add: sample_get_def)
qed

end
