(* ===== verification/Slots.thy ===== *)
theory Slots
  imports Upload Transitions
begin

text \<open>
  The slots that bound concurrent work: generation in src/thumbnail.go, federated downloads in src/fetch.go and
  uploads in src/upload.go all send to a buffered channel before they start, receive from it when they are done,
  and give up where the caller's context ends first. Each of the three is one channel; here are its steps over
  any number of goroutines, and what the channel promises.
\<close>

section \<open>The channels\<close>

text \<open>The buffer of each channel; GOMAXPROCS is the machine's.\<close>

definition thumbnail_slots :: "int \<Rightarrow> int \<Rightarrow> int" where
  "thumbnail_slots gomaxprocs maxConcurrent = (if maxConcurrent \<le> 0 then gomaxprocs else maxConcurrent)"

definition fetch_slots :: "int \<Rightarrow> int" where
  "fetch_slots maxConcurrent = (if maxConcurrent \<le> 0 then 4 else maxConcurrent)"

record slots =
  sl_cap :: nat
  sl_held :: "nat list"  \<comment> \<open>the goroutines whose value is in the buffer\<close>
  sl_waiting :: "nat list"  \<comment> \<open>those in the \<^verbatim>\<open>select\<close>\<close>
  sl_seen :: "nat list"
  sl_gone :: "nat list"  \<comment> \<open>those that gave up\<close>

definition new_slots :: "int \<Rightarrow> slots" where
  "new_slots n = \<lparr>sl_cap = nat n, sl_held = [], sl_waiting = [], sl_seen = [], sl_gone = []\<rparr>"

text \<open>
  A goroutine reaches the \<^verbatim>\<open>select\<close> of \<^verbatim>\<open>acquire\<close>; its send goes through while the buffer has room; its context
  ends first; it returns and \<^verbatim>\<open>release\<close> receives. Where both cases of the \<^verbatim>\<open>select\<close> are ready either step may
  follow.
\<close>

inductive slot_step :: "slots \<Rightarrow> slots \<Rightarrow> bool" where
  arrive: "g \<notin> set (sl_seen s) \<Longrightarrow>
    slot_step s (s\<lparr>sl_seen := g # sl_seen s, sl_waiting := sl_waiting s @ [g]\<rparr>)"
| enter: "g \<in> set (sl_waiting s) \<Longrightarrow> length (sl_held s) < sl_cap s \<Longrightarrow>
    slot_step s (s\<lparr>sl_waiting := remove1 g (sl_waiting s), sl_held := g # sl_held s\<rparr>)"
| give_up: "g \<in> set (sl_waiting s) \<Longrightarrow>
    slot_step s (s\<lparr>sl_waiting := remove1 g (sl_waiting s), sl_gone := g # sl_gone s\<rparr>)"
| release: "g \<in> set (sl_held s) \<Longrightarrow> slot_step s (s\<lparr>sl_held := remove1 g (sl_held s)\<rparr>)"

inductive_cases slot_stepE: "slot_step s t"

definition slot_reachable :: "int \<Rightarrow> slots \<Rightarrow> bool" where
  "slot_reachable n s \<longleftrightarrow> slot_step\<^sup>*\<^sup>* (new_slots n) s"

section \<open>The invariant\<close>

definition slots_ok :: "int \<Rightarrow> slots \<Rightarrow> bool" where
  "slots_ok n s \<longleftrightarrow> sl_cap s = nat n \<and> length (sl_held s) \<le> nat n \<and>
     distinct (sl_held s @ sl_waiting s @ sl_gone s) \<and>
     set (sl_held s @ sl_waiting s @ sl_gone s) \<subseteq> set (sl_seen s)"

lemma slots_ok_new: "slots_ok n (new_slots n)"
  by (simp add: slots_ok_def new_slots_def)

lemma slots_ok_step:
  assumes "slot_step s t" "slots_ok n s"
  shows "slots_ok n t"
  using assms
  by (cases rule: slot_stepE) (auto simp: slots_ok_def length_remove1 dest: notin_set_remove1)

interpretation slot_steps: kept_by_steps slot_step "\<lambda>s. s = new_slots n" "slots_ok n"
  by unfold_locales (auto intro: slots_ok_new slots_ok_step)

lemma slots_ok_reachable: "slot_reachable n s \<Longrightarrow> slots_ok n s"
  unfolding slot_reachable_def by (rule slot_steps.inv_reachable [OF refl])



end
