(* ===== verification/Db_Life.thy ===== *)
theory Db_Life
  imports Database Transitions
begin

text \<open>
  The life of the database accessor of src/db.go: \<^verbatim>\<open>NewDB\<close>, the goroutine of \<^verbatim>\<open>flushLoop\<close> and the callers of
  \<^verbatim>\<open>Close\<close>, with the channels they share. What one flush writes is in Database; here a flush is a batch taken
  under the lock and then sent through the pool.
\<close>

section \<open>Opening\<close>

text \<open>What the driver makes of the URI, of the pool and of the ping; the pool's size is the URI's where it is not
  configured.\<close>

record driver =
  dv_parse :: "string \<Rightarrow> int res"  \<comment> \<open>the number of connections the URI asks for\<close>
  dv_pool :: "unit res"
  dv_ping :: "unit res"

datatype db_opening = Refused err | PoolClosed err | Opened int int  \<comment> \<open>the connections and the interval\<close>

definition NewDB :: "driver \<Rightarrow> DatabaseConfig \<Rightarrow> db_opening" where
  "NewDB D cfg =
     (case dv_parse D (dc_URI cfg) of
        Inl e \<Rightarrow> Refused e
      | Inr conns \<Rightarrow>
          (case dv_pool D of
             Inl e \<Rightarrow> Refused e
           | Inr _ \<Rightarrow>
               (case dv_ping D of
                  Inl e \<Rightarrow> PoolClosed e
                | Inr _ \<Rightarrow>
                    Opened (if dc_MaxConns cfg > 0 then dc_MaxConns cfg else conns)
                      (if dc_LastAccessInterval cfg \<le> 0 then Minute else dc_LastAccessInterval cfg))))"

section \<open>Running and closing\<close>

datatype loop_state = NoLoop | Selecting | Sending bool | Ended  \<comment> \<open>whether it is the last flush\<close>

record db_life =
  dl_updates :: bool
  dl_loop :: loop_state
  dl_stopFlush :: bool  \<comment> \<open>closed\<close>
  dl_flushStopped :: bool  \<comment> \<open>closed\<close>
  dl_once :: bool
  dl_pool_open :: bool
  dl_recent :: "string list"
  dl_batch :: "string list"
  dl_sent :: "string list"
  dl_lost :: "string list"  \<comment> \<open>in batches that failed\<close>
  dl_due :: "string list"  \<comment> \<open>recorded before the first \<^verbatim>\<open>Close\<close>\<close>
  dl_closing :: nat  \<comment> \<open>callers of \<^verbatim>\<open>Close\<close> that wait\<close>
  dl_closed :: nat
  dl_panic :: bool

definition new_life :: "bool \<Rightarrow> db_life" where
  "new_life updates =
     \<lparr>dl_updates = updates, dl_loop = (if updates then Selecting else NoLoop), dl_stopFlush = False,
      dl_flushStopped = \<not> updates, dl_once = False, dl_pool_open = True, dl_recent = [], dl_batch = [], dl_sent = [],
      dl_lost = [], dl_due = [], dl_closing = 0, dl_closed = 0, dl_panic = False\<rparr>"

definition take_batch :: "bool \<Rightarrow> db_life \<Rightarrow> db_life" where
  "take_batch final s = s\<lparr>dl_loop := Sending final, dl_batch := dl_recent s, dl_recent := []\<rparr>"

text \<open>The batch sent, or lost where the driver fails; after the last one the goroutine ends, and closing a
  closed channel would panic.\<close>

definition send_batch :: "bool \<Rightarrow> bool \<Rightarrow> db_life \<Rightarrow> db_life" where
  "send_batch final ok s =
     (let s = (if ok then s\<lparr>dl_sent := dl_sent s @ dl_batch s, dl_batch := []\<rparr>
               else s\<lparr>dl_lost := dl_lost s @ dl_batch s, dl_batch := []\<rparr>) in
      if final then s\<lparr>dl_loop := Ended, dl_flushStopped := True, dl_panic := dl_panic s \<or> dl_flushStopped s\<rparr>
      else s\<lparr>dl_loop := Selecting\<rparr>)"

definition call_close :: "db_life \<Rightarrow> db_life" where
  "call_close s =
     (let s = (if dl_once s then s
               else if dl_updates s
                    then s\<lparr>dl_once := True, dl_due := dl_recent s @ dl_batch s @ dl_sent s @ dl_lost s,
                           dl_stopFlush := True, dl_panic := dl_panic s \<or> dl_stopFlush s\<rparr>
                    else s\<lparr>dl_once := True\<rparr>) in
      s\<lparr>dl_closing := Suc (dl_closing s)\<rparr>)"

text \<open>\<^verbatim>\<open>SendBatch\<close> needs the open pool to go through.\<close>

inductive life_step :: "db_life \<Rightarrow> db_life \<Rightarrow> bool" where
  mark: "dl_updates s \<Longrightarrow> life_step s (s\<lparr>dl_recent := List.insert x (dl_recent s)\<rparr>)"
| tick: "dl_loop s = Selecting \<Longrightarrow> life_step s (take_batch False s)"
| stop: "dl_loop s = Selecting \<Longrightarrow> dl_stopFlush s \<Longrightarrow> life_step s (take_batch True s)"
| send: "dl_loop s = Sending final \<Longrightarrow> (ok \<longrightarrow> dl_pool_open s) \<Longrightarrow> life_step s (send_batch final ok s)"
| close: "life_step s (call_close s)"
| closed: "0 < dl_closing s \<Longrightarrow> dl_flushStopped s \<Longrightarrow>
    life_step s (s\<lparr>dl_pool_open := False, dl_closing := dl_closing s - 1, dl_closed := Suc (dl_closed s)\<rparr>)"

definition life_reachable :: "bool \<Rightarrow> db_life \<Rightarrow> bool" where
  "life_reachable updates s \<longleftrightarrow> life_step\<^sup>*\<^sup>* (new_life updates) s"

section \<open>The invariant\<close>

definition handled :: "db_life \<Rightarrow> string set" where
  "handled s = set (dl_batch s @ dl_sent s @ dl_lost s)"

lemma handled_mark [simp]: "handled (s\<lparr>dl_recent := r\<rparr>) = handled s"
  by (simp add: handled_def)

lemma handled_send [simp]: "handled (send_batch final ok s) = handled s"
  by (auto simp: handled_def send_batch_def Let_def)

lemma send_batch_fields [simp]:
  "dl_updates (send_batch final ok s) = dl_updates s" "dl_stopFlush (send_batch final ok s) = dl_stopFlush s"
  "dl_once (send_batch final ok s) = dl_once s" "dl_pool_open (send_batch final ok s) = dl_pool_open s"
  "dl_recent (send_batch final ok s) = dl_recent s" "dl_due (send_batch final ok s) = dl_due s"
  "dl_closing (send_batch final ok s) = dl_closing s" "dl_closed (send_batch final ok s) = dl_closed s"
  "dl_batch (send_batch final ok s) = []" "dl_loop (send_batch final ok s) = (if final then Ended else Selecting)"
  "dl_flushStopped (send_batch final ok s) \<longleftrightarrow> final \<or> dl_flushStopped s"
  "dl_panic (send_batch final ok s) \<longleftrightarrow> dl_panic s \<or> final \<and> dl_flushStopped s"
  by (auto simp: send_batch_def Let_def)

definition life_ok :: "bool \<Rightarrow> db_life \<Rightarrow> bool" where
  "life_ok updates s \<longleftrightarrow>
     dl_updates s = updates \<and>
     (dl_loop s = NoLoop \<longleftrightarrow> \<not> updates) \<and>
     (dl_flushStopped s \<longleftrightarrow> dl_loop s = NoLoop \<or> dl_loop s = Ended) \<and>
     (dl_stopFlush s \<longleftrightarrow> dl_once s \<and> updates) \<and>
     (dl_loop s = Sending True \<or> dl_loop s = Ended \<longrightarrow> dl_stopFlush s) \<and>
     (\<not> dl_pool_open s \<longrightarrow> dl_flushStopped s) \<and>
     (0 < dl_closing s \<or> 0 < dl_closed s \<longrightarrow> dl_once s) \<and>
     (0 < dl_closed s \<longrightarrow> dl_flushStopped s) \<and>
     (dl_loop s = NoLoop \<or> dl_loop s = Selecting \<or> dl_loop s = Ended \<longrightarrow> dl_batch s = []) \<and>
     set (dl_due s) \<subseteq> set (dl_recent s) \<union> handled s \<and>
     (dl_loop s = Sending True \<or> dl_loop s = Ended \<longrightarrow> set (dl_due s) \<subseteq> handled s) \<and>
     (\<not> updates \<longrightarrow> dl_recent s = [] \<and> dl_due s = []) \<and>
     \<not> dl_panic s"

lemma life_ok_new: "life_ok updates (new_life updates)"
  by (simp add: life_ok_def new_life_def)

lemma life_ok_step:
  assumes "life_step s t" "life_ok updates s"
  shows "life_ok updates t"
  using assms(1)
proof (cases rule: life_step.cases)
  case (mark x)
  with assms(2) show ?thesis unfolding life_ok_def by (simp add: subset_insertI2) meson
next
  case tick
  with assms(2) show ?thesis by (auto simp: life_ok_def take_batch_def handled_def)
next
  case stop
  with assms(2) show ?thesis by (auto simp: life_ok_def take_batch_def handled_def)
next
  case (send final ok)
  with assms(2) show ?thesis by (cases final; simp add: life_ok_def; meson not_gr_zero)
next
  case close
  with assms(2) show ?thesis
    by (cases "dl_once s"; cases "dl_updates s"; simp add: life_ok_def call_close_def handled_def; meson not_gr_zero)
next
  case closed
  with assms(2) show ?thesis by (auto simp: life_ok_def handled_def)
qed

interpretation life_steps: kept_by_steps life_step "\<lambda>s. s = new_life updates" "life_ok updates"
  by unfold_locales (auto intro: life_ok_new life_ok_step)

lemma life_ok_reachable: "life_reachable updates s \<Longrightarrow> life_ok updates s"
  unfolding life_reachable_def by (rule life_steps.inv_reachable [OF refl])

text \<open>From any state in which \<^verbatim>\<open>Close\<close> has been called the goroutine can end, in at most three steps of its own.\<close>

lemma loop_ends:
  assumes "life_ok updates s" "dl_once s"
  shows "\<exists>t. life_step\<^sup>*\<^sup>* s t \<and> dl_flushStopped t \<and> dl_closing t = dl_closing s \<and> dl_closed t = dl_closed s"
proof -
  have last: "\<exists>t. life_step\<^sup>*\<^sup>* u t \<and> dl_flushStopped t \<and> dl_closing t = dl_closing u \<and> dl_closed t = dl_closed u"
    if "dl_loop u = Sending True" for u
    using send [OF that, of False] by (intro exI [of _ "send_batch True False u"]) (auto simp: send_batch_def Let_def)
  have selecting: "\<exists>t. life_step\<^sup>*\<^sup>* u t \<and> dl_flushStopped t \<and> dl_closing t = dl_closing u \<and> dl_closed t = dl_closed u"
    if "dl_loop u = Selecting" "dl_stopFlush u" for u
    using last [of "take_batch True u"] stop [OF that]
    by (auto simp: take_batch_def intro: converse_rtranclp_into_rtranclp)
  show ?thesis
  proof (cases "dl_loop s")
    case NoLoop
    with assms show ?thesis by (auto simp: life_ok_def)
  next
    case Ended
    with assms show ?thesis by (auto simp: life_ok_def)
  next
    case Selecting
    with assms show ?thesis by (intro selecting) (auto simp: life_ok_def)
  next
    case (Sending final)
    show ?thesis
    proof (cases final)
      case True
      with Sending show ?thesis using last by simp
    next
      case False
      with Sending have loop: "dl_loop s = Sending False" by simp
      then have "dl_stopFlush s" using assms by (auto simp: life_ok_def)
      with selecting [of "send_batch False False s"] send [OF loop, of False]
      show ?thesis by (auto simp: send_batch_def Let_def intro: converse_rtranclp_into_rtranclp)
    qed
  qed
qed

text \<open>C32: However requests, ticks and callers of \<^verbatim>\<open>Close\<close> interleave, no channel is closed twice, no batch finds the
  pool closed under it, a \<^verbatim>\<open>Close\<close> that has returned has left the goroutine ended with everything recorded
  before the first \<^verbatim>\<open>Close\<close> sent in some batch, and a caller of \<^verbatim>\<open>Close\<close> can always come to return.\<close>

theorem close_flushes:
  assumes "life_reachable updates s"
  shows "\<not> dl_panic s \<and> (\<forall>final. dl_loop s = Sending final \<longrightarrow> dl_pool_open s) \<and>
    (0 < dl_closed s \<longrightarrow> dl_loop s \<in> {NoLoop, Ended} \<and> set (dl_due s) \<subseteq> set (dl_sent s @ dl_lost s)) \<and>
    (0 < dl_closing s \<longrightarrow> (\<exists>t. life_step\<^sup>*\<^sup>* s t \<and> dl_closed t = Suc (dl_closed s) \<and> \<not> dl_pool_open t))"
proof -
  note ok = life_ok_reachable [OF assms]
  have "\<exists>t. life_step\<^sup>*\<^sup>* s t \<and> dl_closed t = Suc (dl_closed s) \<and> \<not> dl_pool_open t" if waiting: "0 < dl_closing s"
  proof -
    have "dl_once s" using ok waiting by (auto simp: life_ok_def)
    from loop_ends [OF ok this] obtain t where t: "life_step\<^sup>*\<^sup>* s t" "dl_flushStopped t" "0 < dl_closing t"
      "dl_closed t = dl_closed s"
      using waiting by auto
    from rtranclp.rtrancl_into_rtrancl [OF t(1) closed [OF t(3,2)]] t(4) show ?thesis by auto
  qed
  moreover have "\<not> dl_panic s" and "\<not> dl_pool_open s \<longrightarrow> dl_loop s = NoLoop \<or> dl_loop s = Ended"
    using ok unfolding life_ok_def by (simp, meson)
  moreover have "0 < dl_closed s \<longrightarrow> dl_loop s = NoLoop \<or> dl_loop s = Ended"
    using ok unfolding life_ok_def by meson
  moreover have "dl_loop s = NoLoop \<longrightarrow> dl_due s = []" "dl_loop s = Ended \<longrightarrow> dl_batch s = [] \<and> set (dl_due s) \<subseteq> handled s"
    using ok unfolding life_ok_def by meson+
  ultimately show ?thesis unfolding handled_def by auto
qed

theorem close_flushes_witness:
  "\<exists>t. life_step\<^sup>*\<^sup>* (call_close (new_life True\<lparr>dl_recent := [''m'']\<rparr>)) t \<and> dl_closed t = 1 \<and> \<not> dl_pool_open t"
proof -
  have "life_step (new_life True) (new_life True\<lparr>dl_recent := [''m'']\<rparr>)"
    using mark [of "new_life True" "''m''"] by (simp add: new_life_def)
  then have "life_reachable True (call_close (new_life True\<lparr>dl_recent := [''m'']\<rparr>))"
    unfolding life_reachable_def by (meson close r_into_rtranclp rtranclp.rtrancl_into_rtrancl)
  from close_flushes [OF this] show ?thesis
    by (simp add: call_close_def new_life_def)
qed

section \<open>Opening, case by case\<close>

lemma NewDB_opens:
  "NewDB D cfg = Opened conns interval \<Longrightarrow>
     dv_pool D = Inr () \<and> dv_ping D = Inr () \<and> 0 < interval \<and> (dc_MaxConns cfg > 0 \<longrightarrow> conns = dc_MaxConns cfg)"
  by (auto simp: NewDB_def Minute_def Second_def split: sum.splits if_splits)

lemma NewDB_closes_pool:
  "NewDB D cfg = PoolClosed e \<longleftrightarrow> (\<exists>c. dv_parse D (dc_URI cfg) = Inr c) \<and> dv_pool D = Inr () \<and> dv_ping D = Inl e"
  by (auto simp: NewDB_def split: sum.splits)

end
