(* ===== verification/Parity_Tool.thy ===== *)
theory Parity_Tool
  imports World
begin

text \<open>
  src/tools/parity: the acceptance test, which asks the worker and Synapse the same and counts differences. A
  peer is a function from a path and request headers to its answer, or to nothing where the request fails.
  Signing, media types, multipart bodies and image headers are read by libraries; which rows a query with a
  limit yields, and in which order, is the database's; what is printed is not modelled. A header's name stands in its canonical form
  (\<^verbatim>\<open>Etag\<close>), the form in which \<^verbatim>\<open>Header.Get\<close> looks it up.
\<close>

section \<open>Counting\<close>

record result =
  rs_checked :: nat
  rs_mismatch :: nat
  rs_skipped :: nat

definition no_result :: result where
  "no_result = \<lparr>rs_checked = 0, rs_mismatch = 0, rs_skipped = 0\<rparr>"

definition mismatched :: "result \<Rightarrow> result" where
  "mismatched r = r\<lparr>rs_mismatch := rs_mismatch r + 1\<rparr>"

definition skipped :: "result \<Rightarrow> result" where
  "skipped r = r\<lparr>rs_skipped := rs_skipped r + 1\<rparr>"

definition checked :: "result \<Rightarrow> result" where
  "checked r = r\<lparr>rs_checked := rs_checked r + 1\<rparr>"

section \<open>Requests\<close>

text \<open>The last component of an answer: its body ends cleanly.\<close>

type_synonym answer = "nat \<times> headers \<times> bytes \<times> bool"
type_synonym peer = "string \<Rightarrow> headers \<Rightarrow> answer option"

record parity_flags =
  pf_serverName :: string
  pf_keyGiven :: bool
  pf_dbGiven :: bool
  pf_synapseSocket :: string
  pf_synapseURL :: string
  pf_goURL :: string
  pf_goSocket :: string
  pf_thumbnailSizes :: string
  pf_mode :: string
  pf_token :: "string res"
  pf_maxCompareBytes :: int
  pf_includeRemote :: bool

record parity_library =
  pl_authorization :: "string \<Rightarrow> string option"
  pl_mediaType :: "string \<Rightarrow> (string \<times> string) option"  \<comment> \<open>the type and its boundary\<close>
  pl_filePart :: "string \<Rightarrow> bytes \<Rightarrow> bool \<Rightarrow> (headers \<times> bytes) option"
  pl_dimensions :: "bytes \<Rightarrow> (int \<times> int) option"

definition fetchMultipart :: "parity_library \<Rightarrow> peer \<Rightarrow> string \<Rightarrow> (headers \<times> bytes \<times> nat) res" where
  "fetchMultipart L p path =
     (case pl_authorization L path of
        None \<Rightarrow> Inl ErrIO
      | Some auth \<Rightarrow>
          (case p path [(''Authorization'', auth)] of
             None \<Rightarrow> Inl ErrIO
           | Some (st, h, body, ends) \<Rightarrow>
               (if st \<noteq> 200 then Inr ([], [], st)
                else (case pl_mediaType L (hget h ''Content-Type'') of
                  None \<Rightarrow> Inl ErrFetchFailed
                | Some (mediaType, boundary) \<Rightarrow>
                    (if mediaType \<noteq> ''multipart/mixed'' then Inl ErrFetchFailed
                     else (case pl_filePart L boundary body ends of
                       None \<Rightarrow> Inl ErrFetchFailed
                     | Some (meta, content) \<Rightarrow> Inr (meta, content, st)))))))"

definition clientFetch ::
  "parity_flags \<Rightarrow> peer \<Rightarrow> string \<Rightarrow> string \<Rightarrow> headers \<Rightarrow> (nat \<times> headers \<times> bytes) option" where
  "clientFetch fl p path token extra =
     (case p path ((''Authorization'', ''Bearer '' @ token) # extra) of
        None \<Rightarrow> None
      | Some (st, h, body, ends) \<Rightarrow>
          (if \<not> ends \<and> int (length body) < pf_maxCompareBytes fl then None
           else Some (st, h, take (nat (pf_maxCompareBytes fl)) body)))"

record mediaRef =
  mr_origin :: string
  mr_mediaID :: string

definition mr_server :: "mediaRef \<Rightarrow> string \<Rightarrow> string" where
  "mr_server m defaultServer = (if mr_origin m \<noteq> '''' then mr_origin m else defaultServer)"

definition download_path :: "parity_flags \<Rightarrow> mediaRef \<Rightarrow> string" where
  "download_path fl m =
     ''/_matrix/client/v1/media/download/'' @ mr_server m (pf_serverName fl) @ ''/'' @ mr_mediaID m"

text \<open>
  \<^verbatim>\<open>fmt.Sscanf\<close> with \<^verbatim>\<open>%dx%d:%s\<close>: blanks may stand before each verb, a word ends at white space,
  and what follows the word is not looked at.
\<close>

definition scan_blank :: "char \<Rightarrow> bool" where
  "scan_blank c \<longleftrightarrow> c \<in> {CHR '' '', CHR 0x09, CHR 0x0B, CHR 0x0C, CHR 0x0D}"

definition scan_number :: "string \<Rightarrow> int option" where
  "scan_number s = parse_int64 (dropWhile scan_blank s)"

definition scan_word :: "string \<Rightarrow> string option" where
  "scan_word s =
     (let w = takeWhile (\<lambda>c. \<not> scan_blank c \<and> c \<noteq> CHR 0x0A) (dropWhile scan_blank s) in
      if w = '''' then None else Some w)"

definition thumb_spec :: "string \<Rightarrow> (int \<times> int \<times> string) option" where
  "thumb_spec s =
     (case cut (CHR ''x'') s of (w, rest, found) \<Rightarrow>
        (case cut (CHR '':'') rest of (h, method, found') \<Rightarrow>
           (case (scan_number w, scan_number h, scan_word method) of
              (Some w, Some h, Some method) \<Rightarrow> (if found \<and> found' then Some (w, h, method) else None)
            | _ \<Rightarrow> None)))"

definition thumb_query :: "int \<times> int \<times> string \<Rightarrow> string" where
  "thumb_query spec =
     (case spec of (w, h, method) \<Rightarrow> ''?width='' @ show_int w @ ''&height='' @ show_int h @ ''&method='' @ method)"

section \<open>Headers\<close>

definition clientDownloadHeaders :: "string list" where
  "clientDownloadHeaders =
     [''Content-Type'', ''Content-Disposition'', ''Content-Security-Policy'', ''X-Content-Security-Policy'',
      ''Referrer-Policy'', ''Cross-Origin-Resource-Policy'', ''Cache-Control'', ''Etag'', ''X-Robots-Tag'',
      ''Access-Control-Allow-Origin'']"

definition clientThumbnailHeaders :: "string list" where
  "clientThumbnailHeaders =
     [''Content-Type'', ''Content-Disposition'', ''Cross-Origin-Resource-Policy'', ''Cache-Control'', ''Etag'',
      ''Access-Control-Allow-Origin'']"

definition mediaConfigHeaders :: "string list" where
  "mediaConfigHeaders =
     [''Content-Type'', ''Cache-Control'', ''Access-Control-Allow-Origin'', ''Access-Control-Allow-Methods'',
      ''Access-Control-Allow-Headers'', ''Access-Control-Expose-Headers'']"

definition proxyModifiedHeaders :: "string \<Rightarrow> bool" where
  "proxyModifiedHeaders h \<longleftrightarrow> h = ''Cache-Control''"

definition diffHeaders :: "parity_flags \<Rightarrow> headers \<Rightarrow> headers \<Rightarrow> string list \<Rightarrow> bool" where
  "diffHeaders fl got want names \<longleftrightarrow>
     list_ex (\<lambda>h. \<not> (pf_synapseURL fl \<noteq> '''' \<and> proxyModifiedHeaders h) \<and> hget got h \<noteq> hget want h) names"

section \<open>Comparisons\<close>

definition fed_headers_differ :: "headers \<Rightarrow> headers \<Rightarrow> bool" where
  "fed_headers_differ got want \<longleftrightarrow>
     list_ex (\<lambda>h. hget got h \<noteq> hget want h) [''Content-Type'', ''Content-Disposition'']"

definition compareDownload :: "parity_library \<Rightarrow> peer \<Rightarrow> peer \<Rightarrow> string \<Rightarrow> result \<Rightarrow> result" where
  "compareDownload L go syn mediaID r =
     (let path = ''/_matrix/federation/v1/media/download/'' @ mediaID in
      case fetchMultipart L go path of
        Inl e \<Rightarrow> mismatched r
      | Inr (goMeta, goBody, goStatus) \<Rightarrow>
          (case fetchMultipart L syn path of
             Inl e \<Rightarrow> skipped r
           | Inr (synMeta, synBody, synStatus) \<Rightarrow>
               (if goStatus \<noteq> synStatus then mismatched r
                else if goStatus \<noteq> 200 then skipped r
                else if goBody \<noteq> synBody then mismatched (checked r)
                else if fed_headers_differ goMeta synMeta then mismatched (checked r)
                else checked r)))"

text \<open>\<open>None\<close>: a bad size ends the program.\<close>

definition compareThumbnail :: "parity_library \<Rightarrow> peer \<Rightarrow> peer \<Rightarrow> string \<Rightarrow> string \<Rightarrow> result \<Rightarrow> result option" where
  "compareThumbnail L go syn mediaID spec r =
     (case thumb_spec spec of
        None \<Rightarrow> None
      | Some dims \<Rightarrow>
          (let path = ''/_matrix/federation/v1/media/thumbnail/'' @ mediaID @ thumb_query dims in
           Some (case (fetchMultipart L go path, fetchMultipart L syn path) of
             (Inr (goMeta, goBody, goStatus), Inr (synMeta, synBody, synStatus)) \<Rightarrow>
               (if goStatus \<noteq> synStatus then mismatched r
                else if goStatus \<noteq> 200 then skipped r
                else (case (pl_dimensions L goBody, pl_dimensions L synBody) of
                  (Some goDims, Some synDims) \<Rightarrow>
                    (if goDims \<noteq> synDims then mismatched (checked r)
                     else if fed_headers_differ goMeta synMeta then mismatched (checked r)
                     else checked r)
                | _ \<Rightarrow> mismatched (checked r)))
           | _ \<Rightarrow> skipped r)))"

definition compareClientDownload :: "parity_flags \<Rightarrow> peer \<Rightarrow> peer \<Rightarrow> mediaRef \<Rightarrow> string \<Rightarrow> result \<Rightarrow> result" where
  "compareClientDownload fl go syn m token r =
     (case (clientFetch fl go (download_path fl m) token [], clientFetch fl syn (download_path fl m) token []) of
        (Some (goStatus, goHeader, goBody), Some (synStatus, synHeader, synBody)) \<Rightarrow>
          (if goStatus \<noteq> synStatus then mismatched r
           else if goStatus \<noteq> 200 then skipped r
           else if goBody \<noteq> synBody then mismatched (checked r)
           else if diffHeaders fl goHeader synHeader clientDownloadHeaders then mismatched (checked r)
           else checked r)
      | _ \<Rightarrow> skipped r)"

definition compareClientThumbnail ::
  "parity_library \<Rightarrow> parity_flags \<Rightarrow> peer \<Rightarrow> peer \<Rightarrow> mediaRef \<Rightarrow> string \<Rightarrow> string \<Rightarrow> result \<Rightarrow> result option" where
  "compareClientThumbnail L fl go syn m spec token r =
     (case thumb_spec spec of
        None \<Rightarrow> None
      | Some dims \<Rightarrow>
          (let path = ''/_matrix/client/v1/media/thumbnail/'' @ mr_server m (pf_serverName fl) @ ''/'' @ mr_mediaID m @
                 thumb_query dims in
           Some (case (clientFetch fl go path token [], clientFetch fl syn path token []) of
             (Some (goStatus, goHeader, goBody), Some (synStatus, synHeader, synBody)) \<Rightarrow>
               (if goStatus \<noteq> synStatus then mismatched r
                else if goStatus \<noteq> 200 then skipped r
                else (case (pl_dimensions L goBody, pl_dimensions L synBody) of
                  (Some goDims, Some synDims) \<Rightarrow>
                    (if goDims \<noteq> synDims then mismatched (checked r)
                     else if diffHeaders fl goHeader synHeader clientThumbnailHeaders then mismatched (checked r)
                     else checked r)
                | _ \<Rightarrow> mismatched (checked r)))
           | _ \<Rightarrow> skipped r)))"

definition compareConditional :: "parity_flags \<Rightarrow> peer \<Rightarrow> peer \<Rightarrow> mediaRef \<Rightarrow> string \<Rightarrow> result \<Rightarrow> result" where
  "compareConditional fl go syn m token r =
     (let extra = [(''If-None-Match'', ''1'')] in
      case (clientFetch fl go (download_path fl m) token extra, clientFetch fl syn (download_path fl m) token extra) of
        (Some (goStatus, _, _), Some (synStatus, _, _)) \<Rightarrow>
          (if goStatus \<noteq> synStatus then mismatched (checked r) else checked r)
      | _ \<Rightarrow> skipped r)"

definition mediaConfigPaths :: "string list" where
  "mediaConfigPaths = [''/_matrix/client/v1/media/config'', ''/_matrix/media/v3/config'']"

definition compareConfigAt :: "parity_flags \<Rightarrow> peer \<Rightarrow> peer \<Rightarrow> string \<Rightarrow> string \<Rightarrow> result \<Rightarrow> result" where
  "compareConfigAt fl go syn token path r =
     (case (clientFetch fl go path token [], clientFetch fl syn path token []) of
        (Some (goStatus, goHeader, goBody), Some (synStatus, synHeader, synBody)) \<Rightarrow>
          (if goStatus \<noteq> synStatus \<or> goBody \<noteq> synBody \<or> diffHeaders fl goHeader synHeader mediaConfigHeaders
           then mismatched (checked r) else checked r)
      | _ \<Rightarrow> skipped r)"

definition compareRefusalAt :: "parity_flags \<Rightarrow> peer \<Rightarrow> peer \<Rightarrow> string \<Rightarrow> result \<Rightarrow> result" where
  "compareRefusalAt fl go syn path r =
     (case (clientFetch fl go path '''' [], clientFetch fl syn path '''' []) of
        (Some (goStatus, _, _), Some (synStatus, _, _)) \<Rightarrow>
          (if goStatus \<noteq> synStatus then mismatched (checked r) else checked r)
      | _ \<Rightarrow> skipped r)"

definition compareMediaConfig :: "parity_flags \<Rightarrow> peer \<Rightarrow> peer \<Rightarrow> string \<Rightarrow> result \<Rightarrow> result" where
  "compareMediaConfig fl go syn token r =
     fold (compareRefusalAt fl go syn) mediaConfigPaths (fold (compareConfigAt fl go syn token) mediaConfigPaths r)"

definition compareRange :: "parity_flags \<Rightarrow> peer \<Rightarrow> peer \<Rightarrow> mediaRef \<Rightarrow> string \<Rightarrow> result \<Rightarrow> result" where
  "compareRange fl go syn m token r =
     (case clientFetch fl syn (download_path fl m) token [] of
        None \<Rightarrow> skipped r
      | Some (synStatus, _, synBody) \<Rightarrow>
          (if synStatus \<noteq> 200 \<or> length synBody < 2048 then skipped r
           else (case clientFetch fl go (download_path fl m) token [(''Range'', ''bytes=0-1023'')] of
             None \<Rightarrow> skipped r
           | Some (goStatus, goHeader, goBody) \<Rightarrow>
               (if goStatus \<noteq> 206 then mismatched (checked r)
                else if length goBody \<noteq> 1024 \<or> goBody \<noteq> take 1024 synBody then mismatched (checked r)
                else if \<not> has_prefix ''bytes 0-1023/'' (hget goHeader ''Content-Range'') then mismatched (checked r)
                else checked r))))"

section \<open>The run\<close>

text \<open>The two loops, with the counters they share; a bad size ends them.\<close>

fun each :: "('a \<Rightarrow> 'b \<Rightarrow> 'b option) \<Rightarrow> 'a list \<Rightarrow> 'b \<Rightarrow> 'b option" where
  "each f [] r = Some r"
| "each f (x # xs) r = (case f x r of None \<Rightarrow> None | Some r' \<Rightarrow> each f xs r')"

definition specs_of :: "parity_flags \<Rightarrow> string list" where
  "specs_of fl = split_on (CHR '','') (pf_thumbnailSizes fl)"

record counts =
  ct_fedDown :: result
  ct_fedThumb :: result
  ct_cliDown :: result
  ct_cliThumb :: result
  ct_cond :: result
  ct_rng :: result
  ct_mcfg :: result

definition no_counts :: counts where
  "no_counts = \<lparr>ct_fedDown = no_result, ct_fedThumb = no_result, ct_cliDown = no_result, ct_cliThumb = no_result,
     ct_cond = no_result, ct_rng = no_result, ct_mcfg = no_result\<rparr>"

definition federation_medium :: "parity_library \<Rightarrow> parity_flags \<Rightarrow> peer \<Rightarrow> peer \<Rightarrow> mediaRef \<Rightarrow> counts \<Rightarrow> counts option" where
  "federation_medium L fl go syn m c =
     (let c = c\<lparr>ct_fedDown := compareDownload L go syn (mr_mediaID m) (ct_fedDown c)\<rparr> in
      map_option (\<lambda>r. c\<lparr>ct_fedThumb := r\<rparr>)
        (each (compareThumbnail L go syn (mr_mediaID m)) (specs_of fl) (ct_fedThumb c)))"

definition client_medium ::
  "parity_library \<Rightarrow> parity_flags \<Rightarrow> peer \<Rightarrow> peer \<Rightarrow> string \<Rightarrow> mediaRef \<Rightarrow> counts \<Rightarrow> counts option" where
  "client_medium L fl go syn token m c =
     (let c = c\<lparr>ct_cliDown := compareClientDownload fl go syn m token (ct_cliDown c),
                ct_cond := compareConditional fl go syn m token (ct_cond c),
                ct_rng := compareRange fl go syn m token (ct_rng c)\<rparr> in
      map_option (\<lambda>r. c\<lparr>ct_cliThumb := r\<rparr>)
        (each (\<lambda>spec. compareClientThumbnail L fl go syn m spec token) (specs_of fl) (ct_cliThumb c)))"

definition mismatches :: "counts \<Rightarrow> nat" where
  "mismatches c = rs_mismatch (ct_fedDown c) + rs_mismatch (ct_fedThumb c) + rs_mismatch (ct_cliDown c) +
     rs_mismatch (ct_cliThumb c) + rs_mismatch (ct_cond c) + rs_mismatch (ct_rng c) + rs_mismatch (ct_mcfg c)"

definition readToken :: "string res \<Rightarrow> string res" where
  "readToken raw =
     (case raw of Inl e \<Rightarrow> Inl e
      | Inr s \<Rightarrow> (let token = trim_space s in if token = '''' then Inl (ErrConfig ''token file is empty'') else Inr token))"

text \<open>The exit status, given what the database and the token file yield.\<close>

definition parity_main ::
  "parity_library \<Rightarrow> parity_flags \<Rightarrow> bool \<Rightarrow> mediaRef list res \<Rightarrow> mediaRef list res \<Rightarrow> peer \<Rightarrow> peer \<Rightarrow> nat" where
  "parity_main L fl keyLoads localSample remoteSample go syn =
     (let doFederation = pf_mode fl \<in> {''federation'', ''both''}; doClient = pf_mode fl \<in> {''client'', ''both''} in
      if pf_serverName fl = '''' \<or> \<not> pf_keyGiven fl \<or> \<not> pf_dbGiven fl \<or> pf_synapseSocket fl = '''' \<and> pf_synapseURL fl = ''''
      then 2
      else (case (if doClient then readToken (pf_token fl) else Inr '''') of
        Inl e \<Rightarrow> 1
      | Inr token \<Rightarrow>
          (if \<not> keyLoads then 1
           else (case localSample of
             Inl e \<Rightarrow> 1
           | Inr locals \<Rightarrow>
               (case (if doClient \<and> pf_includeRemote fl then remoteSample else Inr []) of
                  Inl e \<Rightarrow> 1
                | Inr remotes \<Rightarrow>
                    (case (if doFederation then each (federation_medium L fl go syn) locals no_counts else Some no_counts) of
                       None \<Rightarrow> 1
                     | Some c \<Rightarrow>
                         (case (if doClient
                             then each (client_medium L fl go syn token) (locals @ remotes)
                               (c\<lparr>ct_mcfg := compareMediaConfig fl go syn token (ct_mcfg c)\<rparr>)
                             else Some c) of
                            None \<Rightarrow> 1
                          | Some c \<Rightarrow> if mismatches c > 0 then 1 else 0)))))))"

definition newSynapseClient :: "parity_flags \<Rightarrow> string \<times> string option" where
  "newSynapseClient fl =
     (if pf_synapseURL fl \<noteq> '''' then (rev (dropWhile (\<lambda>c. c = CHR ''/'') (rev (pf_synapseURL fl))), None)
      else (''http://synapse'', Some (pf_synapseSocket fl)))"

definition newGoClient :: "parity_flags \<Rightarrow> string \<times> string option" where
  "newGoClient fl =
     (if pf_goSocket fl \<noteq> '''' then (''http://media-worker'', Some (pf_goSocket fl))
      else (rev (dropWhile (\<lambda>c. c = CHR ''/'') (rev (pf_goURL fl))), None))"

fun first_key :: "(string \<Rightarrow> 'k option) \<Rightarrow> string list \<Rightarrow> 'k option" where
  "first_key parse [] = None"
| "first_key parse (l # ls) =
     (let line = trim_space l in if line = '''' \<or> has_prefix ''#'' line then first_key parse ls else parse line)"

section \<open>The samples\<close>

text \<open>The conditions of the queries; a comparison with NULL holds of nothing.\<close>

definition sampled_local :: "local_row \<Rightarrow> bool" where
  "sampled_local r \<longleftrightarrow> lr_length r \<noteq> None \<and> lr_quarantined_by r = None"

definition sampled_image :: "bool \<Rightarrow> local_row \<Rightarrow> bool" where
  "sampled_image wanted r \<longleftrightarrow>
     sampled_local r \<and> (case lr_media_type r of None \<Rightarrow> False | Some t \<Rightarrow> has_prefix ''image/'' t = wanted)"

definition plain_char :: "char \<Rightarrow> bool" where
  "plain_char c \<longleftrightarrow> is_digit c \<or> 97 \<le> (of_char c :: nat) \<and> (of_char c :: nat) \<le> 122 \<or>
     65 \<le> (of_char c :: nat) \<and> (of_char c :: nat) \<le> 90 \<or> c \<in> {CHR ''.'', CHR ''_'', CHR ''-''}"

definition sampled_named :: "local_row \<Rightarrow> bool" where
  "sampled_named r \<longleftrightarrow>
     sampled_local r \<and> (case lr_upload_name r of None \<Rightarrow> False | Some n \<Rightarrow> list_ex (\<lambda>c. \<not> plain_char c) n)"

text \<open>\<open>pick\<close> is the rows a limit keeps, \<open>arrange\<close> what UNION makes of the three lists. \<open>db\<close> is
  whether the database answers; it refuses a negative limit.\<close>

definition sampleMediaIDs ::
  "(int \<Rightarrow> local_row list \<Rightarrow> local_row list) \<Rightarrow> (string list \<Rightarrow> string list) \<Rightarrow> unit res \<Rightarrow> int \<Rightarrow>
   local_row list \<Rightarrow> string list res" where
  "sampleMediaIDs pick arrange db n rows =
     (if \<not> is_ok db \<or> go_div n 2 < 0 \<or> go_div n 4 < 0 then Inl ErrDB
      else Inr (arrange (map lr_media_id
        (pick (go_div n 2) (filter (sampled_image True) rows) @
         pick (go_div n 4) (filter (sampled_image False) rows) @
         pick (go_div n 4) (filter sampled_named rows)))))"

definition sampleRemoteMedia ::
  "(int \<Rightarrow> remote_row list \<Rightarrow> remote_row list) \<Rightarrow> unit res \<Rightarrow> int \<Rightarrow> remote_row list \<Rightarrow> mediaRef list res" where
  "sampleRemoteMedia pick db n rows =
     (if \<not> is_ok db \<or> n < 0 then Inl ErrDB
      else Inr (map (\<lambda>r. \<lparr>mr_origin = rr_origin r, mr_mediaID = rr_media_id r\<rparr>)
        (pick n (filter (\<lambda>r. rr_length r \<noteq> None \<and> rr_quarantined_by r = None \<and> rr_filesystem_id r \<noteq> None) rows))))"

definition local_refs :: "string list \<Rightarrow> mediaRef list" where
  "local_refs = map (\<lambda>i. \<lparr>mr_origin = '''', mr_mediaID = i\<rparr>)"

end
