(* ===== verification/Parity_Tool_Correct.thy ===== *)
theory Parity_Tool_Correct
  imports Parity_Tool Synapse_Config_Correct
begin

text \<open>
  What the exit status of the parity tool says: a comparison never takes a mismatch back, so a run that ends
  with status 0 found every pair it compared equal. What it does not say: a request that gets no answer is
  skipped, and bodies are compared up to the cap.
\<close>

section \<open>Mismatches are kept\<close>

named_theorems counting

lemma counters [simp]:
  "rs_mismatch (mismatched r) = Suc (rs_mismatch r)" "rs_mismatch (skipped r) = rs_mismatch r"
  "rs_mismatch (checked r) = rs_mismatch r" "rs_mismatch no_result = 0"
  by (simp_all add: mismatched_def skipped_def checked_def no_result_def)

lemma compareDownload_keeps [counting]: "rs_mismatch r \<le> rs_mismatch (compareDownload L go syn i r)"
  by (auto simp: compareDownload_def Let_def split: sum.split prod.split)

lemma compareThumbnail_keeps [counting]:
  "compareThumbnail L go syn i spec r = Some r' \<Longrightarrow> rs_mismatch r \<le> rs_mismatch r'"
  by (auto simp: compareThumbnail_def Let_def split: option.splits sum.splits prod.splits if_splits)

lemma compareClientDownload_keeps [counting]:
  "rs_mismatch r \<le> rs_mismatch (compareClientDownload fl go syn m token r)"
  by (auto simp: compareClientDownload_def split: option.split prod.split)

lemma compareClientThumbnail_keeps [counting]:
  "compareClientThumbnail L fl go syn m spec token r = Some r' \<Longrightarrow> rs_mismatch r \<le> rs_mismatch r'"
  by (auto simp: compareClientThumbnail_def Let_def split: option.splits prod.splits if_splits)

lemma compareConditional_keeps [counting]:
  "rs_mismatch r \<le> rs_mismatch (compareConditional fl go syn m token r)"
  by (auto simp: compareConditional_def Let_def split: option.split prod.split)

lemma compareRange_keeps [counting]: "rs_mismatch r \<le> rs_mismatch (compareRange fl go syn m token r)"
  by (auto simp: compareRange_def split: option.split prod.split)

lemma compareConfigAt_keeps [counting]: "rs_mismatch r \<le> rs_mismatch (compareConfigAt fl go syn token path r)"
  by (auto simp: compareConfigAt_def split: option.split prod.split)

lemma compareRefusalAt_keeps [counting]: "rs_mismatch r \<le> rs_mismatch (compareRefusalAt fl go syn path r)"
  by (auto simp: compareRefusalAt_def split: option.split prod.split)

section \<open>Loops that keep a measure\<close>

text \<open>
  A loop over \<^verbatim>\<open>each\<close> whose step never lowers a count: the count at any element is between the first and
  the last.
\<close>

locale keeps =
  fixes f :: "'a \<Rightarrow> 'b \<Rightarrow> 'b option" and count :: "'b \<Rightarrow> nat"
  assumes step_keeps: "f x r = Some r' \<Longrightarrow> count r \<le> count r'"
begin

lemma each_keeps: "each f xs r = Some r' \<Longrightarrow> count r \<le> count r'"
proof (induction xs arbitrary: r)
  case (Cons x xs)
  then obtain r1 where r1: "f x r = Some r1" "each f xs r1 = Some r'"
    by (auto split: option.splits)
  show ?case using step_keeps [OF r1(1)] Cons.IH [OF r1(2)] by simp
qed simp

lemma each_member:
  "each f xs r = Some r' \<Longrightarrow> x \<in> set xs \<Longrightarrow> \<exists>a b. f x a = Some b \<and> count b \<le> count r'"
proof (induction xs arbitrary: r)
  case (Cons y xs)
  then obtain r1 where r1: "f y r = Some r1" "each f xs r1 = Some r'"
    by (auto split: option.splits)
  show ?case
  proof (cases "x = y")
    case True
    then show ?thesis using r1 each_keeps [OF r1(2)] by blast
  next
    case False
    then show ?thesis using Cons.IH [OF r1(2)] Cons.prems(2) by simp
  qed
qed simp

end

lemma fold_keeps:
  assumes "\<And>x r. c r \<le> c (f x r)"
  shows "c (r :: result) \<le> (c (fold f xs r) :: nat)"
proof (induction xs arbitrary: r)
  case (Cons x xs)
  then show ?case using assms [of r x] order_trans by fastforce
qed simp

lemma compareMediaConfig_keeps [counting]:
  "rs_mismatch r \<le> rs_mismatch (compareMediaConfig fl go syn token r)"
  unfolding compareMediaConfig_def
  by (rule order_trans [OF fold_keeps fold_keeps]; rule counting)

interpretation fed_thumbs: keeps "compareThumbnail L go syn i" rs_mismatch
  by unfold_locales (rule compareThumbnail_keeps)

interpretation client_thumbs: keeps "\<lambda>spec. compareClientThumbnail L fl go syn m spec token" rs_mismatch
  by unfold_locales (rule compareClientThumbnail_keeps)

lemma federation_medium_keeps:
  assumes "federation_medium L fl go syn m c = Some c'"
  shows "mismatches c + rs_mismatch (compareDownload L go syn (mr_mediaID m) (ct_fedDown c))
    \<le> mismatches c' + rs_mismatch (ct_fedDown c)"
  using assms fed_thumbs.each_keeps
  by (fastforce simp: federation_medium_def mismatches_def Let_def)

lemma client_medium_keeps:
  assumes "client_medium L fl go syn token m c = Some c'"
  shows "mismatches c + rs_mismatch (compareClientDownload fl go syn m token (ct_cliDown c))
    \<le> mismatches c' + rs_mismatch (ct_cliDown c)"
proof -
  obtain r where r: "each (\<lambda>spec. compareClientThumbnail L fl go syn m spec token) (specs_of fl) (ct_cliThumb c) = Some r"
      and c': "c' = c\<lparr>ct_cliDown := compareClientDownload fl go syn m token (ct_cliDown c),
                ct_cond := compareConditional fl go syn m token (ct_cond c),
                ct_rng := compareRange fl go syn m token (ct_rng c), ct_cliThumb := r\<rparr>"
    using assms by (auto simp: client_medium_def Let_def)
  show ?thesis
    using client_thumbs.each_keeps [OF r] compareConditional_keeps [of "ct_cond c" fl go syn m token]
      compareRange_keeps [of "ct_rng c" fl go syn m token]
    by (simp add: c' mismatches_def)
qed

interpretation federation: keeps "federation_medium L fl go syn" mismatches
proof unfold_locales
  fix m :: mediaRef and c c'
  assume "federation_medium L fl go syn m c = Some c'"
  from federation_medium_keeps [OF this] compareDownload_keeps [of "ct_fedDown c" L go syn "mr_mediaID m"]
  show "mismatches c \<le> mismatches c'" by linarith
qed

interpretation client: keeps "client_medium L fl go syn token" mismatches
proof unfold_locales
  fix m :: mediaRef and c c'
  assume "client_medium L fl go syn token m c = Some c'"
  from client_medium_keeps [OF this] compareClientDownload_keeps [of "ct_cliDown c" fl go syn m token]
  show "mismatches c \<le> mismatches c'" by linarith
qed

section \<open>A run that ends well\<close>

lemma client_mode_zero:
  assumes "each (client_medium L fl go syn token) xs
      (c\<lparr>ct_mcfg := compareMediaConfig fl go syn token (ct_mcfg c)\<rparr>) = Some c'" "mismatches c' = 0"
  shows "mismatches c = 0"
  using client.each_keeps [OF assms(1)] assms(2) compareMediaConfig_keeps [of "ct_mcfg c" fl go syn token]
  by (simp add: mismatches_def)

lemma parity_federation_run:
  assumes "parity_main L fl keyLoads localSample remoteSample go syn = 0" "pf_mode fl \<in> {''federation'', ''both''}"
    "localSample = Inr locals"
  shows "\<exists>c. each (federation_medium L fl go syn) locals no_counts = Some c \<and> mismatches c = 0"
  using assms unfolding parity_main_def Let_def
  by (auto split: if_split_asm sum.split_asm option.split_asm dest: client_mode_zero)

definition client_sample :: "parity_flags \<Rightarrow> mediaRef list \<Rightarrow> mediaRef list res \<Rightarrow> mediaRef list" where
  "client_sample fl locals remoteSample =
     locals @ (if pf_includeRemote fl then (case remoteSample of Inr remotes \<Rightarrow> remotes | Inl e \<Rightarrow> []) else [])"

lemma parity_client_run:
  assumes "parity_main L fl keyLoads localSample remoteSample go syn = 0" "pf_mode fl \<in> {''client'', ''both''}"
    "localSample = Inr locals" "readToken (pf_token fl) = Inr token"
  shows "\<exists>c c'. each (client_medium L fl go syn token) (client_sample fl locals remoteSample) c = Some c' \<and>
    mismatches c' = 0"
  using assms unfolding parity_main_def Let_def client_sample_def
  by (auto split: if_split_asm sum.split_asm option.split_asm)

lemma compareDownload_quiet:
  assumes "rs_mismatch (compareDownload L go syn i r) = rs_mismatch r"
    "fetchMultipart L syn (''/_matrix/federation/v1/media/download/'' @ i) = Inr (m2, b2, st2)"
  shows "\<exists>m1 b1 st1. fetchMultipart L go (''/_matrix/federation/v1/media/download/'' @ i) = Inr (m1, b1, st1) \<and>
    st1 = st2 \<and> (st1 = 200 \<longrightarrow> b1 = b2 \<and> \<not> fed_headers_differ m1 m2)"
  using assms
  by (auto simp: compareDownload_def Let_def split: sum.split_asm prod.split_asm if_split_asm)

lemma compareClientDownload_quiet:
  assumes "rs_mismatch (compareClientDownload fl go syn m token r) = rs_mismatch r"
    "clientFetch fl go (download_path fl m) token [] = Some (st1, h1, b1)"
    "clientFetch fl syn (download_path fl m) token [] = Some (st2, h2, b2)"
  shows "st1 = st2 \<and> (st1 = 200 \<longrightarrow> b1 = b2 \<and> \<not> diffHeaders fl h1 h2 clientDownloadHeaders)"
  using assms by (auto simp: compareClientDownload_def split: if_split_asm)

section \<open>A worker that never answers\<close>

abbreviation silent :: peer where
  "silent \<equiv> \<lambda>_ _. None"

lemma silent_counts [simp]:
  "compareClientDownload fl silent syn m token r = skipped r"
  "compareConditional fl silent syn m token r = skipped r"
  "compareRange fl silent syn m token r = skipped r"
  "compareConfigAt fl silent syn token path r = skipped r"
  "compareRefusalAt fl silent syn path r = skipped r"
  by (auto simp: compareClientDownload_def compareConditional_def compareRange_def compareConfigAt_def
      compareRefusalAt_def clientFetch_def Let_def split: option.split prod.split)

lemma silent_thumbnail:
  "thumb_spec spec \<noteq> None \<Longrightarrow> compareClientThumbnail L fl silent syn m spec token r = Some (skipped r)"
  by (auto simp: compareClientThumbnail_def clientFetch_def Let_def split: option.split prod.split)

lemma each_same:
  fixes count :: "'b \<Rightarrow> nat"
  assumes "\<And>x r. x \<in> set xs \<Longrightarrow> \<exists>r'. f x r = Some r' \<and> count r' = count r"
  shows "\<exists>r'. each f xs r = Some r' \<and> count r' = count r"
  using assms
proof (induction xs arbitrary: r)
  case (Cons x xs)
  from Cons.prems [of x r] obtain r1 where r1: "f x r = Some r1" "count r1 = count r" by auto
  from Cons.IH [of r1] Cons.prems obtain r2 where "each f xs r1 = Some r2" "count r2 = count r1" by auto
  with r1 show ?case by simp
qed simp

lemma silent_medium:
  assumes "\<forall>spec\<in>set (specs_of fl). thumb_spec spec \<noteq> None"
  shows "\<exists>c'. client_medium L fl silent syn token m c = Some c' \<and> mismatches c' = mismatches c"
proof -
  have "\<exists>r'. each (\<lambda>spec. compareClientThumbnail L fl silent syn m spec token) (specs_of fl) (ct_cliThumb c) = Some r' \<and>
      rs_mismatch r' = rs_mismatch (ct_cliThumb c)"
    by (rule each_same) (use assms silent_thumbnail in auto)
  then show ?thesis by (auto simp: client_medium_def mismatches_def Let_def)
qed

section \<open>What is compared\<close>

text \<open>Only media that are complete and not quarantined are compared, and of remote media only those that have a
  file of their own, so no comparison makes a server fetch.\<close>

lemma sample_servable:
  assumes "\<And>k xs. set (pick k xs) \<subseteq> set xs" "\<And>xs. set (arrange xs) \<subseteq> set xs"
    and "sampleMediaIDs pick arrange db n rows = Inr ids" "i \<in> set ids"
  shows "\<exists>r \<in> set rows. lr_media_id r = i \<and> lr_length r \<noteq> None \<and> lr_quarantined_by r = None"
proof -
  let ?rows = "pick (go_div n 2) (filter (sampled_image True) rows) @ pick (go_div n 4) (filter (sampled_image False) rows) @
    pick (go_div n 4) (filter sampled_named rows)"
  have "i \<in> lr_media_id ` set ?rows"
    using assms(2) [of "map lr_media_id ?rows"] assms(3,4) by (auto simp: sampleMediaIDs_def split: if_splits)
  then obtain r where r: "r \<in> set ?rows" "lr_media_id r = i" by blast
  then have "r \<in> set rows \<and> sampled_local r"
    using assms(1) by (fastforce simp: sampled_image_def sampled_named_def)
  with r show ?thesis by (auto simp: sampled_local_def)
qed

lemma remote_sample_servable:
  assumes "\<And>k xs. set (pick k xs) \<subseteq> set xs" "sampleRemoteMedia pick db n rows = Inr refs" "m \<in> set refs"
  shows "\<exists>r \<in> set rows. rr_origin r = mr_origin m \<and> rr_media_id r = mr_mediaID m \<and> rr_length r \<noteq> None \<and>
    rr_quarantined_by r = None \<and> rr_filesystem_id r \<noteq> None"
  using assms by (fastforce simp: sampleRemoteMedia_def split: if_splits)

section \<open>Properties\<close>


text \<open>In the federation mode, a run that exits with status 0 found, for every local medium that Synapse
  answered, the worker's answer well formed and of the same status, and for a 200 the same file bytes and the
  same two headers.\<close>

theorem parity_federation_agrees:
  assumes "parity_main L fl keyLoads (Inr locals) remoteSample go syn = 0"
    and "pf_mode fl \<in> {''federation'', ''both''}" and "m \<in> set locals"
    and "fetchMultipart L syn (''/_matrix/federation/v1/media/download/'' @ mr_mediaID m) = Inr (m2, b2, st2)"
  shows "\<exists>m1 b1 st1. fetchMultipart L go (''/_matrix/federation/v1/media/download/'' @ mr_mediaID m) = Inr (m1, b1, st1) \<and>
    st1 = st2 \<and> (st1 = 200 \<longrightarrow> b1 = b2 \<and> \<not> fed_headers_differ m1 m2)"
proof -
  obtain c where "each (federation_medium L fl go syn) locals no_counts = Some c" "mismatches c = 0"
    using parity_federation_run [OF assms(1,2) refl] by blast
  then obtain a b where ab: "federation_medium L fl go syn m a = Some b" "mismatches b = 0"
    using federation.each_member assms(3) by (metis le_zero_eq)
  have "rs_mismatch (compareDownload L go syn (mr_mediaID m) (ct_fedDown a)) = rs_mismatch (ct_fedDown a)"
    using federation_medium_keeps [OF ab(1)] compareDownload_keeps [of "ct_fedDown a" L go syn "mr_mediaID m"] ab(2)
    by (auto simp: mismatches_def)
  from compareDownload_quiet [OF this assms(4)] show ?thesis .
qed

text \<open>What the tool does not see: in client mode a worker that answers no request at all only adds to
  what is skipped, so a run whose set-up succeeds and whose sizes parse exits with status 0.\<close>

theorem silent_worker_passes:
  assumes "pf_serverName fl \<noteq> ''''" "pf_keyGiven fl" "pf_dbGiven fl" "pf_synapseSocket fl \<noteq> '''' \<or> pf_synapseURL fl \<noteq> ''''"
    and "pf_mode fl = ''client''" "readToken (pf_token fl) = Inr token"
    and "pf_includeRemote fl \<longrightarrow> remoteSample = Inr remotes"
    and "\<forall>spec\<in>set (specs_of fl). thumb_spec spec \<noteq> None"
  shows "parity_main L fl True (Inr locals) remoteSample (\<lambda>_ _. None) syn = 0"
proof -
  have medium: "\<exists>c'. each (client_medium L fl silent syn token) xs c = Some c' \<and> mismatches c' = mismatches c" for xs c
    by (rule each_same) (rule silent_medium [OF assms(8)])
  have quiet: "mismatches (no_counts\<lparr>ct_mcfg := compareMediaConfig fl silent syn token (ct_mcfg no_counts)\<rparr>) = 0"
    by (simp add: compareMediaConfig_def mediaConfigPaths_def mismatches_def no_counts_def)
  show ?thesis
    using assms(1-7) medium [of "locals @ (if pf_includeRemote fl then remotes else [])"
        "no_counts\<lparr>ct_mcfg := compareMediaConfig fl silent syn token (ct_mcfg no_counts)\<rparr>"] quiet
    by (auto simp: parity_main_def Let_def)
qed

text \<open>Bodies are compared up to the cap, and \<^verbatim>\<open>Content-Length\<close> is not among the compared headers.\<close>

lemma beyond_the_cap:
  assumes "go (download_path fl m) [(''Authorization'', ''Bearer '' @ token)] = Some (200, h, b1, True)"
    and "syn (download_path fl m) [(''Authorization'', ''Bearer '' @ token)] = Some (200, h, b2, True)"
    and "take (nat (pf_maxCompareBytes fl)) b1 = take (nat (pf_maxCompareBytes fl)) b2"
  shows "compareClientDownload fl go syn m token r = checked r" "''Content-Length'' \<notin> set clientDownloadHeaders"
  using assms
  by (simp_all add: compareClientDownload_def clientFetch_def diffHeaders_def list_ex_iff)
    (simp add: clientDownloadHeaders_def)

section \<open>Witnesses\<close>

definition ex_flags :: "string \<Rightarrow> parity_flags" where
  "ex_flags m = \<lparr>pf_serverName = ''h'', pf_keyGiven = True, pf_dbGiven = True, pf_synapseSocket = ''s'', pf_synapseURL = '''',
     pf_goURL = ''u'', pf_goSocket = '''', pf_thumbnailSizes = ''2x2:crop'', pf_mode = m, pf_token = Inr ''t'',
     pf_maxCompareBytes = 4, pf_includeRemote = False\<rparr>"

definition ex_parity_library :: parity_library where
  "ex_parity_library = \<lparr>pl_authorization = (\<lambda>_. Some ''x''), pl_mediaType = (\<lambda>_. Some (''multipart/mixed'', ''b'')),
     pl_filePart = (\<lambda>b body ends. Some ([], body)), pl_dimensions = (\<lambda>b. Some (2, 2))\<rparr>"

definition ex_peer :: peer where
  "ex_peer path h = Some (200, [], [7], True)"

lemma ex_spec: "specs_of (ex_flags m) = [''2x2:crop'']" "thumb_spec ''2x2:crop'' = Some (2, 2, ''crop'')"
  by (simp_all add: ex_flags_def specs_of_def thumb_spec_def cut_def scan_number_def scan_word_def scan_blank_def
      parse_int64_def in_int64_def min_int64_def max_int64_def is_digit_def Let_def)

lemma ex_token: "readToken (pf_token (ex_flags m)) = Inr ''t''"
  by (simp add: readToken_def ex_flags_def trim_printable printable_def Let_def)

lemma ex_peer_answers: "clientFetch (ex_flags m) ex_peer path token extra = Some (200, [], [7])"
  by (simp add: clientFetch_def ex_flags_def ex_peer_def)

lemma ex_multipart: "fetchMultipart ex_parity_library ex_peer path = Inr ([], [7], 200)"
  by (simp add: fetchMultipart_def ex_parity_library_def ex_peer_def)

lemma ex_run: "parity_main ex_parity_library (ex_flags ''both'') True (Inr [\<lparr>mr_origin = '''', mr_mediaID = ''m''\<rparr>]) (Inr [])
    ex_peer ex_peer = 0"
proof -
  have "pf_mode (ex_flags ''both'') = ''both''" "\<not> pf_includeRemote (ex_flags ''both'')"
    "pf_serverName (ex_flags ''both'') = ''h''" "pf_keyGiven (ex_flags ''both'')" "pf_dbGiven (ex_flags ''both'')"
    "pf_synapseSocket (ex_flags ''both'') = ''s''"
    by (simp_all add: ex_flags_def)
  moreover have "diffHeaders fl h h names = False" "fed_headers_differ h h = False" for fl h names
    by (auto simp: diffHeaders_def fed_headers_differ_def list_ex_iff)
  moreover have "pl_dimensions ex_parity_library = (\<lambda>b. Some (2, 2))"
    by (simp add: ex_parity_library_def)
  ultimately show ?thesis
    by (simp add: parity_main_def ex_token federation_medium_def client_medium_def compareDownload_def ex_multipart
        ex_spec compareThumbnail_def compareClientDownload_def compareClientThumbnail_def compareConditional_def
        compareRange_def compareMediaConfig_def compareConfigAt_def compareRefusalAt_def mediaConfigPaths_def
        ex_peer_answers mismatches_def no_counts_def no_result_def checked_def skipped_def Let_def)
qed


theorem parity_federation_agrees_witness:
  "\<not> fed_headers_differ [] []"
  using parity_federation_agrees [OF ex_run _ _ ex_multipart, of "\<lparr>mr_origin = '''', mr_mediaID = ''m''\<rparr>"]
  by (simp add: ex_flags_def ex_multipart)

theorem silent_worker_passes_witness:
  "parity_main ex_parity_library (ex_flags ''client'') True (Inr [\<lparr>mr_origin = '''', mr_mediaID = ''m''\<rparr>]) (Inr [])
     (\<lambda>_ _. None) ex_peer = 0"
  by (rule silent_worker_passes [OF _ _ _ _ _ ex_token])
    (simp_all add: ex_spec, simp_all add: ex_flags_def)

end
