(* ===== verification/Metrics.thy ===== *)
theory Metrics
  imports Prelude
begin

text \<open>
  The metrics of src/metrics.go: each is registered while the package is initialised, by a library that panics on
  a bad or repeated name, a bad label or buckets that do not increase. Here are the table of the metrics and the
  proof that none of that happens. What a request adds to them is in theory Routes and theory Reqlog.
\<close>

section \<open>The table\<close>

text \<open>The bounds of the buckets in thousandths of a second.\<close>

datatype metric_kind = Counter | Gauge | Histogram "nat list"

record metric =
  mt_name :: string
  mt_kind :: metric_kind
  mt_labels :: "string list"

definition metric_prefix :: string where
  "metric_prefix = ''synapse_media_worker_''"

definition counter :: "string \<Rightarrow> string list \<Rightarrow> metric" where
  "counter name labels = \<lparr>mt_name = metric_prefix @ name, mt_kind = Counter, mt_labels = labels\<rparr>"

definition gauge :: "string \<Rightarrow> string list \<Rightarrow> metric" where
  "gauge name labels = \<lparr>mt_name = metric_prefix @ name, mt_kind = Gauge, mt_labels = labels\<rparr>"

definition histogram :: "string \<Rightarrow> nat list \<Rightarrow> string list \<Rightarrow> metric" where
  "histogram name buckets labels =
     \<lparr>mt_name = metric_prefix @ name, mt_kind = Histogram buckets, mt_labels = labels\<rparr>"

definition metrics :: "metric list" where
  "metrics =
     [counter ''requests_total'' [''endpoint'', ''status''],
      histogram ''request_duration_seconds'' [1, 5, 10, 25, 50, 100, 250, 500, 1000, 2500, 5000, 10000] [''endpoint''],
      counter ''response_bytes_total'' [''endpoint''],
      counter ''thumbnail_outcome_total'' [''outcome''],
      histogram ''thumbnail_generate_seconds'' [10, 25, 50, 100, 250, 500, 1000, 2500, 5000] [],
      counter ''proxied_total'' [''endpoint'', ''reason''],
      counter ''auth_total'' [''outcome''],
      gauge ''upstream_inflight'' [''upstream''],
      counter ''upstream_requests_total'' [''upstream'', ''result''],
      counter ''remote_fetches_total'' [''result''],
      counter ''thumbnail_write_through_total'' [''result''],
      counter ''uploads_total'' [''endpoint'', ''result''],
      counter ''uploaded_bytes_total'' [],
      counter ''pending_media_reserved_total'' [],
      gauge ''token_cache_entries'' []]"

section \<open>Registering\<close>

text \<open>The rules of the metrics library.\<close>

definition name_start :: "char \<Rightarrow> bool" where
  "name_start c \<longleftrightarrow> c \<in> {CHR ''_'', CHR '':''} \<or>
     97 \<le> (of_char c :: nat) \<and> (of_char c :: nat) \<le> 122 \<or> 65 \<le> (of_char c :: nat) \<and> (of_char c :: nat) \<le> 90"

definition metric_name_ok :: "string \<Rightarrow> bool" where
  "metric_name_ok s \<longleftrightarrow> s \<noteq> [] \<and> name_start (hd s) \<and> list_all (\<lambda>c. name_start c \<or> is_digit c) s"

definition label_ok :: "string \<Rightarrow> bool" where
  "label_ok s \<longleftrightarrow> metric_name_ok s \<and> CHR '':'' \<notin> set s \<and> \<not> has_prefix ''__'' s"

fun registers :: "string list \<Rightarrow> metric list \<Rightarrow> bool" where
  "registers seen [] \<longleftrightarrow> True"
| "registers seen (m # ms) \<longleftrightarrow>
     metric_name_ok (mt_name m) \<and> mt_name m \<notin> set seen \<and>
     list_all label_ok (mt_labels m) \<and> distinct (mt_labels m) \<and>
     (case mt_kind m of Histogram bs \<Rightarrow> sorted_wrt (<) bs \<and> ''le'' \<notin> set (mt_labels m) | _ \<Rightarrow> True) \<and>
     registers (mt_name m # seen) ms"

lemma metrics_register: "registers [] metrics"
  by (simp add: metrics_def counter_def gauge_def histogram_def metric_prefix_def metric_name_ok_def label_ok_def
      name_start_def has_prefix_def is_digit_def)

end
