(* ===== verification/Spec2Isabelle.thy ===== *)
theory Spec2Isabelle
  imports Upload_Races Await Resolver_Correct Shutdown Routes_Correct Slots Db_Life Parity_Tool_Correct Metrics
begin

text \<open>
  A model of synapse-media-worker, a worker that serves the media endpoints of a Matrix homeserver from the
  media store and the database of Synapse, and hands back to Synapse what it cannot do. The worker shares both
  with a running Synapse, so what it writes and what it refuses to serve is where it can do harm; the
  development starts there.

  \<^bold>\<open>The parts and how they meet.\<close> A request passes the router (src/main.go) and, on the federation paths, the
  signature check; its handler (src/handlers.go, src/upload.go, src/mediaconfig.go, src/passthrough.go) asks the
  token authenticator (src/authclient.go) who the client is, the database (src/db.go) what the medium is, the
  path builders (src/paths.go) where it is, and answers through src/serve.go or src/multipart.go; a thumbnail is
  taken from Synapse's, from the cache (src/thumbcache.go) or generated (src/thumbnail.go with src/exif.go and
  src/webpanim.go); a remote medium that is missing is fetched (src/fetch.go over src/resolver.go and
  src/useragent.go) and installed (src/store.go); everything else goes to an upstream (src/proxy.go).

  \<^bold>\<open>How effects are modelled.\<close> The record \<^typ>\<open>world\<close> (theory World) holds the files, the four tables, the clock,
  the random numbers, the caches, the replies and notes written so far, and what the surroundings will answer: a
  list of faults of which each call that can fail takes the next, the answers of other servers, and what other
  requests do while one waits. A handler is a program of the state monad over it, with the calls in the order of
  the code; \<open>attempt\<close> is Go's test of an error, and \<open>wp\<close> the weakest precondition the contracts are stated
  with. Since the contracts hold for every world they hold for every sequence of failures. Go's errors are the
  datatype \<^typ>\<open>err\<close>, integers that can wrap are written with \<open>wrap64\<close> or as words, and a slice access that
  would panic is \<open>None\<close>.

  \<^bold>\<open>The theories.\<close>
  \<^item> Prelude, Filepath, Neturl, Http, Sha256, Bytes, Mime, Servemux: the part of Go's language and standard
    library the code rests on. The lemmas are the ones the components need: cleaned paths as lists of
    components, the round trip of a query, the shape of a digest, and the router's walk against its
    documentation.
  \<^item> Paths, Fsid: src/paths.go and src/fsid.go. Every path is inside the store and exactly Synapse's; two media
    never share one (locale \<open>media_layout\<close>, for each builder); the write guard admits what it should and temporary files are apart from media.
  \<^item> Config, Synapse_Config, Synapse_Config_Correct: src/config.go and src/synapseconfig.go. An accepted
    configuration is well typed and sane, and explicit settings win, with the exceptions proved.
  \<^item> Ttl_Cache, Token_Cache: the interface of a cache with expiring entries (locale \<open>ttl_cache\<close>), and
    src/authclient.go, whose linked list and map refine a least-recently-used list and provide the interface.
    The well-known cache of Resolver_Correct provides it too.
  \<^item> World, Database, Install, Db_Life: the state; src/db.go as operations on tables; the contract of a keyed table (locale \<open>keyed_table\<close>);
    how a file reaches the store (locale \<open>atomic_put\<close>, which the store and the thumbnail cache provide); opening, flushing and closing
    the accessor under any interleaving.
  \<^item> Serve, Reqlog, Metrics: src/serve.go, src/multipart.go, src/reqlog.go, src/metrics.go. No header is split by
    a name the uploader chose, an envelope is as long as announced, the metrics register.
  \<^item> Exif, Webp, Thumbnail, Thumb_Cache: the two parsers never panic, end, and find what an encoder wrote; the
    arithmetic of scaling; the keys of the cache and its sweep.
  \<^item> Server, Upload, Upload_Correct, Upload_Races: authentication by the cache, the passing on of requests, and
    src/upload.go with a contract for each of its endpoints; clients that race for one reserved ID.
  \<^item> Fetch_Store, Fetch_Correct, Handlers, Handlers_Correct, Await: src/fetch.go, src/store.go, src/handlers.go.
    A blocked medium is refused, each request is answered once, what is served is what is stored, and the wait
    for an upload ends.
  \<^item> Resolver, Resolver_Correct, Useragent: src/resolver.go and src/useragent.go.
  \<^item> Proxy, Proxy_Correct: src/proxy.go. The counts in flight are exact under any interleaving.
  \<^item> Routes, Routes_Correct, Startup, Startup_Correct, Shutdown: src/main.go.
  \<^item> Slots: the channels that bound concurrent work, over any number of goroutines. Transitions holds the interface
    of an invariant kept by steps (locale \<open>kept_by_steps\<close>), which the slots, the accessor and the proxy provide.
  \<^item> Parity_Tool, Parity_Tool_Correct: src/tools/parity, and what its exit status means.

  \<^bold>\<open>Concurrency.\<close> Three kinds. Where the code shares state between requests (the counts of the proxy, the race for a
  reserved ID, the slots, the database accessor) an inductive step relation takes the steps of all of them in any
  order, and an invariant holds in every reachable state. Where a request waits (for an upload, for a turn at a
  host) the world lists what the others did meanwhile. Callers of one \<^verbatim>\<open>singleflight\<close> group run one after the
  other, which is what the group ensures for its function.

  \<^bold>\<open>Loops.\<close> The parsers count down the bytes that are left and the retries of a well-known request count down from
  three; the dispatch of the proxy tries each endpoint at most once, so as many rounds as endpoints are enough.
  The wait for an upload, the janitor, the flush loop and the refreshing of the agent run over the list of what
  their \<^verbatim>\<open>select\<close> receives. No loop runs on fuel that could run out in a theorem: that the wait ends, that the
  requests of one fetch are bounded and that the EXIF walk returns are proved as such.

  \<^bold>\<open>Parameters.\<close> Decoding, resizing and encoding images (\<open>imaging\<close>); \<^verbatim>\<open>url.Parse\<close>; decoding YAML and JSON; the
  signature check, signing and the HTTP client of mautrix; the page of metrics; the network, the database driver
  and the file system below the operations named. The theorems assume nothing of them unless a hypothesis names
  it.

  \<^bold>\<open>Not modelled.\<close> Writing log lines (zerolog) and the counters' arithmetic (Prometheus); \<^verbatim>\<open>httputil.ReverseProxy\<close>,
  transports and TLS below the request they are given; the parsing of flags; the header timeouts of the HTTP
  server; the bytes of a range reply, which are \<^verbatim>\<open>http.ServeContent\<close>'s; what the parity tool prints; the
  comparison of names by Unicode beyond the ASCII letters the code compares with.
\<close>

end
